(* ===== verification/Prelude.thy ===== *)
theory Prelude
  imports Main "HOL-Library.AList"
begin

text \<open>
  Shared ground of the development: Go's functions with an error result as
  state-passing programs, the combinator that mirrors the source's
  \<^verbatim>\<open>x, err := f(); if err != nil { ... }\<close>, the preservation judgement
  \<open>keeps\<close> with its rules, tables as lists of rows, and the few functions of
  Go's \<^verbatim>\<open>strings\<close>, \<^verbatim>\<open>fmt\<close> and \<^verbatim>\<open>strconv\<close> packages that the services call.
\<close>

named_theorems keep_rules
named_theorems prog_simps

section \<open>Programs: state in, error or value and state out\<close>

type_synonym ('e, 's, 'a) prog = "'s \<Rightarrow> ('e + 'a) \<times> 's"

definition ret :: "'a \<Rightarrow> ('e, 's, 'a) prog" where
  "ret x s = (Inr x, s)"

definition fail :: "'e \<Rightarrow> ('e, 's, 'a) prog" where
  "fail e s = (Inl e, s)"

definition call ::
  "('e, 's, 'a) prog \<Rightarrow> ('e \<Rightarrow> ('f, 's, 'b) prog) \<Rightarrow> ('a \<Rightarrow> ('f, 's, 'b) prog) \<Rightarrow> ('f, 's, 'b) prog" where
  "call m h k s = (case m s of (Inl e, s') \<Rightarrow> h e s' | (Inr x, s') \<Rightarrow> k x s')"

lemma ret_simp [simp, prog_simps]: "ret x s = (Inr x, s)"
  by (simp add: ret_def)

lemma fail_simp [simp, prog_simps]: "fail e s = (Inl e, s)"
  by (simp add: fail_def)

lemma call_Inl: "m s = (Inl e, s') \<Longrightarrow> call m h k s = h e s'"
  by (simp add: call_def)

lemma call_Inr: "m s = (Inr x, s') \<Longrightarrow> call m h k s = k x s'"
  by (simp add: call_def)

lemma call_ret [simp]: "call (ret x) h k = k x"
  by (rule ext) (simp add: call_def)

lemma call_fail [simp]: "call (fail e) h k = h e"
  by (rule ext) (simp add: call_def)

lemma call_cases:
  assumes "call m h k s = r"
  obtains (err) e s' where "m s = (Inl e, s')" "h e s' = r"
        | (ok) x s' where "m s = (Inr x, s')" "k x s' = r"
  using assms by (auto simp: call_def split: prod.splits sum.splits)

text \<open>When the handler only raises, a successful result means a successful call.\<close>

lemma call_fail_Inr:
  assumes "call m (\<lambda>e. fail (f e)) k s = (Inr y, t)"
  obtains x s' where "m s = (Inr x, s')" "k x s' = (Inr y, t)"
  using assms by (cases rule: call_cases) auto

definition keeps :: "('s \<Rightarrow> bool) \<Rightarrow> ('e, 's, 'a) prog \<Rightarrow> bool" where
  "keeps P m \<longleftrightarrow> (\<forall>s. P s \<longrightarrow> P (snd (m s)))"

lemma keepsD: "keeps P m \<Longrightarrow> P s \<Longrightarrow> P (snd (m s))"
  by (simp add: keeps_def)

lemma keepsD': "keeps P m \<Longrightarrow> P s \<Longrightarrow> m s = (r, t) \<Longrightarrow> P t"
  by (metis keepsD snd_conv)

lemma keeps_ret [keep_rules]: "keeps P (ret x)"
  by (simp add: keeps_def)

lemma keeps_fail [keep_rules]: "keeps P (fail e)"
  by (simp add: keeps_def)

lemma keeps_call [keep_rules]:
  assumes "keeps P m" "\<And>e. keeps P (h e)" "\<And>x. keeps P (k x)"
  shows "keeps P (call m h k)"
  using assms by (auto simp: keeps_def call_def split: prod.splits sum.splits)

lemma keeps_if [keep_rules]:
  "keeps P m \<Longrightarrow> keeps P n \<Longrightarrow> keeps P (if b then m else n)"
  by simp

lemma keeps_case_option [keep_rules]:
  "keeps P n \<Longrightarrow> (\<And>x. keeps P (f x)) \<Longrightarrow> keeps P (case o' of None \<Rightarrow> n | Some x \<Rightarrow> f x)"
  by (simp split: option.splits)

lemma keeps_case_sum [keep_rules]:
  "(\<And>x. keeps P (f x)) \<Longrightarrow> (\<And>x. keeps P (g x)) \<Longrightarrow> keeps P (case o' of Inl x \<Rightarrow> f x | Inr x \<Rightarrow> g x)"
  by (simp split: sum.splits)

lemma keeps_case_prod [keep_rules]:
  "(\<And>x y. keeps P (f x y)) \<Longrightarrow> keeps P (case p of (x, y) \<Rightarrow> f x y)"
  by (simp split: prod.splits)

section \<open>Tables as lists of rows\<close>

definition update_where :: "('r \<Rightarrow> bool) \<Rightarrow> ('r \<Rightarrow> 'r) \<Rightarrow> 'r list \<Rightarrow> 'r list" where
  "update_where p f rs = map (\<lambda>r. if p r then f r else r) rs"

definition delete_where :: "('r \<Rightarrow> bool) \<Rightarrow> 'r list \<Rightarrow> 'r list" where
  "delete_where p rs = filter (\<lambda>r. \<not> p r) rs"

definition select_where :: "('r \<Rightarrow> bool) \<Rightarrow> 'r list \<Rightarrow> 'r list" where
  "select_where p rs = filter p rs"

text \<open>Rows an UPDATE really changes: the affected-rows count the MySQL protocol reports.\<close>

definition changed_rows :: "('r \<Rightarrow> bool) \<Rightarrow> ('r \<Rightarrow> 'r) \<Rightarrow> 'r list \<Rightarrow> nat" where
  "changed_rows p f rs = length (filter (\<lambda>r. p r \<and> f r \<noteq> r) rs)"

definition unique_by :: "('r \<Rightarrow> 'k) \<Rightarrow> 'r list \<Rightarrow> bool" where
  "unique_by f rs = distinct (map f rs)"

lemma set_update_where: "set (update_where p f rs) = (\<lambda>r. if p r then f r else r) ` set rs"
  by (auto simp: update_where_def)

lemma length_update_where [simp]: "length (update_where p f rs) = length rs"
  by (simp add: update_where_def)

lemma update_where_Nil [simp]: "update_where p f [] = []"
  by (simp add: update_where_def)

lemma update_where_Cons [simp]:
  "update_where p f (r # rs) = (if p r then f r else r) # update_where p f rs"
  by (simp add: update_where_def)

lemma update_where_none: "(\<And>r. r \<in> set rs \<Longrightarrow> \<not> p r) \<Longrightarrow> update_where p f rs = rs"
  by (simp add: update_where_def map_idI)

lemma map_update_where:
  "(\<And>r. p r \<Longrightarrow> g (f r) = g r) \<Longrightarrow> map g (update_where p f rs) = map g rs"
  by (induction rs) auto

lemma unique_by_update_where:
  "(\<And>r. p r \<Longrightarrow> g (f r) = g r) \<Longrightarrow> unique_by g (update_where p f rs) = unique_by g rs"
  by (simp add: unique_by_def map_update_where)

lemma unique_by_snoc:
  "unique_by g (rs @ [r]) \<longleftrightarrow> unique_by g rs \<and> (\<forall>r' \<in> set rs. g r' \<noteq> g r)"
  by (auto simp: unique_by_def) (metis image_eqI)

lemma unique_by_Nil [simp]: "unique_by g []"
  by (simp add: unique_by_def)

lemma unique_by_Cons [simp]:
  "unique_by g (r # rs) \<longleftrightarrow> unique_by g rs \<and> (\<forall>r' \<in> set rs. g r' \<noteq> g r)"
  by (auto simp: unique_by_def) (metis image_eqI)

lemma unique_byD:
  "unique_by g rs \<Longrightarrow> r \<in> set rs \<Longrightarrow> r' \<in> set rs \<Longrightarrow> g r = g r' \<Longrightarrow> r = r'"
  by (auto simp: unique_by_def distinct_map inj_on_def)

lemma unique_by_delete_where: "unique_by g rs \<Longrightarrow> unique_by g (delete_where p rs)"
  by (simp add: unique_by_def delete_where_def distinct_map_filter)

lemma unique_by_find:
  "unique_by g rs \<Longrightarrow> r \<in> set rs \<Longrightarrow> find (\<lambda>r'. g r' = g r) rs = Some r"
  by (induction rs) (auto simp: unique_by_def)

lemma find_Some_iff_ex: "(\<exists>r. find p rs = Some r) \<longleftrightarrow> (\<exists>r \<in> set rs. p r)"
  by (metis find_None_iff find_Some_iff nth_mem option.exhaust)

lemma find_SomeD: "find p rs = Some r \<Longrightarrow> r \<in> set rs \<and> p r"
  by (metis find_Some_iff nth_mem)

lemma find_NoneD: "find p rs = None \<Longrightarrow> r \<in> set rs \<Longrightarrow> \<not> p r"
  by (metis find_None_iff)

lemma find_append:
  "find p (xs @ ys) = (case find p xs of Some x \<Rightarrow> Some x | None \<Rightarrow> find p ys)"
  by (induction xs) auto

lemma set_delete_where [simp]: "set (delete_where p rs) = {r \<in> set rs. \<not> p r}"
  by (auto simp: delete_where_def)

lemma changed_rows_0:
  "changed_rows p f rs = 0 \<longleftrightarrow> (\<forall>r \<in> set rs. p r \<longrightarrow> f r = r)"
  by (auto simp: changed_rows_def filter_empty_conv)

section \<open>The pieces of Go's strings, fmt and strconv packages in use\<close>

fun split_on :: "char \<Rightarrow> string \<Rightarrow> string list" where
  "split_on c [] = [[]]"
| "split_on c (x # xs) =
     (if x = c then [] # split_on c xs
      else (case split_on c xs of [] \<Rightarrow> [[x]] | p # ps \<Rightarrow> (x # p) # ps))"

lemma split_on_ne [simp]: "split_on c s \<noteq> []"
  by (induction s) (auto split: list.splits)

lemma split_on_notin: "c \<notin> set s \<Longrightarrow> split_on c s = [s]"
  by (induction s) auto

lemma split_on_append: "c \<notin> set s \<Longrightarrow> split_on c (s @ c # t) = s # split_on c t"
  by (induction s) auto

lemma split_on_join: "split_on c s = p # ps \<Longrightarrow> s = p @ concat (map (Cons c) ps)"
proof (induction s arbitrary: p ps)
  case (Cons x s)
  obtain q qs where q: "split_on c s = q # qs" by (cases "split_on c s") simp_all
  note s = Cons.IH [OF q]
  show ?case
  proof (cases "x = c")
    case True
    then have "p = []" "ps = q # qs" using Cons.prems q by simp_all
    then show ?thesis using True by (simp add: s [symmetric])
  next
    case False
    then have "p = x # q" "ps = qs" using Cons.prems q by simp_all
    then show ?thesis by (simp add: s [symmetric])
  qed
qed simp

lemma split_on_pieces: "p \<in> set (split_on c s) \<Longrightarrow> c \<notin> set p"
  by (induction s arbitrary: p) (auto split: list.splits if_splits)

fun has_prefix :: "string \<Rightarrow> string \<Rightarrow> bool" where
  "has_prefix [] s = True"
| "has_prefix (p # ps) [] = False"
| "has_prefix (p # ps) (c # s) = (p = c \<and> has_prefix ps s)"

definition TrimPrefix :: "string \<Rightarrow> string \<Rightarrow> string" where
  "TrimPrefix s p = (if has_prefix p s then drop (length p) s else s)"

lemma has_prefix_append [simp]: "has_prefix p (p @ s)"
  by (induction p) auto

lemma TrimPrefix_append [simp]: "TrimPrefix (p @ s) p = s"
  by (simp add: TrimPrefix_def)

text \<open>Decimal printing of integers, and its inverse on its image.\<close>

definition digit_char :: "nat \<Rightarrow> char" where
  "digit_char d = char_of (48 + d)"

fun nat_to_string :: "nat \<Rightarrow> string" where
  "nat_to_string n =
     (if n < 10 then [digit_char n] else nat_to_string (n div 10) @ [digit_char (n mod 10)])"

declare nat_to_string.simps [simp del]

definition int_to_string :: "int \<Rightarrow> string" where
  "int_to_string i = (if i < 0 then CHR ''-'' # nat_to_string (nat (- i)) else nat_to_string (nat i))"

definition is_digit :: "char \<Rightarrow> bool" where
  "is_digit c \<longleftrightarrow> 48 \<le> (of_char c :: nat) \<and> (of_char c :: nat) \<le> 57"

definition digit_val :: "char \<Rightarrow> nat" where
  "digit_val c = of_char c - 48"

definition string_to_nat :: "string \<Rightarrow> nat" where
  "string_to_nat s = foldl (\<lambda>a c. 10 * a + digit_val c) 0 s"

lemma of_char_digit: "d < 10 \<Longrightarrow> (of_char (digit_char d) :: nat) = 48 + d"
  by (simp add: digit_char_def)

lemma digit_val_char [simp]: "d < 10 \<Longrightarrow> digit_val (digit_char d) = d"
  by (simp add: digit_val_def of_char_digit)

lemma is_digit_char [simp]: "d < 10 \<Longrightarrow> is_digit (digit_char d)"
  by (simp add: is_digit_def of_char_digit)

lemma nat_to_string_digits: "\<forall>c \<in> set (nat_to_string n). is_digit c"
proof (induction n rule: nat_to_string.induct)
  case (1 n)
  then show ?case by (subst nat_to_string.simps) auto
qed

lemma nat_to_string_ne [simp]: "nat_to_string n \<noteq> []"
  by (subst nat_to_string.simps) auto

lemma string_to_nat_to_string [simp]: "string_to_nat (nat_to_string n) = n"
proof (induction n rule: nat_to_string.induct)
  case (1 n)
  then show ?case
    by (subst nat_to_string.simps) (auto simp: string_to_nat_def)
qed

lemma nat_to_string_inj: "nat_to_string m = nat_to_string n \<longleftrightarrow> m = n"
  by (metis string_to_nat_to_string)

text \<open>
  \<^verbatim>\<open>strconv.ParseInt(s, 10, 64)\<close>: an optional sign, at least one digit, nothing
  else, and the value within the range of a signed 64-bit integer.
\<close>

definition int64_range :: "int \<Rightarrow> bool" where
  "int64_range i \<longleftrightarrow> - (2 ^ 63) \<le> i \<and> i < 2 ^ 63"

text \<open>Go's conversion \<^verbatim>\<open>uint64(x)\<close> of a signed 64-bit integer.\<close>

definition uint64 :: "int \<Rightarrow> int" where
  "uint64 i = i mod 2 ^ 64"

lemma uint64_nonneg [simp]: "0 \<le> i \<Longrightarrow> i < 2 ^ 64 \<Longrightarrow> uint64 i = i"
  by (simp add: uint64_def)

lemma uint64_inj: "int64_range i \<Longrightarrow> int64_range j \<Longrightarrow> uint64 i = uint64 j \<Longrightarrow> i = j"
proof -
  assume r: "int64_range i" "int64_range j" and "uint64 i = uint64 j"
  then have "(2 ^ 64 :: int) dvd i - j"
    by (simp add: uint64_def mod_eq_dvd_iff)
  then obtain q where q: "i - j = 2 ^ 64 * q" by (auto simp: dvd_def)
  have "\<bar>i - j\<bar> < 2 ^ 64" using r unfolding int64_range_def by (simp add: abs_less_iff)
  then have "q = 0" using q by (simp add: abs_mult)
  then show "i = j" using q by simp
qed

definition ParseInt :: "string \<Rightarrow> int option" where
  "ParseInt s =
     (let neg = (case s of c # _ \<Rightarrow> c = CHR ''-'' | [] \<Rightarrow> False);
          ds = (case s of c # t \<Rightarrow> if c = CHR ''-'' \<or> c = CHR ''+'' then t else s | [] \<Rightarrow> []);
          v = (if neg then - int (string_to_nat ds) else int (string_to_nat ds))
      in if ds \<noteq> [] \<and> list_all is_digit ds \<and> int64_range v then Some v else None)"

lemma is_digit_not_sign [simp]: "\<not> is_digit (CHR ''-'')" "\<not> is_digit (CHR ''+'')"
  by (simp_all add: is_digit_def)

lemma ParseInt_int_to_string:
  assumes "int64_range i"
  shows "ParseInt (int_to_string i) = Some i"
proof (cases "i < 0")
  case True
  then show ?thesis
    using assms nat_to_string_digits [of "nat (- i)"]
    by (simp add: ParseInt_def int_to_string_def list_all_iff Let_def)
next
  case False
  obtain c t where ct: "nat_to_string (nat i) = c # t"
    by (cases "nat_to_string (nat i)") simp_all
  have "is_digit c"
    using nat_to_string_digits [of "nat i"] ct by simp
  then have nc: "c \<noteq> CHR ''-''" "c \<noteq> CHR ''+''"
    by auto
  have v: "string_to_nat (c # t) = nat i"
    using ct string_to_nat_to_string [of "nat i"] by simp
  have d: "list_all is_digit (c # t)"
    using nat_to_string_digits [of "nat i"] ct by (simp add: list_all_iff)
  have "int_to_string i = c # t"
    using False ct by (simp add: int_to_string_def)
  then show ?thesis
    using nc v d False assms by (simp add: ParseInt_def Let_def)
qed

lemma int_to_string_inj: "int_to_string i = int_to_string j \<longleftrightarrow> i = j"
proof
  assume eq: "int_to_string i = int_to_string j"
  have "i < 0 \<longleftrightarrow> hd (int_to_string i) = CHR ''-''" for i
    using nat_to_string_digits [of "nat i"] nat_to_string_ne [of "nat i"]
    by (auto simp: int_to_string_def) (metis hd_in_set is_digit_not_sign(1) nat_to_string_ne)
  then have "i < 0 \<longleftrightarrow> j < 0" using eq by metis
  then show "i = j"
    using eq by (auto simp: int_to_string_def nat_to_string_inj split: if_splits)
qed simp

end
