(* ===== verification/RichError.thy ===== *)
theory RichError
  imports Prelude
begin

text \<open>
  Package \<^verbatim>\<open>pkg/richerror\<close>: the error values every layer returns, the builder
  methods, the two recursive getters \<^verbatim>\<open>Kind\<close> and \<^verbatim>\<open>Message\<close>, and the projections
  to HTTP and gRPC status codes. An error chain is a finite tree, so the getters,
  which recurse through \<^verbatim>\<open>errors.As\<close>, are defined with a termination proof.
\<close>

section \<open>Error values\<close>

datatype Kind =
    KindUnknown
  | KindBadRequest
  | KindUnauthorized
  | KindForbidden
  | KindNotFound
  | KindConflict
  | KindGone
  | KindTooManyRequests
  | KindInternal
  | KindUnavailable
  | KindUnprocessable

type_synonym Operation = string

text \<open>
  The dynamic types an \<^verbatim>\<open>error\<close> interface value can hold in this program:
  the repository's own \<^verbatim>\<open>*RichError\<close>, plain and wrapping errors made by
  \<^verbatim>\<open>errors.New\<close> and \<^verbatim>\<open>fmt.Errorf\<close>, the typed errors of the MySQL driver and the
  AMQP client, and the sentinels the code compares against. A nil error is the
  absence of a value (\<^verbatim>\<open>None\<close>, or the success side of a result).
\<close>

datatype rich_error =
  RichError
    (operations: "Operation list")
    (wrapper: "go_error option")
    (message: string)
    (kind: Kind)
    (validations: "(string \<times> string list) list")
and go_error =
    Rich rich_error
  | ErrorString string
  | WrapError string go_error
  | MySQLError int string
  | AmqpError int string
  | ErrNoRows
  | ErrClosed
  | RedisNil
  | ErrTicketNotFound

section \<open>Builder methods\<close>

definition New :: "Operation \<Rightarrow> rich_error" where
  "New operation = RichError [operation] None [] KindUnknown []"

fun errors_As :: "go_error \<Rightarrow> rich_error option" where
  "errors_As (Rich r) = Some r"
| "errors_As (WrapError s e) = errors_As e"
| "errors_As _ = None"

fun WithWrapper :: "go_error option \<Rightarrow> rich_error \<Rightarrow> rich_error" where
  "WithWrapper w (RichError ops w0 m k v) =
     (case Option.bind w errors_As of
        Some richErr \<Rightarrow> RichError (ops @ operations richErr) w m k v
      | None \<Rightarrow> RichError ops w m k v)"

fun WithMessage :: "string \<Rightarrow> rich_error \<Rightarrow> rich_error" where
  "WithMessage msg (RichError ops w m k v) = RichError ops w msg k v"

fun WithKind :: "Kind \<Rightarrow> rich_error \<Rightarrow> rich_error" where
  "WithKind knd (RichError ops w m k v) = RichError ops w m knd v"

fun WithValidations :: "(string \<times> string list) list \<Rightarrow> rich_error \<Rightarrow> rich_error" where
  "WithValidations vs (RichError ops w m k v) = RichError ops w m k vs"

fun WithValidation :: "string \<Rightarrow> string \<Rightarrow> rich_error \<Rightarrow> rich_error" where
  "WithValidation field msg (RichError ops w m k v) =
     RichError ops w m k
       (AList.update field ((case map_of v field of None \<Rightarrow> [] | Some ms \<Rightarrow> ms) @ [msg]) v)"

definition HasValidations :: "rich_error \<Rightarrow> bool" where
  "HasValidations r \<longleftrightarrow> 0 < length (validations r)"

section \<open>Getters\<close>

fun Error :: "go_error \<Rightarrow> string" where
  "Error (Rich r) = message r"
| "Error (ErrorString s) = s"
| "Error (WrapError s e) = s"
| "Error (MySQLError n s) = ''Error '' @ int_to_string n @ '': '' @ s"
| "Error (AmqpError n s) = ''Exception ('' @ int_to_string n @ '') Reason: '' @ s"
| "Error ErrNoRows = ''sql: no rows in result set''"
| "Error ErrClosed = ''rabbitmq: closed''"
| "Error RedisNil = ''redis: nil''"
| "Error ErrTicketNotFound = ''ticket not found or expired''"

fun Unwrap :: "go_error \<Rightarrow> go_error option" where
  "Unwrap (Rich r) = wrapper r"
| "Unwrap (WrapError s e) = Some e"
| "Unwrap _ = None"

lemma errors_As_size: "errors_As e = Some r \<Longrightarrow> size r < size e"
  by (induction e rule: errors_As.induct) auto

lemma wrapper_size: "wrapper r = Some e \<Longrightarrow> size e < size r"
  by (cases r) auto

lemma as_wrapper_size:
  "wrapper r = Some e \<Longrightarrow> errors_As e = Some re \<Longrightarrow> size re < size r"
  using errors_As_size wrapper_size by (metis order_less_trans)

function rich_Kind :: "rich_error \<Rightarrow> Kind" where
  "rich_Kind r =
     (if kind r \<noteq> KindUnknown then kind r
      else (case wrapper r of
              None \<Rightarrow> KindUnknown
            | Some e \<Rightarrow> (case errors_As e of None \<Rightarrow> KindUnknown | Some re \<Rightarrow> rich_Kind re)))"
  by pat_completeness auto
termination
  by (relation "measure size") (auto simp: as_wrapper_size)

declare rich_Kind.simps [simp del]

function rich_Message :: "rich_error \<Rightarrow> string" where
  "rich_Message r =
     (if message r \<noteq> [] then message r
      else (case wrapper r of
              None \<Rightarrow> []
            | Some e \<Rightarrow> (case errors_As e of Some re \<Rightarrow> rich_Message re | None \<Rightarrow> Error e)))"
  by pat_completeness auto
termination
  by (relation "measure size") (auto simp: as_wrapper_size)

declare rich_Message.simps [simp del]

lemma Unwrap_size: "Unwrap e = Some e' \<Longrightarrow> size e' < size e"
  by (cases e) (auto dest: wrapper_size)

function UnwrapAll :: "go_error option \<Rightarrow> string list" where
  "UnwrapAll None = []"
| "UnwrapAll (Some e) = Error e # UnwrapAll (Unwrap e)"
  by pat_completeness auto
termination
proof (relation "measure (\<lambda>eo. case eo of None \<Rightarrow> 0 | Some e \<Rightarrow> Suc (size e))", goal_cases)
  case (2 e)
  then show ?case using Unwrap_size [of e] by (cases "Unwrap e") auto
qed simp

text \<open>
  \<^verbatim>\<open>errors.As\<close> for the driver's \<^verbatim>\<open>*mysql.MySQLError\<close> and the client's
  \<^verbatim>\<open>*amqp.Error\<close>, and \<^verbatim>\<open>errors.Is\<close> for the sentinels: walks along \<^verbatim>\<open>Unwrap\<close>.
\<close>

function errors_As_mysql :: "go_error \<Rightarrow> int option" where
  "errors_As_mysql e =
     (case e of MySQLError n s \<Rightarrow> Some n
      | _ \<Rightarrow> (case Unwrap e of None \<Rightarrow> None | Some e' \<Rightarrow> errors_As_mysql e'))"
  by pat_completeness auto
termination
  by (relation "measure size") (auto dest: wrapper_size split: go_error.splits)

declare errors_As_mysql.simps [simp del]

function errors_As_amqp :: "go_error \<Rightarrow> int option" where
  "errors_As_amqp e =
     (case e of AmqpError n s \<Rightarrow> Some n
      | _ \<Rightarrow> (case Unwrap e of None \<Rightarrow> None | Some e' \<Rightarrow> errors_As_amqp e'))"
  by pat_completeness auto
termination
  by (relation "measure size") (auto dest: wrapper_size split: go_error.splits)

declare errors_As_amqp.simps [simp del]

function errors_Is :: "go_error \<Rightarrow> go_error \<Rightarrow> bool" where
  "errors_Is e target \<longleftrightarrow>
     e = target \<or> (case Unwrap e of None \<Rightarrow> False | Some e' \<Rightarrow> errors_Is e' target)"
  by pat_completeness auto
termination
  by (relation "measure (\<lambda>(e, _). size e)") (auto dest: Unwrap_size)

declare errors_Is.simps [simp del]

definition Trace :: "rich_error \<Rightarrow> Operation list \<times> string list" where
  "Trace r =
     (if 0 < length (operations r) then (drop 1 (operations r), UnwrapAll (wrapper r))
      else ([], []))"

text \<open>The test \<^verbatim>\<open>errors.As(err, &re) && re.Kind() == k\<close> that the services make.\<close>

definition is_kind :: "Kind \<Rightarrow> go_error \<Rightarrow> bool" where
  "is_kind k e \<longleftrightarrow> (case errors_As e of None \<Rightarrow> False | Some re \<Rightarrow> rich_Kind re = k)"

section \<open>Status codes\<close>

record ErrHTTPResponse =
  http_message :: string
  http_code :: nat
  http_validations :: "(string \<times> string list) list"

fun kindToHTTPStatus :: "Kind \<Rightarrow> nat option" where
  "kindToHTTPStatus KindUnknown = Some 500"
| "kindToHTTPStatus KindBadRequest = Some 400"
| "kindToHTTPStatus KindUnauthorized = Some 401"
| "kindToHTTPStatus KindForbidden = Some 403"
| "kindToHTTPStatus KindNotFound = Some 404"
| "kindToHTTPStatus KindConflict = Some 409"
| "kindToHTTPStatus KindGone = Some 410"
| "kindToHTTPStatus KindTooManyRequests = Some 429"
| "kindToHTTPStatus KindInternal = Some 500"
| "kindToHTTPStatus KindUnavailable = Some 503"
| "kindToHTTPStatus KindUnprocessable = Some 422"

definition ToHTTPStatus :: "rich_error \<Rightarrow> nat" where
  "ToHTTPStatus r =
     (case kindToHTTPStatus (rich_Kind r) of None \<Rightarrow> 500 | Some status \<Rightarrow> status)"

definition ErrHTTP :: "go_error \<Rightarrow> ErrHTTPResponse" where
  "ErrHTTP err =
     (case errors_As err of
        Some re \<Rightarrow> \<lparr>http_message = rich_Message re, http_code = ToHTTPStatus re,
                    http_validations = validations re\<rparr>
      | None \<Rightarrow> \<lparr>http_message = Error err, http_code = 500, http_validations = []\<rparr>)"

datatype grpc_code =
    GrpcOK | GrpcInvalidArgument | GrpcNotFound | GrpcAlreadyExists | GrpcPermissionDenied
  | GrpcResourceExhausted | GrpcInternal | GrpcUnavailable | GrpcUnauthenticated

record ErrGRPCResponse =
  grpc_message :: string
  grpc_code :: grpc_code
  grpc_validations :: "(string \<times> string list) list"

fun kindToGRPCCode :: "Kind \<Rightarrow> grpc_code option" where
  "kindToGRPCCode KindUnknown = Some GrpcInternal"
| "kindToGRPCCode KindBadRequest = Some GrpcInvalidArgument"
| "kindToGRPCCode KindUnauthorized = Some GrpcUnauthenticated"
| "kindToGRPCCode KindForbidden = Some GrpcPermissionDenied"
| "kindToGRPCCode KindNotFound = Some GrpcNotFound"
| "kindToGRPCCode KindConflict = Some GrpcAlreadyExists"
| "kindToGRPCCode KindGone = Some GrpcNotFound"
| "kindToGRPCCode KindTooManyRequests = Some GrpcResourceExhausted"
| "kindToGRPCCode KindInternal = Some GrpcInternal"
| "kindToGRPCCode KindUnavailable = Some GrpcUnavailable"
| "kindToGRPCCode KindUnprocessable = Some GrpcInvalidArgument"

definition ToGRPCCode :: "rich_error \<Rightarrow> grpc_code" where
  "ToGRPCCode r =
     (case kindToGRPCCode (rich_Kind r) of None \<Rightarrow> GrpcInternal | Some code \<Rightarrow> code)"

definition ErrGRPC :: "go_error \<Rightarrow> ErrGRPCResponse" where
  "ErrGRPC err =
     (case errors_As err of
        Some re \<Rightarrow> \<lparr>grpc_message = rich_Message re, grpc_code = ToGRPCCode re,
                    grpc_validations = validations re\<rparr>
      | None \<Rightarrow> \<lparr>grpc_message = Error err, grpc_code = GrpcInternal, grpc_validations = []\<rparr>)"

section \<open>Lemmas the components use\<close>

lemma kind_builders [simp]:
  "kind (New operation) = KindUnknown"
  "kind (WithWrapper w r) = kind r"
  "kind (WithMessage m r) = kind r"
  "kind (WithKind k r) = k"
  "kind (WithValidation f m r) = kind r"
  by (cases r; simp add: New_def split: option.splits)+

lemma wrapper_builders [simp]:
  "wrapper (New operation) = None"
  "wrapper (WithWrapper w r) = w"
  "wrapper (WithMessage m r) = wrapper r"
  "wrapper (WithKind k r) = wrapper r"
  "wrapper (WithValidation f m r) = wrapper r"
  by (cases r; simp add: New_def split: option.splits)+

lemma message_builders [simp]:
  "message (New operation) = []"
  "message (WithWrapper w r) = message r"
  "message (WithMessage m r) = m"
  "message (WithKind k r) = message r"
  "message (WithValidation f m r) = message r"
  by (cases r; simp add: New_def split: option.splits)+

lemma validations_builders [simp]:
  "validations (New operation) = []"
  "validations (WithWrapper w r) = validations r"
  "validations (WithMessage m r) = validations r"
  "validations (WithKind k r) = validations r"
  by (cases r; simp add: New_def split: option.splits)+

lemma operations_builders [simp]:
  "operations (New operation) = [operation]"
  "operations (WithMessage m r) = operations r"
  "operations (WithKind k r) = operations r"
  "operations (WithValidation f m r) = operations r"
  by (cases r; simp add: New_def)+

lemma operations_WithWrapper:
  "operations (WithWrapper w r) =
     operations r @ (case Option.bind w errors_As of None \<Rightarrow> [] | Some re \<Rightarrow> operations re)"
  by (cases r) (auto split: option.splits)

lemma HasValidations_builders [simp]:
  "\<not> HasValidations (New operation)"
  "HasValidations (WithMessage m r) = HasValidations r"
  "HasValidations (WithKind k r) = HasValidations r"
  "HasValidations (WithWrapper w r) = HasValidations r"
  "HasValidations (WithValidation f m r)"
  by (auto simp: HasValidations_def) (cases r; simp)

lemma rich_Kind_known [simp]: "kind r \<noteq> KindUnknown \<Longrightarrow> rich_Kind r = kind r"
  by (simp add: rich_Kind.simps [of r])

lemma rich_Message_known [simp]: "message r \<noteq> [] \<Longrightarrow> rich_Message r = message r"
  by (simp add: rich_Message.simps [of r])

lemma rich_Kind_inherit:
  "kind r = KindUnknown \<Longrightarrow> wrapper r = Some (Rich r') \<Longrightarrow> rich_Kind r = rich_Kind r'"
  by (simp add: rich_Kind.simps [of r])

lemma is_kind_Rich [simp]: "is_kind k (Rich r) \<longleftrightarrow> rich_Kind r = k"
  by (simp add: is_kind_def)

lemma ErrHTTP_code_kind:
  "kindToHTTPStatus (rich_Kind r) = Some c \<Longrightarrow> http_code (ErrHTTP (Rich r)) = c"
  by (simp add: ErrHTTP_def ToHTTPStatus_def)

lemma errors_As_mysql_simps [simp]:
  "errors_As_mysql (MySQLError n s) = Some n"
  "errors_As_mysql (ErrorString s) = None"
  "errors_As_mysql (AmqpError n s) = None"
  "errors_As_mysql ErrNoRows = None"
  by (simp_all add: errors_As_mysql.simps)

lemma errors_As_amqp_simps [simp]:
  "errors_As_amqp (AmqpError n s) = Some n"
  "errors_As_amqp ErrClosed = None"
  "errors_As_amqp (ErrorString s) = None"
  by (simp_all add: errors_As_amqp.simps)

lemma errors_Is_refl [simp]: "errors_Is e e"
  by (simp add: errors_Is.simps)

lemma errors_Is_simps [simp]:
  "errors_Is (MySQLError n s) ErrNoRows = False"
  "errors_Is (ErrorString s) ErrNoRows = False"
  "errors_Is (ErrorString s) ErrTicketNotFound = False"
  "errors_Is ErrNoRows e = (e = ErrNoRows)"
  by (auto simp: errors_Is.simps)

section \<open>The chain of rich errors and what the getters read from it\<close>

function rich_chain :: "rich_error \<Rightarrow> rich_error list" where
  "rich_chain r =
     r # (case wrapper r of None \<Rightarrow> []
          | Some e \<Rightarrow> (case errors_As e of None \<Rightarrow> [] | Some re \<Rightarrow> rich_chain re))"
  by pat_completeness auto
termination
  by (relation "measure size") (auto simp: as_wrapper_size)

declare rich_chain.simps [simp del]

text \<open>
  \<^verbatim>\<open>Kind()\<close> terminates on every error value and returns the first kind other
  than \<^verbatim>\<open>KindUnknown\<close> along the chain of wrapped rich errors, outermost first, and
  \<^verbatim>\<open>KindUnknown\<close> when no link of the chain has one.
\<close>

theorem rich_Kind_first_known:
  "rich_Kind r =
     (case find (\<lambda>re. kind re \<noteq> KindUnknown) (rich_chain r) of
        None \<Rightarrow> KindUnknown | Some re \<Rightarrow> kind re)"
proof (induction r rule: rich_Kind.induct)
  case (1 r)
  show ?case
  proof (cases "kind r = KindUnknown")
    case True
    then show ?thesis
      using 1 by (auto simp: rich_Kind.simps [of r] rich_chain.simps [of r] split: option.splits)
  next
    case False
    then show ?thesis by (simp add: rich_chain.simps [of r])
  qed
qed

text \<open>
  Well-built errors: the operation list of a link is its own operations followed by
  those of the next link. Every builder keeps this, so the trace the logger prints is
  the call path.
\<close>

function well_built :: "rich_error \<Rightarrow> bool" where
  "well_built r \<longleftrightarrow>
     operations r \<noteq> [] \<and>
     (case wrapper r of None \<Rightarrow> True
      | Some e \<Rightarrow> (case errors_As e of None \<Rightarrow> True
                   | Some re \<Rightarrow> well_built re \<and> tl (operations r) = operations re))"
  by pat_completeness auto
termination
  by (relation "measure size") (auto simp: as_wrapper_size)

declare well_built.simps [simp del]

text \<open>
  Wrapping with \<^verbatim>\<open>New(op).WithWrapper(err)\<close> keeps the error well built: the
  operations are the new operation followed by those of the nearest rich error of the
  wrapped value, whatever message, kind and validations are set afterwards.
\<close>

theorem WithWrapper_well_built:
  assumes "\<And>re. errors_As err = Some re \<Longrightarrow> well_built re"
  shows "well_built (WithKind k (WithMessage m (WithWrapper (Some err) (New op)))) \<and>
         fst (Trace (WithKind k (WithMessage m (WithWrapper (Some err) (New op))))) =
           (case errors_As err of None \<Rightarrow> [] | Some re \<Rightarrow> operations re)"
  using assms
  by (auto simp: well_built.simps [of "WithKind k (WithMessage m (WithWrapper (Some err) (New op)))"]
      operations_WithWrapper Trace_def split: option.splits)

theorem WithWrapper_well_built_witness:
  "errors_As (Rich (New ''repo'')) = Some (New ''repo'') \<and>
   fst (Trace (WithKind KindInternal (WithMessage ''m'' (WithWrapper (Some (Rich (New ''repo''))) (New ''svc''))))) = [''repo'']"
proof -
  have "well_built (New ''repo'')" by (simp add: well_built.simps)
  then show ?thesis
    using WithWrapper_well_built [where err = "Rich (New ''repo'')" and k = KindInternal
        and m = "''m''" and op = "''svc''"]
    by simp
qed

text \<open>
  Every error value is answered with a client or server error status: the HTTP
  code of \<^verbatim>\<open>ErrHTTP\<close> lies between 400 and 599, and no kind is missing from the table.
\<close>

theorem ErrHTTP_code_range:
  "400 \<le> http_code (ErrHTTP err) \<and> http_code (ErrHTTP err) \<le> 599 \<and>
   kindToHTTPStatus k \<noteq> None \<and> kindToGRPCCode k \<noteq> None"
proof -
  have "kindToHTTPStatus k' = Some c \<Longrightarrow> 400 \<le> c \<and> c \<le> 599" for k' c
    by (cases k') auto
  then show ?thesis
    by (cases k) (auto simp: ErrHTTP_def ToHTTPStatus_def split: option.splits)
qed

end
