(* ===== verification/World.thy ===== *)
theory World
  imports RichError
begin

text \<open>
  What a service sees outside its own code: a relational database with
  transactions, a clock, a source of UUIDs and of random bytes, and the message
  broker it publishes to. The tables are the type parameter \<open>'d\<close>. Every call that
  leaves the process may fail: \<open>fault\<close> says for each call, by its number, whether
  the driver reports an error, so a theorem that quantifies over the world covers
  every pattern of failures. A statement whose driver call fails has no effect.
  Each SQL statement of the source is one application of \<open>sql\<close> to the function
  that the statement text denotes on the tables.
\<close>

named_theorems tx_rules

text \<open>AMQP header values, and a message as the broker accepts it.\<close>

datatype amqp_value =
    AString string
  | AInt64 int
  | AInt32 int
  | AArray "amqp_value list"
  | ATable "(string \<times> amqp_value) list"

type_synonym amqp_table = "(string \<times> amqp_value) list"

record publication =
  pub_exchange :: string
  pub_key :: string
  pub_body :: string
  pub_message_id :: string
  pub_timestamp :: int
  pub_headers :: "amqp_table option"

record 'd world =
  db :: 'd
  clock :: int
  fault :: "nat \<Rightarrow> go_error option"
  calls :: nat
  uuid_src :: "nat \<Rightarrow> string"
  uuids :: nat
  rand_src :: "nat \<Rightarrow> string"
  open_tx :: nat
  sent :: "publication list"

type_synonym ('d, 'a) wprog = "(go_error, 'd world, 'a) prog"

definition outside :: "('d, unit) wprog" where
  "outside w =
     ((case fault w (calls w) of None \<Rightarrow> Inr () | Some e \<Rightarrow> Inl e), w\<lparr>calls := Suc (calls w)\<rparr>)"

definition sql :: "('d \<Rightarrow> go_error + ('a \<times> 'd)) \<Rightarrow> ('d, 'a) wprog" where
  "sql stmt =
     call outside fail
       (\<lambda>_ w. case stmt (db w) of Inl e \<Rightarrow> (Inl e, w) | Inr (x, d) \<Rightarrow> (Inr x, w\<lparr>db := d\<rparr>))"

definition sql_query :: "('d \<Rightarrow> go_error + 'a) \<Rightarrow> ('d, 'a) wprog" where
  "sql_query q = sql (\<lambda>d. case q d of Inl e \<Rightarrow> Inl e | Inr x \<Rightarrow> Inr (x, d))"

definition sql_now :: "(int \<Rightarrow> 'd \<Rightarrow> go_error + ('a \<times> 'd)) \<Rightarrow> ('d, 'a) wprog" where
  "sql_now stmt w = sql (stmt (clock w)) w"

definition time_Now :: "('d, int) wprog" where
  "time_Now w = (Inr (clock w), w)"

text \<open>
  A \<^verbatim>\<open>time.Duration\<close> is a number of nanoseconds, the clock counts seconds: \<open>seconds\<close>
  truncates, as \<^verbatim>\<open>int(d.Seconds())\<close> does.
\<close>

definition seconds :: "int \<Rightarrow> int" where
  "seconds d = sgn d * (\<bar>d\<bar> div 1000000000)"

definition uuid_NewString :: "('d, string) wprog" where
  "uuid_NewString w = (Inr (uuid_src w (uuids w)), w\<lparr>uuids := Suc (uuids w)\<rparr>)"

definition rand_Read :: "('d, string) wprog" where
  "rand_Read = call outside fail (\<lambda>_ w. (Inr (rand_src w (calls w)), w))"

section \<open>Transactions\<close>

text \<open>
  \<^verbatim>\<open>BeginTxx\<close> opens a transaction and remembers the committed tables; the
  statements inside work on the transaction's own view. \<^verbatim>\<open>Commit\<close> makes the view
  the committed state; a failed commit and a rollback restore the tables
  (\<open>rollback_tx\<close> on the way to an error, \<open>rollback_ret\<close> on the way to a result). The
  counter \<open>open_tx\<close> tells how many transactions still hold their connection.
\<close>

definition begin_tx :: "('d, 'd) wprog" where
  "begin_tx = call outside fail (\<lambda>_ w. (Inr (db w), w\<lparr>open_tx := Suc (open_tx w)\<rparr>))"

definition commit_tx :: "'d \<Rightarrow> ('d, unit) wprog" where
  "commit_tx snapshot =
     call outside (\<lambda>e w. (Inl e, w\<lparr>db := snapshot, open_tx := open_tx w - 1\<rparr>))
       (\<lambda>_ w. (Inr (), w\<lparr>open_tx := open_tx w - 1\<rparr>))"

definition rollback_tx :: "'d \<Rightarrow> go_error \<Rightarrow> ('d, 'a) wprog" where
  "rollback_tx snapshot e w = (Inl e, w\<lparr>db := snapshot, open_tx := open_tx w - 1\<rparr>)"

definition rollback_ret :: "'d \<Rightarrow> 'a \<Rightarrow> ('d, 'a) wprog" where
  "rollback_ret snapshot x w = (Inr x, w\<lparr>db := snapshot, open_tx := open_tx w - 1\<rparr>)"

definition abandon_tx :: "'d \<Rightarrow> go_error \<Rightarrow> ('d, 'a) wprog" where
  "abandon_tx snapshot e w = (Inl e, w\<lparr>db := snapshot\<rparr>)"

text \<open>
  The two transaction patterns of the repositories. \<open>in_tx\<close> is the pattern with a
  deferred rollback that fires unless \<^verbatim>\<open>committed\<close> was set. \<open>run_in_tx\<close> is \<^verbatim>\<open>RunInTx\<close>, the helper of
  the auth and wallet repositories: its deferred function is called with the value
  \<^verbatim>\<open>err\<close> had when the defer statement ran, which is nil, so an error of \<^verbatim>\<open>fn\<close> leaves
  the transaction neither committed nor rolled back.
\<close>

definition in_tx :: "(go_error \<Rightarrow> go_error) \<Rightarrow> (go_error \<Rightarrow> go_error) \<Rightarrow> ('d, 'a) wprog \<Rightarrow> ('d, 'a) wprog" where
  "in_tx onBegin onCommit body =
     call begin_tx (\<lambda>e. fail (onBegin e)) (\<lambda>snapshot.
     call body (rollback_tx snapshot) (\<lambda>x.
     call (commit_tx snapshot) (\<lambda>e. fail (onCommit e)) (\<lambda>_.
     ret x)))"

definition run_in_tx :: "('d, 'a) wprog \<Rightarrow> ('d, 'a) wprog" where
  "run_in_tx fn =
     call begin_tx fail (\<lambda>snapshot.
     call fn (abandon_tx snapshot) (\<lambda>x.
     call (commit_tx snapshot) fail (\<lambda>_.
     ret x)))"

section \<open>Rules\<close>

lemma outside_db: "outside w = (r, w') \<Longrightarrow> db w' = db w"
  by (auto simp: outside_def)

lemma outside_ok: "fault w = (\<lambda>_. None) \<Longrightarrow> outside w = (Inr (), w\<lparr>calls := Suc (calls w)\<rparr>)"
  by (simp add: outside_def)

lemma sql_ok:
  "fault w = (\<lambda>_. None) \<Longrightarrow>
   sql f w = (case f (db w) of Inl e \<Rightarrow> (Inl e, w\<lparr>calls := Suc (calls w)\<rparr>)
              | Inr (x, d) \<Rightarrow> (Inr x, w\<lparr>calls := Suc (calls w), db := d\<rparr>))"
  by (simp add: sql_def call_def outside_ok split: sum.splits prod.splits)

lemma sql_Inr_cases:
  assumes "sql f w = (Inr x, w')"
  shows "\<exists>d. f (db w) = Inr (x, d) \<and> w' = w\<lparr>calls := Suc (calls w), db := d\<rparr>"
  using assms
  by (auto simp: sql_def call_def outside_def split: option.splits sum.splits prod.splits)

lemma sql_Inl_cases:
  assumes "sql f w = (Inl e, w')"
  shows "w' = w\<lparr>calls := Suc (calls w)\<rparr>"
  using assms
  by (auto simp: sql_def call_def outside_def split: option.splits sum.splits prod.splits)

lemma sql_query_Inr_cases:
  assumes "sql_query q w = (Inr x, w')"
  shows "q (db w) = Inr x \<and> w' = w\<lparr>calls := Suc (calls w)\<rparr>"
  using assms
  by (auto simp: sql_query_def sql_def call_def outside_def split: option.splits sum.splits prod.splits)

lemma sql_query_ok:
  "fault w = (\<lambda>_. None) \<Longrightarrow>
   sql_query q w = (case q (db w) of Inl e \<Rightarrow> (Inl e, w\<lparr>calls := Suc (calls w)\<rparr>)
                    | Inr x \<Rightarrow> (Inr x, w\<lparr>calls := Suc (calls w)\<rparr>))"
  by (auto simp: sql_query_def sql_ok split: sum.splits)

lemma sql_query_db: "sql_query q w = (r, w') \<Longrightarrow> w' = w\<lparr>calls := Suc (calls w)\<rparr>"
  by (auto simp: sql_query_def sql_def call_def outside_def split: option.splits sum.splits prod.splits)

text \<open>
  Preservation of a property of the tables: it has to hold of the function each
  statement denotes, and transactions keep it because they install either the
  snapshot or the state their statements reached.
\<close>

abbreviation db_inv :: "('d \<Rightarrow> bool) \<Rightarrow> 'd world \<Rightarrow> bool" where
  "db_inv P w \<equiv> P (db w)"

abbreviation keeps_db :: "('d \<Rightarrow> bool) \<Rightarrow> ('d, 'a) wprog \<Rightarrow> bool" where
  "keeps_db P m \<equiv> keeps (db_inv P) m"

lemma keeps_outside [keep_rules]: "keeps_db P outside"
  by (simp add: keeps_def outside_def)

lemma keeps_time_Now [keep_rules]: "keeps Q time_Now"
  by (simp add: keeps_def time_Now_def)

lemma keeps_uuid [keep_rules]: "keeps_db P uuid_NewString"
  by (simp add: keeps_def uuid_NewString_def)

lemma keeps_rand [keep_rules]: "keeps_db P rand_Read"
  by (simp add: keeps_def rand_Read_def call_def outside_def split: option.splits)

lemma keeps_sql:
  assumes "\<And>d x d'. P d \<Longrightarrow> f d = Inr (x, d') \<Longrightarrow> P d'"
  shows "keeps_db P (sql f)"
proof -
  have "P (db (snd (sql f w)))" if "P (db w)" for w
  proof (cases "sql f w")
    case (Pair r w')
    then show ?thesis
      using assms that by (cases r) (auto dest!: sql_Inr_cases sql_Inl_cases)
  qed
  then show ?thesis by (simp add: keeps_def)
qed

lemma keeps_sql_now:
  assumes "\<And>n d x d'. P d \<Longrightarrow> f n d = Inr (x, d') \<Longrightarrow> P d'"
  shows "keeps_db P (sql_now f)"
  using keeps_sql [of P "f _"] assms by (auto simp: keeps_def sql_now_def)

lemma sql_now_Inr_cases:
  assumes "sql_now f w = (Inr x, w')"
  shows "\<exists>d. f (clock w) (db w) = Inr (x, d) \<and> w' = w\<lparr>calls := Suc (calls w), db := d\<rparr>"
  using assms unfolding sql_now_def by (rule sql_Inr_cases)

lemma sql_now_Inl_cases:
  assumes "sql_now f w = (Inl e, w')"
  shows "w' = w\<lparr>calls := Suc (calls w)\<rparr>"
  using assms unfolding sql_now_def by (rule sql_Inl_cases)

lemma sql_now_ok:
  "fault w = (\<lambda>_. None) \<Longrightarrow>
   sql_now f w = (case f (clock w) (db w) of Inl e \<Rightarrow> (Inl e, w\<lparr>calls := Suc (calls w)\<rparr>)
              | Inr (x, d) \<Rightarrow> (Inr x, w\<lparr>calls := Suc (calls w), db := d\<rparr>))"
  by (simp add: sql_now_def sql_ok)

lemma keeps_sql_query [keep_rules]: "keeps_db P (sql_query q)"
  unfolding sql_query_def by (rule keeps_sql) (auto split: sum.splits)

lemma keeps_in_tx [keep_rules]:
  assumes "keeps_db P body"
  shows "keeps_db P (in_tx f g body)"
proof -
  have "P (db (snd (in_tx f g body w)))" if P: "P (db w)" for w
  proof (cases "fault w (calls w)")
    case (Some e)
    then show ?thesis
      using P by (simp add: in_tx_def begin_tx_def outside_def call_def)
  next
    case None
    define w1 where "w1 = w\<lparr>calls := Suc (calls w), open_tx := Suc (open_tx w)\<rparr>"
    have b: "begin_tx w = (Inr (db w), w1)"
      using None by (simp add: begin_tx_def outside_def call_def w1_def)
    obtain r w2 where m: "body w1 = (r, w2)" by (cases "body w1")
    have "P (db w2)"
      using keepsD' [OF assms _ m] P by (simp add: w1_def)
    then show ?thesis
      using P by (cases r) (auto simp: in_tx_def b m rollback_tx_def commit_tx_def outside_def
          call_def split: option.splits)
  qed
  then show ?thesis by (simp add: keeps_def)
qed

text \<open>
  Atomicity of \<open>in_tx\<close>: an error leaves the tables and the number of open
  transactions as they were.
\<close>

definition tx_neutral :: "('d, 'a) wprog \<Rightarrow> bool" where
  "tx_neutral m \<longleftrightarrow> (\<forall>w. open_tx (snd (m w)) = open_tx w)"

lemma tx_neutralD: "tx_neutral m \<Longrightarrow> m w = (r, w') \<Longrightarrow> open_tx w' = open_tx w"
  by (metis tx_neutral_def snd_conv)

lemma tx_neutral_basic [simp, tx_rules]:
  "tx_neutral (ret x)" "tx_neutral (fail e)" "tx_neutral time_Now" "tx_neutral uuid_NewString"
  "tx_neutral outside" "tx_neutral rand_Read" "tx_neutral (sql f)" "tx_neutral (sql_query q)"
  "tx_neutral (sql_now g)"
  by (auto simp: sql_now_def tx_neutral_def time_Now_def uuid_NewString_def outside_def rand_Read_def sql_def
      sql_query_def call_def split: option.splits sum.splits prod.splits)

lemma tx_neutral_call [tx_rules]:
  "tx_neutral m \<Longrightarrow> (\<And>e. tx_neutral (h e)) \<Longrightarrow> (\<And>x. tx_neutral (k x)) \<Longrightarrow> tx_neutral (call m h k)"
  by (auto simp: tx_neutral_def call_def split: prod.splits sum.splits) (metis snd_conv)+

lemma tx_neutral_if [tx_rules]: "tx_neutral m \<Longrightarrow> tx_neutral n \<Longrightarrow> tx_neutral (if b then m else n)"
  by simp

lemma tx_neutral_case_option [tx_rules]:
  "tx_neutral n \<Longrightarrow> (\<And>x. tx_neutral (f x)) \<Longrightarrow> tx_neutral (case o' of None \<Rightarrow> n | Some x \<Rightarrow> f x)"
  by (simp split: option.splits)

lemma tx_neutral_case_sum [tx_rules]:
  "(\<And>x. tx_neutral (f x)) \<Longrightarrow> (\<And>x. tx_neutral (g x)) \<Longrightarrow> tx_neutral (case o' of Inl x \<Rightarrow> f x | Inr x \<Rightarrow> g x)"
  by (simp split: sum.splits)

lemma tx_neutral_case_prod [tx_rules]:
  "(\<And>x y. tx_neutral (f x y)) \<Longrightarrow> tx_neutral (case p of (x, y) \<Rightarrow> f x y)"
  by (simp split: prod.splits)

lemma in_tx_error_unchanged:
  assumes "in_tx f g body w = (Inl e, w')" and "tx_neutral body"
  shows "db w' = db w \<and> open_tx w' = open_tx w"
proof (cases "fault w (calls w)")
  case (Some e')
  then show ?thesis
    using assms(1) by (auto simp: in_tx_def begin_tx_def outside_def call_def)
next
  case None
  define w1 where "w1 = w\<lparr>calls := Suc (calls w), open_tx := Suc (open_tx w)\<rparr>"
  have b: "begin_tx w = (Inr (db w), w1)"
    using None by (simp add: begin_tx_def outside_def call_def w1_def)
  obtain r w2 where m: "body w1 = (r, w2)" by (cases "body w1")
  have "open_tx w2 = Suc (open_tx w)"
    using tx_neutralD [OF assms(2) m] by (simp add: w1_def)
  then show ?thesis
    using assms(1)
    by (cases r) (auto simp: in_tx_def b m rollback_tx_def commit_tx_def outside_def
        call_def split: option.splits)
qed

lemma keeps_run_in_tx [keep_rules]:
  assumes "keeps_db P body"
  shows "keeps_db P (run_in_tx body)"
proof -
  have "P (db (snd (run_in_tx body w)))" if P: "P (db w)" for w
  proof (cases "fault w (calls w)")
    case (Some e)
    then show ?thesis
      using P by (simp add: run_in_tx_def begin_tx_def outside_def call_def)
  next
    case None
    define w1 where "w1 = w\<lparr>calls := Suc (calls w), open_tx := Suc (open_tx w)\<rparr>"
    have b: "begin_tx w = (Inr (db w), w1)"
      using None by (simp add: begin_tx_def outside_def call_def w1_def)
    obtain r w2 where m: "body w1 = (r, w2)" by (cases "body w1")
    have "P (db w2)"
      using keepsD' [OF assms _ m] P by (simp add: w1_def)
    then show ?thesis
      using P by (cases r) (auto simp: run_in_tx_def b m abandon_tx_def commit_tx_def outside_def
          call_def split: option.splits)
  qed
  then show ?thesis by (simp add: keeps_def)
qed

text \<open>
  The helper in one lemma: an error leaves the tables alone, and leaks the open
  transaction exactly when it comes from \<^verbatim>\<open>fn\<close>; success means that \<^verbatim>\<open>fn\<close> succeeded
  on the state after \<^verbatim>\<open>BEGIN\<close> and that its tables are committed.
\<close>

definition after_begin :: "'d world \<Rightarrow> 'd world" where
  "after_begin w = w\<lparr>calls := Suc (calls w), open_tx := Suc (open_tx w)\<rparr>"

lemma after_begin_simps [simp]:
  "db (after_begin w) = db w" "clock (after_begin w) = clock w" "fault (after_begin w) = fault w"
  "sent (after_begin w) = sent w" "uuids (after_begin w) = uuids w"
  "uuid_src (after_begin w) = uuid_src w" "open_tx (after_begin w) = Suc (open_tx w)"
  "rand_src (after_begin w) = rand_src w" "calls (after_begin w) = Suc (calls w)"
  by (simp_all add: after_begin_def)

lemma begin_tx_Inr: "begin_tx w = (Inr s, w') \<Longrightarrow> s = db w \<and> w' = after_begin w"
  by (auto simp: begin_tx_def call_def outside_def after_begin_def split: option.splits)

lemma begin_tx_Inl: "begin_tx w = (Inl e, w') \<Longrightarrow> w' = w\<lparr>calls := Suc (calls w)\<rparr>"
  by (auto simp: begin_tx_def call_def outside_def split: option.splits)

lemma commit_tx_Inr:
  "commit_tx s w = (Inr u, w') \<Longrightarrow> w' = w\<lparr>calls := Suc (calls w), open_tx := open_tx w - 1\<rparr>"
  by (auto simp: commit_tx_def call_def outside_def split: option.splits)

lemma commit_tx_Inl:
  "commit_tx s w = (Inl e, w') \<Longrightarrow> w' = w\<lparr>calls := Suc (calls w), db := s, open_tx := open_tx w - 1\<rparr>"
  by (auto simp: commit_tx_def call_def outside_def split: option.splits)

lemma begin_tx_ok: "fault w = (\<lambda>_. None) \<Longrightarrow> begin_tx w = (Inr (db w), after_begin w)"
  by (simp add: begin_tx_def outside_def call_def after_begin_def)

lemma commit_tx_ok:
  "fault w = (\<lambda>_. None) \<Longrightarrow> commit_tx s w = (Inr (), w\<lparr>calls := Suc (calls w), open_tx := open_tx w - 1\<rparr>)"
  by (simp add: commit_tx_def outside_def call_def)

lemma run_in_tx_Inl:
  assumes "run_in_tx body w = (Inl e, w')" and "tx_neutral body"
  shows "db w' = db w \<and>
    open_tx w' = (if fault w (calls w) = None \<and> fst (body (after_begin w)) = Inl e
                     \<and> snd (body (after_begin w)) = w'\<lparr>db := db (snd (body (after_begin w)))\<rparr>
                  then Suc (open_tx w) else open_tx w)"
proof (cases "fault w (calls w)")
  case (Some e')
  then show ?thesis
    using assms(1) by (auto simp: run_in_tx_def begin_tx_def outside_def call_def)
next
  case None
  have b: "begin_tx w = (Inr (db w), after_begin w)"
    using None by (simp add: begin_tx_def outside_def call_def after_begin_def)
  obtain r w2 where m: "body (after_begin w) = (r, w2)" by (cases "body (after_begin w)")
  have "open_tx w2 = Suc (open_tx w)"
    using tx_neutralD [OF assms(2) m] by simp
  then show ?thesis
    using assms(1) None
    by (cases r) (auto simp: run_in_tx_def b m abandon_tx_def commit_tx_def outside_def
        call_def split: option.splits if_splits)
qed

lemma run_in_tx_Inr:
  assumes "run_in_tx body w = (Inr x, w')"
  shows "\<exists>w2. body (after_begin w) = (Inr x, w2) \<and>
           w' = w2\<lparr>calls := Suc (calls w2), open_tx := open_tx w2 - 1\<rparr>"
proof (cases "fault w (calls w)")
  case (Some e')
  then show ?thesis
    using assms(1) by (auto simp: run_in_tx_def begin_tx_def outside_def call_def)
next
  case None
  have b: "begin_tx w = (Inr (db w), after_begin w)"
    using None by (simp add: begin_tx_def outside_def call_def after_begin_def)
  obtain r w2 where m: "body (after_begin w) = (r, w2)" by (cases "body (after_begin w)")
  then show ?thesis
    using assms(1)
    by (cases r) (auto simp: run_in_tx_def b m abandon_tx_def commit_tx_def outside_def
        call_def split: option.splits)
qed

lemma run_in_tx_ok:
  assumes "fault w = (\<lambda>_. None)" "body (after_begin w) = (Inr x, w2)" "fault w2 = (\<lambda>_. None)"
  shows "run_in_tx body w = (Inr x, w2\<lparr>calls := Suc (calls w2), open_tx := open_tx w2 - 1\<rparr>)"
proof -
  have b: "begin_tx w = (Inr (db w), after_begin w)"
    using assms(1) by (simp add: begin_tx_def outside_def call_def after_begin_def)
  show ?thesis
    using assms by (simp add: run_in_tx_def b call_def commit_tx_def outside_def)
qed

lemma run_in_tx_body_fails:
  assumes "fault w (calls w) = None" "body (after_begin w) = (Inl e, w2)"
  shows "run_in_tx body w = (Inl e, w2\<lparr>db := db w\<rparr>)"
proof -
  have b: "begin_tx w = (Inr (db w), after_begin w)"
    using assms(1) by (simp add: begin_tx_def outside_def call_def after_begin_def)
  show ?thesis
    using assms by (simp add: run_in_tx_def b call_def abandon_tx_def)
qed

lemma in_tx_Inr:
  assumes "in_tx f g body w = (Inr x, w')"
  shows "\<exists>w2. body (after_begin w) = (Inr x, w2) \<and>
           w' = w2\<lparr>calls := Suc (calls w2), open_tx := open_tx w2 - 1\<rparr>"
proof (cases "fault w (calls w)")
  case (Some e')
  then show ?thesis
    using assms(1) by (auto simp: in_tx_def begin_tx_def outside_def call_def)
next
  case None
  have b: "begin_tx w = (Inr (db w), after_begin w)"
    using None by (simp add: begin_tx_def outside_def call_def after_begin_def)
  obtain r w2 where m: "body (after_begin w) = (r, w2)" by (cases "body (after_begin w)")
  then show ?thesis
    using assms(1)
    by (cases r) (auto simp: in_tx_def b m rollback_tx_def commit_tx_def outside_def
        call_def split: option.splits)
qed

lemma in_tx_ok:
  assumes "fault w = (\<lambda>_. None)" "body (after_begin w) = (Inr x, w2)" "fault w2 = (\<lambda>_. None)"
  shows "in_tx f g body w = (Inr x, w2\<lparr>calls := Suc (calls w2), open_tx := open_tx w2 - 1\<rparr>)"
proof -
  have b: "begin_tx w = (Inr (db w), after_begin w)"
    using assms(1) by (simp add: begin_tx_def outside_def call_def after_begin_def)
  show ?thesis
    using assms by (simp add: in_tx_def b call_def commit_tx_def outside_def)
qed

lemma in_tx_body_fails:
  assumes "fault w (calls w) = None" "body (after_begin w) = (Inl e, w2)"
  shows "in_tx f g body w = (Inl e, w2\<lparr>db := db w, open_tx := open_tx w2 - 1\<rparr>)"
proof -
  have b: "begin_tx w = (Inr (db w), after_begin w)"
    using assms(1) by (simp add: begin_tx_def outside_def call_def after_begin_def)
  show ?thesis
    using assms by (simp add: in_tx_def b call_def rollback_tx_def)
qed

definition fault_free :: "'d world \<Rightarrow> bool" where
  "fault_free w \<longleftrightarrow> fault w = (\<lambda>_. None)"

text \<open>A world in which no call fails, for concrete instances.\<close>

definition quiet_world :: "'d \<Rightarrow> 'd world" where
  "quiet_world d = \<lparr>db = d, clock = 1000, fault = (\<lambda>_. None), calls = 0, uuid_src = nat_to_string,
     uuids = 0, rand_src = (\<lambda>n. nat_to_string n), open_tx = 0, sent = []\<rparr>"

lemma quiet_world_simps [simp]:
  "db (quiet_world d) = d" "fault (quiet_world d) = (\<lambda>_. None)" "clock (quiet_world d) = 1000"
  "uuid_src (quiet_world d) = nat_to_string" "uuids (quiet_world d) = 0"
  "open_tx (quiet_world d) = 0" "sent (quiet_world d) = []" "calls (quiet_world d) = 0"
  "rand_src (quiet_world d) = nat_to_string"
  by (simp_all add: quiet_world_def fun_eq_iff)

end
