(* ===== verification/Events.thy ===== *)
theory Events
  imports World
begin

text \<open>
  Package \<^verbatim>\<open>pkg/event\<close>, the message types of \<^verbatim>\<open>gen/go\<close> that cross service
  borders, and \<^verbatim>\<open>pkg/broker\<close>'s message. The protobuf runtime is not part of the
  repository: its four entry points are the fields of \<open>proto_lib\<close>, an argument of
  every definition that marshals or unmarshals, and \<open>proto_ok\<close> states what the code
  relies on, that decoding inverts encoding.
\<close>

record any_pb =
  any_type_url :: string
  any_value :: string

record EventEnvelope =
  ev_EventType :: string
  ev_Payload :: "any_pb option"

record RegisterNewUser =
  rnu_Id :: int
  rnu_Email :: string

record NewSessionLoggedIn =
  nsl_Id :: string
  nsl_UserId :: int

record SessionPayload =
  sp_UserId :: int
  sp_SessionId :: string
  sp_PushToken :: string

datatype NotificationEventType = EVENT_TYPE_UNSPECIFIED | EVENT_TYPE_ALERT_SESSION

record NotificationEvent =
  ne_EventId :: string
  ne_EventType :: NotificationEventType
  ne_SessionPayload :: "SessionPayload option"

datatype pb_message =
    PbRegisterNewUser RegisterNewUser
  | PbNewSessionLoggedIn NewSessionLoggedIn
  | PbNotificationEvent NotificationEvent

record proto_lib =
  anypb_New :: "pb_message \<Rightarrow> go_error + any_pb"
  anypb_UnmarshalTo :: "any_pb option \<Rightarrow> go_error + pb_message"
  proto_Marshal :: "EventEnvelope \<Rightarrow> go_error + string"
  proto_Unmarshal :: "string \<Rightarrow> go_error + EventEnvelope"

definition proto_ok :: "proto_lib \<Rightarrow> bool" where
  "proto_ok L \<longleftrightarrow>
     (\<forall>m a. anypb_New L m = Inr a \<longrightarrow> anypb_UnmarshalTo L (Some a) = Inr m) \<and>
     (\<forall>e b. proto_Marshal L e = Inr b \<longrightarrow> proto_Unmarshal L b = Inr e)"

text \<open>
  \<^verbatim>\<open>Any.UnmarshalTo(&m)\<close> decodes into a message of the static type of \<^verbatim>\<open>m\<close> and
  fails when the payload is of another type.
\<close>

definition UnmarshalTo_RegisterNewUser :: "proto_lib \<Rightarrow> any_pb option \<Rightarrow> go_error + RegisterNewUser" where
  "UnmarshalTo_RegisterNewUser L p =
     (case anypb_UnmarshalTo L p of
        Inr (PbRegisterNewUser m) \<Rightarrow> Inr m
      | Inr _ \<Rightarrow> Inl (ErrorString ''mismatched message type'')
      | Inl e \<Rightarrow> Inl e)"

definition UnmarshalTo_NewSessionLoggedIn :: "proto_lib \<Rightarrow> any_pb option \<Rightarrow> go_error + NewSessionLoggedIn" where
  "UnmarshalTo_NewSessionLoggedIn L p =
     (case anypb_UnmarshalTo L p of
        Inr (PbNewSessionLoggedIn m) \<Rightarrow> Inr m
      | Inr _ \<Rightarrow> Inl (ErrorString ''mismatched message type'')
      | Inl e \<Rightarrow> Inl e)"

definition UnmarshalTo_NotificationEvent :: "proto_lib \<Rightarrow> any_pb option \<Rightarrow> go_error + NotificationEvent" where
  "UnmarshalTo_NotificationEvent L p =
     (case anypb_UnmarshalTo L p of
        Inr (PbNotificationEvent m) \<Rightarrow> Inr m
      | Inr _ \<Rightarrow> Inl (ErrorString ''mismatched message type'')
      | Inl e \<Rightarrow> Inl e)"

datatype event_Type = TypeAuthNewSessionLoggedIn | TypeAuthRegisterNewUser | TypeNotificationPush

fun event_Type_string :: "event_Type \<Rightarrow> string" where
  "event_Type_string TypeAuthNewSessionLoggedIn = ''auth.v1.NewSessionLoggedIn''"
| "event_Type_string TypeAuthRegisterNewUser = ''auth.v1.RegisterNewUser''"
| "event_Type_string TypeNotificationPush = ''notification.v1.push''"

definition event_New :: "proto_lib \<Rightarrow> pb_message \<Rightarrow> event_Type \<Rightarrow> go_error + EventEnvelope" where
  "event_New L ev eventType =
     (case anypb_New L ev of
        Inl err \<Rightarrow> Inl err
      | Inr payload \<Rightarrow> Inr \<lparr>ev_EventType = event_Type_string eventType, ev_Payload = Some payload\<rparr>)"

text \<open>The message a subscriber's handler receives.\<close>

record Message =
  msg_ID :: string
  msg_Body :: string
  msg_Headers :: "amqp_table option"
  msg_Timestamp :: int

section \<open>Facts\<close>

lemma event_Type_string_inj: "event_Type_string a = event_Type_string b \<longleftrightarrow> a = b"
  by (cases a; cases b) auto

text \<open>
  An envelope that was built and encoded decodes to the message it was built from.
\<close>

lemma envelope_roundtrip:
  assumes "proto_ok L" "event_New L m t = Inr env" "proto_Marshal L env = Inr body"
  shows "proto_Unmarshal L body = Inr env" "ev_EventType env = event_Type_string t"
    "anypb_UnmarshalTo L (ev_Payload env) = Inr m"
  using assms by (auto simp: proto_ok_def event_New_def split: sum.splits)

text \<open>A codec that meets the hypothesis, on one message, for concrete instances.\<close>

definition sample_any :: any_pb where
  "sample_any = \<lparr>any_type_url = ''type'', any_value = ''value''\<rparr>"

definition sample_proto :: "pb_message \<Rightarrow> event_Type \<Rightarrow> proto_lib" where
  "sample_proto m t = \<lparr>
     anypb_New = (\<lambda>m'. if m' = m then Inr sample_any else Inl (ErrorString ''encode'')),
     anypb_UnmarshalTo = (\<lambda>a. if a = Some sample_any then Inr m else Inl (ErrorString ''decode'')),
     proto_Marshal = (\<lambda>e. if e = \<lparr>ev_EventType = event_Type_string t, ev_Payload = Some sample_any\<rparr>
                          then Inr ''body'' else Inl (ErrorString ''encode'')),
     proto_Unmarshal = (\<lambda>b. if b = ''body''
        then Inr \<lparr>ev_EventType = event_Type_string t, ev_Payload = Some sample_any\<rparr>
        else Inl (ErrorString ''decode''))\<rparr>"

lemma sample_proto_ok: "proto_ok (sample_proto m t)"
  by (simp add: proto_ok_def sample_proto_def)

end
