(* ===== verification/Inbox.thy ===== *)
theory Inbox
  imports Events
begin

text \<open>
  The processed-messages tables of the wallet and notification services
  (\<^verbatim>\<open>internal/*/repository/event.go\<close>): the row type, the statements, and the contract
  of \<^verbatim>\<open>event.Repository\<close> as a locale that both repositories interpret.
\<close>

record processed_message =
  pm_message_id :: string
  pm_status :: string
  pm_event_payload :: string
  pm_processing_started_at :: int
  pm_completed_at :: "int option"

definition pm_select_status :: "string \<Rightarrow> processed_message list \<Rightarrow> go_error + string" where
  "pm_select_status messageId rs =
     (case find (\<lambda>r. pm_message_id r = messageId) rs of
        None \<Rightarrow> Inl ErrNoRows | Some r \<Rightarrow> Inr (pm_status r))"

definition pm_insert_ignore ::
  "string \<Rightarrow> string \<Rightarrow> int \<Rightarrow> processed_message list \<Rightarrow> processed_message list" where
  "pm_insert_ignore messageId payload now rs =
     (if \<exists>r \<in> set rs. pm_message_id r = messageId then rs
      else rs @ [\<lparr>pm_message_id = messageId, pm_status = ''processing'', pm_event_payload = payload,
                  pm_processing_started_at = now, pm_completed_at = None\<rparr>])"

definition pm_reset :: "string \<Rightarrow> string \<Rightarrow> processed_message list \<Rightarrow> processed_message list" where
  "pm_reset messageId payload =
     update_where (\<lambda>r. pm_message_id r = messageId)
       (\<lambda>r. r\<lparr>pm_status := ''processing'', pm_event_payload := payload\<rparr>)"

definition pm_complete :: "string \<Rightarrow> int \<Rightarrow> processed_message list \<Rightarrow> processed_message list" where
  "pm_complete messageId now =
     update_where (\<lambda>r. pm_message_id r = messageId)
       (\<lambda>r. r\<lparr>pm_status := ''completed'', pm_completed_at := Some now\<rparr>)"

definition pm_fail :: "string \<Rightarrow> processed_message list \<Rightarrow> processed_message list" where
  "pm_fail messageId =
     update_where (\<lambda>r. pm_message_id r = messageId) (\<lambda>r. r\<lparr>pm_status := ''failed''\<rparr>)"

definition pm_status_of :: "processed_message list \<Rightarrow> string \<Rightarrow> string option" where
  "pm_status_of rs m = map_option pm_status (find (\<lambda>r. pm_message_id r = m) rs)"

section \<open>The contract of event.Repository\<close>

text \<open>
  \<open>status\<close> reads the stored status of a message id. \<open>run\<close> can only set the status of
  its own message, and a failed mark changes no status. Without driver failures \<open>run\<close> refuses only a message whose
  stored status is \<^verbatim>\<open>sent\<close>.
\<close>

locale event_repository =
  fixes status :: "'d \<Rightarrow> string \<Rightarrow> string option"
    and run :: "string \<Rightarrow> string \<Rightarrow> ('d, unit) wprog"
    and mark_sent :: "string \<Rightarrow> ('d, unit) wprog"
    and mark_failed :: "string \<Rightarrow> ('d, unit) wprog"
  assumes run_effect: "run m p w = (r, w') \<Longrightarrow>
      status (db w') = status (db w) \<or> status (db w') = (status (db w))(m \<mapsto> ''processing'')"
    and run_ok: "fault_free w \<Longrightarrow> status (db w) m \<noteq> Some ''sent'' \<Longrightarrow>
      \<exists>w'. run m p w = (Inr (), w') \<and> fault_free w' \<and>
        status (db w') = (status (db w))(m \<mapsto> ''processing'')"
    and sent_status: "mark_sent m w = (Inr u, w') \<Longrightarrow>
      status (db w') = (\<lambda>k. if k = m then map_option (\<lambda>_. ''completed'') (status (db w) k) else status (db w) k)"
    and sent_error: "mark_sent m w = (Inl e, w') \<Longrightarrow> status (db w') = status (db w)"
    and sent_ok: "fault_free w \<Longrightarrow> \<exists>w'. mark_sent m w = (Inr (), w') \<and> fault_free w'"
    and failed_status: "mark_failed m w = (Inr u, w') \<Longrightarrow>
      status (db w') = (\<lambda>k. if k = m then map_option (\<lambda>_. ''failed'') (status (db w) k) else status (db w) k)"
    and failed_error: "mark_failed m w = (Inl e, w') \<Longrightarrow> status (db w') = status (db w)"
    and failed_ok: "fault_free w \<Longrightarrow> \<exists>w'. mark_failed m w = (Inr (), w') \<and> fault_free w'"
begin

definition never_sent :: "'d world \<Rightarrow> bool" where
  "never_sent w \<longleftrightarrow> (\<forall>m. status (db w) m \<noteq> Some ''sent'')"

lemma never_sent_run: "never_sent w \<Longrightarrow> never_sent (snd (run m p w))"
proof (cases "run m p w")
  case (Pair r w')
  assume "never_sent w"
  then show ?thesis
    using Pair run_effect [of m p w r w'] by (auto simp: never_sent_def split: if_splits)
qed

lemma never_sent_mark_sent: "never_sent w \<Longrightarrow> never_sent (snd (mark_sent m w))"
proof (cases "mark_sent m w")
  case (Pair r w')
  assume "never_sent w"
  then show ?thesis
    using Pair sent_status [of m w] sent_error [of m w]
    by (cases r) (auto simp: never_sent_def)
qed

lemma never_sent_mark_failed: "never_sent w \<Longrightarrow> never_sent (snd (mark_failed m w))"
proof (cases "mark_failed m w")
  case (Pair r w')
  assume "never_sent w"
  then show ?thesis
    using Pair failed_status [of m w] failed_error [of m w]
    by (cases r) (auto simp: never_sent_def)
qed

lemma keeps_never_sent:
  "keeps never_sent (run m p)" "keeps never_sent (mark_sent m)" "keeps never_sent (mark_failed m)"
  by (simp_all add: keeps_def never_sent_run never_sent_mark_sent never_sent_mark_failed)

text \<open>A message that was handled to the end is accepted again as if it were new.\<close>

lemma completed_is_rerun:
  assumes "fault_free w" "never_sent w"
  shows "\<exists>w1 w2 w3. run m p w = (Inr (), w1) \<and> mark_sent m w1 = (Inr (), w2) \<and>
    status (db w2) m = Some ''completed'' \<and> run m p' w2 = (Inr (), w3)"
proof -
  obtain w1 where 1: "run m p w = (Inr (), w1)" "fault_free w1"
    and st: "status (db w1) m = Some ''processing''"
    using run_ok [of w m p] assms by (auto simp: never_sent_def)
  obtain w2 where 2: "mark_sent m w1 = (Inr (), w2)" "fault_free w2"
    using sent_ok [OF 1(2)] by blast
  have "status (db w2) m = Some ''completed''"
    using st sent_status [OF 2(1)] by simp
  then show ?thesis using 1 2 run_ok [OF 2(2), of m p'] by auto
qed

end

section \<open>Statements and statuses\<close>

lemma pm_status_insert_ignore:
  "pm_status_of (pm_insert_ignore m p n rs) =
     (if pm_status_of rs m = None then (pm_status_of rs)(m \<mapsto> ''processing'') else pm_status_of rs)"
proof -
  have "pm_status_of (rs @ [r]) = (if pm_status_of rs (pm_message_id r) = None
      then (pm_status_of rs)(pm_message_id r \<mapsto> pm_status r) else pm_status_of rs)" for r
    by (auto simp: pm_status_of_def find_append fun_eq_iff split: option.splits)
  then show ?thesis
    by (auto simp: pm_insert_ignore_def pm_status_of_def find_None_iff)
qed

lemma pm_status_update_where:
  assumes "\<And>r. pm_message_id (f r) = pm_message_id r" "\<And>r. pm_status (f r) = s"
  shows "pm_status_of (update_where (\<lambda>r. pm_message_id r = m) f rs) =
    (\<lambda>k. if k = m then map_option (\<lambda>_. s) (pm_status_of rs k) else pm_status_of rs k)"
  by (rule ext, induction rs) (auto simp: pm_status_of_def assms)

lemmas pm_status_simps =
  pm_status_update_where [of "\<lambda>r. r\<lparr>pm_status := ''completed'', pm_completed_at := Some n\<rparr>" "''completed''" for n, simplified]
  pm_status_update_where [of "\<lambda>r. r\<lparr>pm_status := ''failed''\<rparr>" "''failed''", simplified]
  pm_status_update_where [of "\<lambda>r. r\<lparr>pm_status := ''processing'', pm_event_payload := p\<rparr>" "''processing''" for p, simplified]

lemma pm_select_status_iff:
  "pm_select_status m rs = Inr s \<longleftrightarrow> pm_status_of rs m = Some s"
  "pm_select_status m rs = Inl e \<longleftrightarrow> e = ErrNoRows \<and> pm_status_of rs m = None"
  by (auto simp: pm_select_status_def pm_status_of_def split: option.splits)

lemma unique_by_pm_insert_ignore:
  "unique_by pm_message_id rs \<Longrightarrow> unique_by pm_message_id (pm_insert_ignore m p n rs)"
  by (auto simp: pm_insert_ignore_def unique_by_snoc)


section \<open>The repository over a table\<close>

text \<open>
  The wallet and the notification service have the same repository and event service, each
  over its own table: \<open>inbox_ref\<close> says which one.
\<close>

record 'd inbox_ref =
  msgs :: "'d \<Rightarrow> processed_message list"
  set_msgs :: "processed_message list \<Rightarrow> 'd \<Rightarrow> 'd"

definition pm_stmt ::
  "'d inbox_ref \<Rightarrow> (int \<Rightarrow> processed_message list \<Rightarrow> processed_message list) \<Rightarrow> ('d, unit) wprog" where
  "pm_stmt I f = sql_now (\<lambda>now d. Inr ((), set_msgs I (f now (msgs I d)) d))"

definition run_error :: "go_error \<Rightarrow> string \<Rightarrow> go_error" where
  "run_error err msg = Rich (WithMessage msg (WithKind KindInternal
     (WithWrapper (Some err) (New ''repository.RunProcess''))))"

definition run_body :: "'d inbox_ref \<Rightarrow> string \<Rightarrow> string \<Rightarrow> ('d, unit) wprog" where
  "run_body I messageId payload =
     call (sql_query (\<lambda>d. pm_select_status messageId (msgs I d)))
       (\<lambda>err. if \<not> errors_Is err ErrNoRows then fail (run_error err ''failed to check processed message'')
              else call (pm_stmt I (pm_insert_ignore messageId payload))
                     (\<lambda>err. fail (run_error err ''failed to insert message'')) ret)
       (\<lambda>status. if status = ''sent''
              then fail (Rich (WithMessage ''message already processed'' (WithKind KindConflict
                     (New ''repository.RunProcess''))))
              else call (pm_stmt I (\<lambda>_. pm_reset messageId payload))
                     (\<lambda>err. fail (run_error err ''failed to reset message status'')) ret)"

definition RunProcess :: "'d inbox_ref \<Rightarrow> string \<Rightarrow> string \<Rightarrow> ('d, unit) wprog" where
  "RunProcess I messageId payload =
     in_tx (\<lambda>err. run_error err ''failed to start transaction'') (\<lambda>err. run_error err ''failed to commit transaction'')
       (run_body I messageId payload)"

definition MarkSent :: "'d inbox_ref \<Rightarrow> string \<Rightarrow> ('d, unit) wprog" where
  "MarkSent I messageId =
     call (pm_stmt I (pm_complete messageId))
       (\<lambda>err. fail (Rich (WithMessage ''failed to mark message as sent'' (WithKind KindInternal
                (WithWrapper (Some err) (New ''repository.MarkSent'')))))) ret"

definition MarkFailed :: "'d inbox_ref \<Rightarrow> string \<Rightarrow> ('d, unit) wprog" where
  "MarkFailed I messageId =
     call (pm_stmt I (\<lambda>_. pm_fail messageId))
       (\<lambda>err. fail (Rich (WithMessage ''failed to mark message as failed'' (WithKind KindInternal
                (WithWrapper (Some err) (New ''repository.MarkFailed'')))))) ret"

section \<open>Event service\<close>

definition svc_RunProcess :: "'d inbox_ref \<Rightarrow> string \<Rightarrow> string \<Rightarrow> ('d, unit) wprog" where
  "svc_RunProcess I messageId payload =
     call (RunProcess I messageId payload)
       (\<lambda>err. fail (Rich (WithWrapper (Some err) (New ''event.RunProcess'')))) ret"

definition svc_MarkSent :: "'d inbox_ref \<Rightarrow> string \<Rightarrow> ('d, unit) wprog" where
  "svc_MarkSent I messageId =
     call (MarkSent I messageId)
       (\<lambda>err. fail (Rich (WithMessage ''failed to mark message as sent'' (WithKind KindInternal
                (WithWrapper (Some err) (New ''event.MarkSent'')))))) ret"

definition svc_MarkFailed :: "'d inbox_ref \<Rightarrow> string \<Rightarrow> ('d, unit) wprog" where
  "svc_MarkFailed I messageId =
     call (MarkFailed I messageId)
       (\<lambda>err. fail (Rich (WithMessage ''failed to mark message as failed'' (WithKind KindInternal
                (WithWrapper (Some err) (New ''event.MarkFailed'')))))) ret"

text \<open>
  \<^verbatim>\<open>Handle\<close> of both subscribers, over the service's own \<^verbatim>\<open>handleEvent\<close>. When that fails, the
  error is overwritten by the result of \<^verbatim>\<open>MarkFailed\<close>.
\<close>

definition inbox_Handle ::
  "'d inbox_ref \<Rightarrow> proto_lib \<Rightarrow> (EventEnvelope \<Rightarrow> ('d, unit) wprog) \<Rightarrow> Message \<Rightarrow> ('d, unit) wprog" where
  "inbox_Handle I L handleEvent msg =
     call (svc_RunProcess I (msg_ID msg) (msg_Body msg))
       (\<lambda>err. if is_kind KindConflict err then ret () else fail err) (\<lambda>_.
     case proto_Unmarshal L (msg_Body msg) of
       Inl err \<Rightarrow> fail err
     | Inr ev \<Rightarrow>
         call (handleEvent ev)
           (\<lambda>_. call (svc_MarkFailed I (msg_ID msg)) (\<lambda>err. fail err) (\<lambda>_. ret ()))
           (\<lambda>_. call (svc_MarkSent I (msg_ID msg)) (\<lambda>_. ret ()) (\<lambda>_. ret ())))"

lemmas inbox_defs = inbox_Handle_def svc_RunProcess_def svc_MarkSent_def svc_MarkFailed_def RunProcess_def run_body_def
  MarkSent_def MarkFailed_def

section \<open>A table meets the contract\<close>

lemma pm_stmt_Inr:
  "pm_stmt I f w = (Inr u, w') \<Longrightarrow> w' = w\<lparr>calls := Suc (calls w), db := set_msgs I (f (clock w) (msgs I (db w))) (db w)\<rparr>"
  by (auto simp: pm_stmt_def dest!: sql_now_Inr_cases)

lemma pm_stmt_Inl: "pm_stmt I f w = (Inl e, w') \<Longrightarrow> w' = w\<lparr>calls := Suc (calls w)\<rparr>"
  by (auto simp: pm_stmt_def dest!: sql_now_Inl_cases)

lemma pm_stmt_ok:
  "fault w = (\<lambda>_. None) \<Longrightarrow>
   pm_stmt I f w = (Inr (), w\<lparr>calls := Suc (calls w), db := set_msgs I (f (clock w) (msgs I (db w))) (db w)\<rparr>)"
  by (simp add: pm_stmt_def sql_now_ok)

lemma tx_neutral_run_body: "tx_neutral (run_body I m p)"
  unfolding run_body_def pm_stmt_def by (intro tx_rules)

lemma MarkSent_ok:
  "fault w = (\<lambda>_. None) \<Longrightarrow> MarkSent I m w = (Inr (), w\<lparr>calls := Suc (calls w),
     db := set_msgs I (pm_complete m (clock w) (msgs I (db w))) (db w)\<rparr>)"
  by (simp add: MarkSent_def call_def pm_stmt_ok)

lemma MarkFailed_ok:
  "fault w = (\<lambda>_. None) \<Longrightarrow> MarkFailed I m w = (Inr (), w\<lparr>calls := Suc (calls w),
     db := set_msgs I (pm_fail m (msgs I (db w))) (db w)\<rparr>)"
  by (simp add: MarkFailed_def call_def pm_stmt_ok)

lemma keeps_pm_stmt:
  assumes "\<And>rs d. P (set_msgs I rs d) = P d"
  shows "keeps_db P (pm_stmt I f)"
  unfolding pm_stmt_def using assms by (intro keeps_sql_now) auto

locale inbox_table =
  fixes I :: "'d inbox_ref"
  assumes msgs_set [simp]: "msgs I (set_msgs I rs d) = rs"
begin

definition inbox_status :: "'d \<Rightarrow> string \<Rightarrow> string option" where
  "inbox_status d = pm_status_of (msgs I d)"

lemma run_body_effect:
  assumes "run_body I m p w = (r, w')"
  shows "inbox_status (db w') = inbox_status (db w) \<or>
         inbox_status (db w') = (inbox_status (db w))(m \<mapsto> ''processing'')"
  using assms unfolding run_body_def
  by (auto simp: call_def inbox_status_def pm_status_insert_ignore pm_reset_def
      pm_status_simps pm_select_status_iff split: prod.splits sum.splits if_splits option.splits
      dest!: sql_query_db sql_query_Inr_cases pm_stmt_Inr pm_stmt_Inl)

lemma RunProcess_effect:
  assumes "RunProcess I m p w = (r, w')"
  shows "inbox_status (db w') = inbox_status (db w) \<or>
         inbox_status (db w') = (inbox_status (db w))(m \<mapsto> ''processing'')"
proof (cases r)
  case (Inl e)
  then show ?thesis
    using assms in_tx_error_unchanged [OF _ tx_neutral_run_body] unfolding RunProcess_def by metis
next
  case (Inr x)
  then obtain w2 where "run_body I m p (after_begin w) = (Inr x, w2)" "db w' = db w2"
    using assms unfolding RunProcess_def by (auto dest!: in_tx_Inr)
  then show ?thesis
    using run_body_effect [of m p "after_begin w"] by simp
qed

lemma run_body_ok:
  assumes "fault w = (\<lambda>_. None)" "inbox_status (db w) m \<noteq> Some ''sent''"
  shows "\<exists>rs k. run_body I m p w = (Inr (), w\<lparr>calls := k, db := set_msgs I rs (db w)\<rparr>) \<and>
    pm_status_of rs = (inbox_status (db w))(m \<mapsto> ''processing'')"
proof (cases "inbox_status (db w) m")
  case None
  then have "pm_select_status m (msgs I (db w)) = Inl ErrNoRows"
    by (simp add: pm_select_status_iff inbox_status_def)
  then have "run_body I m p w = (Inr (), w\<lparr>calls := Suc (Suc (calls w)),
      db := set_msgs I (pm_insert_ignore m p (clock w) (msgs I (db w))) (db w)\<rparr>)"
    using assms by (simp add: run_body_def call_def sql_query_ok pm_stmt_ok)
  then show ?thesis
    using None by (auto simp: pm_status_insert_ignore inbox_status_def)
next
  case (Some s)
  then have "pm_select_status m (msgs I (db w)) = Inr s"
    by (simp add: pm_select_status_iff inbox_status_def)
  then have "run_body I m p w = (Inr (), w\<lparr>calls := Suc (Suc (calls w)),
      db := set_msgs I (pm_reset m p (msgs I (db w))) (db w)\<rparr>)"
    using assms Some by (simp add: run_body_def call_def sql_query_ok pm_stmt_ok)
  then show ?thesis
    using Some by (force simp: pm_reset_def pm_status_simps inbox_status_def fun_eq_iff)
qed

lemma svc_RunProcess_ok:
  assumes "fault w = (\<lambda>_. None)" "inbox_status (db w) m \<noteq> Some ''sent''"
  shows "\<exists>rs k. RunProcess I m p w = (Inr (), w\<lparr>calls := k, db := set_msgs I rs (db w)\<rparr>) \<and>
    svc_RunProcess I m p w = (Inr (), w\<lparr>calls := k, db := set_msgs I rs (db w)\<rparr>) \<and>
    pm_status_of rs = (inbox_status (db w))(m \<mapsto> ''processing'')"
proof -
  obtain rs k where b: "run_body I m p (after_begin w) = (Inr (), (after_begin w)\<lparr>calls := k, db := set_msgs I rs (db w)\<rparr>)"
    and rs: "pm_status_of rs = (inbox_status (db w))(m \<mapsto> ''processing'')"
    using run_body_ok [of "after_begin w" m p] assms by auto
  have "RunProcess I m p w = (Inr (), w\<lparr>calls := Suc k, db := set_msgs I rs (db w)\<rparr>)"
    unfolding RunProcess_def
    by (subst in_tx_ok [where body = "run_body I m p", OF assms(1) b]) (simp_all add: after_begin_def assms(1))
  then show ?thesis using rs by (auto simp: svc_RunProcess_def call_def)
qed

end

sublocale inbox_table \<subseteq> event_repository inbox_status "RunProcess I" "MarkSent I" "MarkFailed I"
proof unfold_locales
  fix w m p assume w: "fault_free w" "inbox_status (db w) m \<noteq> Some ''sent''"
  then obtain rs k where "RunProcess I m p w = (Inr (), w\<lparr>calls := k, db := set_msgs I rs (db w)\<rparr>)"
    "pm_status_of rs = (inbox_status (db w))(m \<mapsto> ''processing'')"
    using svc_RunProcess_ok [of w m p] by (auto simp: fault_free_def)
  then show "\<exists>w'. RunProcess I m p w = (Inr (), w') \<and> fault_free w' \<and>
        inbox_status (db w') = (inbox_status (db w))(m \<mapsto> ''processing'')"
    using w(1) by (simp add: fault_free_def inbox_status_def)
next
  fix m w u w' assume "MarkSent I m w = (Inr u, w')"
  then show "inbox_status (db w') = (\<lambda>k. if k = m then map_option (\<lambda>_. ''completed'')
      (inbox_status (db w) k) else inbox_status (db w) k)"
    unfolding MarkSent_def
    by (elim call_fail_Inr) (auto simp: inbox_status_def pm_complete_def pm_status_simps dest!: pm_stmt_Inr)
next
  fix m w u w' assume "MarkFailed I m w = (Inr u, w')"
  then show "inbox_status (db w') = (\<lambda>k. if k = m then map_option (\<lambda>_. ''failed'')
      (inbox_status (db w) k) else inbox_status (db w) k)"
    unfolding MarkFailed_def
    by (elim call_fail_Inr) (auto simp: inbox_status_def pm_fail_def pm_status_simps dest!: pm_stmt_Inr)
next
  fix m and w :: "'d world" assume "fault_free w"
  then show "\<exists>w'. MarkSent I m w = (Inr (), w') \<and> fault_free w'" "\<exists>w'. MarkFailed I m w = (Inr (), w') \<and> fault_free w'"
    by (simp_all add: fault_free_def MarkSent_ok MarkFailed_ok)
qed (auto simp: MarkSent_def MarkFailed_def call_def split: prod.splits sum.splits
      dest: RunProcess_effect dest!: pm_stmt_Inl)

end
