(* ===== verification/Wallet.thy ===== *)
theory Wallet
  imports Inbox
begin

text \<open>
  The wallet service's money side: \<^verbatim>\<open>internal/wallet/repository/wallet.go\<close> and
  \<^verbatim>\<open>internal/wallet/service/wallet\<close>. The tables are those of the service's
  migrations; amounts and balances are BIGINT columns, and MySQL rejects an UPDATE
  whose result leaves that range.
\<close>

section \<open>Data\<close>

record Wallet =
  wal_ID :: int
  wal_UUID :: string
  wal_UserID :: int
  wal_Balance :: int
  wal_Currency :: string
  wal_CreatedAt :: int
  wal_UpdatedAt :: int

datatype TransactionType = Deposit | Withdraw | Fee | TransferIn | TransferOut

datatype TransactionStatus = Pending | Completed | Failed

record Transaction =
  tx_ID :: int
  tx_WalletID :: int
  tx_OperationID :: string
  tx_Type :: TransactionType
  tx_Amount :: int
  tx_ReferenceID :: string
  tx_Description :: string
  tx_Status :: TransactionStatus
  tx_CreatedAt :: int

record wallet_db =
  wallets :: "Wallet list"
  wallets_next :: int
  wallet_transactions :: "Transaction list"
  wallet_transactions_next :: int
  wallet_processed_messages :: "processed_message list"

record CreateTransactionRequest =
  ctr_WalletID :: int
  ctr_OperationID :: string
  ctr_Type :: TransactionType
  ctr_Amount :: int
  ctr_ReferenceID :: string
  ctr_Description :: string
  ctr_Status :: TransactionStatus

record TransferRequest =
  SourceId :: int
  DestId :: int
  Amount :: int

record TransferResponse =
  tr_Message :: string
  tr_OperationID :: string

record CreateWalletRequest =
  cwr_UserID :: int
  cwr_UUID :: string
  cwr_Balance :: int
  cwr_Currency :: string

section \<open>The statements\<close>

definition insert_wallet :: "CreateWalletRequest \<Rightarrow> int \<Rightarrow> wallet_db \<Rightarrow> go_error + (int \<times> wallet_db)" where
  "insert_wallet req now d =
     (if \<exists>r \<in> set (wallets d). wal_UUID r = cwr_UUID req \<or>
           (wal_UserID r, wal_Currency r) = (cwr_UserID req, cwr_Currency req)
      then Inl (MySQLError 1062 ''Duplicate entry'')
      else Inr (wallets_next d,
        d\<lparr>wallets := wallets d @
             [\<lparr>wal_ID = wallets_next d, wal_UUID = cwr_UUID req, wal_UserID = cwr_UserID req,
               wal_Balance = cwr_Balance req, wal_Currency = cwr_Currency req,
               wal_CreatedAt = now, wal_UpdatedAt = now\<rparr>],
          wallets_next := wallets_next d + 1\<rparr>))"

definition select_balance :: "int \<Rightarrow> wallet_db \<Rightarrow> go_error + int" where
  "select_balance walletID d =
     (case find (\<lambda>r. wal_ID r = walletID) (wallets d) of
        None \<Rightarrow> Inl ErrNoRows | Some r \<Rightarrow> Inr (wal_Balance r))"

definition set_balance :: "int \<Rightarrow> int \<Rightarrow> Wallet \<Rightarrow> Wallet" where
  "set_balance now b r =
     (if b = wal_Balance r then r else r\<lparr>wal_Balance := b, wal_UpdatedAt := now\<rparr>)"

definition add_balance :: "int \<Rightarrow> int \<Rightarrow> int \<Rightarrow> wallet_db \<Rightarrow> go_error + (unit \<times> wallet_db)" where
  "add_balance delta walletID now d =
     (if \<exists>r \<in> set (wallets d). wal_ID r = walletID \<and> \<not> int64_range (wal_Balance r + delta)
      then Inl (MySQLError 1690 ''BIGINT value is out of range'')
      else Inr ((), d\<lparr>wallets := update_where (\<lambda>r. wal_ID r = walletID)
                              (\<lambda>r. set_balance now (wal_Balance r + delta) r) (wallets d)\<rparr>))"

definition insert_transaction ::
  "CreateTransactionRequest \<Rightarrow> int \<Rightarrow> wallet_db \<Rightarrow> go_error + (int \<times> wallet_db)" where
  "insert_transaction req now d =
     (if \<exists>r \<in> set (wallets d). wal_ID r = ctr_WalletID req
      then Inr (wallet_transactions_next d,
        d\<lparr>wallet_transactions := wallet_transactions d @
             [\<lparr>tx_ID = wallet_transactions_next d, tx_WalletID = ctr_WalletID req,
               tx_OperationID = ctr_OperationID req, tx_Type = ctr_Type req,
               tx_Amount = ctr_Amount req, tx_ReferenceID = ctr_ReferenceID req,
               tx_Description = ctr_Description req, tx_Status = ctr_Status req,
               tx_CreatedAt = now\<rparr>],
          wallet_transactions_next := wallet_transactions_next d + 1\<rparr>)
      else Inl (MySQLError 1452 ''Cannot add or update a child row: a foreign key constraint fails''))"

section \<open>The repository\<close>

definition CreateWallet :: "CreateWalletRequest \<Rightarrow> (wallet_db, int) wprog" where
  "CreateWallet req =
     call (sql_now (insert_wallet req))
       (\<lambda>err. if errors_As_mysql err = Some 1062
              then fail (Rich (WithKind KindConflict (WithMessage ''wallet already exists''
                     (New ''Repository.CreateWallet''))))
              else fail err)
       (\<lambda>id. call outside
         (\<lambda>_. fail (Rich (WithKind KindInternal (WithMessage ''wallet insert error''
                (New ''Repository.CreateWallet'')))))
         (\<lambda>_. ret (uint64 id)))"

definition wallet_Ping :: "(wallet_db, unit) wprog" where
  "wallet_Ping = outside"

definition GetBalance :: "int \<Rightarrow> (wallet_db, int) wprog" where
  "GetBalance walletID = sql_query (select_balance walletID)"

definition wallet_RunInTx :: "(wallet_db, unit) wprog \<Rightarrow> (wallet_db, unit) wprog" where
  "wallet_RunInTx fn =
     call begin_tx fail (\<lambda>snapshot.
     call fn (abandon_tx snapshot) (\<lambda>x.
     call (commit_tx snapshot) fail (\<lambda>_.
     ret x)))"

definition GetBalanceForUpdate :: "int \<Rightarrow> (wallet_db, int) wprog" where
  "GetBalanceForUpdate walletID = sql_query (select_balance walletID)"

definition IncreaseBalance :: "int \<Rightarrow> int \<Rightarrow> (wallet_db, unit) wprog" where
  "IncreaseBalance walletID amount = sql_now (add_balance amount walletID)"

definition DecreaseBalance :: "int \<Rightarrow> int \<Rightarrow> (wallet_db, unit) wprog" where
  "DecreaseBalance walletID amount = sql_now (add_balance (- amount) walletID)"

definition CreateTransaction :: "CreateTransactionRequest \<Rightarrow> (wallet_db, int) wprog" where
  "CreateTransaction req =
     call (sql_now (insert_transaction req)) fail (\<lambda>id.
     call outside fail (\<lambda>_. ret (uint64 id)))"

section \<open>The service\<close>

definition DefaultCurrency :: string where
  "DefaultCurrency = ''IRR''"

definition ErrTransferFailed :: string where
  "ErrTransferFailed = ''filed to transfer''"

definition wallet_IsReady :: "(wallet_db, unit) wprog" where
  "wallet_IsReady =
     call wallet_Ping
       (\<lambda>wErr. fail (Rich (WithKind KindUnavailable (WithMessage ''db down''
                 (WithWrapper (Some wErr) (New ''Service.IsReady''))))))
       ret"

definition InitWallet :: "int \<Rightarrow> (wallet_db, string) wprog" where
  "InitWallet userId =
     call uuid_NewString fail (\<lambda>walletUuid.
     call (CreateWallet \<lparr>cwr_UserID = userId, cwr_UUID = walletUuid, cwr_Balance = 0,
                         cwr_Currency = DefaultCurrency\<rparr>)
       (\<lambda>err. if is_kind KindConflict err
              then fail (Rich (WithKind KindConflict (WithMessage ''wallet already exists''
                     (New ''Service.InitWallet''))))
              else fail (Rich (WithKind KindInternal (WithMessage ''wallet creation failed''
                     (WithWrapper (Some err) (New ''Service.InitWallet''))))))
       (\<lambda>_. ret walletUuid))"

definition transfer_body :: "TransferRequest \<Rightarrow> string \<Rightarrow> (wallet_db, unit) wprog" where
  "transfer_body req operationId =
     call (GetBalanceForUpdate (SourceId req))
       (\<lambda>err. fail (Rich (WithKind KindInternal (WithMessage ErrTransferFailed
                (WithWrapper (Some err) (New ''Service.Transfer'')))))) (\<lambda>sourceBalance.
     if sourceBalance < Amount req then fail (ErrorString ''source balance is too low'')
     else
     call (DecreaseBalance (SourceId req) (Amount req)) fail (\<lambda>_.
     call uuid_NewString fail (\<lambda>ref1.
     call (CreateTransaction \<lparr>ctr_WalletID = SourceId req, ctr_OperationID = operationId,
             ctr_Type = TransferOut, ctr_Amount = Amount req, ctr_ReferenceID = ref1,
             ctr_Description = [], ctr_Status = Completed\<rparr>) fail (\<lambda>_.
     call (IncreaseBalance (DestId req) (Amount req)) fail (\<lambda>_.
     call uuid_NewString fail (\<lambda>ref2.
     call (CreateTransaction \<lparr>ctr_WalletID = DestId req, ctr_OperationID = operationId,
             ctr_Type = TransferIn, ctr_Amount = Amount req, ctr_ReferenceID = ref2,
             ctr_Description = [], ctr_Status = Completed\<rparr>) fail (\<lambda>_.
     ret ())))))))"

definition Transfer ::
  "int \<Rightarrow> TransferRequest \<Rightarrow> (go_error \<times> nat, wallet_db world, TransferResponse \<times> nat) prog" where
  "Transfer userId req =
     call uuid_NewString (\<lambda>e. fail (e, 500)) (\<lambda>operationId.
     call (wallet_RunInTx (transfer_body req operationId))
       (\<lambda>err. fail (err, 500))
       (\<lambda>_. ret (\<lparr>tr_Message = ''Transaction successfully transferred'',
                  tr_OperationID = operationId\<rparr>, 200)))"

end
