(* ===== verification/WalletProps.thy ===== *)
theory WalletProps
  imports Wallet
begin

text \<open>
  Properties of the wallet service: the contract of the account store that
  \<^verbatim>\<open>TxOps\<close> gives to \<^verbatim>\<open>Transfer\<close> (a locale, interpreted on the repository's
  statements), the table invariant, the effect of a transfer on balances and
  ledger, and what happens on every error path.
\<close>

section \<open>Abstract accounts\<close>

definition balance_of :: "wallet_db \<Rightarrow> int \<Rightarrow> int option" where
  "balance_of d i = map_option wal_Balance (find (\<lambda>r. wal_ID r = i) (wallets d))"

definition total_balance :: "wallet_db \<Rightarrow> int" where
  "total_balance d = sum_list (map wal_Balance (wallets d))"

definition wallet_wf :: "wallet_db \<Rightarrow> bool" where
  "wallet_wf d \<longleftrightarrow>
     unique_by wal_ID (wallets d) \<and> unique_by wal_UUID (wallets d) \<and>
     unique_by (\<lambda>r. (wal_UserID r, wal_Currency r)) (wallets d) \<and>
     (\<forall>r \<in> set (wallets d). wal_ID r < wallets_next d \<and> int64_range (wal_Balance r)) \<and>
     unique_by tx_ID (wallet_transactions d) \<and>
     (\<forall>t \<in> set (wallet_transactions d).
        tx_ID t < wallet_transactions_next d \<and> balance_of d (tx_WalletID t) \<noteq> None)"

text \<open>A transfer on abstract accounts: what the service promises.\<close>

definition move :: "int \<Rightarrow> int \<Rightarrow> int \<Rightarrow> (int \<Rightarrow> int option) \<Rightarrow> int \<Rightarrow> int option" where
  "move src dst amount acc =
     (\<lambda>i. map_option (\<lambda>b. b - (if i = src then amount else 0) + (if i = dst then amount else 0)) (acc i))"

text \<open>
  The contract of the account store: \<open>add\<close> shifts one balance, \<open>record_tx\<close> leaves
  the balances alone and accepts existing accounts only.
\<close>

locale account_store =
  fixes bal :: "'d \<Rightarrow> int \<Rightarrow> int option"
    and tot :: "'d \<Rightarrow> int"
    and add :: "int \<Rightarrow> int \<Rightarrow> int \<Rightarrow> 'd \<Rightarrow> go_error + (unit \<times> 'd)"
    and record_tx :: "'r \<Rightarrow> int \<Rightarrow> 'd \<Rightarrow> go_error + (int \<times> 'd)"
    and account :: "'r \<Rightarrow> int"
    and invar :: "'d \<Rightarrow> bool"
  assumes add_bal: "add delta i n d = Inr (u, d') \<Longrightarrow>
      bal d' = (\<lambda>j. map_option (\<lambda>b. b + (if j = i then delta else 0)) (bal d j))"
    and add_tot: "invar d \<Longrightarrow> bal d i \<noteq> None \<Longrightarrow> add delta i n d = Inr (u, d') \<Longrightarrow>
      tot d' = tot d + delta"
    and add_invar: "invar d \<Longrightarrow> add delta i n d = Inr (u, d') \<Longrightarrow> invar d'"
    and record_frame: "record_tx r n d = Inr (k, d') \<Longrightarrow> bal d' = bal d \<and> tot d' = tot d"
    and record_exists: "record_tx r n d = Inr (k, d') \<Longrightarrow> bal d (account r) \<noteq> None"
    and record_invar: "invar d \<Longrightarrow> record_tx r n d = Inr (k, d') \<Longrightarrow> invar d'"
begin

lemma add_keeps_accounts:
  "add delta i n d = Inr (u, d') \<Longrightarrow> bal d' j = None \<longleftrightarrow> bal d j = None"
  by (simp add: add_bal)

lemma two_step_bal:
  assumes "add (- a) s n1 d = Inr (u1, d1)" "record_tx r1 n2 d1 = Inr (k1, d2)"
    "add a t n3 d2 = Inr (u2, d3)" "record_tx r2 n4 d3 = Inr (k2, d4)"
  shows "bal d4 = move s t a (bal d)"
proof -
  have "bal d4 = bal d3" "bal d2 = bal d1"
    using record_frame assms(2,4) by blast+
  then show ?thesis
    using add_bal [OF assms(1)] add_bal [OF assms(3)]
    by (auto simp: move_def fun_eq_iff option.map_comp o_def)
qed

lemma two_step_invar:
  assumes "invar d" "add (- a) s n1 d = Inr (u1, d1)" "record_tx r1 n2 d1 = Inr (k1, d2)"
    "add a t n3 d2 = Inr (u2, d3)" "record_tx r2 n4 d3 = Inr (k2, d4)"
  shows "invar d1 \<and> invar d2 \<and> invar d3 \<and> invar d4"
  using assms add_invar record_invar by metis

lemma two_step_tot:
  assumes "invar d" "account r1 = s" "account r2 = t"
    "add (- a) s n1 d = Inr (u1, d1)" "record_tx r1 n2 d1 = Inr (k1, d2)"
    "add a t n3 d2 = Inr (u2, d3)" "record_tx r2 n4 d3 = Inr (k2, d4)"
  shows "tot d4 = tot d"
proof -
  have inv: "invar d1" "invar d2" "invar d3"
    using two_step_invar [OF assms(1,4-7)] by simp_all
  have "bal d s \<noteq> None"
    using record_exists [OF assms(5)] add_keeps_accounts [OF assms(4), of s] assms(2) by simp
  then have 1: "tot d1 = tot d - a"
    using add_tot [OF assms(1) _ assms(4)] by simp
  have "bal d2 t \<noteq> None"
    using record_exists [OF assms(7)] add_keeps_accounts [OF assms(6), of t] assms(3) by simp
  then have 2: "tot d3 = tot d2 + a"
    using add_tot [OF inv(2) _ assms(6)] by simp
  show ?thesis
    using 1 2 record_frame [OF assms(5)] record_frame [OF assms(7)] by simp
qed

end

section \<open>The repository's statements meet the contract\<close>

lemma set_balance_simps [simp]:
  "wal_ID (set_balance n b r) = wal_ID r"
  "wal_UUID (set_balance n b r) = wal_UUID r"
  "wal_UserID (set_balance n b r) = wal_UserID r"
  "wal_Currency (set_balance n b r) = wal_Currency r"
  "wal_Balance (set_balance n b r) = b"
  by (auto simp: set_balance_def)

lemma find_update_where_id:
  "find (\<lambda>r. wal_ID r = j) (update_where (\<lambda>r. wal_ID r = i) (\<lambda>r. set_balance n (f r) r) rs) =
   map_option (\<lambda>r. if j = i then set_balance n (f r) r else r) (find (\<lambda>r. wal_ID r = j) rs)"
  by (induction rs) auto

lemma add_balance_balance_of:
  "add_balance delta i n d = Inr (u, d') \<Longrightarrow>
   balance_of d' = (\<lambda>j. map_option (\<lambda>b. b + (if j = i then delta else 0)) (balance_of d j))"
  by (auto simp: add_balance_def balance_of_def find_update_where_id fun_eq_iff option.map_comp
      o_def split: if_splits)

lemma sum_update_where:
  "unique_by wal_ID rs \<Longrightarrow> find (\<lambda>r. wal_ID r = i) rs \<noteq> None \<Longrightarrow>
   sum_list (map wal_Balance
     (update_where (\<lambda>r. wal_ID r = i) (\<lambda>r. set_balance n (wal_Balance r + delta) r) rs)) =
   sum_list (map wal_Balance rs) + delta"
proof (induction rs)
  case (Cons r rs)
  show ?case
  proof (cases "wal_ID r = i")
    case True
    then have "update_where (\<lambda>r. wal_ID r = i) (\<lambda>r. set_balance n (wal_Balance r + delta) r) rs = rs"
      using Cons.prems(1) by (intro update_where_none) auto
    then show ?thesis using True by simp
  next
    case False
    then show ?thesis using Cons by simp
  qed
qed simp

lemma add_balance_total:
  "wallet_wf d \<Longrightarrow> balance_of d i \<noteq> None \<Longrightarrow> add_balance delta i n d = Inr (u, d') \<Longrightarrow>
   total_balance d' = total_balance d + delta"
  by (auto simp: add_balance_def total_balance_def wallet_wf_def balance_of_def sum_update_where
      split: if_splits)

lemma add_balance_wf:
  assumes "wallet_wf d" "add_balance delta i n d = Inr (u, d')"
  shows "wallet_wf d'"
proof -
  have d': "d' = d\<lparr>wallets := update_where (\<lambda>r. wal_ID r = i)
      (\<lambda>r. set_balance n (wal_Balance r + delta) r) (wallets d)\<rparr>"
    and rng: "\<forall>r \<in> set (wallets d). wal_ID r = i \<longrightarrow> int64_range (wal_Balance r + delta)"
    using assms(2) by (auto simp: add_balance_def split: if_splits)
  have "balance_of d' j = None \<longleftrightarrow> balance_of d j = None" for j
    using add_balance_balance_of [OF assms(2)] by simp
  then show ?thesis
    using assms(1) rng unfolding wallet_wf_def
    by (auto simp: d' unique_by_update_where set_update_where)
qed

lemma insert_transaction_frame:
  "insert_transaction r n d = Inr (k, d') \<Longrightarrow> wallets d' = wallets d \<and> wallets_next d' = wallets_next d"
  by (auto simp: insert_transaction_def split: if_splits)

lemma insert_transaction_wf:
  assumes "wallet_wf d" "insert_transaction r n d = Inr (k, d')"
  shows "wallet_wf d'"
proof -
  have "balance_of d' = balance_of d"
    using insert_transaction_frame [OF assms(2)] by (simp add: balance_of_def fun_eq_iff)
  moreover have "\<exists>r' \<in> set (wallets d). wal_ID r' = ctr_WalletID r"
    using assms(2) by (auto simp: insert_transaction_def split: if_splits)
  then have "balance_of d (ctr_WalletID r) \<noteq> None"
    by (auto simp: balance_of_def find_None_iff)
  ultimately show ?thesis
    using assms by (force simp: wallet_wf_def insert_transaction_def unique_by_snoc split: if_splits)
qed

interpretation wal: account_store balance_of total_balance add_balance insert_transaction
  ctr_WalletID wallet_wf
proof unfold_locales
  fix r n d k d'
  assume ins: "insert_transaction r n d = Inr (k, d')"
  show "balance_of d' = balance_of d \<and> total_balance d' = total_balance d"
    using insert_transaction_frame [OF ins]
    by (simp add: balance_of_def total_balance_def fun_eq_iff)
  show "balance_of d (ctr_WalletID r) \<noteq> None"
    using ins by (auto simp: insert_transaction_def balance_of_def find_None_iff split: if_splits)
qed (auto intro: add_balance_balance_of add_balance_total add_balance_wf insert_transaction_wf)

section \<open>The repository keeps the table invariant\<close>

lemma insert_wallet_wf:
  assumes "wallet_wf d" "insert_wallet req n d = Inr (k, d')" "int64_range (cwr_Balance req)"
  shows "wallet_wf d'"
proof -
  have "balance_of d j \<noteq> None \<Longrightarrow> balance_of d' j \<noteq> None" for j
    using assms(2) by (auto simp: insert_wallet_def balance_of_def find_None_iff split: if_splits)
  then show ?thesis
    using assms by (force simp: wallet_wf_def insert_wallet_def unique_by_snoc split: if_splits)
qed

lemma keeps_CreateWallet [keep_rules]:
  "int64_range (cwr_Balance req) \<Longrightarrow> keeps_db wallet_wf (CreateWallet req)"
  unfolding CreateWallet_def by (intro keep_rules keeps_sql_now) (rule insert_wallet_wf)

lemma keeps_InitWallet [keep_rules]: "keeps_db wallet_wf (InitWallet userId)"
  unfolding InitWallet_def by (intro keep_rules) (simp add: int64_range_def)

section \<open>What a transfer does\<close>

lemma CreateTransaction_Inr:
  assumes "CreateTransaction req w = (Inr k, w')"
  shows "\<exists>i. insert_transaction req (clock w) (db w) = Inr (i, db w') \<and>
    open_tx w' = open_tx w \<and> clock w' = clock w \<and> sent w' = sent w"
  using assms unfolding CreateTransaction_def
  by (elim call_fail_Inr) (auto simp: outside_def dest!: sql_now_Inr_cases split: option.splits)

abbreviation debit_entry :: "TransferRequest \<Rightarrow> string \<Rightarrow> string \<Rightarrow> CreateTransactionRequest" where
  "debit_entry req opId ref \<equiv> \<lparr>ctr_WalletID = SourceId req, ctr_OperationID = opId,
     ctr_Type = TransferOut, ctr_Amount = Amount req, ctr_ReferenceID = ref,
     ctr_Description = [], ctr_Status = Completed\<rparr>"

abbreviation credit_entry :: "TransferRequest \<Rightarrow> string \<Rightarrow> string \<Rightarrow> CreateTransactionRequest" where
  "credit_entry req opId ref \<equiv> \<lparr>ctr_WalletID = DestId req, ctr_OperationID = opId,
     ctr_Type = TransferIn, ctr_Amount = Amount req, ctr_ReferenceID = ref,
     ctr_Description = [], ctr_Status = Completed\<rparr>"

text \<open>The four statements of a successful body, as a chain of table states.\<close>

definition transfer_chain ::
  "TransferRequest \<Rightarrow> string \<Rightarrow> int \<Rightarrow> int \<Rightarrow> int \<Rightarrow> int \<Rightarrow> string \<Rightarrow> string \<Rightarrow> wallet_db \<Rightarrow> wallet_db \<Rightarrow> bool" where
  "transfer_chain req opId n1 n2 n3 n4 ref1 ref2 d d4 \<longleftrightarrow>
     (\<exists>d1 d2 d3 u1 u2 k1 k2.
        add_balance (- Amount req) (SourceId req) n1 d = Inr (u1, d1) \<and>
        insert_transaction (debit_entry req opId ref1) n2 d1 = Inr (k1, d2) \<and>
        add_balance (Amount req) (DestId req) n3 d2 = Inr (u2, d3) \<and>
        insert_transaction (credit_entry req opId ref2) n4 d3 = Inr (k2, d4))"

abbreviation transfer_steps ::
  "TransferRequest \<Rightarrow> string \<Rightarrow> int \<Rightarrow> string \<Rightarrow> string \<Rightarrow> wallet_db \<Rightarrow> wallet_db \<Rightarrow> bool" where
  "transfer_steps req opId n \<equiv> transfer_chain req opId n n n n"

lemma select_balance_balance_of:
  "select_balance i d = Inr b \<longleftrightarrow> balance_of d i = Some b"
  by (auto simp: select_balance_def balance_of_def split: option.splits)

lemma transfer_body_Inr:
  assumes "transfer_body req opId w = (Inr (), w')"
  shows "\<exists>b ref1 ref2. balance_of (db w) (SourceId req) = Some b \<and> Amount req \<le> b \<and>
           transfer_steps req opId (clock w) ref1 ref2 (db w) (db w') \<and> open_tx w' = open_tx w"
  using assms unfolding transfer_body_def GetBalanceForUpdate_def DecreaseBalance_def IncreaseBalance_def
  apply (elim call_fail_Inr)
  apply (clarsimp split: if_splits)
  apply (elim call_fail_Inr)
  apply (clarsimp simp: uuid_NewString_def select_balance_balance_of dest!: sql_query_Inr_cases
      sql_now_Inr_cases CreateTransaction_Inr)
  apply (simp add: transfer_chain_def)
  apply blast
  done

lemma wallet_RunInTx_eq: "wallet_RunInTx = run_in_tx"
  by (rule ext) (simp add: wallet_RunInTx_def run_in_tx_def)

lemma tx_neutral_transfer_body: "tx_neutral (transfer_body req opId)"
  unfolding transfer_body_def GetBalanceForUpdate_def DecreaseBalance_def IncreaseBalance_def
    CreateTransaction_def
  by (intro tx_rules)

text \<open>Success and failure of \<^verbatim>\<open>Transfer\<close>, in terms of the tables only.\<close>

lemma Transfer_Inr:
  assumes "Transfer userId req w = (Inr (resp, c), w')"
  shows "\<exists>b ref1 ref2. balance_of (db w) (SourceId req) = Some b \<and> Amount req \<le> b \<and>
           transfer_steps req (tr_OperationID resp) (clock w) ref1 ref2 (db w) (db w') \<and>
           c = 200 \<and> open_tx w' = open_tx w"
  using assms unfolding Transfer_def wallet_RunInTx_eq
  apply (elim call_fail_Inr)
  apply (clarsimp simp: uuid_NewString_def dest!: run_in_tx_Inr)
  apply (drule transfer_body_Inr)
  apply clarsimp
  apply blast
  done

lemma Transfer_Inl:
  assumes "Transfer userId req w = (Inl (e, c), w')"
  shows "db w' = db w \<and> c = 500"
  using assms unfolding Transfer_def wallet_RunInTx_eq
  by (auto simp: uuid_NewString_def call_def split: prod.splits sum.splits
      dest!: run_in_tx_Inl [OF _ tx_neutral_transfer_body])

lemmas transfer_cases = Transfer_Inr Transfer_Inl

lemma transfer_steps_balance:
  "transfer_chain req opId n1 n2 n3 n4 ref1 ref2 d d' \<Longrightarrow>
   balance_of d' = move (SourceId req) (DestId req) (Amount req) (balance_of d)"
  unfolding transfer_chain_def by (elim exE conjE) (rule wal.two_step_bal)

lemma transfer_steps_wf:
  "transfer_chain req opId n1 n2 n3 n4 ref1 ref2 d d' \<Longrightarrow> wallet_wf d \<Longrightarrow> wallet_wf d'"
  unfolding transfer_chain_def using wal.two_step_invar by blast

lemma transfer_steps_total:
  assumes "transfer_chain req opId n1 n2 n3 n4 ref1 ref2 d d'" "wallet_wf d"
  shows "total_balance d' = total_balance d"
  using assms(1) unfolding transfer_chain_def
  by (elim exE conjE) (rule wal.two_step_tot [OF assms(2)]; simp)

lemma transfer_steps_dest:
  assumes "transfer_chain req opId n1 n2 n3 n4 ref1 ref2 d d'"
  shows "balance_of d (DestId req) \<noteq> None"
proof -
  obtain d3 r k where "insert_transaction r n4 d3 = Inr (k, d')" "ctr_WalletID r = DestId req"
    using assms unfolding transfer_chain_def
    by (elim exE conjE) (auto intro: that [of "credit_entry req opId ref2"])
  then have "balance_of d' (DestId req) \<noteq> None"
    using wal.record_exists wal.record_frame by metis
  then show ?thesis
    using transfer_steps_balance [OF assms] by (auto simp: move_def)
qed

text \<open>
  C1. A transfer implements its abstract specification. On success the source
  account existed and held at least the amount, the destination existed, and the
  balances of all accounts are those of \<^const>\<open>move\<close>; on any error (driver failure at any
  statement, unknown wallet, low balance, range overflow) the tables are untouched and
  the status is 500.
\<close>

theorem Transfer_refines_move:
  "case Transfer userId req w of
     (Inr (resp, code), w') \<Rightarrow>
       code = 200 \<and>
       (\<exists>b. balance_of (db w) (SourceId req) = Some b \<and> Amount req \<le> b) \<and>
       balance_of (db w) (DestId req) \<noteq> None \<and>
       balance_of (db w') = move (SourceId req) (DestId req) (Amount req) (balance_of (db w))
   | (Inl (err, code), w') \<Rightarrow> db w' = db w \<and> code = 500"
proof (cases "Transfer userId req w")
  case (Pair r w')
  then show ?thesis
    by (cases r) (auto dest: Transfer_Inl Transfer_Inr transfer_steps_balance transfer_steps_dest
        split: prod.splits)
qed

text \<open>
  C2. No transfer request creates or destroys money: whatever the request and
  whatever driver calls fail, the table invariant is kept and the sum of all balances
  stays the same.
\<close>

theorem Transfer_conserves_money:
  assumes "wallet_wf (db w)"
  shows "total_balance (db (snd (Transfer userId req w))) = total_balance (db w) \<and>
         wallet_wf (db (snd (Transfer userId req w)))"
proof (cases "Transfer userId req w")
  case (Pair r w')
  then show ?thesis
    using assms by (cases r) (auto dest: Transfer_Inl Transfer_Inr transfer_steps_total transfer_steps_wf)
qed

text \<open>Two wallets, with their ledger, for the concrete instances below.\<close>

definition sample_wallet :: "int \<Rightarrow> int \<Rightarrow> Wallet" where
  "sample_wallet i b = \<lparr>wal_ID = i, wal_UUID = int_to_string i, wal_UserID = i, wal_Balance = b,
     wal_Currency = DefaultCurrency, wal_CreatedAt = 0, wal_UpdatedAt = 0\<rparr>"

definition sample_tx :: "int \<Rightarrow> TransactionType \<Rightarrow> int \<Rightarrow> int \<Rightarrow> Transaction" where
  "sample_tx i ty wid amount = \<lparr>tx_ID = i, tx_WalletID = wid, tx_OperationID = ''op'', tx_Type = ty,
     tx_Amount = amount, tx_ReferenceID = ''ref'', tx_Description = [], tx_Status = Completed,
     tx_CreatedAt = 0\<rparr>"

definition sample_db :: wallet_db where
  "sample_db = \<lparr>wallets = [sample_wallet 1 100, sample_wallet 2 5], wallets_next = 3,
     wallet_transactions = [sample_tx 1 Deposit 1 100, sample_tx 2 Deposit 2 5],
     wallet_transactions_next = 3, wallet_processed_messages = []\<rparr>"

lemmas sample_simps = sample_db_def sample_wallet_def sample_tx_def

lemma sample_balance: "balance_of sample_db i = (if i = 1 then Some 100 else if i = 2 then Some 5 else None)"
  by (simp add: balance_of_def sample_simps)

lemma sample_db_wf: "wallet_wf sample_db"
  by (simp add: wallet_wf_def sample_simps balance_of_def int64_range_def int_to_string_inj)

theorem Transfer_conserves_money_witness:
  "wallet_wf (db (quiet_world sample_db)) \<and>
   total_balance (db (snd (Transfer 0 \<lparr>SourceId = 1, DestId = 2, Amount = 30\<rparr> (quiet_world sample_db)))) = 105"
  using Transfer_conserves_money [of "quiet_world sample_db" 0 "\<lparr>SourceId = 1, DestId = 2, Amount = 30\<rparr>"]
    sample_db_wf
  by (simp add: total_balance_def sample_simps)

section \<open>A transfer that can be made is made\<close>

lemma balance_of_existsI: "balance_of d i = Some b \<Longrightarrow> \<exists>r \<in> set (wallets d). wal_ID r = i"
  by (auto simp: balance_of_def dest: find_SomeD)

lemma wf_row_balance:
  "wallet_wf d \<Longrightarrow> r \<in> set (wallets d) \<Longrightarrow> balance_of d (wal_ID r) = Some (wal_Balance r)"
  by (simp add: wallet_wf_def balance_of_def unique_by_find)

lemma add_balance_Inr:
  assumes "wallet_wf d" "balance_of d i = Some b" "int64_range (b + delta)"
  shows "\<exists>d'. add_balance delta i n d = Inr ((), d')"
proof -
  have "wal_Balance r = b" if "r \<in> set (wallets d)" "wal_ID r = i" for r
    using wf_row_balance [OF assms(1) that(1)] that(2) assms(2) by simp
  then show ?thesis using assms(3) by (auto simp: add_balance_def)
qed

lemma insert_transaction_Inr:
  "balance_of d (ctr_WalletID r) = Some b \<Longrightarrow> \<exists>k d'. insert_transaction r n d = Inr (k, d')"
  using balance_of_existsI [of d "ctr_WalletID r" b] by (simp add: insert_transaction_def)

lemma CreateTransaction_ok:
  assumes "fault w = (\<lambda>_. None)" "insert_transaction r (clock w) (db w) = Inr (k, d)"
  shows "CreateTransaction r w =
    (Inr (uint64 k), w\<lparr>calls := Suc (Suc (calls w)), db := d\<rparr>)"
  using assms by (simp add: CreateTransaction_def call_def sql_now_ok outside_def)

lemma transfer_body_ok:
  assumes "fault w = (\<lambda>_. None)" "balance_of (db w) (SourceId req) = Some b" "Amount req \<le> b"
    and "transfer_steps req opId (clock w) (uuid_src w (uuids w)) (uuid_src w (Suc (uuids w))) (db w) d4"
  shows "\<exists>w'. transfer_body req opId w = (Inr (), w') \<and> fault w' = (\<lambda>_. None) \<and> db w' = d4"
proof -
  have "select_balance (SourceId req) (db w) = Inr b"
    using assms(2) by (simp add: select_balance_balance_of)
  then show ?thesis
    using assms(1,3,4) unfolding transfer_chain_def transfer_body_def GetBalanceForUpdate_def
      DecreaseBalance_def IncreaseBalance_def
    by (auto simp: call_def sql_query_ok sql_now_ok uuid_NewString_def CreateTransaction_ok)
qed

lemma transfer_steps_exist:
  assumes wf: "wallet_wf d" and s: "balance_of d (SourceId req) = Some b"
    and t: "balance_of d (DestId req) = Some c"
    and rng: "int64_range (b - Amount req)" "int64_range (c + Amount req)"
    and ne: "SourceId req \<noteq> DestId req"
  shows "\<exists>d4. transfer_steps req opId n ref1 ref2 d d4"
proof -
  obtain d1 where 1: "add_balance (- Amount req) (SourceId req) n d = Inr ((), d1)"
    using add_balance_Inr [OF wf s, of "- Amount req"] rng by auto
  have b1: "balance_of d1 (SourceId req) = Some (b - Amount req)" "balance_of d1 (DestId req) = Some c"
    using add_balance_balance_of [OF 1] s t ne by auto
  obtain k1 d2 where 2: "insert_transaction (debit_entry req opId ref1) n d1 = Inr (k1, d2)"
    using insert_transaction_Inr [of d1 "debit_entry req opId ref1" "b - Amount req" n] b1(1) by auto
  have wf2: "wallet_wf d2" "balance_of d2 = balance_of d1"
    using insert_transaction_wf [OF add_balance_wf [OF wf 1] 2] wal.record_frame [OF 2] by auto
  obtain d3 where 3: "add_balance (Amount req) (DestId req) n d2 = Inr ((), d3)"
    using add_balance_Inr [OF wf2(1), of "DestId req" c "Amount req" n] wf2(2) b1(2) rng(2) by auto
  have "balance_of d3 (DestId req) = Some (c + Amount req)"
    using add_balance_balance_of [OF 3] wf2(2) b1(2) by simp
  then obtain k2 d4 where "insert_transaction (credit_entry req opId ref2) n d3 = Inr (k2, d4)"
    using insert_transaction_Inr [of d3 "credit_entry req opId ref2" "c + Amount req" n] by auto
  with 1 2 3 show ?thesis unfolding transfer_chain_def by blast
qed

lemma Transfer_runs:
  assumes "wallet_wf (db w)" "fault_free w"
    and "balance_of (db w) (SourceId req) = Some b" "Amount req \<le> b"
    and "balance_of (db w) (DestId req) = Some c" "SourceId req \<noteq> DestId req"
    and "int64_range (b - Amount req)" "int64_range (c + Amount req)"
  shows "\<exists>resp w'. Transfer userId req w = (Inr (resp, 200), w')"
proof -
  let ?w = "after_begin (w\<lparr>uuids := Suc (uuids w)\<rparr>)"
  have ff: "fault w = (\<lambda>_. None)" using assms(2) by (simp add: fault_free_def)
  obtain d4 where "transfer_steps req (uuid_src w (uuids w)) (clock ?w) (uuid_src ?w (uuids ?w))
      (uuid_src ?w (Suc (uuids ?w))) (db ?w) d4"
    using transfer_steps_exist assms by fastforce
  then obtain w' where "transfer_body req (uuid_src w (uuids w)) ?w = (Inr (), w')"
      "fault w' = (\<lambda>_. None)"
    using transfer_body_ok [of ?w req b] ff assms(3,4) by auto
  then have "run_in_tx (transfer_body req (uuid_src w (uuids w))) (w\<lparr>uuids := Suc (uuids w)\<rparr>) =
      (Inr (), w'\<lparr>calls := Suc (calls w'), open_tx := open_tx w' - 1\<rparr>)"
    using ff by (intro run_in_tx_ok) auto
  then show ?thesis
    by (simp add: Transfer_def wallet_RunInTx_eq call_def uuid_NewString_def)
qed

text \<open>
  When no driver call fails, a transfer between two different wallets whose
  source holds the amount, and whose new balances fit the BIGINT column, succeeds with
  status 200.
\<close>

theorem Transfer_succeeds:
  assumes "wallet_wf (db w)" "fault_free w"
    and "balance_of (db w) (SourceId req) = Some b" "Amount req \<le> b"
    and "balance_of (db w) (DestId req) = Some c" "SourceId req \<noteq> DestId req"
    and "int64_range (b - Amount req)" "int64_range (c + Amount req)"
  shows "\<exists>resp w'. Transfer userId req w = (Inr (resp, 200), w')"
  using assms by (rule Transfer_runs)

theorem Transfer_succeeds_witness:
  "wallet_wf sample_db \<and> fault_free (quiet_world sample_db) \<and>
   (\<exists>resp w'. Transfer 0 \<lparr>SourceId = 1, DestId = 2, Amount = 30\<rparr> (quiet_world sample_db) = (Inr (resp, 200), w'))"
  using Transfer_succeeds [of "quiet_world sample_db" "\<lparr>SourceId = 1, DestId = 2, Amount = 30\<rparr>" 100 5 0]
    sample_db_wf
  by (simp add: fault_free_def sample_simps balance_of_def int64_range_def)

section \<open>The ledger explains the balances\<close>

definition tx_effect :: "Transaction \<Rightarrow> int" where
  "tx_effect t =
     (if tx_Status t \<noteq> Completed then 0
      else (case tx_Type t of Deposit \<Rightarrow> tx_Amount t | TransferIn \<Rightarrow> tx_Amount t
            | Withdraw \<Rightarrow> - tx_Amount t | Fee \<Rightarrow> - tx_Amount t | TransferOut \<Rightarrow> - tx_Amount t))"

definition ledger_balance :: "Transaction list \<Rightarrow> int \<Rightarrow> int" where
  "ledger_balance ts i = sum_list (map tx_effect (filter (\<lambda>t. tx_WalletID t = i) ts))"

definition reconciled :: "wallet_db \<Rightarrow> bool" where
  "reconciled d \<longleftrightarrow>
     (\<forall>i b. balance_of d i = Some b \<longrightarrow> b = ledger_balance (wallet_transactions d) i)"

lemma ledger_balance_append [simp]:
  "ledger_balance (ts @ us) i = ledger_balance ts i + ledger_balance us i"
  by (simp add: ledger_balance_def)

lemma add_balance_transactions:
  "add_balance delta i n d = Inr (u, d') \<Longrightarrow> wallet_transactions d' = wallet_transactions d"
  by (auto simp: add_balance_def split: if_splits)

lemma insert_transaction_ledger:
  "insert_transaction r n d = Inr (k, d') \<Longrightarrow>
   \<exists>t. wallet_transactions d' = wallet_transactions d @ [t] \<and> tx_WalletID t = ctr_WalletID r \<and>
       tx_Type t = ctr_Type r \<and> tx_Amount t = ctr_Amount r \<and> tx_Status t = ctr_Status r \<and>
       tx_OperationID t = ctr_OperationID r"
  by (auto simp: insert_transaction_def split: if_splits)

lemma transfer_steps_ledger:
  assumes "transfer_chain req opId n1 n2 n3 n4 ref1 ref2 d d'"
  shows "\<exists>t1 t2. wallet_transactions d' = wallet_transactions d @ [t1, t2] \<and>
           tx_WalletID t1 = SourceId req \<and> tx_effect t1 = - Amount req \<and>
           tx_WalletID t2 = DestId req \<and> tx_effect t2 = Amount req \<and>
           tx_OperationID t1 = opId \<and> tx_OperationID t2 = opId"
proof -
  obtain d1 d2 d3 u1 u2 k1 k2 where
    "add_balance (- Amount req) (SourceId req) n1 d = Inr (u1, d1)"
    and i1: "insert_transaction (debit_entry req opId ref1) n2 d1 = Inr (k1, d2)"
    and "add_balance (Amount req) (DestId req) n3 d2 = Inr (u2, d3)"
    and i2: "insert_transaction (credit_entry req opId ref2) n4 d3 = Inr (k2, d')"
    using assms unfolding transfer_chain_def by blast
  then have "wallet_transactions d1 = wallet_transactions d" "wallet_transactions d3 = wallet_transactions d2"
    by (auto dest: add_balance_transactions)
  then show ?thesis
    using insert_transaction_ledger [OF i1] insert_transaction_ledger [OF i2]
    by (force simp: tx_effect_def)
qed

lemma transfer_steps_reconciled:
  assumes "transfer_chain req opId n1 n2 n3 n4 ref1 ref2 d d'" "reconciled d"
  shows "reconciled d'"
proof -
  obtain t1 t2 where ts: "wallet_transactions d' = wallet_transactions d @ [t1, t2]"
    "tx_WalletID t1 = SourceId req" "tx_effect t1 = - Amount req"
    "tx_WalletID t2 = DestId req" "tx_effect t2 = Amount req"
    using transfer_steps_ledger [OF assms(1)] by blast
  have l: "ledger_balance [t1, t2] i =
      (if i = DestId req then Amount req else 0) - (if i = SourceId req then Amount req else 0)" for i
    using ts by (simp add: ledger_balance_def)
  show ?thesis
    using assms(2) transfer_steps_balance [OF assms(1)]
    by (auto simp: reconciled_def ts(1) l move_def)
qed

lemma find_snoc: "find p (rs @ [r]) = (case find p rs of Some x \<Rightarrow> Some x | None \<Rightarrow> if p r then Some r else None)"
  by (induction rs) auto

lemma insert_wallet_balance:
  assumes "wallet_wf d" "insert_wallet req n d = Inr (k, d')"
  shows "balance_of d' = (balance_of d)(wallets_next d \<mapsto> cwr_Balance req)"
proof -
  have "balance_of d (wallets_next d) = None"
    using assms(1) by (force simp: wallet_wf_def balance_of_def find_None_iff)
  then show ?thesis
    using assms(2) by (auto simp: insert_wallet_def balance_of_def find_snoc fun_eq_iff split: if_splits option.splits)
qed

lemma insert_wallet_reconciled:
  assumes "wallet_wf d" "reconciled d" "insert_wallet req n d = Inr (k, d')" "cwr_Balance req = 0"
  shows "reconciled d'"
proof -
  have fresh: "ledger_balance (wallet_transactions d) (wallets_next d) = 0"
  proof -
    have "tx_WalletID t \<noteq> wallets_next d" if "t \<in> set (wallet_transactions d)" for t
      using assms(1) that by (fastforce simp: wallet_wf_def balance_of_def dest: find_SomeD)
    then have "filter (\<lambda>t. tx_WalletID t = wallets_next d) (wallet_transactions d) = []"
      by (simp add: filter_empty_conv)
    then show ?thesis by (simp add: ledger_balance_def)
  qed
  have b: "balance_of d' = (balance_of d)(wallets_next d \<mapsto> 0)"
    using insert_wallet_balance [OF assms(1,3)] assms(4) by simp
  have "wallet_transactions d' = wallet_transactions d"
    using assms(3) by (auto simp: insert_wallet_def split: if_splits)
  then show ?thesis
    using assms(2) fresh by (auto simp: reconciled_def b split: if_splits)
qed

abbreviation books :: "wallet_db \<Rightarrow> bool" where
  "books d \<equiv> wallet_wf d \<and> reconciled d"

lemma keeps_InitWallet_books: "keeps_db books (InitWallet userId)"
proof -
  have "keeps_db books (CreateWallet req)" if "cwr_Balance req = 0" for req
    unfolding CreateWallet_def
    by (intro keep_rules keeps_sql_now)
       (use that in \<open>auto intro: insert_wallet_wf insert_wallet_reconciled simp: int64_range_def\<close>)
  then show ?thesis
    unfolding InitWallet_def by (intro keep_rules) simp
qed

text \<open>
  C3. The ledger explains every balance: if each wallet's balance is the sum of its
  completed ledger entries, this is still so after a transfer and after a wallet is
  created, under every pattern of driver failures.
\<close>

theorem ledger_reconciles:
  assumes "wallet_wf (db w)" "reconciled (db w)"
  shows "reconciled (db (snd (Transfer userId req w))) \<and>
         reconciled (db (snd (InitWallet userId w)))"
proof
  show "reconciled (db (snd (Transfer userId req w)))"
  proof (cases "Transfer userId req w")
    case (Pair r w')
    then show ?thesis
      using assms(2) by (cases r) (auto dest: Transfer_Inl Transfer_Inr transfer_steps_reconciled)
  qed
  show "reconciled (db (snd (InitWallet userId w)))"
    using keepsD [OF keeps_InitWallet_books] assms by blast
qed

lemma sample_db_reconciled: "reconciled sample_db"
  by (auto simp: reconciled_def sample_simps balance_of_def ledger_balance_def tx_effect_def
      split: if_splits)

theorem ledger_reconciles_witness:
  "wallet_wf (db (quiet_world sample_db)) \<and> reconciled (db (quiet_world sample_db)) \<and>
   reconciled (db (snd (Transfer 0 \<lparr>SourceId = 1, DestId = 2, Amount = 30\<rparr> (quiet_world sample_db))))"
  using ledger_reconciles [of "quiet_world sample_db" 0 "\<lparr>SourceId = 1, DestId = 2, Amount = 30\<rparr>"]
    sample_db_wf sample_db_reconciled
  by simp

section \<open>Overdrafts\<close>

definition no_overdraft :: "wallet_db \<Rightarrow> bool" where
  "no_overdraft d \<longleftrightarrow> (\<forall>i b. balance_of d i = Some b \<longrightarrow> 0 \<le> b)"

text \<open>
  C4. No overdraft for a request with a non-negative amount: if no wallet is in debt
  before a transfer, none is afterwards.
\<close>

theorem Transfer_no_overdraft:
  assumes "no_overdraft (db w)" "0 \<le> Amount req"
  shows "no_overdraft (db (snd (Transfer userId req w)))"
proof (cases "Transfer userId req w")
  case (Pair r w')
  show ?thesis
  proof (cases r)
    case (Inl e)
    then show ?thesis using Pair assms(1) by (cases e) (auto dest: Transfer_Inl)
  next
    case (Inr x)
    then obtain b ref1 ref2 opId where
      "balance_of (db w) (SourceId req) = Some b" "Amount req \<le> b"
      "transfer_steps req opId (clock w) ref1 ref2 (db w) (db w')"
      using Pair by (cases x) (auto dest!: Transfer_Inr)
    then show ?thesis
      using assms Pair transfer_steps_balance by (force simp: no_overdraft_def move_def)
  qed
qed

theorem Transfer_no_overdraft_witness:
  "no_overdraft (db (quiet_world sample_db)) \<and>
   no_overdraft (db (snd (Transfer 0 \<lparr>SourceId = 1, DestId = 2, Amount = 30\<rparr> (quiet_world sample_db))))"
proof -
  have "no_overdraft (db (quiet_world sample_db))"
    by (simp add: no_overdraft_def sample_simps balance_of_def)
  then show ?thesis
    using Transfer_no_overdraft [of "quiet_world sample_db" "\<lparr>SourceId = 1, DestId = 2, Amount = 30\<rparr>" 0]
    by simp
qed


section \<open>Wallet creation\<close>

definition wallets_of_user :: "wallet_db \<Rightarrow> int \<Rightarrow> Wallet list" where
  "wallets_of_user d u = filter (\<lambda>r. wal_UserID r = u \<and> wal_Currency r = DefaultCurrency) (wallets d)"

lemma InitWallet_ok:
  assumes "fault w = (\<lambda>_. None)"
  shows "InitWallet u w =
    (case insert_wallet \<lparr>cwr_UserID = u, cwr_UUID = uuid_src w (uuids w), cwr_Balance = 0,
        cwr_Currency = DefaultCurrency\<rparr> (clock w) (db w) of
       Inl e \<Rightarrow> (Inl (Rich (WithKind KindConflict (WithMessage ''wallet already exists'' (New ''Service.InitWallet'')))),
                 w\<lparr>uuids := Suc (uuids w), calls := Suc (calls w)\<rparr>)
     | Inr (i, d) \<Rightarrow> (Inr (uuid_src w (uuids w)),
                      w\<lparr>uuids := Suc (uuids w), calls := Suc (Suc (calls w)), db := d\<rparr>))"
  using assms
  by (auto simp: InitWallet_def CreateWallet_def call_def uuid_NewString_def sql_now_ok outside_def
      insert_wallet_def split: if_splits)

text \<open>
  Creating a wallet for a user is idempotent: when no driver call fails and the
  new UUID is not in use, the first request creates exactly one wallet with balance zero in the
  default currency, and a second request reports a conflict and changes no table.
\<close>

theorem InitWallet_idempotent:
  assumes "fault_free w" "wallets_of_user (db w) u = []"
    and "\<forall>r \<in> set (wallets (db w)). wal_UUID r \<noteq> uuid_src w (uuids w)"
  shows "\<exists>w1. InitWallet u w = (Inr (uuid_src w (uuids w)), w1) \<and>
           map wal_Balance (wallets_of_user (db w1) u) = [0] \<and>
           (\<exists>e w2. InitWallet u w1 = (Inl e, w2) \<and> is_kind KindConflict e \<and> db w2 = db w1)"
proof -
  have ff: "fault w = (\<lambda>_. None)" using assms(1) by (simp add: fault_free_def)
  have nodup: "\<not> (\<exists>r \<in> set (wallets (db w)). wal_UserID r = u \<and> wal_Currency r = DefaultCurrency)"
    using assms(2) by (auto simp: wallets_of_user_def filter_empty_conv)
  then obtain w1 where 1: "InitWallet u w = (Inr (uuid_src w (uuids w)), w1)"
    and w1: "fault w1 = fault w" "wallets (db w1) = wallets (db w) @
      [\<lparr>wal_ID = wallets_next (db w), wal_UUID = uuid_src w (uuids w), wal_UserID = u, wal_Balance = 0,
        wal_Currency = DefaultCurrency, wal_CreatedAt = clock w, wal_UpdatedAt = clock w\<rparr>]"
    using assms(3) InitWallet_ok [OF ff, of u] by (auto simp: insert_wallet_def)
  have "map wal_Balance (wallets_of_user (db w1) u) = [0]"
    using w1(2) assms(2) by (simp add: wallets_of_user_def)
  moreover have "\<exists>e w2. InitWallet u w1 = (Inl e, w2) \<and> is_kind KindConflict e \<and> db w2 = db w1"
  proof -
    have "fault w1 = (\<lambda>_. None)" using w1(1) ff by simp
    note eq = InitWallet_ok [OF this, of u]
    have "\<exists>e. insert_wallet \<lparr>cwr_UserID = u, cwr_UUID = uuid_src w1 (uuids w1), cwr_Balance = 0,
        cwr_Currency = DefaultCurrency\<rparr> (clock w1) (db w1) = Inl e"
      unfolding insert_wallet_def w1(2) by simp
    then obtain e where "insert_wallet \<lparr>cwr_UserID = u, cwr_UUID = uuid_src w1 (uuids w1), cwr_Balance = 0,
        cwr_Currency = DefaultCurrency\<rparr> (clock w1) (db w1) = Inl e" ..
    from eq [unfolded this sum.case] show ?thesis
      by - (intro exI conjI, assumption, simp_all)
  qed
  ultimately show ?thesis
    using 1 by - (rule exI [of _ w1], intro conjI, assumption+)
qed

theorem InitWallet_idempotent_witness:
  "fault_free (quiet_world sample_db) \<and> wallets_of_user sample_db 7 = [] \<and>
   (\<exists>w1. InitWallet 7 (quiet_world sample_db) = (Inr (nat_to_string 0), w1) \<and>
         map wal_Balance (wallets_of_user (db w1) 7) = [0])"
proof -
  have "fault_free (quiet_world sample_db)" "wallets_of_user (db (quiet_world sample_db)) 7 = []"
    "\<forall>r \<in> set (wallets (db (quiet_world sample_db))).
       wal_UUID r \<noteq> uuid_src (quiet_world sample_db) (uuids (quiet_world sample_db))"
    by (simp_all add: fault_free_def wallets_of_user_def sample_simps int_to_string_def nat_to_string_inj)
  from InitWallet_idempotent [OF this] show ?thesis
    by (auto simp: fault_free_def wallets_of_user_def sample_simps)
qed

section \<open>The transaction helper\<close>

text \<open>
  \<^verbatim>\<open>RunInTx\<close> does not roll back when \<^verbatim>\<open>fn\<close> fails: a transfer refused for a low balance
  leaves its transaction open (the deferred function tests the value \<^verbatim>\<open>err\<close> had when
  the defer statement ran), although no change of it becomes visible.
\<close>

theorem Transfer_low_balance_leaks_tx:
  assumes "fault_free w" "balance_of (db w) (SourceId req) = Some b" "b < Amount req"
  shows "\<exists>w'. Transfer userId req w = (Inl (ErrorString ''source balance is too low'', 500), w') \<and>
           db w' = db w \<and> open_tx w' = Suc (open_tx w)"
proof -
  let ?w = "w\<lparr>uuids := Suc (uuids w)\<rparr>"
  have "transfer_body req opId (after_begin ?w) =
      (Inl (ErrorString ''source balance is too low''), (after_begin ?w)\<lparr>calls := Suc (calls (after_begin ?w))\<rparr>)" for opId
    using assms
    by (simp add: transfer_body_def call_def GetBalanceForUpdate_def sql_query_ok fault_free_def
        select_balance_balance_of [THEN iffD2])
  then show ?thesis
    using assms(1)
    by (simp add: Transfer_def wallet_RunInTx_eq call_def uuid_NewString_def run_in_tx_body_fails fault_free_def)
qed

theorem Transfer_low_balance_leaks_tx_witness:
  "balance_of (db (quiet_world sample_db)) 2 = Some 5 \<and>
   (\<exists>w'. Transfer 0 \<lparr>SourceId = 2, DestId = 1, Amount = 6\<rparr> (quiet_world sample_db) =
          (Inl (ErrorString ''source balance is too low'', 500), w') \<and> open_tx w' = 1)"
  using Transfer_low_balance_leaks_tx [of "quiet_world sample_db" "\<lparr>SourceId = 2, DestId = 1, Amount = 6\<rparr>" 5 0]
  by (auto simp: fault_free_def sample_simps balance_of_def)

end
