(* ===== verification/WalletSubscriber.thy ===== *)
theory WalletSubscriber
  imports WalletProps
begin

text \<open>
  The wallet service's consumer of user events: \<^verbatim>\<open>internal/wallet/repository/event.go\<close>,
  \<^verbatim>\<open>internal/wallet/service/event\<close> and \<^verbatim>\<open>internal/wallet/subscriber\<close>.
\<close>

section \<open>Repository and event service\<close>

definition wallet_messages :: "wallet_db inbox_ref" where
  "wallet_messages = \<lparr>msgs = wallet_processed_messages, set_msgs = (\<lambda>rs d. d\<lparr>wallet_processed_messages := rs\<rparr>)\<rparr>"

lemma wallet_messages_simps [simp]:
  "msgs wallet_messages = wallet_processed_messages"
  "set_msgs wallet_messages rs d = d\<lparr>wallet_processed_messages := rs\<rparr>"
  by (simp_all add: wallet_messages_def)

definition wallet_RunProcess :: "string \<Rightarrow> string \<Rightarrow> (wallet_db, unit) wprog" where
  "wallet_RunProcess = RunProcess wallet_messages"

definition wallet_MarkSent :: "string \<Rightarrow> (wallet_db, unit) wprog" where
  "wallet_MarkSent = MarkSent wallet_messages"

definition wallet_MarkFailed :: "string \<Rightarrow> (wallet_db, unit) wprog" where
  "wallet_MarkFailed = MarkFailed wallet_messages"

definition wallet_svc_RunProcess :: "string \<Rightarrow> string \<Rightarrow> (wallet_db, unit) wprog" where
  "wallet_svc_RunProcess = svc_RunProcess wallet_messages"

definition wallet_svc_MarkSent :: "string \<Rightarrow> (wallet_db, unit) wprog" where
  "wallet_svc_MarkSent = svc_MarkSent wallet_messages"

definition wallet_svc_MarkFailed :: "string \<Rightarrow> (wallet_db, unit) wprog" where
  "wallet_svc_MarkFailed = svc_MarkFailed wallet_messages"

section \<open>Subscriber\<close>

definition wallet_handleRegisterNewUser :: "proto_lib \<Rightarrow> EventEnvelope \<Rightarrow> (wallet_db, unit) wprog" where
  "wallet_handleRegisterNewUser L ev =
     (case UnmarshalTo_RegisterNewUser L (ev_Payload ev) of
        Inl err \<Rightarrow> fail err
      | Inr registeredEv \<Rightarrow>
          call (InitWallet (uint64 (rnu_Id registeredEv)))
            (\<lambda>err. if is_kind KindConflict err then ret () else fail err)
            (\<lambda>walletId. ret ()))"

definition wallet_handleEvent :: "proto_lib \<Rightarrow> EventEnvelope \<Rightarrow> (wallet_db, unit) wprog" where
  "wallet_handleEvent L ev =
     (if ev_EventType ev = event_Type_string TypeAuthRegisterNewUser
      then wallet_handleRegisterNewUser L ev
      else ret ())"

definition wallet_Handle :: "proto_lib \<Rightarrow> Message \<Rightarrow> (wallet_db, unit) wprog" where
  "wallet_Handle L = inbox_Handle wallet_messages L (wallet_handleEvent L)"

lemmas wallet_inbox_defs = wallet_Handle_def wallet_svc_RunProcess_def wallet_svc_MarkSent_def wallet_svc_MarkFailed_def
  wallet_RunProcess_def wallet_MarkSent_def wallet_MarkFailed_def

section \<open>The repository meets the contract\<close>

interpretation wallet_inbox: inbox_table wallet_messages
  by unfold_locales simp

definition wallet_status :: "wallet_db \<Rightarrow> string \<Rightarrow> string option" where
  "wallet_status d = pm_status_of (wallet_processed_messages d)"

lemma wallet_inbox_status: "wallet_inbox.inbox_status = wallet_status"
  by (rule ext) (simp add: wallet_status_def wallet_inbox.inbox_status_def)

section \<open>What the consumer guarantees\<close>

lemma books_messages [simp]:
  "wallet_wf (d\<lparr>wallet_processed_messages := rs\<rparr>) = wallet_wf d"
  "reconciled (d\<lparr>wallet_processed_messages := rs\<rparr>) = reconciled d"
  by (simp_all add: wallet_wf_def reconciled_def balance_of_def)

lemma keeps_wallet_Handle_books: "keeps_db books (wallet_Handle L msg)"
  unfolding wallet_Handle_def inbox_defs wallet_handleEvent_def wallet_handleRegisterNewUser_def
  by (intro keep_rules keeps_InitWallet_books keeps_pm_stmt) simp_all

lemma wallets_only_InitWallet:
  assumes "InitWallet u w = (r, w')"
  shows "wallet_status (db w') = wallet_status (db w)"
  using assms unfolding InitWallet_def CreateWallet_def
  by (auto simp: call_def uuid_NewString_def outside_def insert_wallet_def wallet_status_def
      split: prod.splits sum.splits if_splits option.splits dest!: sql_now_Inr_cases sql_now_Inl_cases)

lemma wallet_never_sent: "wallet_inbox.never_sent w \<longleftrightarrow> (\<forall>m. wallet_status (db w) m \<noteq> Some ''sent'')"
  unfolding wallet_inbox.never_sent_def by (simp add: wallet_inbox_status)

lemma keeps_never_sent_InitWallet: "keeps wallet_inbox.never_sent (InitWallet u)"
  unfolding keeps_def wallet_never_sent using wallets_only_InitWallet [OF surjective_pairing] by simp

lemma keeps_never_sent_Handle: "keeps wallet_inbox.never_sent (wallet_Handle L msg)"
  unfolding wallet_Handle_def inbox_Handle_def svc_RunProcess_def svc_MarkSent_def svc_MarkFailed_def
    wallet_handleEvent_def wallet_handleRegisterNewUser_def
  by (intro keep_rules keeps_never_sent_InitWallet wallet_inbox.keeps_never_sent)

text \<open>
  Whatever arrives and whichever driver calls fail, the consumer keeps the books:
  the table invariant holds and every balance is explained by the ledger.
\<close>

theorem wallet_Handle_keeps_books:
  assumes "wallet_wf (db w)" "reconciled (db w)"
  shows "wallet_wf (db (snd (wallet_Handle L msg w))) \<and> reconciled (db (snd (wallet_Handle L msg w)))"
  using keepsD [OF keeps_wallet_Handle_books] assms by blast

text \<open>
  The duplicate check never fires: it looks for status \<^verbatim>\<open>sent\<close>, which no statement
  stores. Starting from tables without that status, the consumer never stores it,
  and a message that was handled to the end (status \<^verbatim>\<open>completed\<close>) is accepted again.
\<close>

theorem wallet_duplicates_not_detected:
  assumes "\<forall>m. wallet_status (db w) m \<noteq> Some ''sent''"
  shows "(\<forall>m. wallet_status (db (snd (wallet_Handle L msg w))) m \<noteq> Some ''sent'') \<and>
    (fault_free w \<longrightarrow>
      (\<exists>w1 w2 w3. wallet_RunProcess m p w = (Inr (), w1) \<and> wallet_MarkSent m w1 = (Inr (), w2) \<and>
         wallet_status (db w2) m = Some ''completed'' \<and> wallet_RunProcess m p' w2 = (Inr (), w3)))"
  using keepsD [OF keeps_never_sent_Handle, of w L msg] assms
    wallet_inbox.completed_is_rerun [of w m p p']
  unfolding wallet_never_sent wallet_RunProcess_def wallet_MarkSent_def by (simp add: wallet_inbox_status)


theorem wallet_duplicates_not_detected_witness:
  "(\<forall>m. wallet_status (db (quiet_world sample_db)) m \<noteq> Some ''sent'') \<and>
   (\<exists>w1 w2 w3. wallet_RunProcess ''m1'' ''b'' (quiet_world sample_db) = (Inr (), w1) \<and>
      wallet_MarkSent ''m1'' w1 = (Inr (), w2) \<and> wallet_RunProcess ''m1'' ''b'' w2 = (Inr (), w3))"
proof -
  have "\<forall>m. wallet_status (db (quiet_world sample_db)) m \<noteq> Some ''sent''"
    by (simp add: wallet_status_def pm_status_of_def sample_simps)
  moreover have "fault_free (quiet_world sample_db)" by (simp add: fault_free_def)
  ultimately show ?thesis
    using wallet_duplicates_not_detected [of "quiet_world sample_db" _ _ "''m1''" "''b''" "''b''"] by blast
qed

theorem wallet_Handle_keeps_books_witness:
  "wallet_wf (db (quiet_world sample_db)) \<and>
   wallet_wf (db (snd (wallet_Handle (sample_proto (PbRegisterNewUser \<lparr>rnu_Id = 7, rnu_Email = []\<rparr>)
      TypeAuthRegisterNewUser) \<lparr>msg_ID = ''m1'', msg_Body = ''body'', msg_Headers = None, msg_Timestamp = 0\<rparr>
      (quiet_world sample_db))))"
  using wallet_Handle_keeps_books [of "quiet_world sample_db"] sample_db_wf sample_db_reconciled by simp

definition register_request :: "int \<Rightarrow> wallet_db world \<Rightarrow> CreateWalletRequest" where
  "register_request u w = \<lparr>cwr_UserID = u, cwr_UUID = uuid_src w (uuids w), cwr_Balance = 0,
     cwr_Currency = DefaultCurrency\<rparr>"

lemma insert_wallet_messages:
  "insert_wallet req n (d\<lparr>wallet_processed_messages := rs\<rparr>) =
   (case insert_wallet req n d of Inl e \<Rightarrow> Inl e | Inr (i, d') \<Rightarrow> Inr (i, d'\<lparr>wallet_processed_messages := rs\<rparr>))"
  by (auto simp: insert_wallet_def)

text \<open>A registration event, when no driver call fails.\<close>

lemma wallet_Handle_register_ok:
  assumes ff: "fault_free w" and ns: "wallet_status (db w) (msg_ID msg) \<noteq> Some ''sent''"
    and dec: "proto_Unmarshal L (msg_Body msg) = Inr ev"
      "ev_EventType ev = event_Type_string TypeAuthRegisterNewUser"
      "UnmarshalTo_RegisterNewUser L (ev_Payload ev) = Inr ru"
  shows "\<exists>w'. wallet_Handle L msg w = (Inr (), w') \<and> fault_free w' \<and>
    wallets (db w') = (case insert_wallet (register_request (uint64 (rnu_Id ru)) w) (clock w) (db w) of
        Inl e \<Rightarrow> wallets (db w) | Inr (i, d) \<Rightarrow> wallets d) \<and>
    wallet_status (db w') (msg_ID msg) = Some ''completed''"
proof -
  let ?u = "uint64 (rnu_Id ru)"
  obtain rs k where run: "wallet_svc_RunProcess (msg_ID msg) (msg_Body msg) w =
      (Inr (), w\<lparr>calls := k, db := (db w)\<lparr>wallet_processed_messages := rs\<rparr>\<rparr>)"
    and rs: "pm_status_of rs = (wallet_status (db w))(msg_ID msg \<mapsto> ''processing'')"
    using wallet_inbox.svc_RunProcess_ok [of w "msg_ID msg" "msg_Body msg"] ff ns
    unfolding wallet_inbox_status wallet_svc_RunProcess_def fault_free_def by auto
  define w1 where "w1 = w\<lparr>calls := k, db := (db w)\<lparr>wallet_processed_messages := rs\<rparr>\<rparr>"
  have w1: "fault w1 = (\<lambda>_. None)" using ff by (simp add: w1_def fault_free_def)
  obtain w2 where h: "wallet_handleEvent L ev w1 = (Inr (), w2)" and f2: "fault w2 = (\<lambda>_. None)"
    and wal2: "wallets (db w2) = (case insert_wallet (register_request ?u w) (clock w) (db w) of
        Inl e \<Rightarrow> wallets (db w) | Inr (i, d) \<Rightarrow> wallets d)"
    and m2: "wallet_processed_messages (db w2) = rs"
  proof (cases "insert_wallet (register_request ?u w) (clock w) (db w)")
    case (Inl e)
    then have "wallet_handleEvent L ev w1 = (Inr (), w1\<lparr>uuids := Suc (uuids w1), calls := Suc (calls w1)\<rparr>)"
      using dec by (simp add: wallet_handleEvent_def wallet_handleRegisterNewUser_def call_def
          InitWallet_ok [OF w1]) (simp add: w1_def insert_wallet_messages register_request_def)
    then show thesis
      using that Inl w1 by (simp add: w1_def)
  next
    case (Inr r)
    obtain i d where r: "r = (i, d)" by (cases r)
    have "wallet_handleEvent L ev w1 = (Inr (), w1\<lparr>uuids := Suc (uuids w1),
        calls := Suc (Suc (calls w1)), db := d\<lparr>wallet_processed_messages := rs\<rparr>\<rparr>)"
      using dec Inr r by (simp add: wallet_handleEvent_def wallet_handleRegisterNewUser_def call_def
          InitWallet_ok [OF w1]) (simp add: w1_def insert_wallet_messages register_request_def)
    then show thesis
      using that Inr r w1 by (simp add: w1_def)
  qed
  have "wallet_Handle L msg w = (Inr (), w2\<lparr>calls := Suc (calls w2), db := (db w2)
     \<lparr>wallet_processed_messages := pm_complete (msg_ID msg) (clock w2) rs\<rparr>\<rparr>)"
    using run dec(1) h by (simp add: wallet_Handle_def wallet_svc_RunProcess_def inbox_Handle_def call_def w1_def
        svc_MarkSent_def MarkSent_ok f2 m2)
  then show ?thesis
    using f2 wal2 rs by (simp add: fault_free_def wallet_status_def pm_complete_def pm_status_simps)
qed


lemma wallet_Handle_creates:
  assumes "fault_free w" "wallet_status (db w) (msg_ID msg) \<noteq> Some ''sent''" "proto_ok L"
    and "event_New L (PbRegisterNewUser ru) TypeAuthRegisterNewUser = Inr env"
      "proto_Marshal L env = Inr (msg_Body msg)"
    and "wallets_of_user (db w) (uint64 (rnu_Id ru)) = []"
      "\<forall>r \<in> set (wallets (db w)). wal_UUID r \<noteq> uuid_src w (uuids w)"
  shows "\<exists>w1. wallet_Handle L msg w = (Inr (), w1) \<and> fault_free w1 \<and>
    map wal_Balance (wallets_of_user (db w1) (uint64 (rnu_Id ru))) = [0] \<and>
    wallet_status (db w1) (msg_ID msg) = Some ''completed''"
proof -
  let ?u = "uint64 (rnu_Id ru)"
  note env = envelope_roundtrip [OF assms(3-5)]
  have dec: "UnmarshalTo_RegisterNewUser L (ev_Payload env) = Inr ru"
    using env(3) by (simp add: UnmarshalTo_RegisterNewUser_def)
  have ins: "insert_wallet (register_request ?u w) (clock w) (db w) = Inr (wallets_next (db w), d) \<Longrightarrow>
      map wal_Balance (wallets_of_user d ?u) = [0]" for d
    using assms(6) by (auto simp: insert_wallet_def register_request_def wallets_of_user_def split: if_splits)
  have "\<exists>d. insert_wallet (register_request ?u w) (clock w) (db w) = Inr (wallets_next (db w), d)"
    using assms(6,7) by (auto simp: insert_wallet_def register_request_def wallets_of_user_def filter_empty_conv)
  then obtain d where d: "insert_wallet (register_request ?u w) (clock w) (db w) = Inr (wallets_next (db w), d)" ..
  obtain w1 where "wallet_Handle L msg w = (Inr (), w1)" "fault_free w1" "wallets (db w1) = wallets d"
    "wallet_status (db w1) (msg_ID msg) = Some ''completed''"
    using wallet_Handle_register_ok [OF assms(1,2) env(1,2) dec] d by auto
  then show ?thesis using ins [OF d] by (simp add: wallets_of_user_def)
qed

text \<open>
  Redelivery is harmless for registrations: a registration event that auth encoded
  creates exactly one wallet with balance zero for the user, and handling the same message
  again succeeds and leaves the wallets as they are. (The unique key on user and
  currency does the work, not the duplicate check.)
\<close>

theorem wallet_register_redelivery:
  assumes "fault_free w" "wallet_status (db w) (msg_ID msg) \<noteq> Some ''sent''" "proto_ok L"
    and "event_New L (PbRegisterNewUser ru) TypeAuthRegisterNewUser = Inr env"
      "proto_Marshal L env = Inr (msg_Body msg)"
    and "wallets_of_user (db w) (uint64 (rnu_Id ru)) = []"
      "\<forall>r \<in> set (wallets (db w)). wal_UUID r \<noteq> uuid_src w (uuids w)"
  shows "\<exists>w1 w2. wallet_Handle L msg w = (Inr (), w1) \<and>
    map wal_Balance (wallets_of_user (db w1) (uint64 (rnu_Id ru))) = [0] \<and>
    wallet_Handle L msg w1 = (Inr (), w2) \<and> wallets (db w2) = wallets (db w1)"
proof -
  let ?u = "uint64 (rnu_Id ru)"
  note env = envelope_roundtrip [OF assms(3-5)]
  have dec: "UnmarshalTo_RegisterNewUser L (ev_Payload env) = Inr ru"
    using env(3) by (simp add: UnmarshalTo_RegisterNewUser_def)
  obtain w1 where 1: "wallet_Handle L msg w = (Inr (), w1)" "fault_free w1"
    "map wal_Balance (wallets_of_user (db w1) ?u) = [0]" "wallet_status (db w1) (msg_ID msg) = Some ''completed''"
    using wallet_Handle_creates [OF assms] by (elim exE conjE)
  then have "wallets_of_user (db w1) ?u \<noteq> []" by auto
  then have "\<exists>e. insert_wallet (register_request ?u w1) (clock w1) (db w1) = Inl e"
    by (auto simp: insert_wallet_def register_request_def wallets_of_user_def filter_empty_conv)
  then obtain w2 where "wallet_Handle L msg w1 = (Inr (), w2)" "wallets (db w2) = wallets (db w1)"
    using wallet_Handle_register_ok [OF 1(2) _ env(1,2) dec] 1(4) by auto
  then show ?thesis using 1(1,3) by (intro exI conjI)
qed

definition sample_register :: Message where
  "sample_register = \<lparr>msg_ID = ''m1'', msg_Body = ''body'', msg_Headers = None, msg_Timestamp = 0\<rparr>"

abbreviation sample_codec :: proto_lib where
  "sample_codec \<equiv> sample_proto (PbRegisterNewUser \<lparr>rnu_Id = 7, rnu_Email = []\<rparr>) TypeAuthRegisterNewUser"

abbreviation sample_envelope :: EventEnvelope where
  "sample_envelope \<equiv>
     \<lparr>ev_EventType = event_Type_string TypeAuthRegisterNewUser, ev_Payload = Some sample_any\<rparr>"

theorem wallet_register_redelivery_witness:
  "proto_ok sample_codec \<and>
   (\<exists>w1 w2. wallet_Handle sample_codec sample_register (quiet_world sample_db) = (Inr (), w1) \<and>
      map wal_Balance (wallets_of_user (db w1) (uint64 7)) = [0] \<and>
      wallet_Handle sample_codec sample_register w1 = (Inr (), w2) \<and> wallets (db w2) = wallets (db w1))"
proof -
  have 1: "event_New sample_codec (PbRegisterNewUser \<lparr>rnu_Id = 7, rnu_Email = []\<rparr>) TypeAuthRegisterNewUser
      = Inr sample_envelope"
    "proto_Marshal sample_codec sample_envelope = Inr (msg_Body sample_register)"
    by (simp_all add: event_New_def sample_proto_def sample_register_def)
  have 2: "wallets_of_user (db (quiet_world sample_db)) (uint64 (rnu_Id \<lparr>rnu_Id = 7, rnu_Email = []\<rparr>)) = []"
    "\<forall>r \<in> set (wallets (db (quiet_world sample_db))).
       wal_UUID r \<noteq> uuid_src (quiet_world sample_db) (uuids (quiet_world sample_db))"
    "fault_free (quiet_world sample_db)"
    "wallet_status (db (quiet_world sample_db)) (msg_ID sample_register) \<noteq> Some ''sent''"
    by (simp_all add: wallets_of_user_def sample_simps int_to_string_def nat_to_string_inj fault_free_def
        wallet_status_def pm_status_of_def)
  show ?thesis
    using wallet_register_redelivery [OF 2(3,4) sample_proto_ok 1 2(1,2)] sample_proto_ok by simp
qed




end
