(* ===== verification/Publisher.thy ===== *)
theory Publisher
  imports Events
begin

text \<open>
  Publishing side of \<^verbatim>\<open>pkg/rabbitmq\<close> (\<^verbatim>\<open>publisher.go\<close>, the names of \<^verbatim>\<open>helpers.go\<close>) and
  the contract of \<^verbatim>\<open>broker\<close>'s publisher interfaces as a locale. The AMQP client is
  outside the repository: \<open>PublishWithContext\<close> either reports an error or hands
  the message to the broker, which the field \<open>sent\<close> of the world records.
\<close>

section \<open>Names\<close>

record queueNames =
  mainExchange :: string
  dlxExchange :: string
  mainQueue :: string
  retryQueue :: string
  dlq :: string

definition buildNames :: "string \<Rightarrow> string \<Rightarrow> queueNames" where
  "buildNames eventName queueBase =
     \<lparr>mainExchange = eventName @ ''.exchange'', dlxExchange = eventName @ ''.dlx'',
      mainQueue = queueBase @ ''.queue'', retryQueue = queueBase @ ''.retry.queue'',
      dlq = queueBase @ ''.dlq''\<rparr>"

definition isChannelError :: "go_error \<Rightarrow> bool" where
  "isChannelError err =
     (case errors_As_amqp err of Some code \<Rightarrow> code = 504 \<or> code = 320 | None \<Rightarrow> False)"

section \<open>Publishers\<close>

record basePublisher =
  closed :: bool
  eventName :: string

definition PublishWithContext :: "string \<Rightarrow> string \<Rightarrow> string \<Rightarrow> ('d, unit) wprog" where
  "PublishWithContext exchange routingKey body =
     call uuid_NewString fail (\<lambda>messageId.
     call time_Now fail (\<lambda>now.
     call outside fail (\<lambda>_ w.
       (Inr (), w\<lparr>sent := sent w @ [\<lparr>pub_exchange = exchange, pub_key = routingKey, pub_body = body,
                                     pub_message_id = messageId, pub_timestamp = now, pub_headers = None\<rparr>]\<rparr>))))"

definition conn_channel :: "('d, unit) wprog" where
  "conn_channel =
     call outside (\<lambda>err. fail (WrapError ''rabbitmq: open channel: '' err)) ret"

definition base_publish :: "basePublisher \<Rightarrow> string \<Rightarrow> string \<Rightarrow> string \<Rightarrow> ('d, unit) wprog" where
  "base_publish p exchange routingKey body =
     (if closed p then fail ErrClosed
      else call (PublishWithContext exchange routingKey body)
        (\<lambda>err. if \<not> isChannelError err then fail err
               else call conn_channel (\<lambda>chErr. fail (WrapError ''rabbitmq: reopen channel: '' chErr))
                      (\<lambda>_. PublishWithContext exchange routingKey body))
        ret)"

definition base_close :: "basePublisher \<Rightarrow> ('d, unit) wprog \<times> basePublisher" where
  "base_close p =
     (if closed p then ret ()
      else call outside (\<lambda>err. fail (WrapError ''rabbitmq: close publish channel: '' err)) ret,
      p\<lparr>closed := True\<rparr>)"

definition DirectPublisher_Publish :: "basePublisher \<Rightarrow> string \<Rightarrow> ('d, unit) wprog" where
  "DirectPublisher_Publish p body =
     (let n = buildNames (eventName p) (eventName p)
      in base_publish p (mainExchange n) (mainQueue n) body)"

definition FanoutPublisher_Publish :: "basePublisher \<Rightarrow> string \<Rightarrow> ('d, unit) wprog" where
  "FanoutPublisher_Publish p body = base_publish p (eventName p @ ''.exchange'') [] body"

definition TopicPublisher_Publish :: "basePublisher \<Rightarrow> string \<Rightarrow> string \<Rightarrow> ('d, unit) wprog" where
  "TopicPublisher_Publish p routingKey body =
     base_publish p (eventName p @ ''.exchange'') routingKey body"

section \<open>The contract of a publisher\<close>

text \<open>
  A successful publish hands exactly one message with the given body to the
  broker, a failed one hands over none, and neither touches the tables.
\<close>

definition same_but_io :: "'d world \<Rightarrow> 'd world \<Rightarrow> bool" where
  "same_but_io w w' \<longleftrightarrow> db w' = db w \<and> clock w' = clock w \<and> fault w' = fault w \<and>
     open_tx w' = open_tx w \<and> uuid_src w' = uuid_src w \<and> uuids w \<le> uuids w'"

lemma same_but_io_refl [simp]: "same_but_io w w"
  by (simp add: same_but_io_def)

lemma same_but_io_trans: "same_but_io w w' \<Longrightarrow> same_but_io w' w'' \<Longrightarrow> same_but_io w w''"
  by (simp add: same_but_io_def)

locale event_publisher =
  fixes pub :: "string \<Rightarrow> ('d, unit) wprog"
  assumes pub_ok: "pub b w = (Inr u, w') \<Longrightarrow> \<exists>p. sent w' = sent w @ [p] \<and> pub_body p = b"
    and pub_error: "pub b w = (Inl e, w') \<Longrightarrow> sent w' = sent w"
    and pub_frame: "pub b w = (r, w') \<Longrightarrow> same_but_io w w'"
begin

lemma pub_monotone: "pub b w = (r, w') \<Longrightarrow> set (sent w) \<subseteq> set (sent w')"
  by (cases r) (auto dest: pub_ok pub_error)

end

text \<open>A publisher that is not closed succeeds when no call fails.\<close>

locale open_publisher = event_publisher +
  assumes pub_open: "fault_free w \<Longrightarrow> \<exists>w'. pub b w = (Inr (), w')"

lemma PublishWithContext_cases:
  assumes "PublishWithContext x k b w = (r, w')"
  shows "same_but_io w w' \<and> (case r of Inl e \<Rightarrow> sent w' = sent w
    | Inr u \<Rightarrow> sent w' = sent w @ [\<lparr>pub_exchange = x, pub_key = k, pub_body = b,
        pub_message_id = uuid_src w (uuids w), pub_timestamp = clock w, pub_headers = None\<rparr>])"
  using assms
  by (auto simp: PublishWithContext_def call_def uuid_NewString_def time_Now_def outside_def same_but_io_def
      split: option.splits)

lemma conn_channel_cases: "conn_channel w = (r, w') \<Longrightarrow> same_but_io w w' \<and> sent w' = sent w"
  by (auto simp: conn_channel_def call_def outside_def same_but_io_def split: option.splits)

lemma base_publish_cases:
  assumes "base_publish p x k b w = (r, w')"
  shows "same_but_io w w' \<and> (case r of Inl e \<Rightarrow> sent w' = sent w
    | Inr u \<Rightarrow> \<exists>m. sent w' = sent w @ [m] \<and> pub_body m = b \<and> pub_exchange m = x \<and> pub_key m = k)"
  using assms unfolding base_publish_def
  by (auto simp: call_def split: if_splits prod.splits sum.splits
      dest!: PublishWithContext_cases conn_channel_cases intro: same_but_io_trans)

lemma base_publish_open:
  assumes "fault_free w" "\<not> closed p"
  shows "base_publish p x k b w = (Inr (), w\<lparr>uuids := Suc (uuids w), calls := Suc (calls w),
    sent := sent w @ [\<lparr>pub_exchange = x, pub_key = k, pub_body = b,
        pub_message_id = uuid_src w (uuids w), pub_timestamp = clock w, pub_headers = None\<rparr>]\<rparr>)"
  using assms
  by (simp add: base_publish_def PublishWithContext_def call_def uuid_NewString_def time_Now_def outside_def
      fault_free_def)

interpretation base_pub: event_publisher "base_publish p x k" for p x k
  by unfold_locales (auto dest!: base_publish_cases)

interpretation direct_pub: event_publisher "DirectPublisher_Publish p" for p
  unfolding DirectPublisher_Publish_def Let_def by unfold_locales (auto dest!: base_publish_cases)

interpretation fanout_pub: event_publisher "FanoutPublisher_Publish p" for p
  unfolding FanoutPublisher_Publish_def by unfold_locales (auto dest!: base_publish_cases)

interpretation topic_pub: event_publisher "TopicPublisher_Publish p k" for p k
  unfolding TopicPublisher_Publish_def by unfold_locales (auto dest!: base_publish_cases)

abbreviation open_base :: "string \<Rightarrow> basePublisher" where
  "open_base n \<equiv> \<lparr>closed = False, eventName = n\<rparr>"

interpretation direct_open: open_publisher "DirectPublisher_Publish (open_base n)" for n
  by unfold_locales (auto simp: DirectPublisher_Publish_def Let_def base_publish_open)

interpretation topic_open: open_publisher "TopicPublisher_Publish (open_base n) k" for n k
  by unfold_locales (auto simp: TopicPublisher_Publish_def base_publish_open)

lemma base_close_closed: "closed (snd (base_close p)) \<and> (closed q \<longrightarrow> base_publish q x k b w = (Inl ErrClosed, w))"
  by (simp add: base_close_def base_publish_def)

end
