(* ===== verification/Outbox.thy ===== *)
theory Outbox
  imports Publisher
begin

text \<open>
  The transactional outbox. The auth and notification services carry the same
  repository (\<^verbatim>\<open>repository/outbox.go\<close>), the same service methods
  (\<^verbatim>\<open>service/outbox\<close>) and the same worker (\<^verbatim>\<open>workers/outbox\<close>), each on its own table;
  the definitions here take the table as an argument, a reader and a writer of the
  service's database. What differs, \<^verbatim>\<open>ProcessEvent\<close>, is an argument too.
\<close>

section \<open>Rows and statements\<close>

record OutboxEvent =
  oe_ID :: int
  oe_EventID :: string
  oe_EventType :: string
  oe_Payload :: string
  oe_AggregateType :: string
  oe_AggregateID :: string
  oe_Status :: string
  oe_LockedUntil :: "int option"
  oe_CreatedAt :: int
  oe_ProcessedAt :: "int option"

record outbox_tab =
  ob_rows :: "OutboxEvent list"
  ob_next :: int

record 'd outbox_ref =
  tab :: "'d \<Rightarrow> outbox_tab"
  set_tab :: "outbox_tab \<Rightarrow> 'd \<Rightarrow> 'd"

abbreviation events :: "'d outbox_ref \<Rightarrow> 'd world \<Rightarrow> OutboxEvent list" where
  "events T w \<equiv> ob_rows (tab T (db w))"

text \<open>The columns the claim query selects; the others keep Go's zero values.\<close>

definition ob_selected :: "OutboxEvent \<Rightarrow> OutboxEvent" where
  "ob_selected r = r\<lparr>oe_Status := [], oe_LockedUntil := None, oe_ProcessedAt := None\<rparr>"

definition ob_select_pending :: "int \<Rightarrow> outbox_tab \<Rightarrow> go_error + OutboxEvent list" where
  "ob_select_pending count t =
     (if count < 0 then Inl (MySQLError 1064 ''You have an error in your SQL syntax'')
      else Inr (map ob_selected (take (nat count)
             (sort_key oe_CreatedAt (filter (\<lambda>r. oe_Status r = ''pending'') (ob_rows t))))))"

definition ob_lock :: "int \<Rightarrow> OutboxEvent \<Rightarrow> OutboxEvent" where
  "ob_lock until r = r\<lparr>oe_Status := ''processing'', oe_LockedUntil := Some until\<rparr>"

definition ob_done :: "int \<Rightarrow> OutboxEvent \<Rightarrow> OutboxEvent" where
  "ob_done now r = r\<lparr>oe_Status := ''processed'', oe_ProcessedAt := Some now, oe_LockedUntil := None\<rparr>"

definition ob_release :: "OutboxEvent \<Rightarrow> OutboxEvent" where
  "ob_release r = r\<lparr>oe_Status := ''pending'', oe_LockedUntil := None\<rparr>"

definition ob_stale :: "int \<Rightarrow> OutboxEvent \<Rightarrow> bool" where
  "ob_stale now r \<longleftrightarrow> oe_Status r = ''processing'' \<and>
     (case oe_LockedUntil r of None \<Rightarrow> False | Some t \<Rightarrow> t < now)"

text \<open>An UPDATE on the table; the result is the number of rows it changed.\<close>

definition ob_update ::
  "'d outbox_ref \<Rightarrow> (int \<Rightarrow> OutboxEvent \<Rightarrow> bool) \<Rightarrow> (int \<Rightarrow> OutboxEvent \<Rightarrow> OutboxEvent) \<Rightarrow> ('d, nat) wprog" where
  "ob_update T p f =
     sql_now (\<lambda>now d. let t = tab T d in
       Inr (changed_rows (p now) (f now) (ob_rows t),
            set_tab T (t\<lparr>ob_rows := update_where (p now) (f now) (ob_rows t)\<rparr>) d))"

text \<open>
  The multi-row INSERT is one statement: it inserts all rows or none. The column
  \<^verbatim>\<open>aggregate_id\<close> is a BIGINT, so the string has to denote one.
\<close>

fun ob_insert :: "OutboxEvent list \<Rightarrow> outbox_tab \<Rightarrow> go_error + (unit \<times> outbox_tab)" where
  "ob_insert [] t = Inr ((), t)"
| "ob_insert (e # es) t =
     (if ParseInt (oe_AggregateID e) = None then Inl (MySQLError 1366 ''Incorrect integer value'')
      else if \<exists>r \<in> set (ob_rows t). oe_EventID r = oe_EventID e then Inl (MySQLError 1062 ''Duplicate entry'')
      else ob_insert es (t\<lparr>ob_rows := ob_rows t @ [e\<lparr>oe_ID := ob_next t, oe_Status := ''pending'',
                                   oe_LockedUntil := None, oe_ProcessedAt := None\<rparr>],
                           ob_next := ob_next t + 1\<rparr>))"

section \<open>Repository\<close>

definition ob_error :: "string \<Rightarrow> string \<Rightarrow> go_error \<Rightarrow> go_error" where
  "ob_error op msg err = Rich (WithKind KindInternal (WithMessage msg (WithWrapper (Some err) (New op))))"

definition ClaimOutboxEvents :: "'d outbox_ref \<Rightarrow> int \<Rightarrow> int \<Rightarrow> ('d, OutboxEvent list) wprog" where
  "ClaimOutboxEvents T count lockTimeout =
     (let failed = ob_error ''repository.ClaimOutboxEvents'' ''failed to get outbox events list'' in
      call begin_tx (\<lambda>err. fail (failed err)) (\<lambda>snapshot.
      call (sql_query (\<lambda>d. ob_select_pending count (tab T d)))
        (\<lambda>err. rollback_tx snapshot (failed err)) (\<lambda>es.
      if es = [] then rollback_ret snapshot []
      else
        let ids = map oe_EventID es in
        call (ob_update T (\<lambda>_ r. oe_EventID r \<in> set ids) (\<lambda>now. ob_lock (now + seconds lockTimeout)))
          (\<lambda>err. rollback_tx snapshot (failed err)) (\<lambda>_.
        call (commit_tx snapshot) fail (\<lambda>_.
        ret es)))))"

definition ClaimSingleEvent :: "'d outbox_ref \<Rightarrow> string \<Rightarrow> int \<Rightarrow> ('d, unit) wprog" where
  "ClaimSingleEvent T eventId lockTimeout =
     call (ob_update T (\<lambda>_ r. oe_EventID r = eventId \<and> oe_Status r = ''pending'')
             (\<lambda>now. ob_lock (now + seconds lockTimeout)))
       (\<lambda>err. fail (ob_error ''repository.ClaimSingleEvent'' ''failed to claim outbox event'' err)) (\<lambda>affected.
     call outside
       (\<lambda>err. fail (ob_error ''repository.ClaimSingleEvent'' ''failed to get rows affected'' err)) (\<lambda>_.
     if affected = 0
     then fail (Rich (WithKind KindConflict (WithMessage ''event already claimed or not found''
            (New ''repository.ClaimSingleEvent''))))
     else ret ()))"

definition MarkOutboxEventProcessed :: "'d outbox_ref \<Rightarrow> string \<Rightarrow> ('d, unit) wprog" where
  "MarkOutboxEventProcessed T eventId =
     call (ob_update T (\<lambda>_ r. oe_EventID r = eventId) ob_done)
       (\<lambda>err. fail (ob_error ''repository.MarkOutboxEventProcessed''
                ''failed to mark outbox event as processed'' err)) (\<lambda>_. ret ())"

definition MarkOutboxEventFailed :: "'d outbox_ref \<Rightarrow> string \<Rightarrow> ('d, unit) wprog" where
  "MarkOutboxEventFailed T eventId =
     call (ob_update T (\<lambda>_ r. oe_EventID r = eventId) (\<lambda>_. ob_release))
       (\<lambda>err. fail (ob_error ''repository.MarkOutboxEventFailed''
                ''failed to mark outbox event as failed'' err)) (\<lambda>_. ret ())"

definition MarkOutboxEventsProcessed :: "'d outbox_ref \<Rightarrow> string list \<Rightarrow> ('d, unit) wprog" where
  "MarkOutboxEventsProcessed T eventIds =
     (if eventIds = [] then ret ()
      else call (ob_update T (\<lambda>_ r. oe_EventID r \<in> set eventIds) ob_done)
        (\<lambda>err. fail (ob_error ''repository.MarkOutboxEventsProcessed''
                 ''failed to mark outbox events as processed'' err)) (\<lambda>_. ret ()))"

definition MarkOutboxEventsFailed :: "'d outbox_ref \<Rightarrow> string list \<Rightarrow> ('d, unit) wprog" where
  "MarkOutboxEventsFailed T eventIds =
     (if eventIds = [] then ret ()
      else call (ob_update T (\<lambda>_ r. oe_EventID r \<in> set eventIds) (\<lambda>_. ob_release))
        (\<lambda>err. fail (ob_error ''repository.MarkOutboxEventsFailed''
                 ''failed to mark outbox events as failed'' err)) (\<lambda>_. ret ()))"

definition RecoverStaleOutboxEvents :: "'d outbox_ref \<Rightarrow> ('d, nat) wprog" where
  "RecoverStaleOutboxEvents T =
     call (ob_update T ob_stale (\<lambda>_. ob_release))
       (\<lambda>err. fail (ob_error ''repository.RecoverStaleOutboxEvents''
                ''failed to recover stale outbox events'' err)) (\<lambda>affected.
     call outside
       (\<lambda>err. fail (ob_error ''repository.RecoverStaleOutboxEvents'' ''failed to get rows affected'' err)) (\<lambda>_.
     ret affected))"

definition InsertOutboxEvent :: "'d outbox_ref \<Rightarrow> OutboxEvent \<Rightarrow> ('d, unit) wprog" where
  "InsertOutboxEvent T e =
     call (sql (\<lambda>d. case ob_insert [e] (tab T d) of Inl err \<Rightarrow> Inl err | Inr (u, t) \<Rightarrow> Inr (u, set_tab T t d)))
       (\<lambda>err. fail (ob_error ''repository.InsertOutboxEvent'' ''failed to insert outbox event'' err)) ret"

definition InsertOutboxEvents :: "'d outbox_ref \<Rightarrow> OutboxEvent list \<Rightarrow> ('d, unit) wprog" where
  "InsertOutboxEvents T es =
     (if es = [] then ret ()
      else call (sql (\<lambda>d. case ob_insert es (tab T d) of Inl err \<Rightarrow> Inl err | Inr (u, t) \<Rightarrow> Inr (u, set_tab T t d)))
        (\<lambda>err. fail (ob_error ''repository.InsertOutboxEvents'' ''failed to insert outbox events'' err)) ret)"

section \<open>Service\<close>

definition svc_error :: "string \<Rightarrow> string \<Rightarrow> go_error \<Rightarrow> go_error" where
  "svc_error op msg err = Rich (WithMessage msg (WithKind KindInternal (WithWrapper (Some err) (New op))))"

definition svc_ClaimOutboxEvents :: "'d outbox_ref \<Rightarrow> int \<Rightarrow> int \<Rightarrow> ('d, OutboxEvent list) wprog" where
  "svc_ClaimOutboxEvents T count lockTimeout =
     call (ClaimOutboxEvents T count lockTimeout)
       (\<lambda>err. fail (svc_error ''worker.ClaimOutboxEvents'' ''failed to list outbox events'' err)) ret"

definition ProcessSingleEvent ::
  "'d outbox_ref \<Rightarrow> (OutboxEvent \<Rightarrow> ('d, unit) wprog) \<Rightarrow> int \<Rightarrow> OutboxEvent \<Rightarrow> ('d, unit) wprog" where
  "ProcessSingleEvent T process lockTimeout e =
     call (ClaimSingleEvent T (oe_EventID e) lockTimeout)
       (\<lambda>err. fail (svc_error ''outbox.ProcessSingleEvent'' ''failed to claim single event'' err)) (\<lambda>_.
     call (process e)
       (\<lambda>err. let r = fail (svc_error ''outbox.ProcessSingleEvent'' ''failed to process event'' err)
              in call (MarkOutboxEventFailed T (oe_EventID e)) (\<lambda>_. r) (\<lambda>_. r)) (\<lambda>_.
     call (MarkOutboxEventProcessed T (oe_EventID e)) (\<lambda>_. ret ()) (\<lambda>_. ret ())))"

definition RecoverStaleEvents :: "'d outbox_ref \<Rightarrow> ('d, nat) wprog" where
  "RecoverStaleEvents T =
     call (RecoverStaleOutboxEvents T)
       (\<lambda>err. fail (svc_error ''outbox.RecoverStaleEvents'' ''failed to recover stale events'' err)) ret"

definition MarkEventsProcessed :: "'d outbox_ref \<Rightarrow> string list \<Rightarrow> ('d, unit) wprog" where
  "MarkEventsProcessed T eventIds =
     (if eventIds = [] then ret ()
      else call (MarkOutboxEventsProcessed T eventIds)
        (\<lambda>err. fail (svc_error ''outbox.MarkEventsProcessed'' ''failed to mark events as processed'' err)) ret)"

definition MarkEventsFailed :: "'d outbox_ref \<Rightarrow> string list \<Rightarrow> ('d, unit) wprog" where
  "MarkEventsFailed T eventIds =
     (if eventIds = [] then ret ()
      else call (MarkOutboxEventsFailed T eventIds)
        (\<lambda>err. fail (svc_error ''outbox.MarkEventsFailed'' ''failed to mark events as failed'' err)) ret)"

section \<open>Worker\<close>

record WorkerConfig =
  BatchInterval :: int
  RecoveryInterval :: int
  LockTimeout :: int
  BatchSize :: int
  Concurrency :: int

text \<open>
  \<^verbatim>\<open>ProcessBatch\<close> may also not return: with a semaphore channel of capacity zero the
  first send blocks for ever, and a negative capacity makes \<^verbatim>\<open>make\<close> panic.
\<close>

datatype 'w run = Returned 'w | Blocked 'w | Panicked 'w

text \<open>
  The goroutines of a batch: each calls \<^verbatim>\<open>ProcessEvent\<close> and records its event under the
  mutex. They may finish in any order; the order is the argument.
\<close>

fun run_goroutines ::
  "(OutboxEvent \<Rightarrow> ('d, unit) wprog) \<Rightarrow> OutboxEvent list \<Rightarrow> 'd world \<Rightarrow> (string list \<times> string list) \<times> 'd world" where
  "run_goroutines process [] w = (([], []), w)"
| "run_goroutines process (e # es) w =
     (case process e w of
        (Inl err, w1) \<Rightarrow>
          (case run_goroutines process es w1 of ((processed, failed), w2) \<Rightarrow>
             ((processed, oe_EventID e # failed), w2))
      | (Inr _, w1) \<Rightarrow>
          (case run_goroutines process es w1 of ((processed, failed), w2) \<Rightarrow>
             ((oe_EventID e # processed, failed), w2)))"

definition ProcessBatch ::
  "'d outbox_ref \<Rightarrow> (OutboxEvent \<Rightarrow> ('d, unit) wprog) \<Rightarrow> (OutboxEvent list \<Rightarrow> OutboxEvent list) \<Rightarrow>
   WorkerConfig \<Rightarrow> 'd world \<Rightarrow> 'd world run" where
  "ProcessBatch T process order config w =
     (case svc_ClaimOutboxEvents T (BatchSize config) (LockTimeout config) w of
        (Inl err, w1) \<Rightarrow> Returned w1
      | (Inr es, w1) \<Rightarrow>
          if es = [] then Returned w1
          else if Concurrency config < 0 then Panicked w1
          else if Concurrency config = 0 then Blocked w1
          else case run_goroutines process (order es) w1 of
            ((processed, failed), w2) \<Rightarrow>
              Returned (snd (call (MarkEventsProcessed T processed)
                              (\<lambda>_. MarkEventsFailed T failed) (\<lambda>_. MarkEventsFailed T failed) w2)))"

text \<open>One tick of the recovery loop; its error is only logged.\<close>

definition recovery_tick :: "'d outbox_ref \<Rightarrow> 'd world \<Rightarrow> 'd world" where
  "recovery_tick T w = snd (RecoverStaleEvents T w)"

end
