(* ===== verification/OutboxProps.thy ===== *)
theory OutboxProps
  imports Outbox "HOL-Library.Multiset"
begin

text \<open>
  What the outbox guarantees, proved once for every table and every \<^verbatim>\<open>ProcessEvent\<close> that
  meet the contracts below: no event is lost or altered, an event is marked processed
  only after its publication, and recovery followed by a batch delivers everything.
  The interleaving of workers, of the goroutines that publish right after a commit, of
  recovery, of new events and of crashes is the step relation \<open>ob_step\<close>.
\<close>

section \<open>Contracts\<close>

locale outbox_store =
  fixes T :: "'d outbox_ref"
  assumes tab_set_tab [simp]: "tab T (set_tab T t d) = t"

locale outbox_processor =
  fixes process :: "OutboxEvent \<Rightarrow> ('d, unit) wprog"
    and routed :: "string \<Rightarrow> bool"
  assumes proc_ok: "process e w = (Inr u, w') \<Longrightarrow> routed (oe_EventType e) \<Longrightarrow>
      \<exists>p \<in> set (sent w'). pub_body p = oe_Payload e"
    and proc_mono: "process e w = (r, w') \<Longrightarrow> set (sent w) \<subseteq> set (sent w')"
    and proc_frame: "process e w = (r, w') \<Longrightarrow> same_but_io w w'"

text \<open>A processor that cannot fail by itself.\<close>

locale live_processor = outbox_processor +
  assumes proc_open: "fault_free w \<Longrightarrow> \<exists>w'. process e w = (Inr (), w')"

section \<open>The parts of an event nobody changes\<close>

definition ob_key :: "OutboxEvent \<Rightarrow> string \<times> string \<times> string" where
  "ob_key e = (oe_EventID e, oe_EventType e, oe_Payload e)"

definition ob_published :: "(string \<Rightarrow> bool) \<Rightarrow> publication list \<Rightarrow> OutboxEvent \<Rightarrow> bool" where
  "ob_published routed ps e \<longleftrightarrow> (routed (oe_EventType e) \<longrightarrow> (\<exists>p \<in> set ps. pub_body p = oe_Payload e))"

lemma ob_published_mono: "set ps \<subseteq> set qs \<Longrightarrow> ob_published R ps e \<Longrightarrow> ob_published R qs e"
  by (auto simp: ob_published_def)

lemma ob_published_key: "ob_key e = ob_key e' \<Longrightarrow> ob_published R ps e = ob_published R ps e'"
  by (simp add: ob_published_def ob_key_def)

lemma ob_key_simps [simp]:
  "ob_key (ob_selected r) = ob_key r" "ob_key (ob_lock t r) = ob_key r" "ob_key (ob_done t r) = ob_key r"
  "ob_key (ob_release r) = ob_key r"
  by (simp_all add: ob_key_def ob_selected_def ob_lock_def ob_done_def ob_release_def)

lemma oe_EventID_simps [simp]:
  "oe_EventID (ob_selected r) = oe_EventID r" "oe_EventID (ob_lock t r) = oe_EventID r"
  "oe_EventID (ob_done t r) = oe_EventID r" "oe_EventID (ob_release r) = oe_EventID r"
  by (simp_all add: ob_selected_def ob_lock_def ob_done_def ob_release_def)

lemma oe_Status_simps [simp]:
  "oe_Status (ob_lock t r) = ''processing''" "oe_LockedUntil (ob_lock t r) = Some t"
  "oe_Status (ob_done t r) = ''processed''" "oe_LockedUntil (ob_done t r) = None"
  "oe_Status (ob_release r) = ''pending''" "oe_LockedUntil (ob_release r) = None"
  by (simp_all add: ob_lock_def ob_done_def ob_release_def)

text \<open>
  Invariant of the rows, relative to what has been published: statuses are those of
  the ENUM, a locked event says until when, a processed one has been published.
\<close>

definition ob_row_ok :: "(string \<Rightarrow> bool) \<Rightarrow> publication list \<Rightarrow> OutboxEvent \<Rightarrow> bool" where
  "ob_row_ok R ps r \<longleftrightarrow>
     oe_Status r \<in> {''pending'', ''processing'', ''processed''} \<and>
     (oe_Status r = ''processing'' \<longrightarrow> oe_LockedUntil r \<noteq> None) \<and>
     (oe_Status r = ''processed'' \<longrightarrow> ob_published R ps r)"

definition ob_rows_ok :: "(string \<Rightarrow> bool) \<Rightarrow> publication list \<Rightarrow> OutboxEvent list \<Rightarrow> bool" where
  "ob_rows_ok R ps rs \<longleftrightarrow> unique_by oe_EventID rs \<and> (\<forall>r \<in> set rs. ob_row_ok R ps r)"

lemma ob_row_ok_simps [simp]:
  "ob_row_ok R ps (ob_lock t r)" "ob_row_ok R ps (ob_release r)"
  "ob_row_ok R ps (ob_done t r) = ob_published R ps r"
  using ob_published_key [of "ob_done t r" r R ps] by (simp_all add: ob_row_ok_def)

lemma ob_row_ok_mono: "set ps \<subseteq> set qs \<Longrightarrow> ob_row_ok R ps r \<Longrightarrow> ob_row_ok R qs r"
  by (auto simp: ob_row_ok_def intro: ob_published_mono)

lemma ob_rows_ok_mono: "set ps \<subseteq> set qs \<Longrightarrow> ob_rows_ok R ps rs \<Longrightarrow> ob_rows_ok R qs rs"
  by (auto simp: ob_rows_ok_def intro: ob_row_ok_mono)

lemma ob_rows_ok_update:
  assumes "ob_rows_ok R ps rs" "\<And>r. ob_key (f r) = ob_key r"
    and "\<And>r. r \<in> set rs \<Longrightarrow> p r \<Longrightarrow> ob_row_ok R ps (f r)"
  shows "ob_rows_ok R ps (update_where p f rs)"
proof -
  have "oe_EventID (f r) = oe_EventID r" for r
    using assms(2) [of r] by (simp add: ob_key_def)
  then show ?thesis
    using assms(1,3) by (auto simp: ob_rows_ok_def unique_by_update_where set_update_where)
qed

lemma ob_keys_update:
  "(\<And>r. ob_key (f r) = ob_key r) \<Longrightarrow> map ob_key (update_where p f rs) = map ob_key rs"
  by (rule map_update_where)

lemma ob_insert_rows:
  "ob_insert es t = Inr (u, t') \<Longrightarrow> \<exists>new. ob_rows t' = ob_rows t @ new \<and> map ob_key new = map ob_key es \<and>
     (\<forall>r \<in> set new. oe_Status r = ''pending'') \<and>
     (unique_by oe_EventID (ob_rows t) \<longrightarrow> unique_by oe_EventID (ob_rows t'))"
proof (induction es arbitrary: t)
  case (Cons e es)
  let ?r = "e\<lparr>oe_ID := ob_next t, oe_Status := ''pending'', oe_LockedUntil := None, oe_ProcessedAt := None\<rparr>"
  let ?t = "t\<lparr>ob_rows := ob_rows t @ [?r], ob_next := ob_next t + 1\<rparr>"
  have key: "ob_key ?r = ob_key e" by (simp add: ob_key_def)
  from Cons.prems have i: "ob_insert es ?t = Inr (u, t')"
    and nd: "\<forall>r \<in> set (ob_rows t). oe_EventID r \<noteq> oe_EventID e"
    by (auto split: if_splits)
  from Cons.IH [OF i] obtain new where
    new: "ob_rows t' = (ob_rows t @ [?r]) @ new" "map ob_key new = map ob_key es"
      "\<forall>r \<in> set new. oe_Status r = ''pending''"
      "unique_by oe_EventID (ob_rows t @ [?r]) \<longrightarrow> unique_by oe_EventID (ob_rows t')"
    by auto
  then show ?case
    using nd by (intro exI [of _ "?r # new"]) (auto simp: key unique_by_snoc)
qed auto

lemma ob_rows_ok_insert:
  assumes "ob_rows_ok R ps (ob_rows t)" "ob_insert es t = Inr (u, t')"
  shows "ob_rows_ok R ps (ob_rows t')"
  using ob_insert_rows [OF assms(2)] assms(1) by (auto simp: ob_rows_ok_def ob_row_ok_def)

lemma ob_claimed:
  assumes "ob_select_pending n t = Inr es" "e \<in> set es"
  shows "\<exists>r \<in> set (ob_rows t). e = ob_selected r \<and> oe_Status r = ''pending''"
  using assms by (fastforce simp: ob_select_pending_def split: if_splits dest!: in_set_takeD)

lemma ob_claimed_distinct:
  assumes "ob_select_pending n t = Inr es" "unique_by oe_EventID (ob_rows t)"
  shows "distinct (map oe_EventID es)"
proof -
  define rs where "rs = filter (\<lambda>r. oe_Status r = ''pending'') (ob_rows t)"
  have "distinct (map oe_EventID rs)"
    using assms(2) by (simp add: rs_def unique_by_def distinct_map_filter)
  then have "distinct (map oe_EventID (sort_key oe_CreatedAt rs))"
    by (metis mset_map mset_sort mset_eq_imp_distinct_iff)
  then have "distinct (map oe_EventID (take (nat n) (sort_key oe_CreatedAt rs)))"
    by (simp flip: take_map)
  moreover have "map oe_EventID es = map oe_EventID (take (nat n) (sort_key oe_CreatedAt rs))"
    using assms(1) by (auto simp: ob_select_pending_def rs_def split: if_splits)
  ultimately show ?thesis by simp
qed

lemma ob_select_all:
  assumes "int (length (ob_rows t)) \<le> n"
  shows "\<exists>es. ob_select_pending n t = Inr es \<and>
    set es = ob_selected ` {r \<in> set (ob_rows t). oe_Status r = ''pending''}"
proof -
  let ?rs = "sort_key oe_CreatedAt (filter (\<lambda>r. oe_Status r = ''pending'') (ob_rows t))"
  have "length ?rs \<le> nat n"
    using assms length_filter_le [of "\<lambda>r. oe_Status r = ''pending''" "ob_rows t"]
    by (simp only: length_sort)
  then have "take (nat n) ?rs = ?rs" by simp
  then show ?thesis using assms by (auto simp: ob_select_pending_def)
qed

section \<open>The repository on an abstract table\<close>

context outbox_store
begin

lemma ob_update_Inr:
  assumes "ob_update T p f w = (Inr n, w')"
  shows "events T w' = update_where (p (clock w)) (f (clock w)) (events T w)"
    "same_but_io (w\<lparr>db := db w'\<rparr>) w'" "sent w' = sent w" "calls w' = Suc (calls w)"
    "n = changed_rows (p (clock w)) (f (clock w)) (events T w)"
  using assms by (auto simp: ob_update_def Let_def same_but_io_def dest!: sql_now_Inr_cases)

lemma ob_update_Inl: "ob_update T p f w = (Inl e, w') \<Longrightarrow> w' = w\<lparr>calls := Suc (calls w)\<rparr>"
  by (auto simp: ob_update_def Let_def dest!: sql_now_Inl_cases)

lemma ob_update_ok:
  "fault w = (\<lambda>_. None) \<Longrightarrow> ob_update T p f w =
     (Inr (changed_rows (p (clock w)) (f (clock w)) (events T w)),
      w\<lparr>calls := Suc (calls w), db := set_tab T ((tab T (db w))
          \<lparr>ob_rows := update_where (p (clock w)) (f (clock w)) (events T w)\<rparr>) (db w)\<rparr>)"
  by (simp add: ob_update_def sql_now_ok Let_def)

text \<open>
  Every statement of the repository is an update of some rows that leaves the keys
  alone, or nothing. \<open>ob_effect\<close> says so of a state and its successor.
\<close>

definition ob_effect :: "(OutboxEvent \<Rightarrow> bool) \<Rightarrow> (OutboxEvent \<Rightarrow> OutboxEvent) \<Rightarrow> 'd world \<Rightarrow> 'd world \<Rightarrow> bool" where
  "ob_effect p f w w' \<longleftrightarrow>
     sent w' = sent w \<and> clock w' = clock w \<and> fault w' = fault w \<and>
     (events T w' = events T w \<or> events T w' = update_where p f (events T w))"

lemma ob_effect_calls: "ob_effect p f w (w'\<lparr>calls := n\<rparr>) = ob_effect p f w w'"
  by (simp add: ob_effect_def)

lemma ob_update_effect:
  assumes "ob_update T p f w = (r, w')"
  shows "ob_effect (p (clock w)) (f (clock w)) w w'"
proof (cases r)
  case (Inl e)
  then show ?thesis using assms by (auto simp: ob_effect_def dest!: ob_update_Inl)
next
  case (Inr n)
  then have "ob_update T p f w = (Inr n, w')" using assms by simp
  from ob_update_Inr [OF this] show ?thesis
    by (simp add: ob_effect_def same_but_io_def)
qed

lemma outside_frame: "outside w = (r, w') \<Longrightarrow> w' = w\<lparr>calls := Suc (calls w)\<rparr>"
  by (simp add: outside_def)

lemma ob_effect_refl [simp]: "ob_effect p f w (w\<lparr>calls := k\<rparr>)"
  by (simp add: ob_effect_def)

text \<open>What a claim does: it locks exactly the events it returns.\<close>

definition claim_post :: "int \<Rightarrow> 'd world \<Rightarrow> go_error + OutboxEvent list \<Rightarrow> 'd world \<Rightarrow> bool" where
  "claim_post lt w r w' \<longleftrightarrow>
     sent w' = sent w \<and> clock w' = clock w \<and> fault w' = fault w \<and>
     (case r of Inl e \<Rightarrow> events T w' = events T w
      | Inr es \<Rightarrow> events T w' = update_where (\<lambda>x. oe_EventID x \<in> oe_EventID ` set es)
                                   (ob_lock (clock w + seconds lt)) (events T w) \<and>
          (unique_by oe_EventID (events T w) \<longrightarrow> distinct (map oe_EventID es)) \<and>
          (\<forall>e \<in> set es. \<exists>x \<in> set (events T w). e = ob_selected x \<and> oe_Status x = ''pending''))"

lemma update_where_False [simp]: "update_where (\<lambda>_. False) f rs = rs"
  by (simp add: update_where_none)

lemma ClaimOutboxEvents_post:
  assumes "ClaimOutboxEvents T n lt w = (r, w')"
  shows "claim_post lt w r w'"
  using assms unfolding ClaimOutboxEvents_def Let_def
proof (cases rule: call_cases)
  case (err e w1)
  then show ?thesis by (auto simp: claim_post_def dest!: begin_tx_Inl)
next
  case (ok snapshot w1)
  then have 1: "snapshot = db w" "w1 = after_begin w" by (auto dest!: begin_tx_Inr)
  from ok(2) show ?thesis
  proof (cases rule: call_cases)
    case (err e w2)
    then show ?thesis
      by (auto simp: 1 claim_post_def rollback_tx_def dest!: sql_query_db)
  next
    case sel: (ok es w2)
    then have 2: "ob_select_pending n (tab T (db w)) = Inr es"
        "w2 = (after_begin w)\<lparr>calls := Suc (Suc (calls w))\<rparr>"
      by (auto simp: 1 dest!: sql_query_Inr_cases)
    show ?thesis
    proof (cases "es = []")
      case True
      then show ?thesis using sel(2) by (auto simp: 1 2 claim_post_def rollback_ret_def)
    next
      case False
      with sel(2) have "call (ob_update T (\<lambda>_ r. oe_EventID r \<in> set (map oe_EventID es)) (\<lambda>now. ob_lock (now + seconds lt)))
          (\<lambda>err. rollback_tx snapshot (ob_error ''repository.ClaimOutboxEvents'' ''failed to get outbox events list'' err))
          (\<lambda>_. call (commit_tx snapshot) fail (\<lambda>_. ret es)) w2 = (r, w')"
        by simp
      then show ?thesis
      proof (cases rule: call_cases)
        case (err e w3)
        then show ?thesis
          by (auto simp: 1 2 claim_post_def rollback_tx_def dest!: ob_update_Inl)
      next
        case upd: (ok k w3)
        note u = ob_update_Inr [OF upd(1)]
        from upd(2) show ?thesis
        proof (cases rule: call_cases)
          case (err e w4)
          then show ?thesis
            using u(2,3) by (auto simp: 1 2 claim_post_def same_but_io_def dest!: commit_tx_Inl)
        next
          case (ok _ w4)
          then show ?thesis
            using u(1-3) ob_claimed [OF 2(1)] ob_claimed_distinct [OF 2(1)]
            by (auto simp: 1 2(2) claim_post_def same_but_io_def dest!: commit_tx_Inr)
        qed
      qed
    qed
  qed
qed

lemma svc_Claim_post:
  assumes "svc_ClaimOutboxEvents T n lt w = (r, w')"
  shows "\<exists>r'. claim_post lt w r' w' \<and> (case r of Inl _ \<Rightarrow> isl r' | Inr es \<Rightarrow> r' = Inr es)"
  using assms unfolding svc_ClaimOutboxEvents_def
  by (cases rule: call_cases) (auto dest!: ClaimOutboxEvents_post)

lemma MarkEventsProcessed_effect:
  assumes "MarkEventsProcessed T ids w = (r, w')"
  shows "ob_effect (\<lambda>x. oe_EventID x \<in> set ids) (ob_done (clock w)) w w'"
  using assms unfolding MarkEventsProcessed_def MarkOutboxEventsProcessed_def
  by (auto simp: call_def ob_effect_def split: if_splits prod.splits sum.splits
      dest!: ob_update_effect [unfolded ob_effect_def])

lemma MarkEventsFailed_effect:
  assumes "MarkEventsFailed T ids w = (r, w')"
  shows "ob_effect (\<lambda>x. oe_EventID x \<in> set ids) ob_release w w'"
  using assms unfolding MarkEventsFailed_def MarkOutboxEventsFailed_def
  by (auto simp: call_def ob_effect_def split: if_splits prod.splits sum.splits
      dest!: ob_update_effect [unfolded ob_effect_def])

lemma MarkOutboxEventProcessed_effect:
  assumes "MarkOutboxEventProcessed T i w = (r, w')"
  shows "ob_effect (\<lambda>x. oe_EventID x = i) (ob_done (clock w)) w w'"
  using assms unfolding MarkOutboxEventProcessed_def
  by (auto simp: call_def split: prod.splits sum.splits dest!: ob_update_effect)

lemma MarkOutboxEventFailed_effect:
  assumes "MarkOutboxEventFailed T i w = (r, w')"
  shows "ob_effect (\<lambda>x. oe_EventID x = i) ob_release w w'"
  using assms unfolding MarkOutboxEventFailed_def
  by (auto simp: call_def split: prod.splits sum.splits dest!: ob_update_effect)

lemma RecoverStaleEvents_effect:
  assumes "RecoverStaleEvents T w = (r, w')"
  shows "ob_effect (ob_stale (clock w)) ob_release w w'"
  using assms unfolding RecoverStaleEvents_def RecoverStaleOutboxEvents_def
  by (auto simp: call_def split: prod.splits sum.splits
      dest!: ob_update_effect outside_frame simp: ob_effect_calls)

lemma ClaimSingleEvent_effect:
  assumes "ClaimSingleEvent T i lt w = (r, w')"
  shows "ob_effect (\<lambda>x. oe_EventID x = i \<and> oe_Status x = ''pending'') (ob_lock (clock w + seconds lt)) w w'"
  using assms unfolding ClaimSingleEvent_def
  by (auto simp: call_def split: prod.splits sum.splits if_splits
      dest!: ob_update_effect outside_frame simp: ob_effect_calls)

end

section \<open>Interleavings\<close>

text \<open>
  A state of the system: the world, the events some goroutine holds a claim on, and
  those whose publication succeeded or failed but is not yet marked. A crash forgets
  any of the latter.
\<close>

record 'd ob_sys =
  sys_world :: "'d world"
  held :: "OutboxEvent set"
  publish_ok :: "OutboxEvent set"
  publish_failed :: "OutboxEvent set"

inductive ob_step ::
  "'d outbox_ref \<Rightarrow> (OutboxEvent \<Rightarrow> ('d, unit) wprog) \<Rightarrow> 'd ob_sys \<Rightarrow> 'd ob_sys \<Rightarrow> bool"
  for T :: "'d outbox_ref" and process :: "OutboxEvent \<Rightarrow> ('d, unit) wprog" where
  step_insert: "InsertOutboxEvents T es (sys_world s) = (r, w') \<Longrightarrow>
    ob_step T process s (s\<lparr>sys_world := w'\<rparr>)"
| step_claim: "svc_ClaimOutboxEvents T n lt (sys_world s) = (Inr es, w') \<Longrightarrow>
    ob_step T process s (s\<lparr>sys_world := w', held := held s \<union> set es\<rparr>)"
| step_claim_error: "svc_ClaimOutboxEvents T n lt (sys_world s) = (Inl err, w') \<Longrightarrow>
    ob_step T process s (s\<lparr>sys_world := w'\<rparr>)"
| step_claim_single: "ob_key e \<in> ob_key ` set (events T (sys_world s)) \<Longrightarrow>
    ClaimSingleEvent T (oe_EventID e) lt (sys_world s) = (Inr (), w') \<Longrightarrow>
    ob_step T process s (s\<lparr>sys_world := w', held := insert e (held s)\<rparr>)"
| step_claim_single_error: "ClaimSingleEvent T i lt (sys_world s) = (Inl err, w') \<Longrightarrow>
    ob_step T process s (s\<lparr>sys_world := w'\<rparr>)"
| step_process: "e \<in> held s \<Longrightarrow> process e (sys_world s) = (Inr (), w') \<Longrightarrow>
    ob_step T process s (s\<lparr>sys_world := w', held := held s - {e}, publish_ok := insert e (publish_ok s)\<rparr>)"
| step_process_error: "e \<in> held s \<Longrightarrow> process e (sys_world s) = (Inl err, w') \<Longrightarrow>
    ob_step T process s (s\<lparr>sys_world := w', held := held s - {e}, publish_failed := insert e (publish_failed s)\<rparr>)"
| step_mark_processed: "set ids \<subseteq> oe_EventID ` publish_ok s \<Longrightarrow>
    MarkEventsProcessed T ids (sys_world s) = (r, w') \<Longrightarrow> ob_step T process s (s\<lparr>sys_world := w'\<rparr>)"
| step_mark_one_processed: "i \<in> oe_EventID ` publish_ok s \<Longrightarrow>
    MarkOutboxEventProcessed T i (sys_world s) = (r, w') \<Longrightarrow> ob_step T process s (s\<lparr>sys_world := w'\<rparr>)"
| step_mark_failed: "set ids \<subseteq> oe_EventID ` publish_failed s \<Longrightarrow>
    MarkEventsFailed T ids (sys_world s) = (r, w') \<Longrightarrow> ob_step T process s (s\<lparr>sys_world := w'\<rparr>)"
| step_mark_one_failed: "i \<in> oe_EventID ` publish_failed s \<Longrightarrow>
    MarkOutboxEventFailed T i (sys_world s) = (r, w') \<Longrightarrow> ob_step T process s (s\<lparr>sys_world := w'\<rparr>)"
| step_recover: "RecoverStaleEvents T (sys_world s) = (r, w') \<Longrightarrow> ob_step T process s (s\<lparr>sys_world := w'\<rparr>)"
| step_tick: "clock (sys_world s) \<le> t \<Longrightarrow>
    ob_step T process s (s\<lparr>sys_world := (sys_world s)\<lparr>clock := t\<rparr>\<rparr>)"
| step_crash: "h \<subseteq> held s \<Longrightarrow> p \<subseteq> publish_ok s \<Longrightarrow> f \<subseteq> publish_failed s \<Longrightarrow>
    ob_step T process s (s\<lparr>held := h, publish_ok := p, publish_failed := f\<rparr>)"

abbreviation ob_steps :: "'d outbox_ref \<Rightarrow> (OutboxEvent \<Rightarrow> ('d, unit) wprog) \<Rightarrow> 'd ob_sys \<Rightarrow> 'd ob_sys \<Rightarrow> bool" where
  "ob_steps T process \<equiv> (ob_step T process)\<^sup>*\<^sup>*"

definition idle :: "'d world \<Rightarrow> 'd ob_sys" where
  "idle w = \<lparr>sys_world = w, held = {}, publish_ok = {}, publish_failed = {}\<rparr>"

definition ob_sys_ok :: "'d outbox_ref \<Rightarrow> (string \<Rightarrow> bool) \<Rightarrow> 'd ob_sys \<Rightarrow> bool" where
  "ob_sys_ok T R s \<longleftrightarrow>
     ob_rows_ok R (sent (sys_world s)) (events T (sys_world s)) \<and>
     ob_key ` (held s \<union> publish_ok s \<union> publish_failed s) \<subseteq> ob_key ` set (events T (sys_world s)) \<and>
     (\<forall>e \<in> publish_ok s. ob_published R (sent (sys_world s)) e)"

locale outbox_service = outbox_store T + outbox_processor process routed
  for T :: "'d outbox_ref" and process :: "OutboxEvent \<Rightarrow> ('d, unit) wprog" and routed :: "string \<Rightarrow> bool"
begin

text \<open>A statement that changes statuses only keeps the system invariant and the keys.\<close>

lemma effect_ok:
  assumes "ob_sys_ok T routed s" "ob_effect p f (sys_world s) w'" "\<And>r. ob_key (f r) = ob_key r"
    and "\<And>r. r \<in> set (events T (sys_world s)) \<Longrightarrow> p r \<Longrightarrow> ob_row_ok routed (sent (sys_world s)) (f r)"
  shows "ob_sys_ok T routed (s\<lparr>sys_world := w'\<rparr>) \<and> map ob_key (events T w') = map ob_key (events T (sys_world s))"
proof -
  have k: "map ob_key (events T w') = map ob_key (events T (sys_world s))"
    using assms(2,3) by (auto simp: ob_effect_def ob_keys_update)
  then have "ob_key ` set (events T w') = ob_key ` set (events T (sys_world s))"
    by (metis list.set_map)
  moreover have "ob_rows_ok routed (sent (sys_world s)) (events T w')"
    using assms ob_rows_ok_update by (auto simp: ob_effect_def ob_sys_ok_def)
  ultimately show ?thesis
    using assms(1,2) k by (simp add: ob_sys_ok_def ob_effect_def)
qed

lemma published_by_id:
  assumes "ob_sys_ok T routed s" "r \<in> set (events T (sys_world s))" "oe_EventID r \<in> oe_EventID ` publish_ok s"
  shows "ob_published routed (sent (sys_world s)) r"
proof -
  obtain e where e: "e \<in> publish_ok s" "oe_EventID e = oe_EventID r" using assms(3) by auto
  then have "ob_key e \<in> ob_key ` set (events T (sys_world s))"
    using assms(1) by (auto simp: ob_sys_ok_def)
  then obtain r' where r': "r' \<in> set (events T (sys_world s))" "ob_key e = ob_key r'" by auto
  have "unique_by oe_EventID (events T (sys_world s))"
    using assms(1) by (simp add: ob_sys_ok_def ob_rows_ok_def)
  then have "r' = r"
    using unique_byD r' assms(2) e(2) by (metis ob_key_def prod.inject)
  then show ?thesis
    using assms(1) e(1) r'(2) ob_published_key unfolding ob_sys_ok_def by blast
qed

lemma process_ok:
  assumes "ob_sys_ok T routed s" "process e (sys_world s) = (r, w')"
  shows "ob_sys_ok T routed (s\<lparr>sys_world := w'\<rparr>) \<and> events T w' = events T (sys_world s)"
  using assms proc_mono [OF assms(2)] proc_frame [OF assms(2)]
  by (auto simp: ob_sys_ok_def same_but_io_def intro: ob_rows_ok_mono ob_published_mono)

lemma insert_ok:
  assumes "InsertOutboxEvents T es w = (r, w')"
  shows "sent w' = sent w \<and> (events T w' = events T w \<or>
    (\<exists>u t. ob_insert es (tab T (db w)) = Inr (u, t) \<and> events T w' = ob_rows t))"
  using assms unfolding InsertOutboxEvents_def
  by (auto simp: call_def split: if_splits prod.splits sum.splits dest!: sql_Inl_cases sql_Inr_cases)

lemma claim_ok:
  assumes "ob_sys_ok T routed s" "svc_ClaimOutboxEvents T n lt (sys_world s) = (r, w')"
  shows "ob_sys_ok T routed (s\<lparr>sys_world := w', held := held s \<union> (case r of Inl _ \<Rightarrow> {} | Inr es \<Rightarrow> set es)\<rparr>) \<and>
    map ob_key (events T w') = map ob_key (events T (sys_world s))"
proof -
  obtain r' where c: "claim_post lt (sys_world s) r' w'" "case r of Inl _ \<Rightarrow> isl r' | Inr es \<Rightarrow> r' = Inr es"
    using svc_Claim_post [OF assms(2)] by blast
  define p :: "OutboxEvent \<Rightarrow> bool" where "p = (case r of Inl _ \<Rightarrow> \<lambda>_. False | Inr es \<Rightarrow> \<lambda>x. oe_EventID x \<in> oe_EventID ` set es)"
  have eff: "ob_effect p (ob_lock (clock (sys_world s) + seconds lt)) (sys_world s) w'"
    using c by (auto simp: claim_post_def ob_effect_def p_def split: sum.splits)
  note ok = effect_ok [OF assms(1) eff, simplified]
  have "ob_key ` (case r of Inl _ \<Rightarrow> {} | Inr es \<Rightarrow> set es) \<subseteq> ob_key ` set (events T (sys_world s))"
    using c by (auto simp: claim_post_def split: sum.splits)
  moreover have "ob_key ` set (events T w') = ob_key ` set (events T (sys_world s))"
    using ok by (metis list.set_map)
  ultimately show ?thesis
    using ok by (auto simp: ob_sys_ok_def image_Un)
qed

lemma claim_single_ok:
  assumes "ob_sys_ok T routed s" "ClaimSingleEvent T i lt (sys_world s) = (r, w')"
  shows "ob_sys_ok T routed (s\<lparr>sys_world := w'\<rparr>) \<and> map ob_key (events T w') = map ob_key (events T (sys_world s))"
  by (rule effect_ok [OF assms(1) ClaimSingleEvent_effect [OF assms(2)]]) simp_all

lemma recover_ok:
  assumes "ob_sys_ok T routed s" "RecoverStaleEvents T (sys_world s) = (r, w')"
  shows "ob_sys_ok T routed (s\<lparr>sys_world := w'\<rparr>) \<and> map ob_key (events T w') = map ob_key (events T (sys_world s))"
  by (rule effect_ok [OF assms(1) RecoverStaleEvents_effect [OF assms(2)]]) simp_all

lemma mark_failed_ok:
  assumes "ob_sys_ok T routed s"
    and "MarkEventsFailed T ids (sys_world s) = (r, w') \<or> MarkOutboxEventFailed T i (sys_world s) = (r, w')"
  shows "ob_sys_ok T routed (s\<lparr>sys_world := w'\<rparr>) \<and> map ob_key (events T w') = map ob_key (events T (sys_world s))"
  using assms(2)
proof
  assume "MarkEventsFailed T ids (sys_world s) = (r, w')"
  from effect_ok [OF assms(1) MarkEventsFailed_effect [OF this]] show ?thesis by simp
next
  assume "MarkOutboxEventFailed T i (sys_world s) = (r, w')"
  from effect_ok [OF assms(1) MarkOutboxEventFailed_effect [OF this]] show ?thesis by simp
qed

lemma mark_processed_ok:
  assumes "ob_sys_ok T routed s"
    and "set ids \<subseteq> oe_EventID ` publish_ok s \<and> MarkEventsProcessed T ids (sys_world s) = (r, w') \<or>
         i \<in> oe_EventID ` publish_ok s \<and> MarkOutboxEventProcessed T i (sys_world s) = (r, w')"
  shows "ob_sys_ok T routed (s\<lparr>sys_world := w'\<rparr>) \<and> map ob_key (events T w') = map ob_key (events T (sys_world s))"
  using assms(2)
proof (elim disjE conjE)
  assume "set ids \<subseteq> oe_EventID ` publish_ok s" and m: "MarkEventsProcessed T ids (sys_world s) = (r, w')"
  then show ?thesis
    by (intro effect_ok [OF assms(1) MarkEventsProcessed_effect [OF m]])
       (auto intro: published_by_id [OF assms(1)])
next
  assume "i \<in> oe_EventID ` publish_ok s" and m: "MarkOutboxEventProcessed T i (sys_world s) = (r, w')"
  then show ?thesis
    by (intro effect_ok [OF assms(1) MarkOutboxEventProcessed_effect [OF m]])
       (auto intro: published_by_id [OF assms(1)])
qed

text \<open>
  One step keeps the invariant, and the table only grows: the keys of the events that
  were there stay, in order.
\<close>

lemma ob_step_ok:
  assumes "ob_step T process s s'" "ob_sys_ok T routed s"
  shows "ob_sys_ok T routed s' \<and>
    (\<exists>new. map ob_key (events T (sys_world s')) = map ob_key (events T (sys_world s)) @ new)"
  using assms(1)
proof cases
  case (step_insert es r w')
  have eff: "sent w' = sent (sys_world s)" "events T w' = events T (sys_world s) \<or>
    (\<exists>u t. ob_insert es (tab T (db (sys_world s))) = Inr (u, t) \<and> events T w' = ob_rows t)"
    using insert_ok [OF step_insert(2)] by auto
  have "\<exists>new. events T w' = events T (sys_world s) @ new" "ob_rows_ok routed (sent w') (events T w')"
    using eff assms(2) ob_rows_ok_insert by (auto simp: ob_sys_ok_def dest: ob_insert_rows)
  then show ?thesis
    using step_insert(1) assms(2) eff(1) by (auto simp: ob_sys_ok_def)
next
  case (step_claim n lt es w')
  then show ?thesis using claim_ok [OF assms(2) step_claim(2)] by simp
next
  case (step_claim_error n lt err w')
  then show ?thesis using claim_ok [OF assms(2) step_claim_error(2)] by simp
next
  case (step_claim_single e lt w')
  have c: "ob_sys_ok T routed (s\<lparr>sys_world := w'\<rparr>)" "map ob_key (events T w') = map ob_key (events T (sys_world s))"
    using claim_single_ok [OF assms(2) step_claim_single(3)] by auto
  then have "ob_key ` set (events T w') = ob_key ` set (events T (sys_world s))" by (metis list.set_map)
  then show ?thesis using step_claim_single(1,2) c by (auto simp: ob_sys_ok_def)
next
  case (step_claim_single_error i lt err w')
  then show ?thesis using claim_single_ok [OF assms(2) step_claim_single_error(2)] by simp
next
  case (step_process e w')
  note p = process_ok [OF assms(2) step_process(3)]
  have "ob_published routed (sent w') e"
    using proc_ok [OF step_process(3)] by (auto simp: ob_published_def)
  then show ?thesis using p step_process(1,2) by (auto simp: ob_sys_ok_def)
next
  case (step_process_error e err w')
  note p = process_ok [OF assms(2) step_process_error(3)]
  then show ?thesis using step_process_error(1,2) by (auto simp: ob_sys_ok_def)
next
  case (step_mark_processed ids r w')
  then show ?thesis using mark_processed_ok [OF assms(2), of ids r w'] by auto
next
  case (step_mark_one_processed i r w')
  then show ?thesis using mark_processed_ok [OF assms(2), of "[]" r w' i] by auto
next
  case (step_mark_failed ids r w')
  then show ?thesis using mark_failed_ok [OF assms(2), of ids r w'] by auto
next
  case (step_mark_one_failed i r w')
  then show ?thesis using mark_failed_ok [OF assms(2), of "[]" r w' i] by auto
next
  case (step_recover r w')
  then show ?thesis using recover_ok [OF assms(2) step_recover(2)] by simp
next
  case (step_tick t)
  then show ?thesis using assms(2) by (simp add: ob_sys_ok_def)
next
  case (step_crash h p f)
  then have "h \<union> p \<union> f \<subseteq> held s \<union> publish_ok s \<union> publish_failed s" by auto
  then show ?thesis
    using step_crash assms(2) by (auto simp: ob_sys_ok_def image_subset_iff)
qed

lemma ob_steps_ok:
  assumes "ob_steps T process s s'" "ob_sys_ok T routed s"
  shows "ob_sys_ok T routed s' \<and>
    (\<exists>new. map ob_key (events T (sys_world s')) = map ob_key (events T (sys_world s)) @ new)"
  using assms
proof (induction rule: rtranclp_induct)
  case (step s' s'')
  then show ?case using ob_step_ok [OF step.hyps(2)] by fastforce
qed simp

lemma idle_ok: "ob_sys_ok T routed (idle w) \<longleftrightarrow> ob_rows_ok routed (sent w) (events T w)"
  by (simp add: ob_sys_ok_def idle_def)

lemma steps_from_idle:
  assumes "ob_steps T process (idle w) s" "ob_rows_ok routed (sent w) (events T w)"
  shows "ob_rows_ok routed (sent (sys_world s)) (events T (sys_world s)) \<and>
    (\<exists>new. map ob_key (events T (sys_world s)) = map ob_key (events T w) @ new)"
  using ob_steps_ok [OF assms(1)] assms(2) by (auto simp: idle_ok) (auto simp: ob_sys_ok_def idle_def)

text \<open>
  The worker and the goroutine started after a commit are runs of this relation, so
  the invariant covers them.
\<close>

lemma run_goroutines_steps:
  assumes "run_goroutines process es w = ((P, F), w')" "set es \<subseteq> held s" "distinct es" "sys_world s = w"
  shows "\<exists>s'. ob_steps T process s s' \<and> sys_world s' = w' \<and>
    publish_ok s \<subseteq> publish_ok s' \<and> publish_failed s \<subseteq> publish_failed s' \<and>
    set P \<subseteq> oe_EventID ` publish_ok s' \<and> set F \<subseteq> oe_EventID ` publish_failed s'"
  using assms
proof (induction es arbitrary: w s P F w')
  case Nil
  then show ?case by auto
next
  case (Cons e es)
  obtain r w1 where p: "process e w = (r, w1)" by (cases "process e w")
  obtain P1 F1 w2 where g: "run_goroutines process es w1 = ((P1, F1), w2)"
    by (metis surj_pair)
  have sub: "set es \<subseteq> held s - {e}" "distinct es" using Cons.prems by auto
  show ?case
  proof (cases r)
    case (Inl err)
    define s1 where "s1 = s\<lparr>sys_world := w1, held := held s - {e}, publish_failed := insert e (publish_failed s)\<rparr>"
    have st: "ob_step T process s s1"
      unfolding s1_def using p Inl Cons.prems by (intro step_process_error) auto
    obtain s' where s': "ob_steps T process s1 s'" "sys_world s' = w2"
      "publish_ok s1 \<subseteq> publish_ok s'" "publish_failed s1 \<subseteq> publish_failed s'"
      "set P1 \<subseteq> oe_EventID ` publish_ok s'" "set F1 \<subseteq> oe_EventID ` publish_failed s'"
      using Cons.IH [OF g, of s1] sub by (auto simp: s1_def)
    then show ?thesis
      using st Cons.prems(1) p Inl g
      by (intro exI [of _ s']) (auto simp: s1_def intro: converse_rtranclp_into_rtranclp)
  next
    case (Inr u)
    define s1 where "s1 = s\<lparr>sys_world := w1, held := held s - {e}, publish_ok := insert e (publish_ok s)\<rparr>"
    have st: "ob_step T process s s1"
      unfolding s1_def using p Inr Cons.prems by (intro step_process) auto
    obtain s' where s': "ob_steps T process s1 s'" "sys_world s' = w2"
      "publish_ok s1 \<subseteq> publish_ok s'" "publish_failed s1 \<subseteq> publish_failed s'"
      "set P1 \<subseteq> oe_EventID ` publish_ok s'" "set F1 \<subseteq> oe_EventID ` publish_failed s'"
      using Cons.IH [OF g, of s1] sub by (auto simp: s1_def)
    then show ?thesis
      using st Cons.prems(1) p Inr g
      by (intro exI [of _ s']) (auto simp: s1_def intro: converse_rtranclp_into_rtranclp)
  qed
qed

fun run_world :: "'w run \<Rightarrow> 'w" where
  "run_world (Returned w) = w"
| "run_world (Blocked w) = w"
| "run_world (Panicked w) = w"

lemma ProcessBatch_steps:
  assumes "unique_by oe_EventID (events T w)" "\<And>es. mset (order es) = mset es"
  shows "\<exists>s'. ob_steps T process (idle w) s' \<and> sys_world s' = run_world (ProcessBatch T process order config w)"
proof (cases "svc_ClaimOutboxEvents T (BatchSize config) (LockTimeout config) w")
  case (Pair r w1)
  show ?thesis
  proof (cases r)
    case (Inl err)
    then have "ob_step T process (idle w) ((idle w)\<lparr>sys_world := w1\<rparr>)"
      using Pair by (intro step_claim_error) (auto simp: idle_def)
    then show ?thesis
      using Pair Inl by (intro exI [of _ "(idle w)\<lparr>sys_world := w1\<rparr>"]) (auto simp: ProcessBatch_def)
  next
    case (Inr es)
    define s1 where "s1 = (idle w)\<lparr>sys_world := w1, held := set es\<rparr>"
    have st: "ob_step T process (idle w) s1"
      using step_claim [of T "BatchSize config" "LockTimeout config" "idle w" es w1 process] Pair Inr
      by (simp add: s1_def idle_def)
    show ?thesis
    proof (cases "es = [] \<or> Concurrency config \<le> 0")
      case True
      then have "run_world (ProcessBatch T process order config w) = w1"
        using Pair Inr by (auto simp: ProcessBatch_def)
      then show ?thesis using st by (intro exI [of _ s1]) (auto simp: s1_def)
    next
      case False
      have d: "distinct es"
        using svc_Claim_post [OF Pair] Inr assms(1) by (auto simp: claim_post_def distinct_map)
      then have do: "distinct (order es)" "set (order es) = set es"
        using assms(2) by (metis mset_eq_imp_distinct_iff, metis mset_eq_setD)
      obtain P F w2 where g: "run_goroutines process (order es) w1 = ((P, F), w2)"
        by (metis surj_pair)
      obtain s2 where s2: "ob_steps T process s1 s2" "sys_world s2 = w2"
        "set P \<subseteq> oe_EventID ` publish_ok s2" "set F \<subseteq> oe_EventID ` publish_failed s2"
        using run_goroutines_steps [OF g, of s1] do by (auto simp: s1_def)
      obtain r3 w3 where m: "MarkEventsProcessed T P w2 = (r3, w3)" by (cases "MarkEventsProcessed T P w2")
      obtain r4 w4 where f: "MarkEventsFailed T F w3 = (r4, w4)" by (cases "MarkEventsFailed T F w3")
      have st3: "ob_step T process s2 (s2\<lparr>sys_world := w3\<rparr>)"
        using s2 m by (intro step_mark_processed) auto
      have st4: "ob_step T process (s2\<lparr>sys_world := w3\<rparr>) (s2\<lparr>sys_world := w4\<rparr>)"
        using step_mark_failed [of F "s2\<lparr>sys_world := w3\<rparr>" T r4 w4 process] s2 f by simp
      have "run_world (ProcessBatch T process order config w) = w4"
        using Pair Inr False g m f by (auto simp: ProcessBatch_def call_def split: sum.splits)
      moreover have "ob_steps T process (idle w) (s2\<lparr>sys_world := w4\<rparr>)"
        using st s2(1) st3 st4 by (meson converse_rtranclp_into_rtranclp rtranclp.rtrancl_into_rtrancl)
      ultimately show ?thesis by (intro exI [of _ "s2\<lparr>sys_world := w4\<rparr>"]) simp
    qed
  qed
qed

lemma ClaimSingleEvent_Inr:
  assumes "ClaimSingleEvent T i lt w = (Inr (), w')" "unique_by oe_EventID (events T w)"
  shows "\<exists>r \<in> set (events T w'). oe_EventID r = i \<and> oe_Status r = ''processing''"
proof -
  obtain n w1 where u: "ob_update T (\<lambda>_ r. oe_EventID r = i \<and> oe_Status r = ''pending'')
      (\<lambda>now. ob_lock (now + seconds lt)) w = (Inr n, w1)" and n: "n \<noteq> 0" and w': "events T w' = events T w1"
    using assms(1) unfolding ClaimSingleEvent_def
    by (elim call_fail_Inr) (auto split: if_splits dest: outside_frame)
  note u' = ob_update_Inr [OF u]
  then obtain r where "r \<in> set (events T w)" "oe_EventID r = i" "oe_Status r = ''pending''"
    using n by (auto simp: changed_rows_0)
  then show ?thesis
    unfolding w' u'(1) by (intro bexI [of _ "ob_lock (clock w + seconds lt) r"]) (auto simp: set_update_where image_iff)
qed

lemma ClaimSingleEvent_refuses:
  assumes "fault_free w" "\<And>r. r \<in> set (events T w) \<Longrightarrow> oe_EventID r = i \<Longrightarrow> oe_Status r \<noteq> ''pending''"
  shows "\<exists>e w'. ClaimSingleEvent T i lt w = (Inl e, w') \<and> is_kind KindConflict e \<and> events T w' = events T w"
proof -
  have f: "fault w = (\<lambda>_. None)" using assms(1) by (simp add: fault_free_def)
  have 0: "changed_rows (\<lambda>r. oe_EventID r = i \<and> oe_Status r = ''pending'') (ob_lock (clock w + seconds lt)) (events T w) = 0"
    using assms(2) by (auto simp: changed_rows_0)
  have "update_where (\<lambda>r. oe_EventID r = i \<and> oe_Status r = ''pending'') (ob_lock (clock w + seconds lt)) (events T w) = events T w"
    using assms(2) by (intro update_where_none) auto
  then show ?thesis
    by (simp add: ClaimSingleEvent_def call_def ob_update_ok [OF f] outside_def f 0)
qed

end

section \<open>Delivery\<close>

text \<open>
  With a processor that does not fail by itself, expired locks, no driver failure and a batch size that covers the
  table, one recovery tick and one batch deliver every event.
\<close>

locale live_outbox = outbox_store T + live_processor process routed
  for T :: "'d outbox_ref" and process :: "OutboxEvent \<Rightarrow> ('d, unit) wprog" and routed :: "string \<Rightarrow> bool"

sublocale live_outbox \<subseteq> outbox_service T process routed
  by unfold_locales

context live_outbox
begin

lemma run_goroutines_all:
  assumes "fault_free w"
  shows "\<exists>w'. run_goroutines process es w = ((map oe_EventID es, []), w') \<and> same_but_io w w'"
  using assms
proof (induction es arbitrary: w)
  case (Cons e es)
  obtain w1 where p: "process e w = (Inr (), w1)" using proc_open [OF Cons.prems] by blast
  then have fr: "same_but_io w w1" by (rule proc_frame)
  then have "fault_free w1" using Cons.prems by (simp add: same_but_io_def fault_free_def)
  from Cons.IH [OF this] obtain w' where
    "run_goroutines process es w1 = ((map oe_EventID es, []), w')" "same_but_io w1 w'" by blast
  then show ?case using p fr by (auto intro: same_but_io_trans)
qed simp

lemma recovery_tick_ok:
  assumes "fault_free w"
  shows "fault_free (recovery_tick T w) \<and> clock (recovery_tick T w) = clock w \<and>
    events T (recovery_tick T w) = update_where (ob_stale (clock w)) ob_release (events T w)"
proof -
  have f: "fault w = (\<lambda>_. None)" using assms by (simp add: fault_free_def)
  show ?thesis
    by (simp add: recovery_tick_def RecoverStaleEvents_def RecoverStaleOutboxEvents_def call_def
        ob_update_ok [OF f] outside_def f fault_free_def)
qed

lemma ClaimOutboxEvents_ok:
  assumes "fault_free w" "ob_select_pending n (tab T (db w)) = Inr es"
  shows "\<exists>w'. svc_ClaimOutboxEvents T n lt w = (Inr es, w') \<and> fault_free w' \<and>
    events T w' = update_where (\<lambda>x. oe_EventID x \<in> set (map oe_EventID es)) (ob_lock (clock w + seconds lt)) (events T w)"
proof (cases "es = []")
  case True
  then show ?thesis
    using assms
    by (simp add: svc_ClaimOutboxEvents_def ClaimOutboxEvents_def Let_def call_def begin_tx_ok sql_query_ok
        fault_free_def rollback_ret_def)
next
  case False
  define w2 where "w2 = (after_begin w)\<lparr>calls := Suc (calls (after_begin w))\<rparr>"
  have f2: "fault w2 = (\<lambda>_. None)" "clock w2 = clock w" "events T w2 = events T w"
    using assms(1) by (simp_all add: w2_def fault_free_def)
  have q: "sql_query (\<lambda>d. ob_select_pending n (tab T d)) (after_begin w) = (Inr es, w2)"
    using assms by (simp add: sql_query_ok fault_free_def w2_def)
  have b: "begin_tx w = (Inr (db w), after_begin w)"
    using assms(1) by (simp add: begin_tx_ok fault_free_def)
  define w3 where "w3 = w2\<lparr>calls := Suc (calls w2), db := set_tab T ((tab T (db w2))\<lparr>ob_rows :=
      update_where (\<lambda>x. oe_EventID x \<in> set (map oe_EventID es)) (ob_lock (clock w2 + seconds lt)) (events T w2)\<rparr>) (db w2)\<rparr>"
  have u: "\<exists>k. ob_update T (\<lambda>_ r. oe_EventID r \<in> set (map oe_EventID es)) (\<lambda>now. ob_lock (now + seconds lt)) w2 = (Inr k, w3)"
    using ob_update_ok [OF f2(1)] by (simp add: w3_def)
  then obtain k where u: "ob_update T (\<lambda>_ r. oe_EventID r \<in> set (map oe_EventID es)) (\<lambda>now. ob_lock (now + seconds lt)) w2 = (Inr k, w3)" ..
  have "fault w3 = (\<lambda>_. None)" using f2(1) by (simp add: w3_def)
  then have "svc_ClaimOutboxEvents T n lt w = (Inr es, w3\<lparr>calls := Suc (calls w3), open_tx := open_tx w3 - 1\<rparr>)"
    using False u by (simp add: svc_ClaimOutboxEvents_def ClaimOutboxEvents_def Let_def call_def b q commit_tx_ok)
  then show ?thesis
    using f2 by (simp add: w3_def fault_free_def)
qed

lemma MarkEventsProcessed_ok:
  assumes "fault_free w"
  shows "\<exists>w'. MarkEventsProcessed T ids w = (Inr (), w') \<and>
    events T w' = update_where (\<lambda>x. oe_EventID x \<in> set ids) (ob_done (clock w)) (events T w)"
proof -
  have f: "fault w = (\<lambda>_. None)" using assms by (simp add: fault_free_def)
  show ?thesis
    by (auto simp: MarkEventsProcessed_def MarkOutboxEventsProcessed_def call_def ob_update_ok [OF f])
qed

lemma batch_delivers:
  assumes "fault_free w" "\<forall>r \<in> set (events T w). oe_Status r \<in> {''pending'', ''processed''}"
    and "int (length (events T w)) \<le> BatchSize config" "0 < Concurrency config" "\<And>es. mset (order es) = mset es"
  shows "\<exists>w'. ProcessBatch T process order config w = Returned w' \<and>
    map ob_key (events T w') = map ob_key (events T w) \<and> (\<forall>r \<in> set (events T w'). oe_Status r = ''processed'')"
proof -
  obtain es where es: "ob_select_pending (BatchSize config) (tab T (db w)) = Inr es"
    "set es = ob_selected ` {r \<in> set (events T w). oe_Status r = ''pending''}"
    using ob_select_all assms(3) by blast
  obtain w1 where c: "svc_ClaimOutboxEvents T (BatchSize config) (LockTimeout config) w = (Inr es, w1)" "fault_free w1"
    "events T w1 = update_where (\<lambda>x. oe_EventID x \<in> set (map oe_EventID es)) (ob_lock (clock w + seconds (LockTimeout config))) (events T w)"
    using ClaimOutboxEvents_ok [OF assms(1) es(1)] by blast
  have ids: "oe_EventID ` set es = {oe_EventID r | r. r \<in> set (events T w) \<and> oe_Status r = ''pending''}"
    using es(2) by (auto simp: image_image)
  show ?thesis
  proof (cases "es = []")
    case True
    then have "ProcessBatch T process order config w = Returned w1"
      using c(1) by (simp add: ProcessBatch_def)
    moreover have "\<forall>r \<in> set (events T w1). oe_Status r = ''processed''"
      using True es(2) assms(2) c(3) by auto
    moreover have "map ob_key (events T w1) = map ob_key (events T w)"
      using c(3) by (simp add: ob_keys_update)
    ultimately show ?thesis by blast
  next
    case False
    obtain w2 where g: "run_goroutines process (order es) w1 = ((map oe_EventID (order es), []), w2)" "same_but_io w1 w2"
      using run_goroutines_all [OF c(2)] by blast
    have "fault_free w2" "events T w2 = events T w1" using g(2) c(2) by (simp_all add: same_but_io_def fault_free_def)
    then obtain w3 where m: "MarkEventsProcessed T (map oe_EventID (order es)) w2 = (Inr (), w3)"
      "events T w3 = update_where (\<lambda>x. oe_EventID x \<in> set (map oe_EventID (order es))) (ob_done (clock w2)) (events T w1)"
      using MarkEventsProcessed_ok by metis
    have so: "set (order es) = set es" using assms(5) by (metis mset_eq_setD)
    have "ProcessBatch T process order config w = Returned w3"
      using c(1) False assms(4) g(1) m(1) by (simp add: ProcessBatch_def call_def MarkEventsFailed_def)
    moreover have "\<forall>r \<in> set (events T w3). oe_Status r = ''processed''"
      unfolding m(2) c(3) using assms(2) ids so by (auto simp: set_update_where)
    moreover have "map ob_key (events T w3) = map ob_key (events T w)"
      unfolding m(2) c(3) by (simp add: ob_keys_update)
    ultimately show ?thesis by blast
  qed
qed

lemma eventual_delivery:
  assumes "fault_free w" "ob_rows_ok routed (sent w) (events T w)"
    and "\<forall>r \<in> set (events T w). oe_Status r = ''processing'' \<longrightarrow> ob_stale (clock w) r"
    and "int (length (events T w)) \<le> BatchSize config" "0 < Concurrency config" "\<And>es. mset (order es) = mset es"
  shows "\<exists>w'. ProcessBatch T process order config (recovery_tick T w) = Returned w' \<and>
    map ob_key (events T w') = map ob_key (events T w) \<and>
    (\<forall>r \<in> set (events T w'). oe_Status r = ''processed'' \<and> ob_published routed (sent w') r)"
proof -
  define w1 where "w1 = recovery_tick T w"
  have r: "fault_free w1" "events T w1 = update_where (ob_stale (clock w)) ob_release (events T w)"
    using recovery_tick_ok [OF assms(1)] by (simp_all add: w1_def)
  have "\<forall>r \<in> set (events T w1). oe_Status r \<in> {''pending'', ''processed''}"
    using assms(2,3) unfolding r(2) by (auto simp: set_update_where ob_rows_ok_def ob_row_ok_def)
  then obtain w' where b: "ProcessBatch T process order config w1 = Returned w'"
    "map ob_key (events T w') = map ob_key (events T w1)" "\<forall>r \<in> set (events T w'). oe_Status r = ''processed''"
    using batch_delivers [OF r(1) _ _ assms(5,6)] assms(4) r(2) by (metis length_update_where)
  have "ob_steps T process (idle w) ((idle w)\<lparr>sys_world := w1\<rparr>)"
    by (intro r_into_rtranclp step_recover [of T "idle w" "fst (RecoverStaleEvents T w)"])
       (simp add: idle_def w1_def recovery_tick_def)
  then have ok1: "ob_rows_ok routed (sent w1) (events T w1)"
    using steps_from_idle [OF _ assms(2)] by fastforce
  obtain s where s: "ob_steps T process (idle w1) s" "sys_world s = w'"
    using ProcessBatch_steps [of w1 order config] b(1) assms(6) ok1 by (auto simp: ob_rows_ok_def)
  have "ob_rows_ok routed (sent w') (events T w')"
    using steps_from_idle [OF s(1) ok1] s(2) by simp
  then show ?thesis
    using b r(2) by (auto simp: w1_def [symmetric] ob_keys_update ob_rows_ok_def ob_row_ok_def)
qed

end

section \<open>The goroutine after a commit\<close>

context outbox_service
begin

lemma ProcessSingleEvent_steps:
  assumes "ob_key e \<in> ob_key ` set (events T w)"
  shows "\<exists>s'. ob_steps T process (idle w) s' \<and> sys_world s' = snd (ProcessSingleEvent T process lt e w)"
proof (cases "ClaimSingleEvent T (oe_EventID e) lt w")
  case (Pair r w1)
  show ?thesis
  proof (cases r)
    case (Inl err)
    then have "ob_step T process (idle w) ((idle w)\<lparr>sys_world := w1\<rparr>)"
      using Pair by (intro step_claim_single_error) (auto simp: idle_def)
    then show ?thesis
      using Pair Inl by (intro exI [of _ "(idle w)\<lparr>sys_world := w1\<rparr>"]) (auto simp: ProcessSingleEvent_def call_def)
  next
    case (Inr u)
    define s1 where "s1 = (idle w)\<lparr>sys_world := w1, held := {e}\<rparr>"
    have st1: "ob_step T process (idle w) s1"
      using step_claim_single [of e T "idle w" lt w1 process] Pair Inr assms by (simp add: s1_def idle_def)
    obtain r2 w2 where p: "process e w1 = (r2, w2)" by (cases "process e w1")
    show ?thesis
    proof (cases r2)
      case (Inl err)
      obtain r3 w3 where m: "MarkOutboxEventFailed T (oe_EventID e) w2 = (r3, w3)"
        by (cases "MarkOutboxEventFailed T (oe_EventID e) w2")
      define s2 where "s2 = s1\<lparr>sys_world := w2, held := {}, publish_failed := {e}\<rparr>"
      have st2: "ob_step T process s1 s2"
        using step_process_error [of e s1 process err w2 T] p Inl by (simp add: s1_def s2_def idle_def)
      have st3: "ob_step T process s2 (s2\<lparr>sys_world := w3\<rparr>)"
        using m by (intro step_mark_one_failed [of "oe_EventID e"]) (auto simp: s2_def)
      have "snd (ProcessSingleEvent T process lt e w) = w3"
        using Pair Inr p Inl m by (auto simp: ProcessSingleEvent_def call_def Let_def split: sum.splits)
      then show ?thesis
        using st1 st2 st3 by (intro exI [of _ "s2\<lparr>sys_world := w3\<rparr>"])
          (auto intro: converse_rtranclp_into_rtranclp)
    next
      case ok: (Inr u2)
      obtain r3 w3 where m: "MarkOutboxEventProcessed T (oe_EventID e) w2 = (r3, w3)"
        by (cases "MarkOutboxEventProcessed T (oe_EventID e) w2")
      define s2 where "s2 = s1\<lparr>sys_world := w2, held := {}, publish_ok := {e}\<rparr>"
      have st2: "ob_step T process s1 s2"
        using step_process [of e s1 process w2 T] p ok by (simp add: s1_def s2_def idle_def)
      have st3: "ob_step T process s2 (s2\<lparr>sys_world := w3\<rparr>)"
        using m by (intro step_mark_one_processed [of "oe_EventID e"]) (auto simp: s2_def)
      have "snd (ProcessSingleEvent T process lt e w) = w3"
        using Pair Inr p ok m by (auto simp: ProcessSingleEvent_def call_def Let_def split: sum.splits)
      then show ?thesis
        using st1 st2 st3 by (intro exI [of _ "s2\<lparr>sys_world := w3\<rparr>"])
          (auto intro: converse_rtranclp_into_rtranclp)
    qed
  qed
qed

text \<open>Two claims of one event: the second is refused while the first is held.\<close>

lemma second_claim_refused:
  assumes "ClaimSingleEvent T i lt w = (Inr (), w')" "fault_free w" "unique_by oe_EventID (events T w)"
  shows "\<exists>e w''. ClaimSingleEvent T i lt' w' = (Inl e, w'') \<and> is_kind KindConflict e \<and> events T w'' = events T w'"
proof -
  note eff = ClaimSingleEvent_effect [OF assms(1), unfolded ob_effect_def]
  have ff: "fault_free w'" using eff assms(2) by (simp add: fault_free_def)
  have u: "unique_by oe_EventID (events T w')"
    using eff assms(3) by (auto simp: unique_by_update_where)
  obtain r where r: "r \<in> set (events T w')" "oe_EventID r = i" "oe_Status r = ''processing''"
    using ClaimSingleEvent_Inr [OF assms(1,3)] by blast
  have "oe_Status r' \<noteq> ''pending''" if "r' \<in> set (events T w')" "oe_EventID r' = i" for r'
    using unique_byD [OF u that(1) r(1)] that(2) r by simp
  then show ?thesis by (rule ClaimSingleEvent_refuses [OF ff])
qed

end

end
