(* ===== verification/AuthStore.thy ===== *)
theory AuthStore
  imports OutboxProps
begin

text \<open>
  The auth service's database: tables of \<^verbatim>\<open>internal/auth/repository/migrations\<close>, the
  statements of \<^verbatim>\<open>internal/auth/repository/auth.go\<close> as functions on them with the
  constraints the migrations declare, and the repository's methods.
\<close>

section \<open>Tables\<close>

record User =
  usr_ID :: int
  usr_Email :: string
  usr_PasswordHash :: string
  usr_CreatedAt :: int

record device_row =
  dev_id :: int
  dev_public_id :: string
  dev_installation_id :: string
  dev_platform :: string
  dev_device_name :: string
  dev_app_version :: string
  dev_created_at :: int
  dev_last_seen_at :: int

record session_row =
  ses_id :: int
  ses_public_id :: string
  ses_user_id :: int
  ses_device_id :: int
  ses_refresh_token_hash :: string
  ses_ip_address :: string
  ses_user_agent :: string
  ses_push_token :: "string option"
  ses_expires_at :: int
  ses_created_at :: int
  ses_last_used_at :: int

record history_row =
  his_id :: int
  his_session_public_id :: string
  his_user_id :: int
  his_device_id :: int
  his_refresh_token_hash :: string
  his_ip_address :: string
  his_user_agent :: string
  his_created_at :: int
  his_last_used_at :: int
  his_revoked_at :: int
  his_revoke_reason :: string
  his_revoked_by :: string

record auth_db =
  users :: "User list"
  users_next :: int
  devices :: "device_row list"
  devices_next :: int
  device_sessions :: "session_row list"
  device_sessions_next :: int
  session_history :: "history_row list"
  session_history_next :: int
  auth_outbox_events :: outbox_tab

definition auth_outbox :: "auth_db outbox_ref" where
  "auth_outbox = \<lparr>tab = auth_outbox_events, set_tab = (\<lambda>t d. d\<lparr>auth_outbox_events := t\<rparr>)\<rparr>"

record SessionItem =
  si_SessionID :: string
  si_DeviceID :: string
  si_Platform :: string
  si_DeviceName :: string
  si_AppVersion :: string
  si_IPAddress :: string
  si_UserAgent :: string
  si_PushToken :: "string option"
  si_CreatedAt :: int
  si_LastUsedAt :: int
  si_ExpiresAt :: int

record DeviceContext =
  dc_UserAgent :: string
  dc_IPAddress :: string
  dc_InstallationID :: string
  dc_Platform :: string
  dc_DeviceName :: string
  dc_AppVersion :: string

section \<open>Statements\<close>

abbreviation duplicate_entry :: go_error where
  "duplicate_entry \<equiv> MySQLError 1062 ''Duplicate entry''"

abbreviation foreign_key_fails :: go_error where
  "foreign_key_fails \<equiv> MySQLError 1452 ''Cannot add or update a child row: a foreign key constraint fails''"

definition select_user :: "string \<Rightarrow> auth_db \<Rightarrow> go_error + User" where
  "select_user email d =
     (case find (\<lambda>u. usr_Email u = email) (users d) of None \<Rightarrow> Inl ErrNoRows | Some u \<Rightarrow> Inr u)"

definition insert_user :: "string \<Rightarrow> string \<Rightarrow> int \<Rightarrow> auth_db \<Rightarrow> go_error + (int \<times> auth_db)" where
  "insert_user email passwordHash now d =
     (if \<exists>u \<in> set (users d). usr_Email u = email then Inl duplicate_entry
      else Inr (users_next d,
        d\<lparr>users := users d @ [\<lparr>usr_ID = users_next d, usr_Email = email,
              usr_PasswordHash = passwordHash, usr_CreatedAt = now\<rparr>],
          users_next := users_next d + 1\<rparr>))"

definition platforms :: "string list" where
  "platforms = [''android'', ''ios'', ''web'']"

definition upsert_device ::
  "string \<Rightarrow> DeviceContext \<Rightarrow> int \<Rightarrow> auth_db \<Rightarrow> go_error + (unit \<times> auth_db)" where
  "upsert_device publicID deviceCtx now d =
     (let refresh = (\<lambda>r. r\<lparr>dev_device_name := dc_DeviceName deviceCtx,
                           dev_app_version := dc_AppVersion deviceCtx, dev_last_seen_at := now\<rparr>);
          same_install = (\<lambda>r. dev_installation_id r = dc_InstallationID deviceCtx \<and>
                              dev_platform r = dc_Platform deviceCtx)
      in if dc_Platform deviceCtx \<notin> set platforms then Inl (MySQLError 1265 ''Data truncated for column platform'')
      else if \<exists>r \<in> set (devices d). dev_public_id r = publicID
      then Inr ((), d\<lparr>devices := update_where (\<lambda>r. dev_public_id r = publicID) refresh (devices d)\<rparr>)
      else if \<exists>r \<in> set (devices d). same_install r
      then Inr ((), d\<lparr>devices := update_where same_install refresh (devices d)\<rparr>)
      else Inr ((), d\<lparr>devices := devices d @
               [\<lparr>dev_id = devices_next d, dev_public_id = publicID,
                 dev_installation_id = dc_InstallationID deviceCtx, dev_platform = dc_Platform deviceCtx,
                 dev_device_name = dc_DeviceName deviceCtx, dev_app_version = dc_AppVersion deviceCtx,
                 dev_created_at = now, dev_last_seen_at = now\<rparr>],
             devices_next := devices_next d + 1\<rparr>))"

definition select_device :: "string \<Rightarrow> string \<Rightarrow> auth_db \<Rightarrow> go_error + int" where
  "select_device installationID platform d =
     (case find (\<lambda>r. dev_installation_id r = installationID \<and> dev_platform r = platform) (devices d) of
        None \<Rightarrow> Inl ErrNoRows | Some r \<Rightarrow> Inr (dev_id r))"

definition select_device_public_id :: "int \<Rightarrow> auth_db \<Rightarrow> go_error + string" where
  "select_device_public_id deviceID d =
     (case find (\<lambda>r. dev_id r = deviceID) (devices d) of
        None \<Rightarrow> Inl ErrNoRows | Some r \<Rightarrow> Inr (dev_public_id r))"

definition select_session_of :: "int \<Rightarrow> int \<Rightarrow> auth_db \<Rightarrow> go_error + string" where
  "select_session_of userID deviceID d =
     (case find (\<lambda>r. ses_user_id r = userID \<and> ses_device_id r = deviceID) (device_sessions d) of
        None \<Rightarrow> Inl ErrNoRows | Some r \<Rightarrow> Inr (ses_public_id r))"

definition select_session_by_hash :: "string \<Rightarrow> auth_db \<Rightarrow> go_error + (string \<times> int \<times> int \<times> int)" where
  "select_session_by_hash hash d =
     (case find (\<lambda>r. ses_refresh_token_hash r = hash) (device_sessions d) of
        None \<Rightarrow> Inl ErrNoRows
      | Some r \<Rightarrow> Inr (ses_public_id r, ses_user_id r, ses_device_id r, ses_expires_at r))"

text \<open>
  The UPDATE of a session's token: \<^verbatim>\<open>push_token\<close> is in the statement only when the request
  carries one, and an empty one is stored as NULL.
\<close>

definition nullable :: "string \<Rightarrow> string option" where
  "nullable s = (if s = [] then None else Some s)"

definition renew_session ::
  "string \<Rightarrow> int \<Rightarrow> DeviceContext \<Rightarrow> string option \<Rightarrow> int \<Rightarrow> session_row \<Rightarrow> session_row" where
  "renew_session hash expiresAt deviceCtx pushToken now r =
     (let r' = r\<lparr>ses_refresh_token_hash := hash, ses_expires_at := expiresAt,
                 ses_ip_address := dc_IPAddress deviceCtx, ses_user_agent := dc_UserAgent deviceCtx,
                 ses_last_used_at := now\<rparr>
      in case pushToken of None \<Rightarrow> r' | Some p \<Rightarrow> r'\<lparr>ses_push_token := nullable p\<rparr>)"

definition update_session ::
  "string \<Rightarrow> int \<Rightarrow> DeviceContext \<Rightarrow> string option \<Rightarrow> string \<Rightarrow> int \<Rightarrow> auth_db \<Rightarrow> go_error + (unit \<times> auth_db)" where
  "update_session hash expiresAt deviceCtx pushToken publicID now d =
     (let rs = update_where (\<lambda>r. ses_public_id r = publicID)
                 (renew_session hash expiresAt deviceCtx pushToken now) (device_sessions d)
      in if unique_by ses_refresh_token_hash rs then Inr ((), d\<lparr>device_sessions := rs\<rparr>)
         else Inl duplicate_entry)"

definition insert_session ::
  "string \<Rightarrow> int \<Rightarrow> int \<Rightarrow> string \<Rightarrow> DeviceContext \<Rightarrow> string option \<Rightarrow> int \<Rightarrow> int \<Rightarrow> auth_db \<Rightarrow> go_error + (unit \<times> auth_db)" where
  "insert_session publicID userID deviceID hash deviceCtx pushToken expiresAt now d =
     (if \<exists>r \<in> set (device_sessions d).
           ses_user_id r = userID \<and> ses_device_id r = deviceID \<or> ses_refresh_token_hash r = hash
      then Inl duplicate_entry
      else if \<not> (\<exists>u \<in> set (users d). usr_ID u = userID) \<or> \<not> (\<exists>r \<in> set (devices d). dev_id r = deviceID)
      then Inl foreign_key_fails
      else Inr ((), d\<lparr>device_sessions := device_sessions d @
             [\<lparr>ses_id = device_sessions_next d, ses_public_id = publicID, ses_user_id = userID,
               ses_device_id = deviceID, ses_refresh_token_hash = hash,
               ses_ip_address = dc_IPAddress deviceCtx, ses_user_agent = dc_UserAgent deviceCtx,
               ses_push_token = pushToken, ses_expires_at = expiresAt, ses_created_at = now,
               ses_last_used_at = now\<rparr>],
           device_sessions_next := device_sessions_next d + 1\<rparr>))"

definition to_history :: "string \<Rightarrow> string \<Rightarrow> int \<Rightarrow> int \<Rightarrow> session_row \<Rightarrow> history_row" where
  "to_history reason revokedBy now i r =
     \<lparr>his_id = i, his_session_public_id = ses_public_id r, his_user_id = ses_user_id r,
      his_device_id = ses_device_id r, his_refresh_token_hash = ses_refresh_token_hash r,
      his_ip_address = ses_ip_address r, his_user_agent = ses_user_agent r,
      his_created_at = ses_created_at r, his_last_used_at = ses_last_used_at r,
      his_revoked_at = now, his_revoke_reason = reason, his_revoked_by = revokedBy\<rparr>"

text \<open>\<^verbatim>\<open>INSERT INTO device_session_history ... SELECT ... FROM device_sessions WHERE p\<close>.\<close>

definition archive_sessions ::
  "(session_row \<Rightarrow> bool) \<Rightarrow> string \<Rightarrow> string \<Rightarrow> int \<Rightarrow> auth_db \<Rightarrow> go_error + (nat \<times> auth_db)" where
  "archive_sessions p reason revokedBy now d =
     (let rs = select_where p (device_sessions d);
          new = map2 (\<lambda>i r. to_history reason revokedBy now (session_history_next d + int i) r) [0..<length rs] rs
      in Inr (length rs, d\<lparr>session_history := session_history d @ new,
                           session_history_next := session_history_next d + int (length rs)\<rparr>))"

definition delete_sessions :: "(session_row \<Rightarrow> bool) \<Rightarrow> auth_db \<Rightarrow> go_error + (nat \<times> auth_db)" where
  "delete_sessions p d =
     Inr (length (select_where p (device_sessions d)),
          d\<lparr>device_sessions := delete_where p (device_sessions d)\<rparr>)"

definition set_push_token :: "string option \<Rightarrow> string \<Rightarrow> int \<Rightarrow> auth_db \<Rightarrow> go_error + (nat \<times> auth_db)" where
  "set_push_token token sessionID userID d =
     (let p = (\<lambda>r. ses_public_id r = sessionID \<and> ses_user_id r = userID); f = (\<lambda>r. r\<lparr>ses_push_token := token\<rparr>)
      in Inr (changed_rows p f (device_sessions d),
              d\<lparr>device_sessions := update_where p f (device_sessions d)\<rparr>))"

definition session_item :: "session_row \<Rightarrow> device_row \<Rightarrow> SessionItem" where
  "session_item s v = \<lparr>si_SessionID = ses_public_id s, si_DeviceID = dev_public_id v,
     si_Platform = dev_platform v, si_DeviceName = dev_device_name v,
     si_AppVersion = dev_app_version v, si_IPAddress = ses_ip_address s,
     si_UserAgent = ses_user_agent s, si_PushToken = ses_push_token s,
     si_CreatedAt = ses_created_at s, si_LastUsedAt = ses_last_used_at s,
     si_ExpiresAt = ses_expires_at s\<rparr>"

definition join_sessions :: "int \<Rightarrow> auth_db \<Rightarrow> SessionItem list" where
  "join_sessions userID d =
     concat (map (\<lambda>s. map (session_item s) (select_where (\<lambda>v. dev_id v = ses_device_id s) (devices d)))
       (select_where (\<lambda>s. ses_user_id s = userID) (device_sessions d)))"

text \<open>
  \<^verbatim>\<open>ExecContext(query, args...)\<close> with a variable argument list: \<^verbatim>\<open>database/sql\<close> compares
  the number of arguments with the number of placeholders of the prepared statement.
\<close>

datatype sql_arg = SqlInt int | SqlStr string

definition exec_args :: "nat \<Rightarrow> sql_arg list \<Rightarrow> (sql_arg list \<Rightarrow> int \<Rightarrow> 'd \<Rightarrow> go_error + ('a \<times> 'd)) \<Rightarrow> ('d, 'a) wprog" where
  "exec_args placeholders args stmt =
     (if length args = placeholders then sql_now (stmt args)
      else call outside fail (\<lambda>_. fail (ErrorString
        (''sql: expected '' @ nat_to_string placeholders @ '' arguments, got '' @ nat_to_string (length args)))))"

end
