(* ===== verification/AuthRepo.thy ===== *)
theory AuthRepo
  imports AuthStore
begin

text \<open>
  The methods of \<^verbatim>\<open>internal/auth/repository/auth.go\<close>, in the order of the file. Each
  statement is one call of \<open>sql\<close>; each early return of the Go code is a branch.
\<close>

type_synonym 'a auth_prog = "(auth_db, 'a) wprog"

definition repo_error :: "string \<Rightarrow> string \<Rightarrow> Kind \<Rightarrow> go_error option \<Rightarrow> go_error" where
  "repo_error op msg k err = Rich (WithKind k (WithMessage msg (WithWrapper err (New op))))"

definition auth_RunInTx :: "'a auth_prog \<Rightarrow> 'a auth_prog" where
  "auth_RunInTx fn =
     call begin_tx fail (\<lambda>snapshot.
     call fn (abandon_tx snapshot) (\<lambda>x.
     call (commit_tx snapshot) fail (\<lambda>_.
     ret x)))"

definition auth_Ping :: "unit auth_prog" where
  "auth_Ping = outside"

definition GetUserByEmail :: "string \<Rightarrow> User auth_prog" where
  "GetUserByEmail email =
     call (sql_query (select_user email))
       (\<lambda>err. if errors_Is err ErrNoRows
              then fail (repo_error ''repository.GetUserByEmail'' ''user not found'' KindNotFound (Some err))
              else fail (repo_error ''repository.GetUserByEmail'' ''failed to get user'' KindInternal (Some err)))
       ret"

section \<open>Refresh-token rotation\<close>

definition rotate_body ::
  "DeviceContext \<Rightarrow> string \<Rightarrow> string \<Rightarrow> int \<Rightarrow> string option \<Rightarrow> (string \<times> string \<times> int) auth_prog" where
  "rotate_body deviceCtx oldHash newHash newExpiresAt pushToken =
     (let op = ''Repository.RotateRefreshToken'';
          failed = repo_error op ''failed to rotate refresh token'' KindInternal in
      call (sql_query (select_session_by_hash oldHash))
        (\<lambda>err. if errors_Is err ErrNoRows
               then fail (repo_error op ''invalid refresh token'' KindNotFound (Some err))
               else fail (repo_error op ''invalid refresh token'' KindInternal (Some err)))
        (\<lambda>(sessionPublicID, userID, deviceID, expiresAt).
      call time_Now fail (\<lambda>now.
      if expiresAt < now then fail (failed None)
      else
      call (sql_now (update_session newHash newExpiresAt deviceCtx pushToken sessionPublicID))
        (\<lambda>err. fail (failed (Some err))) (\<lambda>_.
      call (sql_query (select_device_public_id deviceID))
        (\<lambda>err. fail (failed (Some err))) (\<lambda>devicePublicID.
      ret (devicePublicID, sessionPublicID, userID))))))"

definition RotateRefreshToken ::
  "DeviceContext \<Rightarrow> string \<Rightarrow> string \<Rightarrow> int \<Rightarrow> string option \<Rightarrow> (string \<times> string \<times> int) auth_prog" where
  "RotateRefreshToken deviceCtx oldHash newHash newExpiresAt pushToken =
     (let failed = (\<lambda>err. repo_error ''Repository.RotateRefreshToken'' ''failed to rotate refresh token''
                            KindInternal (Some err)) in
      in_tx failed failed (rotate_body deviceCtx oldHash newHash newExpiresAt pushToken))"

section \<open>Sessions\<close>

definition GetUserSessions :: "int \<Rightarrow> SessionItem list auth_prog" where
  "GetUserSessions userID =
     call (sql_query (\<lambda>d. Inr (sort_key (\<lambda>s. - si_LastUsedAt s) (join_sessions userID d))))
       (\<lambda>err. fail (repo_error ''Repository.GetUserSessions'' ''failed to get user sessions'' KindInternal (Some err)))
       ret"

definition revoke_body :: "int \<Rightarrow> string \<Rightarrow> string \<Rightarrow> string \<Rightarrow> unit auth_prog" where
  "revoke_body userID sessionPublicID reason revokedBy =
     (let failed = repo_error ''Repository.RevokeSession'' ''failed to revoke session'' KindInternal;
          this = (\<lambda>r. ses_public_id r = sessionPublicID \<and> ses_user_id r = userID) in
      call (sql_query (\<lambda>d. Inr ())) (\<lambda>err. fail (failed (Some err))) (\<lambda>_.
      call (sql_now (archive_sessions this reason revokedBy)) (\<lambda>err. fail (failed (Some err))) (\<lambda>affected.
      call outside (\<lambda>err. fail (failed (Some err))) (\<lambda>_.
      if affected = 0 then fail (failed None)
      else
      call (sql (delete_sessions this)) (\<lambda>err. fail (failed (Some err))) (\<lambda>_.
      ret ())))))"

definition RevokeSession :: "int \<Rightarrow> string \<Rightarrow> string \<Rightarrow> string \<Rightarrow> unit auth_prog" where
  "RevokeSession userID sessionPublicID reason revokedBy =
     (let failed = (\<lambda>err. repo_error ''Repository.RevokeSession'' ''failed to revoke session'' KindInternal (Some err)) in
      in_tx failed failed (revoke_body userID sessionPublicID reason revokedBy))"

text \<open>
  \<^verbatim>\<open>RevokeAllSessions\<close> builds two argument lists. \<^verbatim>\<open>selectArgs\<close> is meant for the archive
  statement, but it is also what the lock statement gets, and with an excepted session
  it is built from \<^verbatim>\<open>args\<close>.
\<close>

definition revoke_all_args :: "int \<Rightarrow> string option \<Rightarrow> string \<Rightarrow> string \<Rightarrow> sql_arg list \<times> sql_arg list" where
  "revoke_all_args userID exceptSessionID reason revokedBy =
     (case exceptSessionID of
        None \<Rightarrow> ([SqlInt userID], [SqlStr reason, SqlStr revokedBy, SqlInt userID])
      | Some s \<Rightarrow> (let args = [SqlInt userID] @ [SqlStr s] in (args, args @ [SqlStr s])))"

fun archive_all_stmt :: "sql_arg list \<Rightarrow> int \<Rightarrow> auth_db \<Rightarrow> go_error + (nat \<times> auth_db)" where
  "archive_all_stmt [SqlStr reason, SqlStr revokedBy, SqlInt userID] now d =
     archive_sessions (\<lambda>r. ses_user_id r = userID) reason revokedBy now d"
| "archive_all_stmt [SqlStr reason, SqlStr revokedBy, SqlInt userID, SqlStr except] now d =
     archive_sessions (\<lambda>r. ses_user_id r = userID \<and> ses_public_id r \<noteq> except) reason revokedBy now d"
| "archive_all_stmt args now d = Inl (MySQLError 1366 ''Incorrect value'')"

fun delete_all_stmt :: "sql_arg list \<Rightarrow> int \<Rightarrow> auth_db \<Rightarrow> go_error + (nat \<times> auth_db)" where
  "delete_all_stmt [SqlInt userID] now d = delete_sessions (\<lambda>r. ses_user_id r = userID) d"
| "delete_all_stmt [SqlInt userID, SqlStr except] now d =
     delete_sessions (\<lambda>r. ses_user_id r = userID \<and> ses_public_id r \<noteq> except) d"
| "delete_all_stmt args now d = Inl (MySQLError 1366 ''Incorrect value'')"

definition revoke_all_body :: "int \<Rightarrow> string option \<Rightarrow> string \<Rightarrow> string \<Rightarrow> unit auth_prog" where
  "revoke_all_body userID exceptSessionID reason revokedBy =
     (let failed = (\<lambda>err. fail (repo_error ''Repository.RevokeAllSessions'' ''failed to revoke all sessions''
                       KindInternal (Some err)));
          args = fst (revoke_all_args userID exceptSessionID reason revokedBy);
          selectArgs = snd (revoke_all_args userID exceptSessionID reason revokedBy);
          extra = (case exceptSessionID of None \<Rightarrow> 0 | Some _ \<Rightarrow> 1) in
      call (exec_args (1 + extra) selectArgs (\<lambda>_ _ d. Inr ((), d))) failed (\<lambda>_.
      call (exec_args (3 + extra) selectArgs archive_all_stmt) failed (\<lambda>_.
      call (exec_args (1 + extra) args delete_all_stmt) failed (\<lambda>_.
      ret ()))))"

definition RevokeAllSessions :: "int \<Rightarrow> string option \<Rightarrow> string \<Rightarrow> string \<Rightarrow> unit auth_prog" where
  "RevokeAllSessions userID exceptSessionID reason revokedBy =
     (let failed = (\<lambda>err. repo_error ''Repository.RevokeAllSessions'' ''failed to revoke all sessions''
                       KindInternal (Some err)) in
      in_tx failed failed (revoke_all_body userID exceptSessionID reason revokedBy))"

definition repo_UpdatePushToken :: "string \<Rightarrow> int \<Rightarrow> string \<Rightarrow> unit auth_prog" where
  "repo_UpdatePushToken sessionID userID pushToken =
     (let op = ''repository.UpdatePushToken'' in
      call (sql (set_push_token (nullable pushToken) sessionID userID))
        (\<lambda>err. fail (repo_error op ''failed to update push token'' KindInternal (Some err))) (\<lambda>rowsAffected.
      call outside (\<lambda>err. fail (repo_error op ''failed to get rows affected'' KindInternal (Some err))) (\<lambda>_.
      if rowsAffected = 0
      then fail (repo_error op ''session not found or does not belong to user'' KindNotFound None)
      else ret ())))"

section \<open>Inside a transaction\<close>

definition CreateUserByEmailAndPassword :: "string \<Rightarrow> string \<Rightarrow> int auth_prog" where
  "CreateUserByEmailAndPassword email password =
     (let op = ''repository.CreateUserByEmailAndPassword'' in
      call (sql_now (insert_user email password))
        (\<lambda>err. if errors_As_mysql err = Some 1062
               then fail (repo_error op ''duplicate entry'' KindConflict None)
               else fail (repo_error op ''failed to execute insert query'' KindInternal None)) (\<lambda>id.
      call outside (\<lambda>_. fail (repo_error op ''failed to get last insert id'' KindInternal None)) (\<lambda>_.
      ret id)))"

definition upsert_failed :: "go_error \<Rightarrow> 'a auth_prog" where
  "upsert_failed err = fail (repo_error ''repository.UpsertSession'' ''failed to upsert session'' KindInternal (Some err))"

definition upsert_device_step :: "DeviceContext \<Rightarrow> (string \<times> int) auth_prog" where
  "upsert_device_step deviceCtx =
     call uuid_NewString fail (\<lambda>devicePublicID.
     call (sql_now (upsert_device devicePublicID deviceCtx)) upsert_failed (\<lambda>_.
     call (sql_query (select_device (dc_InstallationID deviceCtx) (dc_Platform deviceCtx))) upsert_failed (\<lambda>deviceID.
     ret (devicePublicID, deviceID))))"

definition overwrite_session ::
  "DeviceContext \<Rightarrow> string \<Rightarrow> int \<Rightarrow> string option \<Rightarrow> string \<Rightarrow> string \<Rightarrow> (string \<times> string) auth_prog" where
  "overwrite_session deviceCtx hash expiresAt pushToken devicePublicID existingPublicID =
     (let update = call (sql_now (update_session hash expiresAt deviceCtx pushToken existingPublicID)) upsert_failed
                     (\<lambda>_. ret (devicePublicID, existingPublicID)) in
      call (sql_now (archive_sessions (\<lambda>r. ses_public_id r = existingPublicID) ''rotated'' ''system''))
        (\<lambda>_. update) (\<lambda>_. update))"

definition create_session ::
  "DeviceContext \<Rightarrow> int \<Rightarrow> int \<Rightarrow> string \<Rightarrow> int \<Rightarrow> string option \<Rightarrow> string \<Rightarrow> (string \<times> string) auth_prog" where
  "create_session deviceCtx userID deviceID hash expiresAt pushToken devicePublicID =
     (let newPushToken = (case pushToken of None \<Rightarrow> None | Some p \<Rightarrow> nullable p) in
      call uuid_NewString fail (\<lambda>sessionPublicID.
      call (sql_now (insert_session sessionPublicID userID deviceID hash deviceCtx newPushToken expiresAt)) upsert_failed (\<lambda>_.
      ret (devicePublicID, sessionPublicID))))"

definition UpsertSession ::
  "DeviceContext \<Rightarrow> int \<Rightarrow> string \<Rightarrow> int \<Rightarrow> string option \<Rightarrow> (string \<times> string) auth_prog" where
  "UpsertSession deviceCtx userID hash expiresAt pushToken =
     call (upsert_device_step deviceCtx) fail (\<lambda>(devicePublicID, deviceID).
     call (sql_query (select_session_of userID deviceID))
       (\<lambda>_. create_session deviceCtx userID deviceID hash expiresAt pushToken devicePublicID)
       (\<lambda>existingPublicID. overwrite_session deviceCtx hash expiresAt pushToken devicePublicID existingPublicID))"

definition auth_InsertOutboxEvent :: "OutboxEvent \<Rightarrow> unit auth_prog" where
  "auth_InsertOutboxEvent e =
     call (sql (\<lambda>d. case ob_insert [e] (auth_outbox_events d) of Inl err \<Rightarrow> Inl err
                    | Inr (u, t) \<Rightarrow> Inr (u, d\<lparr>auth_outbox_events := t\<rparr>)))
       (\<lambda>err. fail (ob_error ''repository.InsertOutboxEvent'' ''failed to insert outbox event'' err)) ret"

section \<open>The auth outbox\<close>

definition auth_ProcessEvent ::
  "(string \<Rightarrow> string \<Rightarrow> ('d, unit) wprog) \<Rightarrow> (string \<Rightarrow> ('d, unit) wprog) \<Rightarrow> OutboxEvent \<Rightarrow> ('d, unit) wprog" where
  "auth_ProcessEvent userPublish notificationPublish e =
     (if oe_EventType e = event_Type_string TypeAuthNewSessionLoggedIn then notificationPublish (oe_Payload e)
      else if oe_EventType e = event_Type_string TypeAuthRegisterNewUser then userPublish ''user.created'' (oe_Payload e)
      else ret ())"

interpretation auth_store: outbox_store auth_outbox
  by unfold_locales (simp add: auth_outbox_def)

end
