(* ===== verification/AuthInv.thy ===== *)
theory AuthInv
  imports AuthRepo
begin

text \<open>
  The table invariant of the auth database, that every repository method keeps it under
  every pattern of driver failures, and the frame facts of the transactions.
\<close>

section \<open>The invariant\<close>

definition users_ok :: "auth_db \<Rightarrow> bool" where
  "users_ok d \<longleftrightarrow> unique_by usr_ID (users d) \<and> unique_by usr_Email (users d) \<and>
     (\<forall>u \<in> set (users d). usr_ID u < users_next d)"

definition devices_ok :: "auth_db \<Rightarrow> bool" where
  "devices_ok d \<longleftrightarrow> unique_by dev_id (devices d) \<and> unique_by dev_public_id (devices d) \<and>
     unique_by (\<lambda>r. (dev_installation_id r, dev_platform r)) (devices d) \<and>
     (\<forall>r \<in> set (devices d). dev_id r < devices_next d \<and> dev_platform r \<in> set platforms)"

definition sessions_ok :: "auth_db \<Rightarrow> bool" where
  "sessions_ok d \<longleftrightarrow> unique_by ses_id (device_sessions d) \<and>
     unique_by (\<lambda>s. (ses_user_id s, ses_device_id s)) (device_sessions d) \<and>
     unique_by ses_refresh_token_hash (device_sessions d) \<and>
     (\<forall>s \<in> set (device_sessions d). ses_id s < device_sessions_next d \<and>
        ses_user_id s \<in> usr_ID ` set (users d) \<and> ses_device_id s \<in> dev_id ` set (devices d))"

definition auth_wf :: "auth_db \<Rightarrow> bool" where
  "auth_wf d \<longleftrightarrow> users_ok d \<and> devices_ok d \<and> sessions_ok d \<and>
     unique_by oe_EventID (ob_rows (auth_outbox_events d))"

lemmas auth_wf_defs = auth_wf_def users_ok_def devices_ok_def sessions_ok_def

section \<open>Statements\<close>

lemma insert_user_wf:
  "auth_wf d \<Longrightarrow> insert_user email pw n d = Inr (i, d') \<Longrightarrow> auth_wf d'"
  by (force simp: auth_wf_defs insert_user_def unique_by_snoc split: if_splits)

lemma devices_refresh_ok:
  assumes "auth_wf d" "\<And>r. dev_id (f r) = dev_id r" "\<And>r. dev_public_id (f r) = dev_public_id r"
    "\<And>r. dev_installation_id (f r) = dev_installation_id r" "\<And>r. dev_platform (f r) = dev_platform r"
  shows "auth_wf (d\<lparr>devices := update_where p f (devices d)\<rparr>)"
proof -
  have ids: "dev_id ` set (update_where p f (devices d)) = dev_id ` set (devices d)"
    using assms(2) by (metis (no_types, lifting) list.set_map map_update_where)
  show ?thesis
    using assms(1) unfolding auth_wf_def users_ok_def devices_ok_def sessions_ok_def
    by (simp add: unique_by_update_where assms ids) (auto simp: set_update_where assms)
qed

lemma device_insert_ok:
  assumes "auth_wf d" "dev_id r = devices_next d" "dev_platform r \<in> set platforms"
    "\<forall>r' \<in> set (devices d). dev_public_id r' \<noteq> dev_public_id r"
    "\<forall>r' \<in> set (devices d). \<not> (dev_installation_id r' = dev_installation_id r \<and> dev_platform r' = dev_platform r)"
  shows "auth_wf (d\<lparr>devices := devices d @ [r], devices_next := devices_next d + 1\<rparr>)"
  using assms by (force simp: auth_wf_defs unique_by_snoc)

lemma upsert_device_wf:
  assumes "auth_wf d" "upsert_device pid dc n d = Inr (u, d')"
  shows "auth_wf d'"
  using assms(2) unfolding upsert_device_def Let_def
  by (auto split: if_splits intro!: devices_refresh_ok [OF assms(1)] device_insert_ok [OF assms(1)])

lemma renew_session_simps [simp]:
  "ses_id (renew_session h e dc p n r) = ses_id r"
  "ses_public_id (renew_session h e dc p n r) = ses_public_id r"
  "ses_user_id (renew_session h e dc p n r) = ses_user_id r"
  "ses_device_id (renew_session h e dc p n r) = ses_device_id r"
  "ses_refresh_token_hash (renew_session h e dc p n r) = h"
  "ses_expires_at (renew_session h e dc p n r) = e"
  by (simp_all add: renew_session_def Let_def split: option.splits)

lemma update_session_wf:
  "auth_wf d \<Longrightarrow> update_session h e dc p pid n d = Inr (u, d') \<Longrightarrow> auth_wf d'"
  by (auto simp: auth_wf_defs update_session_def Let_def unique_by_update_where set_update_where split: if_splits)

lemma insert_session_wf:
  "auth_wf d \<Longrightarrow> insert_session pid uid did h dc p e n d = Inr (u, d') \<Longrightarrow> auth_wf d'"
  by (force simp: auth_wf_defs insert_session_def unique_by_snoc split: if_splits)

lemma archive_sessions_wf:
  "auth_wf d \<Longrightarrow> archive_sessions p reason by n d = Inr (k, d') \<Longrightarrow> auth_wf d'"
  by (auto simp: auth_wf_defs archive_sessions_def Let_def)

lemma delete_sessions_wf: "auth_wf d \<Longrightarrow> delete_sessions p d = Inr (k, d') \<Longrightarrow> auth_wf d'"
  by (auto simp: auth_wf_defs delete_sessions_def unique_by_delete_where)

lemma set_push_token_wf: "auth_wf d \<Longrightarrow> set_push_token tok sid uid d = Inr (k, d') \<Longrightarrow> auth_wf d'"
  by (auto simp: auth_wf_defs set_push_token_def Let_def unique_by_update_where set_update_where)

lemma auth_wf_outbox:
  "auth_wf d \<Longrightarrow> unique_by oe_EventID (ob_rows t) \<Longrightarrow> auth_wf (d\<lparr>auth_outbox_events := t\<rparr>)"
  by (simp add: auth_wf_defs)

lemma archive_all_wf: "auth_wf d \<Longrightarrow> archive_all_stmt args n d = Inr (k, d') \<Longrightarrow> auth_wf d'"
  by (cases "(args, n, d)" rule: archive_all_stmt.cases) (auto dest: archive_sessions_wf)

lemma delete_all_wf: "auth_wf d \<Longrightarrow> delete_all_stmt args n d = Inr (k, d') \<Longrightarrow> auth_wf d'"
  by (cases "(args, n, d)" rule: delete_all_stmt.cases) (auto dest: delete_sessions_wf)

section \<open>Methods\<close>

lemma keeps_exec_args:
  assumes "\<And>a n d x d'. P d \<Longrightarrow> f a n d = Inr (x, d') \<Longrightarrow> P d'"
  shows "keeps_db P (exec_args k args f)"
  unfolding exec_args_def using assms by (intro keep_rules keeps_sql_now) blast

lemma auth_RunInTx_eq: "auth_RunInTx = run_in_tx"
  by (rule ext) (simp add: auth_RunInTx_def run_in_tx_def)

named_theorems wf_stmts
lemmas [wf_stmts] = insert_user_wf upsert_device_wf update_session_wf insert_session_wf archive_sessions_wf
  delete_sessions_wf set_push_token_wf archive_all_wf delete_all_wf

lemma keeps_CreateUser [keep_rules]: "keeps_db auth_wf (CreateUserByEmailAndPassword email pw)"
  unfolding CreateUserByEmailAndPassword_def Let_def
  by (intro keep_rules keeps_sql_now) (rule wf_stmts)

lemma keeps_upsert_failed [keep_rules]: "keeps P (upsert_failed err)"
  unfolding upsert_failed_def by (intro keep_rules)

lemma keeps_UpsertSession [keep_rules]: "keeps_db auth_wf (UpsertSession dc uid h e p)"
  unfolding UpsertSession_def upsert_device_step_def create_session_def overwrite_session_def Let_def
  by (intro keep_rules keeps_sql_now; erule (1) wf_stmts)

lemma keeps_InsertOutboxEvent [keep_rules]: "keeps_db auth_wf (auth_InsertOutboxEvent e)"
  unfolding auth_InsertOutboxEvent_def
  by (intro keep_rules keeps_sql)
     (auto split: sum.splits if_splits simp: auth_wf_defs unique_by_snoc)

lemma keeps_RotateRefreshToken [keep_rules]: "keeps_db auth_wf (RotateRefreshToken dc old new e p)"
  unfolding RotateRefreshToken_def rotate_body_def Let_def
  by (intro keep_rules keeps_sql_now; erule (1) wf_stmts)

lemma keeps_RevokeSession [keep_rules]: "keeps_db auth_wf (RevokeSession uid sid reason by)"
  unfolding RevokeSession_def revoke_body_def Let_def
  by (intro keep_rules keeps_sql_now keeps_sql; erule (1) wf_stmts)

lemma keeps_RevokeAllSessions [keep_rules]: "keeps_db auth_wf (RevokeAllSessions uid ex reason by)"
  unfolding RevokeAllSessions_def revoke_all_body_def Let_def
  by (intro keep_rules keeps_exec_args; (erule (1) wf_stmts)?; simp?)

lemma keeps_UpdatePushToken [keep_rules]: "keeps_db auth_wf (repo_UpdatePushToken sid uid tok)"
  unfolding repo_UpdatePushToken_def Let_def
  by (intro keep_rules keeps_sql; erule (1) wf_stmts)

lemma keeps_auth_RunInTx [keep_rules]: "keeps_db P m \<Longrightarrow> keeps_db P (auth_RunInTx m)"
  unfolding auth_RunInTx_eq by (intro keep_rules)

end
