(* ===== verification/AccessToken.thy ===== *)
theory AccessToken
  imports World
begin

text \<open>
  \<^verbatim>\<open>pkg/user_access_token\<close> and the encoders of \<^verbatim>\<open>service/auth/token.go\<close>. The JWT
  package is outside the repository: signing and parsing are the fields of \<open>jwt_lib\<close>.
  Parsing receives the key function, as in the source.
\<close>

section \<open>Access tokens\<close>

record Claims =
  cl_Issuer :: string
  cl_Subject :: string
  cl_IssuedAt :: int
  cl_ExpiresAt :: int
  cl_AccountID :: int
  cl_SessionID :: string

text \<open>
  \<open>jwt_SignedString secret claims\<close> signs with HS256.
  \<open>jwt_ParseWithClaims now keyfunc token\<close> asks \<open>keyfunc\<close> for the key, telling it whether the token's method is
  HMAC, checks signature and expiry, and returns the claims with the token's validity.
\<close>

record jwt_lib =
  jwt_SignedString :: "string \<Rightarrow> Claims \<Rightarrow> go_error + string"
  jwt_ParseWithClaims :: "int \<Rightarrow> (bool \<Rightarrow> go_error + string) \<Rightarrow> string \<Rightarrow> go_error + (Claims \<times> bool)"

text \<open>Documented behaviour of the package, as far as the code relies on it.\<close>

definition jwt_ok :: "jwt_lib \<Rightarrow> bool" where
  "jwt_ok J \<longleftrightarrow>
     (\<forall>s c t now kf. jwt_SignedString J s c = Inr t \<longrightarrow> kf True = Inr s \<longrightarrow>
        (if now < cl_ExpiresAt c then jwt_ParseWithClaims J now kf t = Inr (c, True)
         else \<exists>e. jwt_ParseWithClaims J now kf t = Inl e))"

definition jwt_unforgeable :: "jwt_lib \<Rightarrow> bool" where
  "jwt_unforgeable J \<longleftrightarrow>
     (\<forall>s now kf t c. kf True = Inr s \<longrightarrow> isl (kf False) \<longrightarrow> jwt_ParseWithClaims J now kf t = Inr (c, True) \<longrightarrow>
        jwt_SignedString J s c = Inr t \<and> now < cl_ExpiresAt c)"

definition GenerateAccessToken :: "jwt_lib \<Rightarrow> int \<Rightarrow> string \<Rightarrow> string \<Rightarrow> int \<Rightarrow> ('d, string) wprog" where
  "GenerateAccessToken J accountID sessionID jwtSecret duration =
     call time_Now fail (\<lambda>issued.
     call time_Now fail (\<lambda>now w.
       (jwt_SignedString J jwtSecret
          \<lparr>cl_Issuer = ''mini-wallet'', cl_Subject = ''access'', cl_IssuedAt = issued,
           cl_ExpiresAt = now + seconds duration, cl_AccountID = accountID, cl_SessionID = sessionID\<rparr>, w)))"

definition hmac_keyfunc :: "string \<Rightarrow> bool \<Rightarrow> go_error + string" where
  "hmac_keyfunc jwtSecret is_hmac =
     (if \<not> is_hmac then Inl (ErrorString ''unexpected signing method'') else Inr jwtSecret)"

definition VerifyAccessToken :: "jwt_lib \<Rightarrow> int \<Rightarrow> string \<Rightarrow> string \<Rightarrow> go_error + Claims" where
  "VerifyAccessToken J now tokenString jwtSecret =
     (case jwt_ParseWithClaims J now (hmac_keyfunc jwtSecret) tokenString of
        Inl err \<Rightarrow> Inl err
      | Inr (tokenClaims, valid) \<Rightarrow>
          if \<not> valid then Inl (ErrorString ''token is invalid'') else Inr tokenClaims)"

lemma GenerateAccessToken_world: "snd (GenerateAccessToken J a s k d w) = w"
  by (simp add: GenerateAccessToken_def call_def time_Now_def)

lemma keeps_GenerateAccessToken [keep_rules]: "keeps P (GenerateAccessToken J a s k d)"
  by (simp add: keeps_def GenerateAccessToken_world)

lemma tx_neutral_GenerateAccessToken [tx_rules]: "tx_neutral (GenerateAccessToken J a s k d)"
  by (simp add: tx_neutral_def GenerateAccessToken_world)

lemma GenerateAccessToken_verify:
  assumes "jwt_ok J" "GenerateAccessToken J accountID sessionID jwtSecret duration w = (Inr t, w')"
  shows "if now < clock w + seconds duration
    then \<exists>c. VerifyAccessToken J now t jwtSecret = Inr c \<and> cl_AccountID c = accountID \<and> cl_SessionID c = sessionID
    else \<exists>e. VerifyAccessToken J now t jwtSecret = Inl e"
proof -
  let ?c = "\<lparr>cl_Issuer = ''mini-wallet'', cl_Subject = ''access'', cl_IssuedAt = clock w,
      cl_ExpiresAt = clock w + seconds duration, cl_AccountID = accountID, cl_SessionID = sessionID\<rparr>"
  have "jwt_SignedString J jwtSecret ?c = Inr t"
    using assms(2) by (auto simp: GenerateAccessToken_def call_def time_Now_def)
  moreover have "hmac_keyfunc jwtSecret True = Inr jwtSecret" by (simp add: hmac_keyfunc_def)
  ultimately have "if now < cl_ExpiresAt ?c then jwt_ParseWithClaims J now (hmac_keyfunc jwtSecret) t = Inr (?c, True)
      else \<exists>e. jwt_ParseWithClaims J now (hmac_keyfunc jwtSecret) t = Inl e"
    using assms(1) unfolding jwt_ok_def by blast
  then show ?thesis by (auto simp: VerifyAccessToken_def split: if_splits)
qed

section \<open>Encoders of the standard library\<close>

definition hex_digit :: "nat \<Rightarrow> char" where
  "hex_digit n = ''0123456789abcdef'' ! n"

fun hex_EncodeToString :: "string \<Rightarrow> string" where
  "hex_EncodeToString [] = []"
| "hex_EncodeToString (c # cs) =
     hex_digit (of_char c div 16) # hex_digit (of_char c mod 16) # hex_EncodeToString cs"

definition b64_alphabet :: string where
  "b64_alphabet = ''ABCDEFGHIJKLMNOPQRSTUVWXYZabcdefghijklmnopqrstuvwxyz0123456789-_''"

definition b64_digit :: "nat \<Rightarrow> char" where
  "b64_digit n = b64_alphabet ! n"

fun base64_EncodeToString :: "string \<Rightarrow> string" where
  "base64_EncodeToString [] = []"
| "base64_EncodeToString [a] =
     [b64_digit (of_char a div 4), b64_digit ((of_char a mod 4) * 16), CHR ''='', CHR ''='']"
| "base64_EncodeToString [a, b] =
     [b64_digit (of_char a div 4), b64_digit ((of_char a mod 4) * 16 + of_char b div 16),
      b64_digit ((of_char b mod 16) * 4), CHR ''='']"
| "base64_EncodeToString (a # b # c # cs) =
     b64_digit (of_char a div 4) # b64_digit ((of_char a mod 4) * 16 + of_char b div 16) #
     b64_digit ((of_char b mod 16) * 4 + of_char c div 64) # b64_digit (of_char c mod 64) #
     base64_EncodeToString cs"

lemma b64_alphabet_facts: "length b64_alphabet = 64" "distinct b64_alphabet" "CHR ''='' \<notin> set b64_alphabet"
  by (simp_all add: b64_alphabet_def)

lemma b64_digit_inj [simp]: "m < 64 \<Longrightarrow> n < 64 \<Longrightarrow> b64_digit m = b64_digit n \<longleftrightarrow> m = n"
  unfolding b64_digit_def using b64_alphabet_facts by (simp add: nth_eq_iff_index_eq)

lemma b64_digit_not_pad [simp]: "n < 64 \<Longrightarrow> b64_digit n \<noteq> CHR ''=''" "n < 64 \<Longrightarrow> CHR ''='' \<noteq> b64_digit n"
  unfolding b64_digit_def using b64_alphabet_facts by (metis nth_mem)+

lemma b64_first: "a div 4 = a' div 4 \<Longrightarrow> (a mod 4) * 16 + x = (a' mod 4) * 16 + x' \<Longrightarrow>
    x < 16 \<Longrightarrow> x' < 16 \<Longrightarrow> a = a' \<and> x = (x' :: nat)"
proof -
  assume q: "a div 4 = a' div 4" and e: "(a mod 4) * 16 + x = (a' mod 4) * 16 + x'" and b: "x < 16" "x' < 16"
  have "((a mod 4) * 16 + x) div 16 = a mod 4" "((a' mod 4) * 16 + x') div 16 = a' mod 4"
    using b by simp_all
  then have m: "a mod 4 = a' mod 4" using e by simp
  then have "a = a'" using q by (metis div_mult_mod_eq)
  then show ?thesis using e by simp
qed

lemma b64_second: "b div 16 = b' div 16 \<Longrightarrow> (b mod 16) * 4 + x = (b' mod 16) * 4 + x' \<Longrightarrow>
    x < 4 \<Longrightarrow> x' < 4 \<Longrightarrow> b = b' \<and> x = (x' :: nat)"
proof -
  assume q: "b div 16 = b' div 16" and e: "(b mod 16) * 4 + x = (b' mod 16) * 4 + x'" and l: "x < 4" "x' < 4"
  have "((b mod 16) * 4 + x) div 4 = b mod 16" "((b' mod 16) * 4 + x') div 4 = b' mod 16"
    using l by simp_all
  then have m: "b mod 16 = b' mod 16" using e by simp
  then have "b = b'" using q by (metis div_mult_mod_eq)
  then show ?thesis using e by simp
qed

lemma char_div_bounds [simp]: "(of_char c :: nat) div 16 < 16" "(of_char c :: nat) div 64 < 4" "(of_char c :: nat) div 4 < 64"
  by (simp_all add: div_less_iff_less_mult)

lemma b64_bounds [simp]:
  "(of_char a :: nat) div 4 < 64" "(of_char a mod 4) * 16 + of_char b div 16 < (64 :: nat)"
  "(of_char b mod 16) * 4 + of_char c div 64 < (64 :: nat)" "of_char c mod 64 < (64 :: nat)"
  "(of_char a mod 4) * 16 < (64 :: nat)" "(of_char b mod 16) * 4 < (64 :: nat)"
proof -
  have m4: "of_char a mod 4 < (4 :: nat)" and m16: "of_char b mod 16 < (16 :: nat)" by simp_all
  have "of_char b div 16 < (16 :: nat)" "of_char c div 64 < (4 :: nat)" by simp_all
  then show "(of_char a mod 4) * 16 + of_char b div 16 < (64 :: nat)"
    "(of_char b mod 16) * 4 + of_char c div 64 < (64 :: nat)"
    using m4 m16 by linarith+
  show "(of_char a :: nat) div 4 < 64" by simp
  show "(of_char a mod 4) * 16 < (64 :: nat)" "(of_char b mod 16) * 4 < (64 :: nat)" "of_char c mod 64 < (64 :: nat)"
    using m4 m16 by simp_all
qed

text \<open>Two tokens agree only if the random bytes do.\<close>

lemma base64_inj: "base64_EncodeToString s = base64_EncodeToString t \<Longrightarrow> s = t"
proof (induction s arbitrary: t rule: base64_EncodeToString.induct)
  case 1
  then show ?case by (cases t rule: base64_EncodeToString.cases) auto
next
  case (2 a)
  show ?case
  proof (cases t rule: base64_EncodeToString.cases)
    case t: (2 a')
    then show ?thesis
      using "2.prems" b64_first [of "of_char a" "of_char a'" 0 0] by auto
  qed (use "2.prems" in auto)
next
  case (3 a b)
  show ?case
  proof (cases t rule: base64_EncodeToString.cases)
    case (3 a' b')
    have "of_char b div 16 < (16 :: nat)" "of_char b' div 16 < (16 :: nat)"
      by simp_all
    then show ?thesis
      using "3.prems" 3 b64_first [of "of_char a" "of_char a'" "of_char b div 16" "of_char b' div 16"]
        b64_second [of "of_char b" "of_char b'" 0 0] by auto
  qed (use "3.prems" in auto)
next
  case (4 a b c cs)
  show ?case
  proof (cases t rule: base64_EncodeToString.cases)
    case t: (4 a' b' c' cs')
    have l: "of_char b div 16 < (16 :: nat)" "of_char b' div 16 < (16 :: nat)"
      "of_char c div 64 < (4 :: nat)" "of_char c' div 64 < (4 :: nat)"
      by simp_all
    have eqs: "of_char a div 4 = (of_char a' div 4 :: nat)"
      "(of_char a mod 4) * 16 + of_char b div 16 = ((of_char a' mod 4) * 16 + of_char b' div 16 :: nat)"
      "(of_char b mod 16) * 4 + of_char c div 64 = ((of_char b' mod 16) * 4 + of_char c' div 64 :: nat)"
      "of_char c mod 64 = (of_char c' mod 64 :: nat)" "cs = cs'"
      using "4.prems" "4.IH" [of cs'] t by auto
    have 1: "a = a'" "of_char b div 16 = (of_char b' div 16 :: nat)"
      using b64_first [OF eqs(1,2) l(1,2)] by auto
    have 2: "b = b'" "of_char c div 64 = (of_char c' div 64 :: nat)"
      using b64_second [OF 1(2) eqs(3) l(3,4)] by auto
    have "of_char c = (of_char c' :: nat)" using 2(2) eqs(4) by (metis div_mult_mod_eq)
    then show ?thesis using 1 2 eqs(5) t by simp
  qed (use "4.prems" in auto)
qed

end
