(* ===== verification/AuthService.thy ===== *)
theory AuthService
  imports AuthInv AccessToken
begin

text \<open>
  \<^verbatim>\<open>internal/auth/service/auth\<close>: registration, login, token refresh and session
  management. What the service calls outside the repository (password hashing, SHA-256,
  the email pattern, JWT, protobuf) is the record \<open>auth_env\<close>, together with the configuration
  and the outbox service's \<^verbatim>\<open>ProcessEvent\<close>. A goroutine the service starts is
  returned beside the response, as the program it runs.
\<close>

section \<open>Data\<close>

record 'a Response =
  res_Code :: nat
  res_Data :: 'a

record RegisterRequest =
  rq_Email :: string
  rq_Password :: string
  rq_PushToken :: "string option"

record RegisterResponse =
  rr_Message :: string
  rr_AccessToken :: string
  rr_RefreshToken :: string
  rr_DeviceID :: string
  rr_SessionID :: string

record LoginRequest =
  lq_Email :: string
  lq_Password :: string
  lq_PushToken :: "string option"

record LoginResponse =
  lr_AccessToken :: string
  lr_RefreshToken :: string
  lr_DeviceID :: string
  lr_SessionID :: string
  lr_User :: User

record RefreshTokenRequest =
  fq_RefreshToken :: string
  fq_PushToken :: "string option"

record RefreshTokenResponse =
  fr_AccessToken :: string
  fr_RefreshToken :: string
  fr_DeviceID :: string
  fr_SessionID :: string

record auth_env =
  JWTSecret :: string
  AccessTokenDuration :: int
  RefreshTokenDuration :: int
  OutboxLockTimeout :: int
  emailRegex_MatchString :: "string \<Rightarrow> bool"
  bcrypt_GenerateFromPassword :: "nat \<Rightarrow> string \<Rightarrow> go_error + string"
  bcrypt_CompareHashAndPassword :: "string \<Rightarrow> string \<Rightarrow> go_error option"
  sha256_Sum256 :: "string \<Rightarrow> string"
  env_jwt :: jwt_lib
  env_proto :: proto_lib
  env_ProcessEvent :: "OutboxEvent \<Rightarrow> unit auth_prog"

text \<open>
  Password hashing draws a salt: the first argument of the library function. A hash
  it produced matches the password it was produced from.
\<close>

definition bcrypt_ok :: "auth_env \<Rightarrow> bool" where
  "bcrypt_ok E \<longleftrightarrow>
     (\<forall>salt p h. bcrypt_GenerateFromPassword E salt p = Inr h \<longrightarrow> bcrypt_CompareHashAndPassword E h p = None)"

definition bcrypt_hash :: "auth_env \<Rightarrow> string \<Rightarrow> string auth_prog" where
  "bcrypt_hash E password w = (bcrypt_GenerateFromPassword E (calls w) password, w\<lparr>calls := Suc (calls w)\<rparr>)"

section \<open>Error texts\<close>

definition ErrPasswordTooShort :: string where "ErrPasswordTooShort = ''password too short''"
definition ErrPasswordTooLong :: string where "ErrPasswordTooLong = ''password too long''"
definition ErrPasswordRequired :: string where "ErrPasswordRequired = ''password is required''"
definition ErrInvalidEmail :: string where "ErrInvalidEmail = ''invalid email''"
definition ErrEmailAlreadyExists :: string where "ErrEmailAlreadyExists = ''email already exists''"
definition ErrRegisterFailed :: string where "ErrRegisterFailed = ''failed to register''"
definition ErrLoginFailed :: string where "ErrLoginFailed = ''failed to login''"
definition ErrInvalidLoginCredentials :: string where
  "ErrInvalidLoginCredentials = ''username or password is incorrect''"
definition ErrRefreshTokenFailed :: string where "ErrRefreshTokenFailed = ''failed to generate refresh token''"
definition ErrAccessTokenFailed :: string where "ErrAccessTokenFailed = ''failed to generate access token''"
definition ErrGetSessionsFailed :: string where "ErrGetSessionsFailed = ''failed to get sessions''"
definition ErrRevokeSessionFailed :: string where "ErrRevokeSessionFailed = ''failed to revoke session''"
definition ErrRevokeAllSessionsFailed :: string where
  "ErrRevokeAllSessionsFailed = ''failed to revoke all sessions''"

section \<open>Tokens\<close>

definition generateRefreshToken :: "string auth_prog" where
  "generateRefreshToken =
     call rand_Read
       (\<lambda>err. fail (repo_error ''auth.generateRefreshToken'' ErrRefreshTokenFailed KindInternal (Some err)))
       (\<lambda>bytes. ret (base64_EncodeToString bytes))"

definition hashRefreshToken :: "auth_env \<Rightarrow> string \<Rightarrow> string" where
  "hashRefreshToken E token = hex_EncodeToString (sha256_Sum256 E token)"

section \<open>Readiness\<close>

definition auth_IsReady :: "unit auth_prog" where
  "auth_IsReady =
     call auth_Ping (\<lambda>urErr. fail (repo_error ''auth.IsReady'' ''db down'' KindUnavailable (Some urErr))) (\<lambda>_.
     call auth_Ping (\<lambda>trErr. fail (repo_error ''auth.IsReady'' ''db down'' KindUnavailable None)) (\<lambda>_.
     ret ()))"

section \<open>Registration\<close>

definition register_validation :: "auth_env \<Rightarrow> RegisterRequest \<Rightarrow> rich_error" where
  "register_validation E req =
     (let v0 = WithKind KindUnprocessable (WithMessage ''validation failed'' (New ''auth.Register''));
          v1 = (if length (rq_Password req) < 8 then WithValidation ''password'' ErrPasswordTooShort v0 else v0);
          v2 = (if length (rq_Password req) > 72 then WithValidation ''password'' ErrPasswordTooLong v1 else v1)
      in if \<not> emailRegex_MatchString E (rq_Email req) then WithValidation ''email'' ErrInvalidEmail v2 else v2)"

text \<open>The event row both flows insert: fresh id, encoded envelope, the user as aggregate.\<close>

definition outbox_entry :: "event_Type \<Rightarrow> string \<Rightarrow> int \<Rightarrow> OutboxEvent auth_prog" where
  "outbox_entry t body userID =
     call uuid_NewString fail (\<lambda>eventID.
     call time_Now fail (\<lambda>now.
     ret \<lparr>oe_ID = 0, oe_EventID = eventID, oe_EventType = event_Type_string t, oe_Payload = body,
          oe_AggregateType = ''user'', oe_AggregateID = int_to_string userID, oe_Status = [],
          oe_LockedUntil = None, oe_CreatedAt = now, oe_ProcessedAt = None\<rparr>))"

definition encode_event :: "auth_env \<Rightarrow> pb_message \<Rightarrow> event_Type \<Rightarrow> string auth_prog" where
  "encode_event E m t w =
     ((case event_New (env_proto E) m t of
         Inl err \<Rightarrow> Inl err
       | Inr envelope \<Rightarrow> proto_Marshal (env_proto E) envelope), w)"

definition register_failed :: "go_error \<Rightarrow> 'a auth_prog" where
  "register_failed err = fail (repo_error ''auth.Register'' ErrRegisterFailed KindInternal (Some err))"

definition register_tx ::
  "auth_env \<Rightarrow> DeviceContext \<Rightarrow> RegisterRequest \<Rightarrow> string \<Rightarrow> (string \<times> string \<times> string \<times> string \<times> OutboxEvent) auth_prog" where
  "register_tx E deviceCtx req hashedPassword =
     call (CreateUserByEmailAndPassword (rq_Email req) hashedPassword)
       (\<lambda>err. case errors_As err of
           Some re \<Rightarrow> if rich_Kind re = KindConflict
                     then fail (repo_error ''auth.Register'' ErrEmailAlreadyExists KindConflict (Some (Rich re)))
                     else register_failed err
         | None \<Rightarrow> register_failed err) (\<lambda>accountId.
     call generateRefreshToken register_failed (\<lambda>refreshToken.
     call time_Now fail (\<lambda>now.
     call (UpsertSession deviceCtx accountId (hashRefreshToken E refreshToken)
             (now + seconds (RefreshTokenDuration E)) (rq_PushToken req)) register_failed (\<lambda>(deviceID, sessionID).
     call (GenerateAccessToken (env_jwt E) accountId sessionID (JWTSecret E) (AccessTokenDuration E))
       register_failed (\<lambda>accessToken.
     call (encode_event E (PbRegisterNewUser \<lparr>rnu_Id = accountId, rnu_Email = rq_Email req\<rparr>) TypeAuthRegisterNewUser)
       register_failed (\<lambda>body.
     call (outbox_entry TypeAuthRegisterNewUser body accountId) fail (\<lambda>outboxEvent.
     call (auth_InsertOutboxEvent outboxEvent) register_failed (\<lambda>_.
     ret (accessToken, refreshToken, deviceID, sessionID, outboxEvent)))))))))"

definition Register ::
  "auth_env \<Rightarrow> DeviceContext \<Rightarrow> RegisterRequest \<Rightarrow> (RegisterResponse Response \<times> unit auth_prog) auth_prog" where
  "Register E deviceCtx req =
     (if HasValidations (register_validation E req) then fail (Rich (register_validation E req))
      else
      call (bcrypt_hash E (rq_Password req)) register_failed (\<lambda>hashedPassword.
      call (auth_RunInTx (register_tx E deviceCtx req hashedPassword)) register_failed
        (\<lambda>(accessToken, refreshToken, deviceID, sessionID, outboxEvent).
      ret (\<lparr>res_Code = 201,
            res_Data = \<lparr>rr_Message = ''account successfully created'', rr_AccessToken = accessToken,
                        rr_RefreshToken = refreshToken, rr_DeviceID = deviceID, rr_SessionID = sessionID\<rparr>\<rparr>,
           ProcessSingleEvent auth_outbox (env_ProcessEvent E) (OutboxLockTimeout E) outboxEvent))))"

section \<open>Login\<close>

definition login_validation :: "LoginRequest \<Rightarrow> rich_error" where
  "login_validation req =
     (let v0 = WithKind KindUnprocessable (WithMessage ''validation failed'' (New ''auth.Login''));
          v1 = (if lq_Email req = [] then WithValidation ''email'' ErrInvalidEmail v0 else v0)
      in if lq_Password req = [] then WithValidation ''password'' ErrPasswordRequired v1 else v1)"

definition login_failed :: "string \<Rightarrow> go_error \<Rightarrow> 'a auth_prog" where
  "login_failed msg err = fail (repo_error ''auth.Login'' msg KindInternal (Some err))"

text \<open>
  The error of \<^verbatim>\<open>UpsertSession\<close> is overwritten by the next assignment to \<^verbatim>\<open>err\<close>: the
  transaction continues with empty ids.
\<close>

definition login_tx ::
  "auth_env \<Rightarrow> DeviceContext \<Rightarrow> LoginRequest \<Rightarrow> User \<Rightarrow> (string \<times> string \<times> string \<times> string \<times> OutboxEvent) auth_prog" where
  "login_tx E deviceCtx req user =
     call generateRefreshToken (login_failed ErrRefreshTokenFailed) (\<lambda>refreshToken.
     call time_Now fail (\<lambda>now.
     call (call (UpsertSession deviceCtx (usr_ID user) (hashRefreshToken E refreshToken)
                  (now + seconds (RefreshTokenDuration E)) (lq_PushToken req)) (\<lambda>_. ret ([], [])) ret)
       fail (\<lambda>(deviceID, sessionID).
     call (GenerateAccessToken (env_jwt E) (usr_ID user) sessionID (JWTSecret E) (AccessTokenDuration E))
       (login_failed ErrAccessTokenFailed) (\<lambda>accessToken.
     call (encode_event E (PbNewSessionLoggedIn \<lparr>nsl_Id = sessionID, nsl_UserId = usr_ID user\<rparr>)
             TypeAuthNewSessionLoggedIn) (login_failed ErrLoginFailed) (\<lambda>body.
     call (outbox_entry TypeAuthNewSessionLoggedIn body (usr_ID user)) fail (\<lambda>outboxEvent.
     call (auth_InsertOutboxEvent outboxEvent) (login_failed ErrLoginFailed) (\<lambda>_.
     ret (accessToken, refreshToken, deviceID, sessionID, outboxEvent))))))))"

definition Login ::
  "auth_env \<Rightarrow> DeviceContext \<Rightarrow> LoginRequest \<Rightarrow> (LoginResponse Response \<times> unit auth_prog) auth_prog" where
  "Login E deviceCtx req =
     (if HasValidations (login_validation req) then fail (Rich (login_validation req))
      else
      call (GetUserByEmail (lq_Email req))
        (\<lambda>err. case errors_As err of
            Some re \<Rightarrow> if rich_Kind re = KindNotFound
                      then fail (repo_error ''auth.Login'' ErrInvalidLoginCredentials KindUnauthorized (Some (Rich re)))
                      else login_failed ErrLoginFailed err
          | None \<Rightarrow> login_failed ErrLoginFailed err) (\<lambda>user.
      case bcrypt_CompareHashAndPassword E (usr_PasswordHash user) (lq_Password req) of
        Some err \<Rightarrow> fail (repo_error ''auth.Login'' ErrInvalidLoginCredentials KindUnauthorized (Some err))
      | None \<Rightarrow>
      call (auth_RunInTx (login_tx E deviceCtx req user)) (login_failed ErrLoginFailed)
        (\<lambda>(accessToken, refreshToken, deviceID, sessionID, outboxEvent).
      ret (\<lparr>res_Code = 200,
            res_Data = \<lparr>lr_AccessToken = accessToken, lr_RefreshToken = refreshToken, lr_DeviceID = deviceID,
                        lr_SessionID = sessionID, lr_User = user\<rparr>\<rparr>,
           ProcessSingleEvent auth_outbox (env_ProcessEvent E) (OutboxLockTimeout E) outboxEvent))))"

section \<open>Token refresh\<close>

definition RefreshToken :: "auth_env \<Rightarrow> DeviceContext \<Rightarrow> RefreshTokenRequest \<Rightarrow> RefreshTokenResponse Response auth_prog" where
  "RefreshToken E deviceCtx req =
     (let op = ''auth.RefreshToken'' in
      call generateRefreshToken (\<lambda>err. fail (repo_error op ErrRefreshTokenFailed KindInternal (Some err))) (\<lambda>newRefreshToken.
      call time_Now fail (\<lambda>now.
      call (RotateRefreshToken deviceCtx (hashRefreshToken E (fq_RefreshToken req)) (hashRefreshToken E newRefreshToken)
              (now + seconds (RefreshTokenDuration E)) (fq_PushToken req))
        (\<lambda>err. case errors_As err of
            Some re \<Rightarrow> if rich_Kind re = KindNotFound
                      then fail (repo_error op ErrRefreshTokenFailed KindUnauthorized (Some (Rich re)))
                      else fail (repo_error op ErrRefreshTokenFailed KindInternal (Some err))
          | None \<Rightarrow> fail (repo_error op ErrRefreshTokenFailed KindInternal (Some err)))
        (\<lambda>(deviceID, sessionID, userID).
      call (GenerateAccessToken (env_jwt E) userID sessionID (JWTSecret E) (AccessTokenDuration E))
        (\<lambda>err. fail (repo_error op ErrAccessTokenFailed KindInternal (Some err))) (\<lambda>accessToken.
      ret \<lparr>res_Code = 200, res_Data = \<lparr>fr_AccessToken = accessToken, fr_RefreshToken = newRefreshToken,
             fr_DeviceID = deviceID, fr_SessionID = sessionID\<rparr>\<rparr>)))))"

section \<open>Session management\<close>

definition svc_GetUserSessions :: "int \<Rightarrow> SessionItem list Response auth_prog" where
  "svc_GetUserSessions userID =
     call (GetUserSessions userID)
       (\<lambda>err. fail (repo_error ''auth.GetUserSessions'' ErrGetSessionsFailed KindInternal (Some err)))
       (\<lambda>sessions. ret \<lparr>res_Code = 200, res_Data = sessions\<rparr>)"

definition LogoutSession :: "int \<Rightarrow> string \<Rightarrow> unit auth_prog" where
  "LogoutSession userID sessionPublicID =
     call (RevokeSession userID sessionPublicID ''logout'' ''user'')
       (\<lambda>err. fail (repo_error ''auth.LogoutSession'' ErrRevokeSessionFailed KindInternal (Some err))) ret"

definition LogoutAllSessions :: "int \<Rightarrow> string option \<Rightarrow> unit auth_prog" where
  "LogoutAllSessions userID currentSessionID =
     call (RevokeAllSessions userID currentSessionID ''logout_all'' ''user'')
       (\<lambda>err. fail (repo_error ''auth.LogoutAllSessions'' ErrRevokeAllSessionsFailed KindInternal (Some err))) ret"

definition UpdatePushToken :: "int \<Rightarrow> string \<Rightarrow> string \<Rightarrow> unit auth_prog" where
  "UpdatePushToken userID sessionID pushToken =
     call (repo_UpdatePushToken sessionID userID pushToken)
       (\<lambda>err. if is_kind KindNotFound err
              then fail (repo_error ''auth.UpdatePushToken'' ''session not found'' KindNotFound (Some err))
              else fail (repo_error ''auth.UpdatePushToken'' ''failed to update push token'' KindInternal (Some err)))
       ret"

definition GetActiveSessions :: "int \<Rightarrow> SessionItem list auth_prog" where
  "GetActiveSessions userID =
     call (GetUserSessions userID)
       (\<lambda>err. fail (repo_error ''auth.GetActiveSessions'' ErrGetSessionsFailed KindInternal (Some err))) ret"

definition maskEmail :: "string \<Rightarrow> string" where
  "maskEmail email =
     (case split_on CHR ''@'' email of
        [local_part, domain] \<Rightarrow>
          if length local_part \<le> 2 then ''***@'' @ domain
          else take 2 local_part @ replicate (length local_part - 2) CHR ''*'' @ ''@'' @ domain
      | _ \<Rightarrow> ''***'')"

end
