(* ===== verification/AuthProps.thy ===== *)
theory AuthProps
  imports AuthService
begin

text \<open>
  Properties of the auth service: the table invariant through every request, atomicity
  of registration together with its outbox event, single use of refresh tokens,
  revocation, and the paths on which the service does something else than it says.
\<close>

section \<open>The table invariant\<close>

lemma keeps_bcrypt_hash [keep_rules]: "keeps_db P (bcrypt_hash E p)"
  by (simp add: keeps_def bcrypt_hash_def)

lemma keeps_generateRefreshToken [keep_rules]: "keeps_db P generateRefreshToken"
  unfolding generateRefreshToken_def by (intro keep_rules)

lemma keeps_encode_event [keep_rules]: "keeps P (encode_event E m t)"
  by (simp add: keeps_def encode_event_def)

lemma keeps_outbox_entry [keep_rules]: "keeps_db P (outbox_entry t body u)"
  unfolding outbox_entry_def by (intro keep_rules)

lemma keeps_failed [keep_rules]: "keeps P (register_failed err)" "keeps P (login_failed msg err)"
  unfolding register_failed_def login_failed_def by (intro keep_rules)+

lemma keeps_Register [keep_rules]: "keeps_db auth_wf (Register E dc req)"
  unfolding Register_def register_tx_def by (intro keep_rules)

lemma keeps_GetUserByEmail [keep_rules]: "keeps_db P (GetUserByEmail email)"
  unfolding GetUserByEmail_def by (intro keep_rules)

lemma keeps_Login [keep_rules]: "keeps_db auth_wf (Login E dc req)"
  unfolding Login_def login_tx_def by (intro keep_rules)

lemma keeps_RefreshToken [keep_rules]: "keeps_db auth_wf (RefreshToken E dc req)"
  unfolding RefreshToken_def Let_def by (intro keep_rules)

lemma keeps_sessions_ops [keep_rules]:
  "keeps_db auth_wf (LogoutSession uid sid)" "keeps_db auth_wf (LogoutAllSessions uid ex)"
  "keeps_db auth_wf (UpdatePushToken uid sid tok)"
  unfolding LogoutSession_def LogoutAllSessions_def UpdatePushToken_def by (intro keep_rules)+

text \<open>The table a deployment starts with after the migrations.\<close>

definition empty_auth_db :: auth_db where
  "empty_auth_db = \<lparr>users = [], users_next = 1, devices = [], devices_next = 1, device_sessions = [],
     device_sessions_next = 1, session_history = [], session_history_next = 1,
     auth_outbox_events = \<lparr>ob_rows = [], ob_next = 1\<rparr>\<rparr>"

lemma empty_auth_db_wf: "auth_wf empty_auth_db"
  by (simp add: auth_wf_defs empty_auth_db_def)


section \<open>Registration\<close>

lemma tx_neutral_encode_event [tx_rules]: "tx_neutral (encode_event E m t)"
  by (simp add: tx_neutral_def encode_event_def)

lemma tx_neutral_failed [tx_rules]:
  "tx_neutral (register_failed err)" "tx_neutral (login_failed msg err)" "tx_neutral (upsert_failed err)"
  unfolding register_failed_def login_failed_def upsert_failed_def by (intro tx_rules)+

lemma tx_neutral_UpsertSession [tx_rules]: "tx_neutral (UpsertSession dc uid h e p)"
  unfolding UpsertSession_def upsert_device_step_def create_session_def overwrite_session_def Let_def
  by (intro tx_rules)

lemma tx_neutral_generateRefreshToken [tx_rules]: "tx_neutral generateRefreshToken"
  unfolding generateRefreshToken_def by (intro tx_rules)

lemma tx_neutral_register_tx: "tx_neutral (register_tx E dc req h)"
  unfolding register_tx_def CreateUserByEmailAndPassword_def outbox_entry_def auth_InsertOutboxEvent_def Let_def
  by (intro tx_rules)

lemma Register_Inl:
  assumes "Register E dc req w = (Inl e, w')"
  shows "db w' = db w"
proof (cases "HasValidations (register_validation E req)")
  case True
  then show ?thesis using assms by (auto simp: Register_def)
next
  case False
  then show ?thesis
    using assms unfolding Register_def auth_RunInTx_eq
    by (auto simp: call_def register_failed_def bcrypt_hash_def split: prod.splits sum.splits
        dest!: run_in_tx_Inl [OF _ tx_neutral_register_tx])
qed

text \<open>What a session upsert leaves alone, and the session it leaves behind.\<close>

lemma UpsertSession_frame:
  "keeps_db (\<lambda>d. users d = us \<and> users_next d = n \<and> auth_outbox_events d = ob) (UpsertSession dc uid h e p)"
  unfolding UpsertSession_def upsert_device_step_def create_session_def overwrite_session_def Let_def
  by (intro keep_rules keeps_sql_now;
      auto simp: upsert_device_def update_session_def insert_session_def archive_sessions_def Let_def split: if_splits)

lemma update_session_result:
  assumes "update_session h e dc p (ses_public_id r) n d = Inr (u, d')" "r \<in> set (device_sessions d)"
  shows "renew_session h e dc p n r \<in> set (device_sessions d')"
  using assms by (auto simp: update_session_def Let_def set_update_where image_iff split: if_splits)

definition has_session :: "auth_db \<Rightarrow> int \<Rightarrow> string \<Rightarrow> string \<Rightarrow> int \<Rightarrow> bool" where
  "has_session d uid sid h e \<longleftrightarrow>
     (\<exists>s \<in> set (device_sessions d). ses_user_id s = uid \<and> ses_public_id s = sid \<and>
        ses_refresh_token_hash s = h \<and> ses_expires_at s = e)"

lemma create_session_Inr:
  assumes "create_session dc uid did h e p dev w = (Inr (dev', sid), w')"
  shows "has_session (db w') uid sid h e \<and> dev' = dev"
  using assms unfolding create_session_def Let_def upsert_failed_def
  by (elim call_fail_Inr)
     (auto simp: has_session_def insert_session_def split: if_splits dest!: sql_now_Inr_cases)

lemma update_session_prog_Inr:
  assumes "call (sql_now (update_session h e dc p sid)) upsert_failed (\<lambda>_. ret (dev, sid)) w = (Inr (dev', sid'), w')"
    and "r \<in> set (device_sessions (db w))" "ses_public_id r = sid"
  shows "has_session (db w') (ses_user_id r) sid' h e \<and> dev' = dev"
proof -
  have u: "update_session h e dc p (ses_public_id r) (clock w) (db w) = Inr ((), db w')" "dev' = dev" "sid' = sid"
    using assms(1,3) unfolding upsert_failed_def by (auto elim!: call_fail_Inr dest!: sql_now_Inr_cases)
  have "renew_session h e dc p (clock w) r \<in> set (device_sessions (db w'))"
    by (rule update_session_result [OF u(1) assms(2)])
  then show ?thesis
    using u(2,3) assms(3) unfolding has_session_def by (intro conjI bexI) auto
qed

lemma overwrite_session_Inr:
  assumes "overwrite_session dc h e p dev (ses_public_id r) w = (Inr (dev', sid), w')"
    and "r \<in> set (device_sessions (db w))"
  shows "has_session (db w') (ses_user_id r) sid h e \<and> dev' = dev"
  using assms(1) unfolding overwrite_session_def Let_def
proof (cases rule: call_cases)
  case (err er w1)
  then have "r \<in> set (device_sessions (db w1))" using assms(2) by (auto dest!: sql_now_Inl_cases)
  from update_session_prog_Inr [OF err(2) this] show ?thesis by simp
next
  case (ok n w1)
  then have "r \<in> set (device_sessions (db w1))"
    using assms(2) by (auto simp: archive_sessions_def Let_def dest!: sql_now_Inr_cases)
  from update_session_prog_Inr [OF ok(2) this] show ?thesis by simp
qed

lemma UpsertSession_Inr:
  assumes "UpsertSession dc uid h e p w = (Inr (dev, sid), w')"
  shows "has_session (db w') uid sid h e"
proof -
  obtain pid did w1 where "call (sql_query (select_session_of uid did))
      (\<lambda>_. create_session dc uid did h e p pid) (\<lambda>ex. overwrite_session dc h e p pid ex) w1 = (Inr (dev, sid), w')"
    using assms unfolding UpsertSession_def by (elim call_fail_Inr) auto
  then show ?thesis
  proof (cases rule: call_cases)
    case (err er w2)
    then show ?thesis by (auto dest: create_session_Inr)
  next
    case (ok ex w2)
    then have "select_session_of uid did (db w2) = Inr ex" by (auto dest!: sql_query_Inr_cases)
    then obtain r where "r \<in> set (device_sessions (db w2))" "ses_user_id r = uid" "ses_public_id r = ex"
      by (auto simp: select_session_of_def split: option.splits dest: find_SomeD)
    then show ?thesis using overwrite_session_Inr [of dc h e p pid r w2] ok(2) by auto
  qed
qed


lemma generateRefreshToken_Inr:
  "generateRefreshToken w = (Inr t, w') \<Longrightarrow> db w' = db w \<and> clock w' = clock w"
  unfolding generateRefreshToken_def
  by (elim call_fail_Inr) (auto simp: rand_Read_def call_def outside_def split: option.splits)

lemma CreateUser_Inr:
  assumes "CreateUserByEmailAndPassword email pw w = (Inr i, w')"
  shows "insert_user email pw (clock w) (db w) = Inr (i, db w') \<and> clock w' = clock w"
  using assms unfolding CreateUserByEmailAndPassword_def Let_def
  by (auto simp: call_def outside_def split: prod.splits sum.splits option.splits if_splits dest!: sql_now_Inr_cases)

lemma insert_user_Inr:
  "insert_user email pw n d = Inr (i, d') \<Longrightarrow>
   \<exists>u. users d' = users d @ [u] \<and> usr_ID u = users_next d \<and> usr_Email u = email \<and> i = users_next d \<and>
       auth_outbox_events d' = auth_outbox_events d"
  by (auto simp: insert_user_def split: if_splits)

lemma encode_event_Inr:
  assumes "encode_event E m t w = (Inr body, w')"
  shows "w' = w \<and> (\<exists>env. event_New (env_proto E) m t = Inr env \<and> proto_Marshal (env_proto E) env = Inr body)"
  using assms by (auto simp: encode_event_def split: sum.splits)

lemma outbox_entry_Inr:
  assumes "outbox_entry t body uid w = (Inr e, w')"
  shows "db w' = db w \<and> ob_key e = (uuid_src w (uuids w), event_Type_string t, body)"
  using assms by (auto simp: outbox_entry_def call_def uuid_NewString_def time_Now_def ob_key_def)

lemma InsertOutbox_Inr:
  assumes "auth_InsertOutboxEvent e w = (Inr u, w')"
  shows "\<exists>r t. ob_key r = ob_key e \<and> oe_Status r = ''pending'' \<and> ob_rows t = ob_rows (auth_outbox_events (db w)) @ [r] \<and>
    db w' = (db w)\<lparr>auth_outbox_events := t\<rparr>"
proof -
  obtain t where t: "ob_insert [e] (auth_outbox_events (db w)) = Inr ((), t)" "db w' = (db w)\<lparr>auth_outbox_events := t\<rparr>"
    using assms unfolding auth_InsertOutboxEvent_def
    by (elim call_fail_Inr) (auto split: sum.splits dest!: sql_Inr_cases)
  obtain new where new: "ob_rows t = ob_rows (auth_outbox_events (db w)) @ new" "map ob_key new = map ob_key [e]"
      "\<forall>r \<in> set new. oe_Status r = ''pending''"
    using ob_insert_rows [OF t(1)] by auto
  then obtain r where "new = [r]" "ob_key r = ob_key e" by auto
  then show ?thesis using t(2) new by auto
qed

lemma GenerateAccessToken_Inr: "GenerateAccessToken J a s k d w = (r, w') \<Longrightarrow> w' = w"
  using GenerateAccessToken_world [of J a s k d w] by simp

text \<open>The tables after a successful registration, relative to those before.\<close>

definition registered ::
  "auth_env \<Rightarrow> string \<Rightarrow> string \<Rightarrow> string \<Rightarrow> int \<Rightarrow> auth_db \<Rightarrow> auth_db \<Rightarrow> OutboxEvent \<Rightarrow> bool" where
  "registered E email token sid now d d' ev \<longleftrightarrow>
     (\<exists>u r env body.
        users d' = users d @ [u] \<and> usr_ID u = users_next d \<and> usr_Email u = email \<and>
        has_session d' (usr_ID u) sid (hashRefreshToken E token) (now + seconds (RefreshTokenDuration E)) \<and>
        ob_rows (auth_outbox_events d') = ob_rows (auth_outbox_events d) @ [r] \<and>
        oe_Status r = ''pending'' \<and> ob_key r = ob_key ev \<and>
        oe_EventType r = event_Type_string TypeAuthRegisterNewUser \<and> oe_Payload r = body \<and>
        event_New (env_proto E) (PbRegisterNewUser \<lparr>rnu_Id = usr_ID u, rnu_Email = email\<rparr>)
          TypeAuthRegisterNewUser = Inr env \<and>
        proto_Marshal (env_proto E) env = Inr body)"

lemma registered_event:
  assumes "registered E email token sid now d d' ev"
  obtains r env where "r \<in> set (ob_rows (auth_outbox_events d'))" "oe_Status r = ''pending''" "ob_key r = ob_key ev"
    "oe_EventType r = event_Type_string TypeAuthRegisterNewUser"
    "event_New (env_proto E) (PbRegisterNewUser \<lparr>rnu_Id = users_next d, rnu_Email = email\<rparr>) TypeAuthRegisterNewUser = Inr env"
    "proto_Marshal (env_proto E) env = Inr (oe_Payload r)"
  using assms unfolding registered_def
proof (elim exE conjE)
  fix u r env body
  assume rows: "ob_rows (auth_outbox_events d') = ob_rows (auth_outbox_events d) @ [r]"
    and u: "usr_ID u = users_next d" "oe_Payload r = body"
    and r: "oe_Status r = ''pending''" "ob_key r = ob_key ev" "oe_EventType r = event_Type_string TypeAuthRegisterNewUser"
    and enc: "event_New (env_proto E) (PbRegisterNewUser \<lparr>rnu_Id = usr_ID u, rnu_Email = email\<rparr>) TypeAuthRegisterNewUser = Inr env"
      "proto_Marshal (env_proto E) env = Inr body"
  have "r \<in> set (ob_rows (auth_outbox_events d'))" using rows by simp
  from that [OF this r enc [folded u(2), unfolded u(1)]] show thesis .
qed

lemma has_session_outbox [simp]: "has_session (d\<lparr>auth_outbox_events := t\<rparr>) = has_session d"
  by (simp add: has_session_def fun_eq_iff)

lemma register_tx_Inr:
  assumes "register_tx E dc req pw w = (Inr (at, rt, dev, sid, ev), w')"
  shows "registered E (rq_Email req) rt sid (clock w) (db w) (db w') ev"
proof -
  obtain aid w1 where 1: "CreateUserByEmailAndPassword (rq_Email req) pw w = (Inr aid, w1)"
    and r1: "call generateRefreshToken register_failed (\<lambda>refreshToken.
     call time_Now fail (\<lambda>now.
     call (UpsertSession dc aid (hashRefreshToken E refreshToken)
             (now + seconds (RefreshTokenDuration E)) (rq_PushToken req)) register_failed (\<lambda>(deviceID, sessionID).
     call (GenerateAccessToken (env_jwt E) aid sessionID (JWTSecret E) (AccessTokenDuration E))
       register_failed (\<lambda>accessToken.
     call (encode_event E (PbRegisterNewUser \<lparr>rnu_Id = aid, rnu_Email = rq_Email req\<rparr>) TypeAuthRegisterNewUser)
       register_failed (\<lambda>body.
     call (outbox_entry TypeAuthRegisterNewUser body aid) fail (\<lambda>outboxEvent.
     call (auth_InsertOutboxEvent outboxEvent) register_failed (\<lambda>_.
     ret (accessToken, refreshToken, deviceID, sessionID, outboxEvent)))))))) w1 = (Inr (at, rt, dev, sid, ev), w')"
    using assms unfolding register_tx_def
    by (cases rule: call_cases) (auto simp: register_failed_def split: option.splits if_splits)
  obtain w2 w3 w5 w6 body where 2: "generateRefreshToken w1 = (Inr rt, w2)"
    and 3: "UpsertSession dc aid (hashRefreshToken E rt) (clock w2 + seconds (RefreshTokenDuration E)) (rq_PushToken req) w2
      = (Inr (dev, sid), w3)"
    and 4: "encode_event E (PbRegisterNewUser \<lparr>rnu_Id = aid, rnu_Email = rq_Email req\<rparr>) TypeAuthRegisterNewUser w3 = (Inr body, w5)"
    and 5: "outbox_entry TypeAuthRegisterNewUser body aid w5 = (Inr ev, w6)"
    and 6: "auth_InsertOutboxEvent ev w6 = (Inr (), w')"
    using r1 unfolding register_failed_def
    by (elim call_fail_Inr) (auto simp: time_Now_def elim!: call_fail_Inr dest!: GenerateAccessToken_Inr)
  have d1: "insert_user (rq_Email req) pw (clock w) (db w) = Inr (aid, db w1)" and c1: "clock w1 = clock w"
    using CreateUser_Inr [OF 1] by auto
  have d2: "db w2 = db w1" "clock w2 = clock w1" using generateRefreshToken_Inr [OF 2] by auto
  have d3: "users (db w3) = users (db w2)" "auth_outbox_events (db w3) = auth_outbox_events (db w2)"
    using keepsD' [OF UpsertSession_frame _ 3, of "users (db w2)" "users_next (db w2)" "auth_outbox_events (db w2)"]
    by auto
  note s3 = UpsertSession_Inr [OF 3]
  obtain env where w5: "w5 = w3" and env: "event_New (env_proto E) (PbRegisterNewUser \<lparr>rnu_Id = aid, rnu_Email = rq_Email req\<rparr>)
      TypeAuthRegisterNewUser = Inr env" "proto_Marshal (env_proto E) env = Inr body"
    using encode_event_Inr [OF 4] by auto
  have d6: "db w6 = db w3" "ob_key ev = (uuid_src w5 (uuids w5), event_Type_string TypeAuthRegisterNewUser, body)"
    using outbox_entry_Inr [OF 5] w5 by auto
  obtain r t where ins: "ob_key r = ob_key ev" "oe_Status r = ''pending''"
    "ob_rows t = ob_rows (auth_outbox_events (db w6)) @ [r]" "db w' = (db w6)\<lparr>auth_outbox_events := t\<rparr>"
    using InsertOutbox_Inr [OF 6] by auto
  obtain u where u: "users (db w1) = users (db w) @ [u]" "usr_ID u = users_next (db w)" "usr_Email u = rq_Email req"
    "aid = users_next (db w)" "auth_outbox_events (db w1) = auth_outbox_events (db w)"
    using insert_user_Inr [OF d1] by blast
  have r: "oe_EventType r = event_Type_string TypeAuthRegisterNewUser" "oe_Payload r = body"
    using ins(1) d6(2) by (simp_all add: ob_key_def)
  have us: "users (db w') = users (db w) @ [u]" using ins(4) d6(1) d3(1) d2(1) u(1) by simp
  have os: "ob_rows (auth_outbox_events (db w')) = ob_rows (auth_outbox_events (db w)) @ [r]"
    using ins(3,4) d6(1) d3(2) d2(1) u(5) by simp
  have ss: "has_session (db w') (usr_ID u) sid (hashRefreshToken E rt) (clock w + seconds (RefreshTokenDuration E))"
    using s3 ins(4) d6(1) d2(2) c1 u(2,4) by simp
  have en: "event_New (env_proto E) (PbRegisterNewUser \<lparr>rnu_Id = usr_ID u, rnu_Email = rq_Email req\<rparr>)
      TypeAuthRegisterNewUser = Inr env" using env(1) u(2,4) by simp
  show ?thesis
    unfolding registered_def using us u(2,3) ss os ins(1,2) r en env(2) by blast
qed

lemma Register_Inr:
  assumes "Register E dc req w = (Inr (resp, g), w')"
  shows "res_Code resp = 201 \<and>
    (\<exists>ev. registered E (rq_Email req) (rr_RefreshToken (res_Data resp)) (rr_SessionID (res_Data resp))
            (clock w) (db w) (db w') ev \<and>
          g = ProcessSingleEvent auth_outbox (env_ProcessEvent E) (OutboxLockTimeout E) ev)"
proof -
  from assms obtain pw w1 at rt dev sid ev where b: "bcrypt_hash E (rq_Password req) w = (Inr pw, w1)"
    and t: "run_in_tx (register_tx E dc req pw) w1 = (Inr (at, rt, dev, sid, ev), w')"
    and resp: "resp = \<lparr>res_Code = 201,
            res_Data = \<lparr>rr_Message = ''account successfully created'', rr_AccessToken = at,
                        rr_RefreshToken = rt, rr_DeviceID = dev, rr_SessionID = sid\<rparr>\<rparr>"
      "g = ProcessSingleEvent auth_outbox (env_ProcessEvent E) (OutboxLockTimeout E) ev"
    unfolding Register_def auth_RunInTx_eq register_failed_def
    by (auto split: if_splits elim!: call_fail_Inr)
  have w1: "db (after_begin w1) = db w" "clock (after_begin w1) = clock w" using b by (auto simp: bcrypt_hash_def)
  from t obtain w2 where "register_tx E dc req pw (after_begin w1) = (Inr (at, rt, dev, sid, ev), w2)" "db w' = db w2"
    by (auto dest!: run_in_tx_Inr)
  from register_tx_Inr [OF this(1)] this(2) w1 resp show ?thesis by auto
qed

text \<open>
  C7. Registration is atomic with its event. An error leaves every table as it was; a
  success has added exactly one user, a session of that user that carries the returned
  session id and the hash of the returned refresh token, and one pending outbox event whose payload is the
  encoded registration of that user.
\<close>

theorem Register_atomic:
  assumes "Register E dc req w = (r, w')"
  shows "case r of Inl e \<Rightarrow> db w' = db w
    | Inr (resp, goroutine) \<Rightarrow> res_Code resp = 201 \<and>
        (\<exists>ev. registered E (rq_Email req) (rr_RefreshToken (res_Data resp)) (rr_SessionID (res_Data resp))
                (clock w) (db w) (db w') ev \<and>
              goroutine = ProcessSingleEvent auth_outbox (env_ProcessEvent E) (OutboxLockTimeout E) ev)"
  using assms by (cases r) (auto simp: Register_Inl dest!: Register_Inr)


section \<open>Concrete instances\<close>

text \<open>
  An environment with simple stand-ins for the libraries: the password is its own hash, the digest
  is the identity, every email is accepted, access tokens are constant.
\<close>

definition sample_env :: "proto_lib \<Rightarrow> auth_env" where
  "sample_env L = \<lparr>JWTSecret = ''secret'', AccessTokenDuration = 60000000000, RefreshTokenDuration = 3600000000000,
     OutboxLockTimeout = 30000000000, emailRegex_MatchString = (\<lambda>_. True),
     bcrypt_GenerateFromPassword = (\<lambda>_ p. Inr p),
     bcrypt_CompareHashAndPassword = (\<lambda>h p. if h = p then None else Some (ErrorString ''mismatch'')),
     sha256_Sum256 = (\<lambda>s. s),
     env_jwt = \<lparr>jwt_SignedString = (\<lambda>_ _. Inr ''token''), jwt_ParseWithClaims = (\<lambda>_ _ _. Inl (ErrorString ''malformed''))\<rparr>,
     env_proto = L, env_ProcessEvent = (\<lambda>_. ret ())\<rparr>"

definition sample_user :: User where
  "sample_user = \<lparr>usr_ID = 1, usr_Email = ''a@b.c'', usr_PasswordHash = ''password'', usr_CreatedAt = 0\<rparr>"

definition sample_device :: device_row where
  "sample_device = \<lparr>dev_id = 1, dev_public_id = ''d1'', dev_installation_id = ''installation'', dev_platform = ''ios'',
     dev_device_name = ''phone'', dev_app_version = ''1'', dev_created_at = 0, dev_last_seen_at = 0\<rparr>"

definition sample_session :: session_row where
  "sample_session = \<lparr>ses_id = 1, ses_public_id = ''s1'', ses_user_id = 1, ses_device_id = 1,
     ses_refresh_token_hash = hex_EncodeToString ''old'', ses_ip_address = [], ses_user_agent = [],
     ses_push_token = Some ''push'', ses_expires_at = 5000, ses_created_at = 0, ses_last_used_at = 0\<rparr>"

definition sample_auth_db :: auth_db where
  "sample_auth_db = empty_auth_db\<lparr>users := [sample_user], users_next := 2, devices := [sample_device],
     devices_next := 2, device_sessions := [sample_session], device_sessions_next := 2\<rparr>"

definition sample_dc :: "string \<Rightarrow> DeviceContext" where
  "sample_dc platform = \<lparr>dc_UserAgent = ''ua'', dc_IPAddress = [], dc_InstallationID = ''installation'',
     dc_Platform = platform, dc_DeviceName = ''phone'', dc_AppVersion = ''1''\<rparr>"

abbreviation register_codec :: proto_lib where
  "register_codec \<equiv> sample_proto (PbRegisterNewUser \<lparr>rnu_Id = 2, rnu_Email = ''new@b.c''\<rparr>) TypeAuthRegisterNewUser"

lemmas sample_auth_simps = sample_auth_db_def sample_user_def sample_device_def sample_session_def
  empty_auth_db_def sample_dc_def

lemma sample_auth_db_wf: "auth_wf sample_auth_db"
  by (simp add: auth_wf_defs sample_auth_simps platforms_def)


section \<open>Credentials\<close>

text \<open>
  A duplicate email is reported as an internal error: the conflict the transaction
  detects is wrapped once more with kind internal, so the client sees status 500 and
  not the documented 409. Nothing is changed.
\<close>

theorem Register_duplicate_email_500:
  assumes "fault_free w" "\<not> HasValidations (register_validation E req)"
    and "bcrypt_GenerateFromPassword E (calls w) (rq_Password req) = Inr h"
    and "\<exists>u \<in> set (users (db w)). usr_Email u = rq_Email req"
  shows "\<exists>e w'. Register E dc req w = (Inl e, w') \<and> db w' = db w \<and>
    ErrHTTP e = \<lparr>http_message = ErrRegisterFailed, http_code = 500, http_validations = []\<rparr>"
proof -
  let ?w = "w\<lparr>calls := Suc (calls w)\<rparr>"
  have f: "fault w = (\<lambda>_. None)" using assms(1) by (simp add: fault_free_def)
  have "\<exists>e w1. register_tx E dc req h (after_begin ?w) = (Inl e, w1)"
    using assms(4) f
    by (simp add: register_tx_def call_def CreateUserByEmailAndPassword_def Let_def sql_now_ok insert_user_def
        repo_error_def)
  then obtain e w1 where b: "register_tx E dc req h (after_begin ?w) = (Inl e, w1)" by blast
  have "run_in_tx (register_tx E dc req h) ?w = (Inl e, w1\<lparr>db := db ?w\<rparr>)"
    using run_in_tx_body_fails [where body = "register_tx E dc req h", OF _ b] f by simp
  then have "Register E dc req w = register_failed e (w1\<lparr>db := db ?w\<rparr>)"
    using assms(2,3) by (simp add: Register_def call_def bcrypt_hash_def auth_RunInTx_eq)
  then show ?thesis
    by (simp add: register_failed_def repo_error_def ErrHTTP_def ToHTTPStatus_def ErrRegisterFailed_def)
qed

theorem Register_duplicate_email_500_witness:
  "\<exists>e w'. Register (sample_env register_codec) (sample_dc ''ios'')
      \<lparr>rq_Email = ''a@b.c'', rq_Password = ''password'', rq_PushToken = None\<rparr> (quiet_world sample_auth_db) = (Inl e, w') \<and>
    http_code (ErrHTTP e) = 500"
proof -
  let ?E = "sample_env register_codec"
  let ?req = "\<lparr>rq_Email = ''a@b.c'', rq_Password = ''password'', rq_PushToken = None\<rparr>"
  have "\<not> HasValidations (register_validation ?E ?req)"
    by (simp add: register_validation_def sample_env_def)
  moreover have "bcrypt_GenerateFromPassword ?E (calls (quiet_world sample_auth_db)) (rq_Password ?req) = Inr ''password''"
    by (simp add: sample_env_def)
  moreover have "\<exists>u \<in> set (users (db (quiet_world sample_auth_db))). usr_Email u = rq_Email ?req"
    by (simp add: sample_auth_simps)
  ultimately show ?thesis
    using Register_duplicate_email_500 [of "quiet_world sample_auth_db" ?E ?req "''password''" "sample_dc ''ios''"]
    by (auto simp: fault_free_def)
qed

text \<open>
  C32. A login does not tell whether the account exists: an unknown email and a wrong
  password are answered with the same status and the same body, and change nothing.
\<close>

theorem Login_no_enumeration:
  assumes "fault_free w" "lq_Email req \<noteq> []" "lq_Password req \<noteq> []"
    and "\<forall>u \<in> set (users (db w)). usr_Email u = lq_Email req \<longrightarrow>
       bcrypt_CompareHashAndPassword E (usr_PasswordHash u) (lq_Password req) \<noteq> None"
  shows "\<exists>e w'. Login E dc req w = (Inl e, w') \<and> db w' = db w \<and>
    ErrHTTP e = \<lparr>http_message = ErrInvalidLoginCredentials, http_code = 401, http_validations = []\<rparr>"
proof -
  have f: "fault w = (\<lambda>_. None)" using assms(1) by (simp add: fault_free_def)
  have v: "\<not> HasValidations (login_validation req)" using assms(2,3) by (simp add: login_validation_def)
  show ?thesis
  proof (cases "find (\<lambda>u. usr_Email u = lq_Email req) (users (db w))")
    case None
    then show ?thesis
      using v f by (simp add: Login_def call_def GetUserByEmail_def sql_query_ok select_user_def repo_error_def
          ErrHTTP_def ToHTTPStatus_def ErrInvalidLoginCredentials_def)
  next
    case (Some u)
    then obtain err where "bcrypt_CompareHashAndPassword E (usr_PasswordHash u) (lq_Password req) = Some err"
      using assms(4) by (auto dest: find_SomeD)
    then show ?thesis
      using v f Some by (simp add: Login_def call_def GetUserByEmail_def sql_query_ok select_user_def repo_error_def
          ErrHTTP_def ToHTTPStatus_def ErrInvalidLoginCredentials_def)
  qed
qed


theorem Login_no_enumeration_witness:
  "let E = sample_env register_codec; dc = sample_dc ''ios''; w = quiet_world sample_auth_db in
   (\<exists>e1 w1 e2 w2.
      Login E dc \<lparr>lq_Email = ''a@b.c'', lq_Password = ''wrong'', lq_PushToken = None\<rparr> w = (Inl e1, w1) \<and>
      Login E dc \<lparr>lq_Email = ''nobody'', lq_Password = ''wrong'', lq_PushToken = None\<rparr> w = (Inl e2, w2) \<and>
      ErrHTTP e1 = ErrHTTP e2)"
proof -
  let ?E = "sample_env register_codec" and ?dc = "sample_dc ''ios''" and ?w = "quiet_world sample_auth_db"
  let ?q = "\<lambda>email. \<lparr>lq_Email = email, lq_Password = ''wrong'', lq_PushToken = None\<rparr>"
  have h: "\<forall>u \<in> set (users (db ?w)). usr_Email u = lq_Email (?q em) \<longrightarrow>
      bcrypt_CompareHashAndPassword ?E (usr_PasswordHash u) (lq_Password (?q em)) \<noteq> None" for em
    by (simp add: sample_auth_simps sample_env_def)
  have f: "fault_free ?w" by (simp add: fault_free_def)
  have "\<exists>e w'. Login ?E ?dc (?q em) ?w = (Inl e, w') \<and>
      ErrHTTP e = \<lparr>http_message = ErrInvalidLoginCredentials, http_code = 401, http_validations = []\<rparr>" if "em \<noteq> []" for em
    using Login_no_enumeration [where req = "?q em" and E = ?E and dc = ?dc and w = ?w] f h that by fastforce
  from this [of "''a@b.c''"] this [of "''nobody''"] show ?thesis by (auto simp: Let_def)
qed

section \<open>Refresh tokens\<close>

lemma rotate_body_Inr:
  assumes "rotate_body dc old new e p w = (Inr (dev, sid, uid), w')"
  shows "\<exists>s \<in> set (device_sessions (db w)). ses_refresh_token_hash s = old \<and> ses_public_id s = sid \<and>
    ses_user_id s = uid \<and> clock w \<le> ses_expires_at s \<and>
    update_session new e dc p sid (clock w) (db w) = Inr ((), db w')"
proof -
  obtain did ex w1 where q: "sql_query (select_session_by_hash old) w = (Inr (sid, uid, did, ex), w1)"
    and r: "\<not> ex < clock w1" "call (sql_now (update_session new e dc p sid))
        (\<lambda>err. fail (repo_error ''Repository.RotateRefreshToken'' ''failed to rotate refresh token'' KindInternal (Some err))) (\<lambda>_.
      call (sql_query (select_device_public_id did))
        (\<lambda>err. fail (repo_error ''Repository.RotateRefreshToken'' ''failed to rotate refresh token'' KindInternal (Some err))) (\<lambda>devicePublicID.
      ret (devicePublicID, sid, uid))) w1 = (Inr (dev, sid, uid), w')"
    using assms unfolding rotate_body_def Let_def
    by (cases rule: call_cases) (auto simp: time_Now_def call_def split: if_splits sum.splits prod.splits)
  have w1: "select_session_by_hash old (db w) = Inr (sid, uid, did, ex)" "db w1 = db w" "clock w1 = clock w"
    using q by (auto dest!: sql_query_Inr_cases)
  have "update_session new e dc p sid (clock w) (db w) = Inr ((), db w')"
    using r(2) w1(2,3) by (auto elim!: call_fail_Inr dest!: sql_now_Inr_cases sql_query_Inr_cases)
  then show ?thesis
    using w1(1,3) r(1)
    by (auto simp: select_session_by_hash_def split: option.splits dest: find_SomeD)
qed

lemma tx_neutral_rotate_body [tx_rules]: "tx_neutral (rotate_body dc old new e p)"
  unfolding rotate_body_def Let_def by (intro tx_rules)

lemma RotateRefreshToken_Inr:
  assumes "RotateRefreshToken dc old new e p w = (Inr (dev, sid, uid), w')"
  shows "\<exists>s \<in> set (device_sessions (db w)). ses_refresh_token_hash s = old \<and> ses_public_id s = sid \<and>
    ses_user_id s = uid \<and> clock w \<le> ses_expires_at s \<and>
    update_session new e dc p sid (clock w) (db w) = Inr ((), db w')"
proof -
  obtain w2 where "rotate_body dc old new e p (after_begin w) = (Inr (dev, sid, uid), w2)" "db w' = db w2"
    using assms unfolding RotateRefreshToken_def Let_def by (auto dest!: in_tx_Inr)
  from rotate_body_Inr [OF this(1)] this(2) show ?thesis by simp
qed

lemma RotateRefreshToken_Inl:
  "RotateRefreshToken dc old new e p w = (Inl err, w') \<Longrightarrow> db w' = db w"
  unfolding RotateRefreshToken_def Let_def
  using in_tx_error_unchanged [OF _ tx_neutral_rotate_body] by blast

text \<open>After the update no session carries the old hash, unless the new one equals it.\<close>

lemma update_session_old_gone:
  assumes "update_session new e dc p (ses_public_id s) n d = Inr (u, d')" "s \<in> set (device_sessions d)"
    and "unique_by ses_refresh_token_hash (device_sessions d)" "new \<noteq> ses_refresh_token_hash s"
  shows "\<forall>r \<in> set (device_sessions d'). ses_refresh_token_hash r \<noteq> ses_refresh_token_hash s"
proof -
  have d': "device_sessions d' = update_where (\<lambda>r. ses_public_id r = ses_public_id s) (renew_session new e dc p n) (device_sessions d)"
    using assms(1) by (auto simp: update_session_def Let_def split: if_splits)
  show ?thesis
    using unique_byD [OF assms(3)] assms(2,4) unfolding d' set_update_where by (auto split: if_splits)
qed

lemma RotateRefreshToken_unknown:
  assumes "fault_free w" "\<forall>r \<in> set (device_sessions (db w)). ses_refresh_token_hash r \<noteq> old"
  shows "\<exists>err w'. RotateRefreshToken dc old new e p w = (Inl err, w') \<and> db w' = db w \<and>
    (\<exists>re. err = Rich re \<and> rich_Kind re = KindNotFound)"
proof -
  have f: "fault w = (\<lambda>_. None)" using assms(1) by (simp add: fault_free_def)
  have "select_session_by_hash old (db w) = Inl ErrNoRows"
    using assms(2) by (auto simp: select_session_by_hash_def find_None_iff split: option.splits dest: find_SomeD)
  then have b: "rotate_body dc old new e p (after_begin w) =
      (Inl (repo_error ''Repository.RotateRefreshToken'' ''invalid refresh token'' KindNotFound (Some ErrNoRows)),
       (after_begin w)\<lparr>calls := Suc (calls (after_begin w))\<rparr>)"
    using f by (simp add: rotate_body_def Let_def call_def sql_query_ok)
  show ?thesis
    unfolding RotateRefreshToken_def Let_def
    by (subst in_tx_body_fails [where body = "rotate_body dc old new e p", OF _ b]) (simp_all add: f repo_error_def)
qed

lemma RefreshToken_Inr:
  assumes "RefreshToken E dc req w = (Inr resp, w')"
  shows "\<exists>w1 dev uid. db w1 = db w \<and> clock w1 = clock w \<and>
    RotateRefreshToken dc (hashRefreshToken E (fq_RefreshToken req))
      (hashRefreshToken E (fr_RefreshToken (res_Data resp))) (clock w + seconds (RefreshTokenDuration E))
      (fq_PushToken req) w1 = (Inr (dev, fr_SessionID (res_Data resp), uid), w')"
proof -
  obtain new w1 dev sid uid w2 access where g: "generateRefreshToken w = (Inr new, w1)"
    and r: "RotateRefreshToken dc (hashRefreshToken E (fq_RefreshToken req)) (hashRefreshToken E new)
      (clock w1 + seconds (RefreshTokenDuration E)) (fq_PushToken req) w1 = (Inr (dev, sid, uid), w2)"
    and c: "GenerateAccessToken (env_jwt E) uid sid (JWTSecret E) (AccessTokenDuration E) w2 = (Inr access, w')"
    and resp: "resp = \<lparr>res_Code = 200, res_Data = \<lparr>fr_AccessToken = access, fr_RefreshToken = new,
             fr_DeviceID = dev, fr_SessionID = sid\<rparr>\<rparr>"
    using assms unfolding RefreshToken_def Let_def
    by (elim call_fail_Inr)
       (auto simp: time_Now_def elim!: call_cases call_fail_Inr split: option.splits if_splits)
  then have "w' = w2" by (auto dest: GenerateAccessToken_Inr)
  then show ?thesis using r generateRefreshToken_Inr [OF g] resp by auto
qed

lemma generateRefreshToken_ok:
  assumes "fault_free w"
  shows "\<exists>t w'. generateRefreshToken w = (Inr t, w') \<and> fault_free w' \<and> db w' = db w"
  using assms by (simp add: generateRefreshToken_def call_def rand_Read_def outside_def fault_free_def)

text \<open>
  C8. A refresh token works once. When a refresh succeeds, the session carries the hash
  of the new token and no session carries that of the old one; presenting the old token
  again is answered with status 401 and changes nothing. (The digests of the two tokens
  are assumed to differ.)
\<close>

theorem refresh_token_single_use:
  assumes "auth_wf (db w)" "RefreshToken E dc req w = (Inr resp, w')"
    and "hashRefreshToken E (fr_RefreshToken (res_Data resp)) \<noteq> hashRefreshToken E (fq_RefreshToken req)"
    and "fault_free w''" "db w'' = db w'" "fq_RefreshToken req' = fq_RefreshToken req"
  shows "(\<exists>s \<in> set (device_sessions (db w')). ses_public_id s = fr_SessionID (res_Data resp) \<and>
      ses_refresh_token_hash s = hashRefreshToken E (fr_RefreshToken (res_Data resp))) \<and>
    (\<exists>e w3. RefreshToken E dc' req' w'' = (Inl e, w3) \<and> db w3 = db w'' \<and> http_code (ErrHTTP e) = 401)"
proof -
  obtain w1 dev uid where "db w1 = db w" and r: "RotateRefreshToken dc (hashRefreshToken E (fq_RefreshToken req))
      (hashRefreshToken E (fr_RefreshToken (res_Data resp))) (clock w + seconds (RefreshTokenDuration E))
      (fq_PushToken req) w1 = (Inr (dev, fr_SessionID (res_Data resp), uid), w')"
    using RefreshToken_Inr [OF assms(2)] by blast
  then obtain s where s: "s \<in> set (device_sessions (db w))" "ses_refresh_token_hash s = hashRefreshToken E (fq_RefreshToken req)"
    "ses_public_id s = fr_SessionID (res_Data resp)" and u: "update_session (hashRefreshToken E (fr_RefreshToken (res_Data resp)))
      (clock w + seconds (RefreshTokenDuration E)) dc (fq_PushToken req) (ses_public_id s) (clock w1) (db w) = Inr ((), db w')"
    using RotateRefreshToken_Inr [OF r] by auto
  have "unique_by ses_refresh_token_hash (device_sessions (db w))" using assms(1) by (simp add: auth_wf_defs)
  then have gone: "\<forall>r \<in> set (device_sessions (db w'')). ses_refresh_token_hash r \<noteq> hashRefreshToken E (fq_RefreshToken req')"
    using update_session_old_gone [OF u s(1)] s(2) assms(3,5,6) by simp
  obtain t w4 where g: "generateRefreshToken w'' = (Inr t, w4)" "fault_free w4" "db w4 = db w''"
    using generateRefreshToken_ok [OF assms(4)] by blast
  obtain re w5 where "RotateRefreshToken dc' (hashRefreshToken E (fq_RefreshToken req')) (hashRefreshToken E t)
      (clock w4 + seconds (RefreshTokenDuration E)) (fq_PushToken req') w4 = (Inl (Rich re), w5)"
      "db w5 = db w4" "rich_Kind re = KindNotFound"
    using RotateRefreshToken_unknown [OF g(2), of "hashRefreshToken E (fq_RefreshToken req')"] gone g(3) by metis
  then have "\<exists>e w3. RefreshToken E dc' req' w'' = (Inl e, w3) \<and> db w3 = db w'' \<and> http_code (ErrHTTP e) = 401"
    using g by (simp add: RefreshToken_def Let_def call_def time_Now_def repo_error_def ErrHTTP_def ToHTTPStatus_def)
  moreover have "renew_session (hashRefreshToken E (fr_RefreshToken (res_Data resp)))
      (clock w + seconds (RefreshTokenDuration E)) dc (fq_PushToken req) (clock w1) s \<in> set (device_sessions (db w'))"
    by (rule update_session_result [OF u s(1)])
  ultimately show ?thesis using s(3) by (intro conjI bexI) auto
qed


end
