(* ===== verification/AuthSessions.thy ===== *)
theory AuthSessions
  imports AuthProps
begin

text \<open>
  Sessions: which refresh tokens are accepted, revocation, logout, push tokens, and the
  paths of login and logout that do not do what they announce.
\<close>

section \<open>Accepted refresh tokens\<close>

text \<open>The token a refresh hands out: the random bytes it draws, encoded.\<close>

definition next_token :: "auth_db world \<Rightarrow> string" where
  "next_token w = base64_EncodeToString (rand_src w (Suc (calls w)))"

lemma generateRefreshToken_eq:
  "fault_free w \<Longrightarrow> generateRefreshToken w = (Inr (next_token w), w\<lparr>calls := Suc (calls w)\<rparr>)"
  by (simp add: generateRefreshToken_def call_def rand_Read_def outside_def fault_free_def next_token_def)

lemma unique_hash_renewed:
  assumes "unique_by ses_refresh_token_hash rs" "\<forall>r \<in> set rs. ses_refresh_token_hash r \<noteq> h"
    and "s \<in> set rs" "\<forall>r \<in> set rs. ses_public_id r = ses_public_id s \<longrightarrow> r = s"
  shows "unique_by ses_refresh_token_hash (update_where (\<lambda>r. ses_public_id r = ses_public_id s) (renew_session h e dc p n) rs)"
  using assms
proof (induction rs)
  case (Cons r rs)
  show ?case
  proof (cases "s \<in> set rs")
    case True
    then show ?thesis using Cons by (auto simp: set_update_where split: if_splits)
  next
    case False
    then have "update_where (\<lambda>r. ses_public_id r = ses_public_id s) (renew_session h e dc p n) rs = rs"
      using Cons.prems(4) by (intro update_where_none) auto
    then show ?thesis using Cons.prems by auto
  qed
qed simp

lemma RotateRefreshToken_ok:
  assumes "fault_free w" "auth_wf (db w)" "s \<in> set (device_sessions (db w))" "clock w \<le> ses_expires_at s"
    and "\<forall>r \<in> set (device_sessions (db w)). ses_refresh_token_hash r \<noteq> new"
      "\<forall>r \<in> set (device_sessions (db w)). ses_public_id r = ses_public_id s \<longrightarrow> r = s"
  shows "\<exists>dev w'. RotateRefreshToken dc (ses_refresh_token_hash s) new e p w = (Inr (dev, ses_public_id s, ses_user_id s), w') \<and>
    fault_free w'"
proof -
  let ?w = "after_begin w"
  have f: "fault w = (\<lambda>_. None)" using assms(1) by (simp add: fault_free_def)
  have u: "unique_by ses_refresh_token_hash (device_sessions (db w))" using assms(2) by (simp add: auth_wf_defs)
  have sel: "select_session_by_hash (ses_refresh_token_hash s) (db w) =
      Inr (ses_public_id s, ses_user_id s, ses_device_id s, ses_expires_at s)"
    using unique_by_find [OF u assms(3)] by (simp add: select_session_by_hash_def)
  define d where "d = (db w)\<lparr>device_sessions := update_where (\<lambda>r. ses_public_id r = ses_public_id s)
      (renew_session new e dc p (clock w)) (device_sessions (db w))\<rparr>"
  have upd: "update_session new e dc p (ses_public_id s) (clock w) (db w) = Inr ((), d)"
    using unique_hash_renewed [OF u assms(5,3,6)] by (simp add: update_session_def d_def)
  have "ses_device_id s \<in> dev_id ` set (devices d)"
    using assms(2,3) by (auto simp: auth_wf_defs d_def)
  then have "find (\<lambda>r. dev_id r = ses_device_id s) (devices d) \<noteq> None"
    by (auto simp: find_None_iff)
  then obtain dev where dev: "select_device_public_id (ses_device_id s) d = Inr dev"
    by (auto simp: select_device_public_id_def)
  have "rotate_body dc (ses_refresh_token_hash s) new e p ?w = (Inr (dev, ses_public_id s, ses_user_id s),
      ?w\<lparr>calls := Suc (Suc (Suc (calls ?w))), db := d\<rparr>)"
    using f assms(4) by (simp add: rotate_body_def Let_def call_def sql_query_ok sel time_Now_def sql_now_ok upd dev)
  from in_tx_ok [where body = "rotate_body dc (ses_refresh_token_hash s) new e p", OF f this] show ?thesis
    using f by (simp add: RotateRefreshToken_def Let_def fault_free_def)
qed

lemma RefreshToken_runs:
  assumes "fault_free w" "auth_wf (db w)" "s \<in> set (device_sessions (db w))" "clock w \<le> ses_expires_at s"
    and "ses_refresh_token_hash s = hashRefreshToken E (fq_RefreshToken req)"
    and "\<forall>r \<in> set (device_sessions (db w)). ses_refresh_token_hash r \<noteq> hashRefreshToken E (next_token w)"
      "\<forall>r \<in> set (device_sessions (db w)). ses_public_id r = ses_public_id s \<longrightarrow> r = s"
    and "\<forall>c. \<exists>t. jwt_SignedString (env_jwt E) (JWTSecret E) c = Inr t"
  shows "\<exists>resp w'. RefreshToken E dc req w = (Inr resp, w') \<and> fault_free w' \<and> res_Code resp = 200 \<and>
    fr_SessionID (res_Data resp) = ses_public_id s \<and> fr_RefreshToken (res_Data resp) = next_token w"
proof -
  let ?w = "w\<lparr>calls := Suc (calls w)\<rparr>"
  obtain dev w2 where r: "RotateRefreshToken dc (ses_refresh_token_hash s) (hashRefreshToken E (next_token w))
      (clock w + seconds (RefreshTokenDuration E)) (fq_PushToken req) ?w = (Inr (dev, ses_public_id s, ses_user_id s), w2)"
    "fault_free w2"
    using RotateRefreshToken_ok [of ?w s "hashRefreshToken E (next_token w)" dc
        "clock w + seconds (RefreshTokenDuration E)" "fq_PushToken req"] assms by (auto simp: fault_free_def)
  obtain t where "GenerateAccessToken (env_jwt E) (ses_user_id s) (ses_public_id s) (JWTSecret E) (AccessTokenDuration E) w2 = (Inr t, w2)"
    using assms(8) by (fastforce simp: GenerateAccessToken_def call_def time_Now_def)
  then show ?thesis
    using r by (simp add: RefreshToken_def Let_def call_def generateRefreshToken_eq [OF assms(1)] time_Now_def assms(5) [symmetric])
qed

text \<open>
  A refresh token that belongs to a live session is accepted when no call fails:
  the answer is 200 with the session's id and the freshly drawn token. (The digest of
  the new token must not be in use already, and session ids must not collide.)
\<close>

theorem refresh_token_accepted:
  assumes "fault_free w" "auth_wf (db w)" "s \<in> set (device_sessions (db w))" "clock w \<le> ses_expires_at s"
    and "ses_refresh_token_hash s = hashRefreshToken E (fq_RefreshToken req)"
    and "\<forall>r \<in> set (device_sessions (db w)). ses_refresh_token_hash r \<noteq> hashRefreshToken E (next_token w)"
      "\<forall>r \<in> set (device_sessions (db w)). ses_public_id r = ses_public_id s \<longrightarrow> r = s"
    and "\<forall>c. \<exists>t. jwt_SignedString (env_jwt E) (JWTSecret E) c = Inr t"
  shows "\<exists>resp w'. RefreshToken E dc req w = (Inr resp, w') \<and> fault_free w' \<and> res_Code resp = 200 \<and>
    fr_SessionID (res_Data resp) = ses_public_id s \<and> fr_RefreshToken (res_Data resp) = next_token w"
  using assms by (rule RefreshToken_runs)

lemma length_hex [simp]: "length (hex_EncodeToString s) = 2 * length s"
  by (induction s) auto

abbreviation sample_refresh :: RefreshTokenRequest where
  "sample_refresh \<equiv> \<lparr>fq_RefreshToken = ''old'', fq_PushToken = None\<rparr>"

abbreviation sample_world :: "auth_db world" where
  "sample_world \<equiv> quiet_world sample_auth_db"

lemma sample_refresh_hyps:
  "fault_free sample_world" "auth_wf (db sample_world)" "sample_session \<in> set (device_sessions (db sample_world))"
  "clock sample_world \<le> ses_expires_at sample_session"
  "ses_refresh_token_hash sample_session = hashRefreshToken (sample_env register_codec) (fq_RefreshToken sample_refresh)"
  "\<forall>r \<in> set (device_sessions (db sample_world)). ses_public_id r = ses_public_id sample_session \<longrightarrow> r = sample_session"
  "\<forall>c. \<exists>t. jwt_SignedString (env_jwt (sample_env register_codec)) (JWTSecret (sample_env register_codec)) c = Inr t"
  using sample_auth_db_wf by (simp_all add: fault_free_def sample_auth_simps hashRefreshToken_def sample_env_def)

lemma sample_token: "length (next_token sample_world) = 4"
  by (simp add: next_token_def nat_to_string.simps)

lemma sample_hash_differs:
  "hashRefreshToken (sample_env register_codec) (next_token sample_world) \<noteq> hashRefreshToken (sample_env register_codec) ''old''"
    (is "?new \<noteq> ?old")
proof
  assume "?new = ?old"
  then have "length ?new = length ?old" by (rule arg_cong)
  moreover have "length ?new = 8"
    using sample_token by (simp add: hashRefreshToken_def sample_env_def)
  moreover have "length ?old = 6" by (simp add: hashRefreshToken_def sample_env_def)
  ultimately show False by linarith
qed

lemma sample_fresh_hash:
  "\<forall>r \<in> set (device_sessions (db sample_world)). ses_refresh_token_hash r \<noteq>
     hashRefreshToken (sample_env register_codec) (next_token sample_world)"
  using sample_hash_differs by (simp add: sample_auth_simps hashRefreshToken_def sample_env_def)

theorem refresh_token_accepted_witness:
  "\<exists>resp w'. RefreshToken (sample_env register_codec) (sample_dc ''ios'') sample_refresh sample_world = (Inr resp, w') \<and>
     fr_SessionID (res_Data resp) = ''s1''"
  using refresh_token_accepted [OF sample_refresh_hyps(1-5) sample_fresh_hash sample_refresh_hyps(6,7), of "sample_dc ''ios''"]
  by (auto simp: sample_session_def)

text \<open>The instance for single use, on the same session.\<close>

theorem refresh_token_single_use_witness:
  "\<exists>resp w'. RefreshToken (sample_env register_codec) (sample_dc ''ios'') sample_refresh sample_world = (Inr resp, w') \<and>
     (\<exists>e w3. RefreshToken (sample_env register_codec) (sample_dc ''ios'') sample_refresh w' = (Inl e, w3) \<and>
        db w3 = db w' \<and> http_code (ErrHTTP e) = 401)"
proof -
  obtain resp w' where r: "RefreshToken (sample_env register_codec) (sample_dc ''ios'') sample_refresh sample_world = (Inr resp, w')"
    "fault_free w'" "fr_RefreshToken (res_Data resp) = next_token sample_world"
    using RefreshToken_runs [OF sample_refresh_hyps(1-5) sample_fresh_hash sample_refresh_hyps(6,7), of "sample_dc ''ios''"]
    by blast
  have "hashRefreshToken (sample_env register_codec) (fr_RefreshToken (res_Data resp)) \<noteq>
      hashRefreshToken (sample_env register_codec) (fq_RefreshToken sample_refresh)"
    using r(3) sample_hash_differs by simp
  from refresh_token_single_use [OF sample_refresh_hyps(2) r(1) this r(2), of sample_refresh "sample_dc ''ios''"] r(1)
  show ?thesis by blast
qed

section \<open>Expiry\<close>

text \<open>
  An expired refresh token is refused and nothing changes, but the answer is
  status 500: the repository gives the expiry the kind internal, where the interface
  documents 401.
\<close>

theorem expired_token_500:
  assumes "fault_free w" "auth_wf (db w)" "s \<in> set (device_sessions (db w))" "ses_expires_at s < clock w"
    and "ses_refresh_token_hash s = hashRefreshToken E (fq_RefreshToken req)"
  shows "\<exists>e w'. RefreshToken E dc req w = (Inl e, w') \<and> db w' = db w \<and> http_code (ErrHTTP e) = 500"
proof -
  let ?w = "w\<lparr>calls := Suc (calls w)\<rparr>" and ?h = "ses_refresh_token_hash s"
  have f: "fault w = (\<lambda>_. None)" using assms(1) by (simp add: fault_free_def)
  have u: "unique_by ses_refresh_token_hash (device_sessions (db w))" using assms(2) by (simp add: auth_wf_defs)
  have "select_session_by_hash ?h (db w) = Inr (ses_public_id s, ses_user_id s, ses_device_id s, ses_expires_at s)"
    using unique_by_find [OF u assms(3)] by (simp add: select_session_by_hash_def)
  then have b: "rotate_body dc ?h new e p (after_begin ?w) =
      (Inl (repo_error ''Repository.RotateRefreshToken'' ''failed to rotate refresh token'' KindInternal None),
       (after_begin ?w)\<lparr>calls := Suc (calls (after_begin ?w))\<rparr>)" for new e p
    using f assms(4) by (simp add: rotate_body_def Let_def call_def sql_query_ok time_Now_def)
  have "\<exists>w2. RotateRefreshToken dc ?h new e p ?w =
      (Inl (repo_error ''Repository.RotateRefreshToken'' ''failed to rotate refresh token'' KindInternal None), w2) \<and> db w2 = db w" for new e p
    unfolding RotateRefreshToken_def Let_def
    by (subst in_tx_body_fails [where body = "rotate_body dc ?h new e p", OF _ b]) (simp_all add: f)
  then obtain w2 where "RotateRefreshToken dc ?h (hashRefreshToken E (next_token w)) (clock w + seconds (RefreshTokenDuration E))
      (fq_PushToken req) ?w = (Inl (repo_error ''Repository.RotateRefreshToken'' ''failed to rotate refresh token'' KindInternal None), w2)"
      "db w2 = db w" by blast
  then show ?thesis
    by (simp add: RefreshToken_def Let_def call_def generateRefreshToken_eq [OF assms(1)] time_Now_def
        assms(5) [symmetric] repo_error_def ErrHTTP_def ToHTTPStatus_def)
qed

theorem expired_token_500_witness:
  "\<exists>e w'. RefreshToken (sample_env register_codec) (sample_dc ''ios'') sample_refresh (sample_world\<lparr>clock := 5001\<rparr>) = (Inl e, w') \<and>
     http_code (ErrHTTP e) = 500"
proof -
  have "ses_expires_at sample_session < clock (sample_world\<lparr>clock := 5001\<rparr>)" by (simp add: sample_session_def)
  moreover have "fault_free (sample_world\<lparr>clock := 5001\<rparr>)" by (simp add: fault_free_def)
  ultimately show ?thesis
    using expired_token_500 [where w = "sample_world\<lparr>clock := 5001\<rparr>", OF _ _ _ _ sample_refresh_hyps(5), of "sample_dc ''ios''"]
      sample_refresh_hyps(2,3) by auto
qed

section \<open>Revocation\<close>

lemma revoke_body_Inr:
  assumes "revoke_body uid sid reason by w = (Inr u, w')"
  shows "\<exists>d k. archive_sessions (\<lambda>r. ses_public_id r = sid \<and> ses_user_id r = uid) reason by (clock w) (db w) = Inr (k, d) \<and>
    k \<noteq> 0 \<and> delete_sessions (\<lambda>r. ses_public_id r = sid \<and> ses_user_id r = uid) d = Inr (k, db w')"
proof -
  let ?p = "\<lambda>r. ses_public_id r = sid \<and> ses_user_id r = uid"
  obtain w1 w2 k w3 k' where "sql_query (\<lambda>d. Inr ()) w = (Inr (), w1)"
    "sql_now (archive_sessions ?p reason by) w1 = (Inr k, w2)" "outside w2 = (Inr (), w3)" "k \<noteq> 0"
    "sql (delete_sessions ?p) w3 = (Inr k', w')"
    using assms unfolding revoke_body_def Let_def by (auto elim!: call_fail_Inr split: if_splits)
  then show ?thesis
    by (auto simp: archive_sessions_def delete_sessions_def Let_def dest!: sql_query_Inr_cases sql_now_Inr_cases
        sql_Inr_cases outside_db)
qed

lemma delete_sessions_Inr:
  "delete_sessions p d = Inr (k, d') \<Longrightarrow> device_sessions d' = filter (\<lambda>s. \<not> p s) (device_sessions d) \<and>
    session_history d' = session_history d"
  by (auto simp: delete_sessions_def delete_where_def)

lemma tx_neutral_revoke_body [tx_rules]: "tx_neutral (revoke_body uid sid reason by)"
  unfolding revoke_body_def Let_def by (intro tx_rules)

text \<open>
  Logging out a session removes exactly the sessions with that id that belong to
  the user and files each of them in the history with reason and author; sessions of
  other users and other ids stay. An error changes nothing, and a session id the user
  does not own is always an error.
\<close>

theorem LogoutSession_effect:
  assumes "LogoutSession uid sid w = (r, w')"
  shows "let mine = (\<lambda>s. ses_public_id s = sid \<and> ses_user_id s = uid) in
    case r of
      Inl e \<Rightarrow> db w' = db w
    | Inr _ \<Rightarrow>
        (\<exists>s \<in> set (device_sessions (db w)). mine s) \<and>
        device_sessions (db w') = filter (\<lambda>s. \<not> mine s) (device_sessions (db w)) \<and>
        (\<forall>s \<in> set (device_sessions (db w)). mine s \<longrightarrow>
          (\<exists>h \<in> set (session_history (db w')). his_session_public_id h = sid \<and> his_user_id h = uid \<and>
             his_refresh_token_hash h = ses_refresh_token_hash s \<and>
             his_revoke_reason h = ''logout'' \<and> his_revoked_by h = ''user''))"
proof (cases r)
  case (Inl e)
  then show ?thesis
    using assms unfolding LogoutSession_def RevokeSession_def
    by (auto simp: call_def Let_def split: prod.splits sum.splits dest!: in_tx_error_unchanged [OF _ tx_neutral_revoke_body])
next
  case (Inr u)
  let ?p = "\<lambda>r. ses_public_id r = sid \<and> ses_user_id r = uid"
  obtain w2 where b: "revoke_body uid sid ''logout'' ''user'' (after_begin w) = (Inr (), w2)" "db w' = db w2"
    using assms Inr unfolding LogoutSession_def RevokeSession_def Let_def
    by (auto elim!: call_fail_Inr dest!: in_tx_Inr)
  obtain d k where a: "archive_sessions ?p ''logout'' ''user'' (clock w) (db w) = Inr (k, d)" "k \<noteq> 0"
    "delete_sessions ?p d = Inr (k, db w')"
    using revoke_body_Inr [OF b(1)] b(2) by auto
  let ?rs = "select_where ?p (device_sessions (db w))"
  have d: "device_sessions d = device_sessions (db w)" "k = length ?rs"
    "session_history d = session_history (db w) @
      map2 (\<lambda>i r. to_history ''logout'' ''user'' (clock w) (session_history_next (db w) + int i) r) [0..<length ?rs] ?rs"
    using a(1) by (auto simp: archive_sessions_def Let_def)
  have fin: "device_sessions (db w') = filter (\<lambda>s. \<not> ?p s) (device_sessions (db w))" "session_history (db w') = session_history d"
    using delete_sessions_Inr [OF a(3)] d(1) by simp_all
  have ex: "\<exists>s \<in> set (device_sessions (db w)). ?p s"
    using a(2) d(2) by (auto simp: select_where_def filter_empty_conv)
  have "\<exists>h \<in> set (session_history (db w')). his_session_public_id h = sid \<and> his_user_id h = uid \<and>
      his_refresh_token_hash h = ses_refresh_token_hash s \<and> his_revoke_reason h = ''logout'' \<and> his_revoked_by h = ''user''"
    if s: "s \<in> set (device_sessions (db w))" "?p s" for s
  proof -
    have "s \<in> set ?rs" using s by (simp add: select_where_def)
    then obtain i where i: "i < length ?rs" "?rs ! i = s" by (auto simp: in_set_conv_nth)
    then have "(i, s) \<in> set (zip [0..<length ?rs] ?rs)"
      by (auto simp: in_set_zip intro!: exI [of _ i])
    then have "to_history ''logout'' ''user'' (clock w) (session_history_next (db w) + int i) s \<in> set (session_history (db w'))"
      unfolding fin(2) d(3) by force
    then show ?thesis using s(2) by (intro bexI) (auto simp: to_history_def)
  qed
  then show ?thesis using Inr fin(1) ex by (simp add: Let_def)
qed

theorem LogoutSession_effect_witness:
  "\<exists>w'. LogoutSession 1 ''s1'' sample_world = (Inr (), w') \<and> device_sessions (db w') = []"
proof -
  have "fst (LogoutSession 1 ''s1'' sample_world) = Inr ()"
    by (simp add: LogoutSession_def RevokeSession_def Let_def in_tx_def call_def begin_tx_ok revoke_body_def sql_query_ok
        sql_now_ok archive_sessions_def select_where_def outside_def sql_ok delete_sessions_def commit_tx_ok
        sample_auth_simps)
  then obtain w' where r: "LogoutSession 1 ''s1'' sample_world = (Inr (), w')" by (metis prod.collapse)
  then have "device_sessions (db w') = []"
    using LogoutSession_effect [OF r] by (simp add: Let_def sample_auth_simps)
  with r show ?thesis by blast
qed

lemma tx_neutral_exec_args [tx_rules]: "tx_neutral (exec_args k args f)"
  unfolding exec_args_def by (intro tx_rules)

lemma LogoutAllSessions_fails:
  "\<exists>e w'. LogoutAllSessions uid ex w = (Inl e, w') \<and> db w' = db w \<and> http_code (ErrHTTP e) = 500"
proof -
  have body: "\<exists>e w2. revoke_all_body uid ex ''logout_all'' ''user'' v = (Inl e, w2)" for v
    by (cases ex) (auto simp: revoke_all_body_def Let_def revoke_all_args_def exec_args_def call_def outside_def
        split: option.splits)
  have neutral: "tx_neutral (revoke_all_body uid ex ''logout_all'' ''user'')"
    unfolding revoke_all_body_def Let_def by (intro tx_rules)
  obtain r w' where r: "RevokeAllSessions uid ex ''logout_all'' ''user'' w = (r, w')"
    by (cases "RevokeAllSessions uid ex ''logout_all'' ''user'' w")
  then obtain e where e: "r = Inl e"
    using body [of "after_begin w"] unfolding RevokeAllSessions_def Let_def
    by (cases r) (auto dest!: in_tx_Inr)
  then have "db w' = db w"
    using in_tx_error_unchanged [OF _ neutral] r unfolding RevokeAllSessions_def Let_def by blast
  then show ?thesis
    using r e by (simp add: LogoutAllSessions_def call_def repo_error_def ErrHTTP_def ToHTTPStatus_def)
qed

text \<open>
  Logging out of all sessions never works. The lock statement is executed with the
  argument list of another statement, so \<^verbatim>\<open>database/sql\<close> rejects it for its number of
  arguments, whoever asks, with or without a session to keep: every request is answered
  with status 500 and no session is revoked.
\<close>

theorem LogoutAllSessions_always_fails:
  "\<exists>e w'. LogoutAllSessions uid ex w = (Inl e, w') \<and> db w' = db w \<and> http_code (ErrHTTP e) = 500"
  by (rule LogoutAllSessions_fails)

section \<open>Push tokens\<close>

text \<open>
  Setting the push token a session already has is answered with 404: the affected-row
  count of MySQL counts changed rows, and the code takes zero for a missing session.
\<close>

theorem UpdatePushToken_unchanged_404:
  assumes "fault_free w"
    and "\<forall>s \<in> set (device_sessions (db w)). ses_public_id s = sid \<and> ses_user_id s = uid \<longrightarrow> ses_push_token s = nullable tok"
  shows "\<exists>e w'. UpdatePushToken uid sid tok w = (Inl e, w') \<and> device_sessions (db w') = device_sessions (db w) \<and>
    http_code (ErrHTTP e) = 404"
proof -
  let ?p = "\<lambda>r. ses_public_id r = sid \<and> ses_user_id r = uid" and ?f = "\<lambda>r. r\<lparr>ses_push_token := nullable tok\<rparr>"
  have f: "fault w = (\<lambda>_. None)" using assms(1) by (simp add: fault_free_def)
  have same: "?f s = s" if "s \<in> set (device_sessions (db w))" "?p s" for s
  proof -
    have "nullable tok = ses_push_token s" using assms(2) that by simp
    then show ?thesis by (cases s) simp
  qed
  then have "changed_rows ?p ?f (device_sessions (db w)) = 0" by (simp add: changed_rows_0)
  moreover have "update_where ?p ?f (device_sessions (db w)) = device_sessions (db w)"
    unfolding update_where_def using same by (intro map_idI) auto
  ultimately show ?thesis
    using f by (simp add: UpdatePushToken_def repo_UpdatePushToken_def Let_def call_def sql_ok set_push_token_def
        outside_def repo_error_def ErrHTTP_def ToHTTPStatus_def)
qed

theorem UpdatePushToken_unchanged_404_witness:
  "\<exists>e w'. UpdatePushToken 1 ''s1'' ''push'' sample_world = (Inl e, w') \<and> http_code (ErrHTTP e) = 404"
proof -
  have "\<forall>s \<in> set (device_sessions (db sample_world)). ses_public_id s = ''s1'' \<and> ses_user_id s = 1 \<longrightarrow>
      ses_push_token s = nullable ''push''"
    by (simp add: sample_auth_simps nullable_def)
  then show ?thesis
    using UpdatePushToken_unchanged_404 [of sample_world "''s1''" 1 "''push''"] by (auto simp: fault_free_def)
qed

section \<open>Login without a session\<close>

lemma upsert_bad_platform:
  assumes "fault_free w" "dc_Platform dc \<notin> set platforms"
  shows "\<exists>e. UpsertSession dc uid h x p w = (Inl e, w\<lparr>uuids := Suc (uuids w), calls := Suc (calls w)\<rparr>)"
  using assms
  by (simp add: UpsertSession_def upsert_device_step_def call_def uuid_NewString_def sql_now_ok fault_free_def
      upsert_device_def upsert_failed_def Let_def)

lemma InsertOutbox_ok:
  assumes "fault w = (\<lambda>_. None)" "ParseInt (oe_AggregateID e) \<noteq> None"
    and "\<not> (\<exists>r \<in> set (ob_rows (auth_outbox_events (db w))). oe_EventID r = oe_EventID e)"
  shows "\<exists>t. auth_InsertOutboxEvent e w = (Inr (), w\<lparr>calls := Suc (calls w), db := (db w)\<lparr>auth_outbox_events := t\<rparr>\<rparr>)"
  using assms by (auto simp: auth_InsertOutboxEvent_def call_def sql_ok)

text \<open>
  Login reports success without a session: the error of the session upsert is
  overwritten, so with a platform the database does not know the client gets status 200,
  an empty session id and a refresh token that no session accepts.
\<close>

theorem Login_without_session:
  assumes "fault_free w" "find (\<lambda>u. usr_Email u = lq_Email req) (users (db w)) = Some user"
    and "lq_Email req \<noteq> []" "lq_Password req \<noteq> []"
    and "bcrypt_CompareHashAndPassword E (usr_PasswordHash user) (lq_Password req) = None"
    and "dc_Platform dc \<notin> set platforms"
    and "\<forall>c. \<exists>t. jwt_SignedString (env_jwt E) (JWTSecret E) c = Inr t"
    and "event_New (env_proto E) (PbNewSessionLoggedIn \<lparr>nsl_Id = [], nsl_UserId = usr_ID user\<rparr>) TypeAuthNewSessionLoggedIn = Inr env"
      "proto_Marshal (env_proto E) env = Inr body"
    and "\<forall>r \<in> set (ob_rows (auth_outbox_events (db w))). oe_EventID r \<noteq> uuid_src w (Suc (uuids w))"
    and "int64_range (usr_ID user)"
  shows "\<exists>resp g w'. Login E dc req w = (Inr (resp, g), w') \<and> res_Code resp = 200 \<and>
    lr_SessionID (res_Data resp) = [] \<and> device_sessions (db w') = device_sessions (db w) \<and>
    lr_RefreshToken (res_Data resp) = base64_EncodeToString (rand_src w (Suc (Suc (Suc (calls w)))))"
proof -
  define w1 where "w1 = after_begin (w\<lparr>calls := Suc (calls w)\<rparr>)"
  have f: "fault w1 = (\<lambda>_. None)" "fault_free w1" using assms(1) by (simp_all add: w1_def fault_free_def)
  define w2 where "w2 = w1\<lparr>calls := Suc (calls w1)\<rparr>"
  have g: "generateRefreshToken w1 = (Inr (next_token w1), w2)"
    using generateRefreshToken_eq [OF f(2)] by (simp add: w2_def)
  have "fault_free w2" using f(2) by (simp add: w2_def fault_free_def)
  then have u: "\<exists>e. UpsertSession dc (usr_ID user) h x p w2 = (Inl e, w2\<lparr>uuids := Suc (uuids w2), calls := Suc (calls w2)\<rparr>)" for h x p
    using upsert_bad_platform assms(6) by blast
  define w3 where "w3 = w2\<lparr>uuids := Suc (uuids w2), calls := Suc (calls w2)\<rparr>"
  have f3: "fault w3 = (\<lambda>_. None)" using f(1) by (simp add: w3_def w2_def)
  obtain t where t: "GenerateAccessToken (env_jwt E) (usr_ID user) [] (JWTSecret E) (AccessTokenDuration E) w3 = (Inr t, w3)"
    using assms(7) by (fastforce simp: GenerateAccessToken_def call_def time_Now_def)
  have enc: "encode_event E (PbNewSessionLoggedIn \<lparr>nsl_Id = [], nsl_UserId = usr_ID user\<rparr>) TypeAuthNewSessionLoggedIn w3 = (Inr body, w3)"
    using assms(8,9) by (simp add: encode_event_def)
  define ev where "ev = \<lparr>oe_ID = 0, oe_EventID = uuid_src w3 (uuids w3), oe_EventType = event_Type_string TypeAuthNewSessionLoggedIn,
      oe_Payload = body, oe_AggregateType = ''user'', oe_AggregateID = int_to_string (usr_ID user), oe_Status = [],
      oe_LockedUntil = None, oe_CreatedAt = clock w3, oe_ProcessedAt = None\<rparr>"
  define w4 where "w4 = w3\<lparr>uuids := Suc (uuids w3)\<rparr>"
  have en: "outbox_entry TypeAuthNewSessionLoggedIn body (usr_ID user) w3 = (Inr ev, w4)"
    by (simp add: outbox_entry_def call_def uuid_NewString_def time_Now_def ev_def w4_def)
  have fresh: "\<not> (\<exists>r \<in> set (ob_rows (auth_outbox_events (db w4))). oe_EventID r = oe_EventID ev)"
    using assms(10) by (auto simp: ev_def w4_def w3_def w2_def w1_def)
  have "ParseInt (oe_AggregateID ev) \<noteq> None" "fault w4 = (\<lambda>_. None)"
    using ParseInt_int_to_string [OF assms(11)] f3 by (simp_all add: ev_def w4_def)
  then obtain d where ins: "auth_InsertOutboxEvent ev w4 = (Inr (), w4\<lparr>calls := Suc (calls w4), db := d\<rparr>)"
    "device_sessions d = device_sessions (db w4)"
    using InsertOutbox_ok [OF _ _ fresh] by auto
  obtain e where e: "UpsertSession dc (usr_ID user) (hashRefreshToken E (next_token w1))
      (clock w2 + seconds (RefreshTokenDuration E)) (lq_PushToken req) w2 = (Inl e, w3)"
    using u unfolding w3_def by blast
  have "login_tx E dc req user w1 = (Inr (t, next_token w1, [], [], ev), w4\<lparr>calls := Suc (calls w4), db := d\<rparr>)"
    by (simp add: login_tx_def call_def g time_Now_def e t enc en ins(1))
  then have tx: "run_in_tx (login_tx E dc req user) (w\<lparr>calls := Suc (calls w)\<rparr>) = (Inr (t, next_token w1, [], [], ev),
      w4\<lparr>calls := Suc (Suc (calls w4)), db := d, open_tx := open_tx w4 - 1\<rparr>)"
    using run_in_tx_ok [of "w\<lparr>calls := Suc (calls w)\<rparr>" "login_tx E dc req user" _ "w4\<lparr>calls := Suc (calls w4), db := d\<rparr>"] f3 assms(1)
    by (simp add: w1_def w4_def fault_free_def)
  have v: "\<not> HasValidations (login_validation req)" using assms(3,4) by (simp add: login_validation_def)
  have "GetUserByEmail (lq_Email req) w = (Inr user, w\<lparr>calls := Suc (calls w)\<rparr>)"
    using assms(1,2) by (simp add: GetUserByEmail_def call_def sql_query_ok fault_free_def select_user_def)
  then have "Login E dc req w = (Inr (\<lparr>res_Code = 200,
      res_Data = \<lparr>lr_AccessToken = t, lr_RefreshToken = next_token w1, lr_DeviceID = [], lr_SessionID = [], lr_User = user\<rparr>\<rparr>,
      ProcessSingleEvent auth_outbox (env_ProcessEvent E) (OutboxLockTimeout E) ev),
      w4\<lparr>calls := Suc (Suc (calls w4)), db := d, open_tx := open_tx w4 - 1\<rparr>)"
    using v assms(5) by (simp add: Login_def call_def auth_RunInTx_eq tx)
  then show ?thesis
    using ins(2) by (simp add: next_token_def w4_def w3_def w2_def w1_def)
qed


abbreviation login_codec :: proto_lib where
  "login_codec \<equiv> sample_proto (PbNewSessionLoggedIn \<lparr>nsl_Id = [], nsl_UserId = 1\<rparr>) TypeAuthNewSessionLoggedIn"

theorem Login_without_session_witness:
  "\<exists>resp g w'. Login (sample_env login_codec) (sample_dc ''windows'')
      \<lparr>lq_Email = ''a@b.c'', lq_Password = ''password'', lq_PushToken = None\<rparr> sample_world = (Inr (resp, g), w') \<and>
    res_Code resp = 200 \<and> lr_SessionID (res_Data resp) = []"
proof -
  let ?E = "sample_env login_codec" and ?req = "\<lparr>lq_Email = ''a@b.c'', lq_Password = ''password'', lq_PushToken = None\<rparr>"
  have 1: "fault_free sample_world" "find (\<lambda>u. usr_Email u = lq_Email ?req) (users (db sample_world)) = Some sample_user"
    "lq_Email ?req \<noteq> []" "lq_Password ?req \<noteq> []" "dc_Platform (sample_dc ''windows'') \<notin> set platforms"
    by (simp_all add: fault_free_def sample_auth_simps platforms_def)
  have 2: "bcrypt_CompareHashAndPassword ?E (usr_PasswordHash sample_user) (lq_Password ?req) = None"
    "\<forall>c. \<exists>t. jwt_SignedString (env_jwt ?E) (JWTSecret ?E) c = Inr t"
    by (simp_all add: sample_env_def sample_user_def)
  have 3: "event_New (env_proto ?E) (PbNewSessionLoggedIn \<lparr>nsl_Id = [], nsl_UserId = usr_ID sample_user\<rparr>) TypeAuthNewSessionLoggedIn
      = Inr \<lparr>ev_EventType = event_Type_string TypeAuthNewSessionLoggedIn, ev_Payload = Some sample_any\<rparr>"
    "proto_Marshal (env_proto ?E) \<lparr>ev_EventType = event_Type_string TypeAuthNewSessionLoggedIn, ev_Payload = Some sample_any\<rparr> = Inr ''body''"
    "\<forall>r \<in> set (ob_rows (auth_outbox_events (db sample_world))). oe_EventID r \<noteq> uuid_src sample_world (Suc (uuids sample_world))"
    "int64_range (usr_ID sample_user)"
    by (simp_all add: sample_env_def sample_proto_def event_New_def sample_auth_simps int64_range_def)
  from Login_without_session [OF 1(1-4) 2(1) 1(5) 2(2) 3] show ?thesis by blast
qed

section \<open>Device ids\<close>

lemma upsert_device_known:
  assumes "upsert_device pid dc n d = Inr (u, d')" "\<forall>r \<in> set (devices d). dev_public_id r \<noteq> pid"
    and "\<exists>r \<in> set (devices d). dev_installation_id r = dc_InstallationID dc \<and> dev_platform r = dc_Platform dc"
  shows "pid \<notin> dev_public_id ` set (devices d')"
proof -
  have "\<exists>p f. devices d' = update_where p f (devices d) \<and> (\<forall>r. dev_public_id (f r) = dev_public_id r)"
    using assms unfolding upsert_device_def Let_def
    by (intro exI [of _ "\<lambda>r. dev_installation_id r = dc_InstallationID dc \<and> dev_platform r = dc_Platform dc"] exI
        [of _ "\<lambda>r. r\<lparr>dev_device_name := dc_DeviceName dc, dev_app_version := dc_AppVersion dc, dev_last_seen_at := n\<rparr>"])
       (auto split: if_splits)
  then show ?thesis using assms(2) by (force simp: set_update_where)
qed

lemma devices_frame:
  "keeps_db (\<lambda>d. devices d = ds) (call (sql_query (select_session_of uid did))
      (\<lambda>_. create_session dc uid did h e p pid) (\<lambda>ex. overwrite_session dc h e p pid ex))"
  unfolding create_session_def overwrite_session_def Let_def
  by (intro keep_rules keeps_sql_now;
      auto simp: update_session_def insert_session_def archive_sessions_def Let_def split: if_splits)

text \<open>
  A returning device is told an id that does not exist: when the device row is
  already there, the session upsert (and with it registration and login) returns the UUID it had drawn for a new
  row, and no device carries that id.
\<close>

theorem UpsertSession_unknown_device_id:
  assumes "UpsertSession dc uid h e p w = (Inr (dev, sid), w')"
    and "\<forall>r \<in> set (devices (db w)). dev_public_id r \<noteq> uuid_src w (uuids w)"
    and "\<exists>r \<in> set (devices (db w)). dev_installation_id r = dc_InstallationID dc \<and> dev_platform r = dc_Platform dc"
  shows "dev = uuid_src w (uuids w) \<and> dev \<notin> dev_public_id ` set (devices (db w'))"
proof -
  let ?pid = "uuid_src w (uuids w)"
  obtain did w1 w2 where u: "sql_now (upsert_device ?pid dc) (w\<lparr>uuids := Suc (uuids w)\<rparr>) = (Inr (), w1)"
    and s: "sql_query (select_device (dc_InstallationID dc) (dc_Platform dc)) w1 = (Inr did, w2)"
    and c: "call (sql_query (select_session_of uid did))
      (\<lambda>_. create_session dc uid did h e p ?pid) (\<lambda>ex. overwrite_session dc h e p ?pid ex) w2 = (Inr (dev, sid), w')"
    using assms(1) unfolding UpsertSession_def upsert_device_step_def upsert_failed_def
    by (auto simp: uuid_NewString_def elim!: call_fail_Inr)
  have "upsert_device ?pid dc (clock w) (db w) = Inr ((), db w1)"
    using u by (auto dest!: sql_now_Inr_cases)
  from upsert_device_known [OF this assms(2,3)] have d1: "?pid \<notin> dev_public_id ` set (devices (db w1))" .
  have "devices (db w') = devices (db w2)" using keepsD' [OF devices_frame _ c, of "devices (db w2)"] by simp
  moreover have "db w2 = db w1" using s by (auto dest!: sql_query_Inr_cases)
  moreover have "dev = ?pid"
    using c
  proof (cases rule: call_cases)
    case (err er w3)
    then show ?thesis using create_session_Inr by blast
  next
    case (ok ex w3)
    then have "select_session_of uid did (db w3) = Inr ex" by (auto dest!: sql_query_Inr_cases)
    then obtain r where "r \<in> set (device_sessions (db w3))" "ses_public_id r = ex"
      by (auto simp: select_session_of_def split: option.splits dest: find_SomeD)
    then show ?thesis using overwrite_session_Inr ok(2) by blast
  qed
  ultimately show ?thesis using d1 by simp
qed

theorem UpsertSession_unknown_device_id_witness:
  "\<exists>dev sid w'. UpsertSession (sample_dc ''ios'') 1 ''h'' 9000 None sample_world = (Inr (dev, sid), w') \<and>
     dev \<notin> dev_public_id ` set (devices (db w'))"
proof -
  have d1: "upsert_device (nat_to_string 0) (sample_dc ''ios'') 1000 sample_auth_db =
      Inr ((), sample_auth_db\<lparr>devices := [sample_device\<lparr>dev_last_seen_at := 1000\<rparr>]\<rparr>)"
    by (simp add: upsert_device_def Let_def sample_auth_simps platforms_def nat_to_string.simps digit_char_def)
  have "fst (UpsertSession (sample_dc ''ios'') 1 ''h'' 9000 None sample_world) = Inr (nat_to_string 0, ''s1'')"
    by (simp add: UpsertSession_def upsert_device_step_def call_def uuid_NewString_def sql_now_ok d1 sql_query_ok
        select_device_def)
      (simp add: sample_auth_simps select_session_of_def overwrite_session_def Let_def call_def sql_now_ok
        archive_sessions_def update_session_def)
  then obtain w' where r: "UpsertSession (sample_dc ''ios'') 1 ''h'' 9000 None sample_world = (Inr (nat_to_string 0, ''s1''), w')"
    by (metis prod.collapse)
  have "\<forall>r \<in> set (devices (db sample_world)). dev_public_id r \<noteq> uuid_src sample_world (uuids sample_world)"
    "\<exists>r \<in> set (devices (db sample_world)). dev_installation_id r = dc_InstallationID (sample_dc ''ios'') \<and>
      dev_platform r = dc_Platform (sample_dc ''ios'')"
    by (simp_all add: sample_auth_simps nat_to_string.simps digit_char_def)
  from UpsertSession_unknown_device_id [OF r this] r show ?thesis by blast
qed

section \<open>Listing sessions\<close>

lemma one_device:
  assumes "unique_by dev_id ds" "i \<in> dev_id ` set ds"
  shows "\<exists>v. filter (\<lambda>v. dev_id v = i) ds = [v]"
  using assms
proof (induction ds)
  case (Cons v ds)
  show ?case
  proof (cases "dev_id v = i")
    case True
    then have "filter (\<lambda>v. dev_id v = i) ds = []" using Cons.prems(1) by (auto simp: filter_empty_conv)
    then show ?thesis using True by simp
  next
    case False
    then show ?thesis using Cons by auto
  qed
qed simp

lemma join_ids:
  assumes "unique_by dev_id ds" "\<forall>s \<in> set ss. ses_device_id s \<in> dev_id ` set ds"
  shows "map si_SessionID (concat (map (\<lambda>s. map (session_item s) (filter (\<lambda>v. dev_id v = ses_device_id s) ds)) ss)) =
    map ses_public_id ss"
  using assms(2)
proof (induction ss)
  case (Cons s ss)
  then obtain v where "filter (\<lambda>v. dev_id v = ses_device_id s) ds = [v]"
    using one_device [OF assms(1)] by fastforce
  then show ?case using Cons by (simp add: session_item_def)
qed simp

text \<open>
  The session list holds every session row of the user, most recently used first. Although
  the gRPC method is called \<^verbatim>\<open>GetUserActiveSessions\<close>, expired sessions are in it: the query
  does not look at \<^verbatim>\<open>expires_at\<close>.
\<close>

lemma GetActiveSessions_lists_all:
  assumes "fault_free w" "auth_wf (db w)"
  shows "\<exists>items w'. GetActiveSessions uid w = (Inr items, w') \<and> db w' = db w \<and>
    mset (map si_SessionID items) = mset (map ses_public_id (filter (\<lambda>s. ses_user_id s = uid) (device_sessions (db w)))) \<and>
    sorted (map (\<lambda>s. - si_LastUsedAt s) items)"
proof -
  have "map si_SessionID (join_sessions uid (db w)) =
      map ses_public_id (filter (\<lambda>s. ses_user_id s = uid) (device_sessions (db w)))"
    using join_ids [of "devices (db w)"] assms(2)
    by (simp add: join_sessions_def select_where_def auth_wf_defs)
  then have "mset (map si_SessionID (sort_key (\<lambda>s. - si_LastUsedAt s) (join_sessions uid (db w)))) =
      mset (map ses_public_id (filter (\<lambda>s. ses_user_id s = uid) (device_sessions (db w))))"
    by (metis mset_map mset_sort)
  then show ?thesis
    using assms(1) by (simp add: GetActiveSessions_def GetUserSessions_def call_def sql_query_ok fault_free_def)
qed

end
