(* ===== verification/AuthRegister.thy ===== *)
theory AuthRegister
  imports AuthSessions
begin

text \<open>
  Registration succeeds: the conditions under which every step of \<^verbatim>\<open>Register\<close> goes
  through, when no driver call fails.
\<close>

lemma upsert_device_ok:
  assumes "dc_Platform dc \<in> set platforms" "\<forall>r \<in> set (devices d). dev_public_id r \<noteq> pid"
  shows "\<exists>d'. upsert_device pid dc n d = Inr ((), d') \<and>
    (\<exists>r \<in> set (devices d'). dev_installation_id r = dc_InstallationID dc \<and> dev_platform r = dc_Platform dc) \<and>
    users d' = users d \<and> users_next d' = users_next d \<and> device_sessions d' = device_sessions d \<and>
    auth_outbox_events d' = auth_outbox_events d"
proof (cases "\<exists>r \<in> set (devices d). dev_installation_id r = dc_InstallationID dc \<and> dev_platform r = dc_Platform dc")
  case True
  let ?p = "\<lambda>r. dev_installation_id r = dc_InstallationID dc \<and> dev_platform r = dc_Platform dc"
  let ?f = "\<lambda>r. r\<lparr>dev_device_name := dc_DeviceName dc, dev_app_version := dc_AppVersion dc, dev_last_seen_at := n\<rparr>"
  obtain r where r: "r \<in> set (devices d)" "?p r" using True by blast
  have "?f r \<in> set (update_where ?p ?f (devices d))"
    using r unfolding set_update_where by (intro image_eqI [of _ _ r]) auto
  then have ex: "\<exists>x \<in> set (update_where ?p ?f (devices d)). ?p x" using r(2) by (intro bexI) auto
  have "upsert_device pid dc n d = Inr ((), d\<lparr>devices := update_where ?p ?f (devices d)\<rparr>)"
    using assms True by (auto simp: upsert_device_def Let_def)
  then show ?thesis using ex by simp
next
  case False
  then have "upsert_device pid dc n d = Inr ((), d\<lparr>devices := devices d @
               [\<lparr>dev_id = devices_next d, dev_public_id = pid,
                 dev_installation_id = dc_InstallationID dc, dev_platform = dc_Platform dc,
                 dev_device_name = dc_DeviceName dc, dev_app_version = dc_AppVersion dc,
                 dev_created_at = n, dev_last_seen_at = n\<rparr>],
             devices_next := devices_next d + 1\<rparr>)"
    using assms by (simp only: upsert_device_def Let_def if_False if_True HOL.simp_thms) auto
  then show ?thesis by simp
qed

lemma select_device_ok:
  assumes "\<exists>r \<in> set (devices d). dev_installation_id r = i \<and> dev_platform r = p"
  shows "\<exists>did. select_device i p d = Inr did \<and> did \<in> dev_id ` set (devices d)"
proof -
  have "find (\<lambda>r. dev_installation_id r = i \<and> dev_platform r = p) (devices d) \<noteq> None"
    using assms by (auto simp: find_None_iff)
  then obtain r where r: "find (\<lambda>r. dev_installation_id r = i \<and> dev_platform r = p) (devices d) = Some r" by auto
  have "r \<in> set (devices d)" using find_SomeD [OF r] by simp
  then show ?thesis using r by (simp add: select_device_def)
qed

text \<open>The step of the session upsert for a user without sessions.\<close>

lemma UpsertSession_new_user:
  assumes "fault_free w" "dc_Platform dc \<in> set platforms"
    and "\<forall>r \<in> set (devices (db w)). dev_public_id r \<noteq> uuid_src w (uuids w)"
    and "\<exists>u \<in> set (users (db w)). usr_ID u = uid" "\<forall>s \<in> set (device_sessions (db w)). ses_user_id s \<noteq> uid"
    and "\<forall>s \<in> set (device_sessions (db w)). ses_refresh_token_hash s \<noteq> h"
  shows "\<exists>w'. UpsertSession dc uid h e p w = (Inr (uuid_src w (uuids w), uuid_src w (Suc (uuids w))), w') \<and>
    fault_free w' \<and> clock w' = clock w \<and> uuid_src w' = uuid_src w \<and> uuids w' = Suc (Suc (uuids w)) \<and>
    auth_outbox_events (db w') = auth_outbox_events (db w)"
proof -
  have f: "fault w = (\<lambda>_. None)" using assms(1) by (simp add: fault_free_def)
  obtain d where d: "upsert_device (uuid_src w (uuids w)) dc (clock w) (db w) = Inr ((), d)"
    "\<exists>r \<in> set (devices d). dev_installation_id r = dc_InstallationID dc \<and> dev_platform r = dc_Platform dc"
    "users d = users (db w)" "device_sessions d = device_sessions (db w)" "auth_outbox_events d = auth_outbox_events (db w)"
    using upsert_device_ok [OF assms(2,3)] by blast
  obtain did where did: "select_device (dc_InstallationID dc) (dc_Platform dc) d = Inr did" "did \<in> dev_id ` set (devices d)"
    using select_device_ok [OF d(2)] by blast
  have none: "select_session_of uid did d = Inl ErrNoRows"
    using assms(5) d(4) by (auto simp: select_session_of_def find_None_iff split: option.splits dest: find_SomeD)
  define w1 where "w1 = w\<lparr>uuids := Suc (uuids w), calls := Suc (Suc (calls w)), db := d\<rparr>"
  have step: "upsert_device_step dc w = (Inr (uuid_src w (uuids w), did), w1)"
    using f by (simp add: upsert_device_step_def call_def uuid_NewString_def sql_now_ok d(1) sql_query_ok did(1) w1_def)
  have "\<exists>d'. insert_session sid uid did h dc p' e n d = Inr ((), d') \<and> auth_outbox_events d' = auth_outbox_events d" for sid p' n
    using assms(4-6) d(3,4) did(2) by (auto simp: insert_session_def)
  then obtain d' where d': "insert_session (uuid_src w (Suc (uuids w))) uid did h dc
      (case p of None \<Rightarrow> None | Some p \<Rightarrow> nullable p) e (clock w) d = Inr ((), d')" "auth_outbox_events d' = auth_outbox_events d"
    by blast
  have "UpsertSession dc uid h e p w = (Inr (uuid_src w (uuids w), uuid_src w (Suc (uuids w))),
      w1\<lparr>calls := Suc (Suc (calls w1)), uuids := Suc (uuids w1), db := d'\<rparr>)"
    unfolding UpsertSession_def call_Inr [where m = "upsert_device_step dc", OF step]
    using f by (simp add: call_def sql_query_ok w1_def none create_session_def Let_def uuid_NewString_def sql_now_ok d'(1))
  then show ?thesis
    using f d' d(5) by (simp add: fault_free_def w1_def)
qed

lemma GenerateAccessToken_ok:
  assumes "\<forall>c. \<not> isl (jwt_SignedString J k c)"
  shows "\<exists>t. GenerateAccessToken J a s k n w = (Inr t, w)"
proof -
  have "\<exists>t. jwt_SignedString J k c = Inr t" for c
    using assms by (cases "jwt_SignedString J k c") (auto dest: spec [of _ c])
  then show ?thesis by (simp add: GenerateAccessToken_def call_def time_Now_def)
qed

text \<open>
  The conditions of a successful registration, on the request, the tables and the
  values the world is about to hand out.
\<close>

definition register_ready :: "auth_env \<Rightarrow> DeviceContext \<Rightarrow> RegisterRequest \<Rightarrow> string \<Rightarrow> auth_db world \<Rightarrow> bool" where
  "register_ready E dc req token w \<longleftrightarrow>
     \<not> HasValidations (register_validation E req) \<and> dc_Platform dc \<in> set platforms \<and>
     \<not> isl (bcrypt_GenerateFromPassword E (calls w) (rq_Password req)) \<and>
     (\<forall>u \<in> set (users (db w)). usr_Email u \<noteq> rq_Email req) \<and>
     (\<forall>r \<in> set (devices (db w)). dev_public_id r \<noteq> uuid_src w (uuids w)) \<and>
     (\<forall>s \<in> set (device_sessions (db w)). ses_refresh_token_hash s \<noteq> hashRefreshToken E token) \<and>
     token = base64_EncodeToString (rand_src w (5 + calls w)) \<and>
     (\<forall>r \<in> set (ob_rows (auth_outbox_events (db w))). oe_EventID r \<noteq> uuid_src w (Suc (Suc (uuids w)))) \<and>
     int64_range (users_next (db w)) \<and>
     (\<forall>c. \<not> isl (jwt_SignedString (env_jwt E) (JWTSecret E) c)) \<and>
     (\<exists>envelope body. event_New (env_proto E) (PbRegisterNewUser \<lparr>rnu_Id = users_next (db w), rnu_Email = rq_Email req\<rparr>)
        TypeAuthRegisterNewUser = Inr envelope \<and> proto_Marshal (env_proto E) envelope = Inr body)"

lemma register_tx_ok:
  assumes "fault_free w" "auth_wf (db w)" "dc_Platform dc \<in> set platforms"
    and "\<forall>u \<in> set (users (db w)). usr_Email u \<noteq> rq_Email req"
      "\<forall>r \<in> set (devices (db w)). dev_public_id r \<noteq> uuid_src w (uuids w)"
      "\<forall>s \<in> set (device_sessions (db w)). ses_refresh_token_hash s \<noteq> hashRefreshToken E token"
      "token = base64_EncodeToString (rand_src w (3 + calls w))"
      "\<forall>r \<in> set (ob_rows (auth_outbox_events (db w))). oe_EventID r \<noteq> uuid_src w (Suc (Suc (uuids w)))"
      "int64_range (users_next (db w))" "\<forall>c. \<not> isl (jwt_SignedString (env_jwt E) (JWTSecret E) c)"
      "event_New (env_proto E) (PbRegisterNewUser \<lparr>rnu_Id = users_next (db w), rnu_Email = rq_Email req\<rparr>)
        TypeAuthRegisterNewUser = Inr envelope" "proto_Marshal (env_proto E) envelope = Inr body"
  shows "\<exists>x w'. register_tx E dc req pw w = (Inr x, w') \<and> fault_free w'"
proof -
  have f: "fault w = (\<lambda>_. None)" using assms(1) by (simp add: fault_free_def)
  define d where "d = (db w)\<lparr>users := users (db w) @ [\<lparr>usr_ID = users_next (db w), usr_Email = rq_Email req,
      usr_PasswordHash = pw, usr_CreatedAt = clock w\<rparr>], users_next := users_next (db w) + 1\<rparr>"
  define w1 where "w1 = w\<lparr>calls := Suc (Suc (calls w)), db := d\<rparr>"
  have c: "CreateUserByEmailAndPassword (rq_Email req) pw w = (Inr (users_next (db w)), w1)"
    using f assms(4) by (simp add: CreateUserByEmailAndPassword_def Let_def call_def sql_now_ok insert_user_def outside_def
        w1_def d_def)
  have f1: "fault_free w1" using f by (simp add: w1_def fault_free_def)
  define w2 where "w2 = w1\<lparr>calls := Suc (calls w1)\<rparr>"
  have g: "generateRefreshToken w1 = (Inr token, w2)"
    using generateRefreshToken_eq [OF f1] assms(7) by (simp add: next_token_def w1_def w2_def eval_nat_numeral)
  have "users_ok (db w)" "sessions_ok (db w)" using assms(2) by (simp_all add: auth_wf_def)
  then have new: "\<forall>s \<in> set (device_sessions (db w)). ses_user_id s \<noteq> users_next (db w)"
    by (fastforce simp: users_ok_def sessions_ok_def)
  obtain w3 where u: "UpsertSession dc (users_next (db w)) (hashRefreshToken E token) (clock w2 + seconds (RefreshTokenDuration E))
      (rq_PushToken req) w2 = (Inr (uuid_src w2 (uuids w2), uuid_src w2 (Suc (uuids w2))), w3)" "fault_free w3"
    "clock w3 = clock w2" "uuid_src w3 = uuid_src w2" "uuids w3 = Suc (Suc (uuids w2))"
    "auth_outbox_events (db w3) = auth_outbox_events (db w2)"
    using UpsertSession_new_user [of w2 dc "users_next (db w)" "hashRefreshToken E token"
        "clock w2 + seconds (RefreshTokenDuration E)" "rq_PushToken req"] assms(3,5,6) new f
    by (auto simp: w2_def w1_def d_def fault_free_def)
  let ?sid = "uuid_src w2 (Suc (uuids w2))"
  obtain t where t: "GenerateAccessToken (env_jwt E) (users_next (db w)) ?sid (JWTSecret E) (AccessTokenDuration E) w3 = (Inr t, w3)"
    using GenerateAccessToken_ok [OF assms(10)] by blast
  have en: "encode_event E (PbRegisterNewUser \<lparr>rnu_Id = users_next (db w), rnu_Email = rq_Email req\<rparr>) TypeAuthRegisterNewUser w3 = (Inr body, w3)"
    using assms(11,12) by (simp add: encode_event_def)
  obtain ev w4 where o: "outbox_entry TypeAuthRegisterNewUser body (users_next (db w)) w3 = (Inr ev, w4)"
    and ev: "oe_EventID ev = uuid_src w (Suc (Suc (uuids w)))" "oe_AggregateID ev = int_to_string (users_next (db w))"
      "db w4 = db w3" "fault w4 = fault w3"
    using u(4,5) by (simp add: outbox_entry_def call_def uuid_NewString_def time_Now_def w2_def w1_def)
  have "auth_outbox_events (db w4) = auth_outbox_events (db w)" using ev(3) u(6) by (simp add: w2_def w1_def d_def)
  then have "\<exists>w5. auth_InsertOutboxEvent ev w4 = (Inr (), w5) \<and> fault_free w5"
    using InsertOutbox_ok [of w4 ev] assms(8) ev u(2) ParseInt_int_to_string [OF assms(9)] by (auto simp: fault_free_def)
  then obtain w5 where "auth_InsertOutboxEvent ev w4 = (Inr (), w5)" "fault_free w5" by blast
  then show ?thesis
    by (simp add: register_tx_def call_def c g time_Now_def u(1) t en o)
qed

lemma Register_runs:
  assumes "fault_free w" "auth_wf (db w)" "register_ready E dc req token w"
  shows "\<exists>resp g w'. Register E dc req w = (Inr (resp, g), w') \<and> res_Code resp = 201"
proof -
  obtain h where h: "bcrypt_GenerateFromPassword E (calls w) (rq_Password req) = Inr h"
    using assms(3) by (cases "bcrypt_GenerateFromPassword E (calls w) (rq_Password req)") (auto simp: register_ready_def)
  obtain envelope body where enc: "event_New (env_proto E) (PbRegisterNewUser \<lparr>rnu_Id = users_next (db w), rnu_Email = rq_Email req\<rparr>)
        TypeAuthRegisterNewUser = Inr envelope" "proto_Marshal (env_proto E) envelope = Inr body"
    using assms(3) by (auto simp: register_ready_def)
  let ?w = "w\<lparr>calls := Suc (calls w)\<rparr>"
  obtain x w2 where b: "register_tx E dc req h (after_begin ?w) = (Inr x, w2)" "fault_free w2"
    using register_tx_ok [of "after_begin ?w" dc req E token envelope body h] assms enc
    by (auto simp: register_ready_def fault_free_def eval_nat_numeral)
  have "run_in_tx (register_tx E dc req h) ?w = (Inr x, w2\<lparr>calls := Suc (calls w2), open_tx := open_tx w2 - 1\<rparr>)"
    using run_in_tx_ok [where body = "register_tx E dc req h", OF _ b(1)] b(2) assms(1) by (simp add: fault_free_def)
  then show ?thesis
    using assms(3) h by (cases x) (simp add: Register_def register_ready_def call_def bcrypt_hash_def auth_RunInTx_eq)
qed

text \<open>
  Registration succeeds with status 201 when no call fails, the request is valid,
  the email is not taken, the platform is one the database knows, and the ids and the
  token the service draws are unused.
\<close>

theorem Register_succeeds:
  assumes "fault_free w" "auth_wf (db w)" "register_ready E dc req token w"
  shows "\<exists>resp g w'. Register E dc req w = (Inr (resp, g), w') \<and> res_Code resp = 201"
  using assms by (rule Register_runs)

abbreviation sample_register_req :: RegisterRequest where
  "sample_register_req \<equiv> \<lparr>rq_Email = ''new@b.c'', rq_Password = ''password'', rq_PushToken = None\<rparr>"

lemma nat_to_string_not [simp]: "nat_to_string k \<noteq> ''d1''" "''d1'' \<noteq> nat_to_string k"
proof -
  show "nat_to_string k \<noteq> ''d1''"
  proof
    assume eq: "nat_to_string k = ''d1''"
    from nat_to_string_digits [of k] show False unfolding eq by (simp add: is_digit_def)
  qed
  then show "''d1'' \<noteq> nat_to_string k" by metis
qed

lemma sample_register_ready:
  "register_ready (sample_env register_codec) (sample_dc ''ios'') sample_register_req
     (base64_EncodeToString (nat_to_string 5)) sample_world"
proof -
  have "hashRefreshToken (sample_env register_codec) (base64_EncodeToString (nat_to_string 5)) \<noteq> hex_EncodeToString ''old''"
    (is "?a \<noteq> ?b")
  proof
    assume "?a = ?b"
    then have "length ?a = length ?b" by (rule arg_cong)
    moreover have "length ?a = 8" by (simp add: hashRefreshToken_def sample_env_def nat_to_string.simps)
    moreover have "length ?b = 6" by simp
    ultimately show False by linarith
  qed
  then show ?thesis
    by (simp add: register_ready_def register_validation_def sample_auth_simps platforms_def int64_range_def
        sample_env_def event_New_def sample_proto_def) metis
qed

theorem Register_succeeds_witness:
  "\<exists>resp g w'. Register (sample_env register_codec) (sample_dc ''ios'') sample_register_req sample_world = (Inr (resp, g), w') \<and>
     res_Code resp = 201"
  using Register_succeeds [OF sample_refresh_hyps(1,2) sample_register_ready] .


theorem Register_atomic_witness:
  "\<exists>resp g w'. Register (sample_env register_codec) (sample_dc ''ios'') sample_register_req sample_world = (Inr (resp, g), w') \<and>
     (\<exists>u. users (db w') = [sample_user, u] \<and> usr_ID u = 2 \<and> usr_Email u = ''new@b.c'')"
proof -
  obtain resp g w' where r: "Register (sample_env register_codec) (sample_dc ''ios'') sample_register_req sample_world = (Inr (resp, g), w')"
    using Register_runs [OF sample_refresh_hyps(1,2) sample_register_ready] by blast
  then have "\<exists>u. users (db w') = users sample_auth_db @ [u] \<and> usr_ID u = users_next sample_auth_db \<and> usr_Email u = ''new@b.c''"
    using Register_atomic [OF r] by (auto simp: registered_def)
  then show ?thesis using r by (auto simp: sample_auth_simps)
qed

end
