(* ===== verification/Topology.thy ===== *)
theory Topology
  imports Publisher
begin

text \<open>
  \<^verbatim>\<open>pkg/rabbitmq/topology.go\<close>: the exchanges, queues and bindings a service declares.
  A declaring program runs over the list of declarations the broker has accepted. How
  the broker routes is not part of the repository: it is the argument \<open>amqp_broker\<close>,
  and \<open>routing_ok\<close> states the documented behaviour of exchanges and dead-lettering.
\<close>

section \<open>Declarations\<close>

datatype amqp_decl =
    ExchangeDeclare string string
  | QueueDeclare string "amqp_table option"
  | QueueBind string string string

type_synonym topology_prog = "(amqp_decl list, unit) wprog"

definition amqp_declare :: "amqp_decl \<Rightarrow> topology_prog" where
  "amqp_declare d = sql (\<lambda>ds. Inr ((), ds @ [d]))"

record DirectTopologyConfig =
  dt_EventName :: string
  dt_RetryTTL :: int

record FanoutTopologyConfig =
  ft_EventName :: string
  ft_RetryTTL :: int
  ft_Queues :: "string list"

record TopicBinding =
  tb_Queue :: string
  tb_RoutingKey :: string

record TopicTopologyConfig =
  tt_EventName :: string
  tt_RetryTTL :: int
  tt_Bindings :: "TopicBinding list"

definition milliseconds :: "int \<Rightarrow> int" where
  "milliseconds d = sgn d * (\<bar>d\<bar> div 1000000)"

definition dlx_args :: "string \<Rightarrow> string \<Rightarrow> amqp_table" where
  "dlx_args dlxX dlxKey =
     [(''x-dead-letter-exchange'', AString dlxX), (''x-dead-letter-routing-key'', AString dlxKey)]"

definition declareExchange :: "string \<Rightarrow> string \<Rightarrow> topology_prog" where
  "declareExchange name knd = amqp_declare (ExchangeDeclare name knd)"

definition declareQueueWithDLX :: "string \<Rightarrow> string \<Rightarrow> string \<Rightarrow> topology_prog" where
  "declareQueueWithDLX queue dlxX dlxKey =
     amqp_declare (QueueDeclare queue (Some (dlx_args dlxX dlxKey)))"

definition declareRetryQueue :: "string \<Rightarrow> string \<Rightarrow> string \<Rightarrow> int \<Rightarrow> topology_prog" where
  "declareRetryQueue queue dlxX dlxKey ttl =
     amqp_declare (QueueDeclare queue
       (Some ((''x-message-ttl'', AInt64 (milliseconds ttl)) # dlx_args dlxX dlxKey)))"

definition declareDLQ :: "string \<Rightarrow> topology_prog" where
  "declareDLQ queue = amqp_declare (QueueDeclare queue None)"

definition bind_queue :: "string \<Rightarrow> string \<Rightarrow> string \<Rightarrow> string \<Rightarrow> topology_prog" where
  "bind_queue what queue key exchange =
     call (amqp_declare (QueueBind queue key exchange))
       (\<lambda>err. fail (WrapError (''rabbitmq: '' @ what @ '': '') err)) ret"

fun bind_all :: "(string \<times> string \<times> string) list \<Rightarrow> topology_prog" where
  "bind_all [] = ret ()"
| "bind_all ((queue, key, exchange) # bs) =
     call (bind_queue (''bind '' @ queue) queue key exchange) fail (\<lambda>_. bind_all bs)"

definition DeclareDirect :: "DirectTopologyConfig \<Rightarrow> topology_prog" where
  "DeclareDirect cfg =
     (let n = buildNames (dt_EventName cfg) (dt_EventName cfg) in
      call (declareExchange (mainExchange n) ''direct'') fail (\<lambda>_.
      call (declareExchange (dlxExchange n) ''direct'') fail (\<lambda>_.
      call (declareQueueWithDLX (mainQueue n) (mainExchange n) (retryQueue n)) fail (\<lambda>_.
      call (declareRetryQueue (retryQueue n) (mainExchange n) (mainQueue n) (dt_RetryTTL cfg)) fail (\<lambda>_.
      call (declareDLQ (dlq n)) fail (\<lambda>_.
      bind_all [(mainQueue n, mainQueue n, mainExchange n), (retryQueue n, retryQueue n, mainExchange n),
                (dlq n, dlq n, dlxExchange n)]))))))"

fun fanout_queues :: "FanoutTopologyConfig \<Rightarrow> string list \<Rightarrow> topology_prog" where
  "fanout_queues cfg [] = ret ()"
| "fanout_queues cfg (queueBase # qs) =
     (let n = buildNames (ft_EventName cfg) queueBase;
          fanoutExchange = ft_EventName cfg @ ''.exchange'';
          retryExchange = ft_EventName cfg @ ''.retry.exchange'';
          dlx = ft_EventName cfg @ ''.dlx'' in
      call (declareQueueWithDLX (mainQueue n) retryExchange (retryQueue n)) fail (\<lambda>_.
      call (declareRetryQueue (retryQueue n) retryExchange (mainQueue n) (ft_RetryTTL cfg)) fail (\<lambda>_.
      call (declareDLQ (dlq n)) fail (\<lambda>_.
      call (bind_queue (''bind fanout '' @ mainQueue n) (mainQueue n) [] fanoutExchange) fail (\<lambda>_.
      call (bind_queue (''bind retry '' @ retryQueue n) (retryQueue n) (retryQueue n) retryExchange) fail (\<lambda>_.
      call (bind_queue (''bind dlq '' @ dlq n) (dlq n) (dlq n) dlx) fail (\<lambda>_.
      fanout_queues cfg qs)))))))"

definition DeclareFanout :: "FanoutTopologyConfig \<Rightarrow> topology_prog" where
  "DeclareFanout cfg =
     call (declareExchange (ft_EventName cfg @ ''.exchange'') ''fanout'') fail (\<lambda>_.
     call (declareExchange (ft_EventName cfg @ ''.retry.exchange'') ''direct'') fail (\<lambda>_.
     call (declareExchange (ft_EventName cfg @ ''.dlx'') ''direct'') fail (\<lambda>_.
     fanout_queues cfg (ft_Queues cfg))))"

definition topic_queue :: "TopicTopologyConfig \<Rightarrow> string \<Rightarrow> topology_prog" where
  "topic_queue cfg queue =
     (let n = buildNames (tt_EventName cfg) queue;
          mainX = tt_EventName cfg @ ''.exchange'';
          dlx = tt_EventName cfg @ ''.dlx'' in
      call (declareQueueWithDLX (mainQueue n) mainX (retryQueue n)) fail (\<lambda>_.
      call (declareRetryQueue (retryQueue n) mainX (mainQueue n) (tt_RetryTTL cfg)) fail (\<lambda>_.
      call (declareDLQ (dlq n)) fail (\<lambda>_.
      call (bind_queue (''bind retry '' @ retryQueue n) (retryQueue n) (retryQueue n) mainX) fail (\<lambda>_.
      bind_queue (''bind dlq '' @ dlq n) (dlq n) (dlq n) dlx)))))"

fun topic_bindings :: "TopicTopologyConfig \<Rightarrow> string list \<Rightarrow> TopicBinding list \<Rightarrow> topology_prog" where
  "topic_bindings cfg declaredQueues [] = ret ()"
| "topic_bindings cfg declaredQueues (b # bs) =
     call (if tb_Queue b \<in> set declaredQueues then ret () else topic_queue cfg (tb_Queue b)) fail (\<lambda>_.
     let n = buildNames (tt_EventName cfg) (tb_Queue b) in
     call (bind_queue (''bind topic '' @ tb_RoutingKey b @ ''->'' @ mainQueue n) (mainQueue n) (tb_RoutingKey b)
             (tt_EventName cfg @ ''.exchange'')) fail (\<lambda>_.
     topic_bindings cfg (tb_Queue b # declaredQueues) bs))"

definition DeclareTopic :: "TopicTopologyConfig \<Rightarrow> topology_prog" where
  "DeclareTopic cfg =
     call (declareExchange (tt_EventName cfg @ ''.exchange'') ''topic'') fail (\<lambda>_.
     call (declareExchange (tt_EventName cfg @ ''.dlx'') ''direct'') fail (\<lambda>_.
     topic_bindings cfg [] (tt_Bindings cfg)))"

section \<open>The broker\<close>

fun exchange_kind :: "amqp_decl list \<Rightarrow> string \<Rightarrow> string option" where
  "exchange_kind [] x = None"
| "exchange_kind (ExchangeDeclare y k # ds) x = (if x = y then Some k else exchange_kind ds x)"
| "exchange_kind (_ # ds) x = exchange_kind ds x"

fun queue_args :: "amqp_decl list \<Rightarrow> string \<Rightarrow> amqp_table option" where
  "queue_args [] q = None"
| "queue_args (QueueDeclare q' args # ds) q = (if q = q' then args else queue_args ds q)"
| "queue_args (_ # ds) q = queue_args ds q"

definition no_wildcards :: "string \<Rightarrow> bool" where
  "no_wildcards k \<longleftrightarrow> CHR ''*'' \<notin> set k \<and> CHR ''#'' \<notin> set k"

text \<open>
  \<open>route\<close>: the queues a message published to an exchange under a key reaches.
  \<open>dead_letter\<close>: the queues a message reaches when it is rejected without requeueing from
  a queue, or expires in it. \<open>x_death\<close>: the headers it then carries, given the queue and the reason.
\<close>

record amqp_broker =
  route :: "amqp_decl list \<Rightarrow> string \<Rightarrow> string \<Rightarrow> string set"
  dead_letter :: "amqp_decl list \<Rightarrow> string \<Rightarrow> string set"
  x_death :: "string \<Rightarrow> string \<Rightarrow> amqp_table option \<Rightarrow> amqp_table option"

definition routing_ok :: "amqp_broker \<Rightarrow> bool" where
  "routing_ok B \<longleftrightarrow>
     (\<forall>D x k q. exchange_kind D x = Some ''direct'' \<longrightarrow> (q \<in> route B D x k \<longleftrightarrow> QueueBind q k x \<in> set D)) \<and>
     (\<forall>D x k q. exchange_kind D x = Some ''fanout'' \<longrightarrow> (q \<in> route B D x k \<longleftrightarrow> (\<exists>k'. QueueBind q k' x \<in> set D))) \<and>
     (\<forall>D x k q. exchange_kind D x = Some ''topic'' \<longrightarrow> (\<forall>q' k'. QueueBind q' k' x \<in> set D \<longrightarrow> no_wildcards k') \<longrightarrow>
        (q \<in> route B D x k \<longleftrightarrow> QueueBind q k x \<in> set D)) \<and>
     (\<forall>D q args x k. queue_args D q = Some args \<longrightarrow> map_of args ''x-dead-letter-exchange'' = Some (AString x) \<longrightarrow>
        map_of args ''x-dead-letter-routing-key'' = Some (AString k) \<longrightarrow> dead_letter B D q = route B D x k)"

section \<open>What the declarations amount to\<close>

lemma declare_Inr: "amqp_declare d w = (Inr u, w') \<Longrightarrow> db w' = db w @ [d]"
  by (auto simp: amqp_declare_def sql_def call_def outside_def split: option.splits)

lemma bind_queue_Inr: "bind_queue what q k x w = (Inr u, w') \<Longrightarrow> db w' = db w @ [QueueBind q k x]"
  unfolding bind_queue_def by (auto elim!: call_fail_Inr dest!: declare_Inr)

definition direct_decls :: "string \<Rightarrow> int \<Rightarrow> amqp_decl list" where
  "direct_decls e ttl = (let n = buildNames e e in
     [ExchangeDeclare (mainExchange n) ''direct'', ExchangeDeclare (dlxExchange n) ''direct'',
      QueueDeclare (mainQueue n) (Some (dlx_args (mainExchange n) (retryQueue n))),
      QueueDeclare (retryQueue n) (Some ((''x-message-ttl'', AInt64 (milliseconds ttl)) # dlx_args (mainExchange n) (mainQueue n))),
      QueueDeclare (dlq n) None,
      QueueBind (mainQueue n) (mainQueue n) (mainExchange n), QueueBind (retryQueue n) (retryQueue n) (mainExchange n),
      QueueBind (dlq n) (dlq n) (dlxExchange n)])"

lemmas declare_defs = declareExchange_def declareQueueWithDLX_def declareRetryQueue_def declareDLQ_def

lemma call_fail_plain:
  assumes "call m fail k s = (Inr y, t)"
  obtains x s' where "m s = (Inr x, s')" "k x s' = (Inr y, t)"
  using assms by (cases rule: call_cases) auto

lemma DeclareDirect_Inr:
  assumes "DeclareDirect cfg w = (Inr (), w')"
  shows "db w' = db w @ direct_decls (dt_EventName cfg) (dt_RetryTTL cfg)"
  using assms unfolding DeclareDirect_def Let_def declare_defs
  by (auto elim!: call_fail_plain dest!: declare_Inr bind_queue_Inr simp: direct_decls_def Let_def)

text \<open>The topic topology of one queue under one key.\<close>

definition topic_decls :: "string \<Rightarrow> int \<Rightarrow> string \<Rightarrow> string \<Rightarrow> amqp_decl list" where
  "topic_decls e ttl queue key = (let n = buildNames e queue in
     [ExchangeDeclare (mainExchange n) ''topic'', ExchangeDeclare (dlxExchange n) ''direct'',
      QueueDeclare (mainQueue n) (Some (dlx_args (mainExchange n) (retryQueue n))),
      QueueDeclare (retryQueue n) (Some ((''x-message-ttl'', AInt64 (milliseconds ttl)) # dlx_args (mainExchange n) (mainQueue n))),
      QueueDeclare (dlq n) None,
      QueueBind (retryQueue n) (retryQueue n) (mainExchange n), QueueBind (dlq n) (dlq n) (dlxExchange n),
      QueueBind (mainQueue n) key (mainExchange n)])"

lemma topic_queue_Inr:
  assumes "topic_queue cfg q w = (Inr u, w')"
  shows "db w' = db w @ (let n = buildNames (tt_EventName cfg) q in
     [QueueDeclare (mainQueue n) (Some (dlx_args (mainExchange n) (retryQueue n))),
      QueueDeclare (retryQueue n) (Some ((''x-message-ttl'', AInt64 (milliseconds (tt_RetryTTL cfg))) # dlx_args (mainExchange n) (mainQueue n))),
      QueueDeclare (dlq n) None,
      QueueBind (retryQueue n) (retryQueue n) (mainExchange n), QueueBind (dlq n) (dlq n) (dlxExchange n)])"
  using assms unfolding topic_queue_def Let_def declare_defs
  by (auto elim!: call_fail_plain dest!: declare_Inr bind_queue_Inr simp: buildNames_def)

lemma DeclareTopic_Inr:
  assumes "DeclareTopic cfg w = (Inr (), w')" "tt_Bindings cfg = [b]"
  shows "db w' = db w @ topic_decls (tt_EventName cfg) (tt_RetryTTL cfg) (tb_Queue b) (tb_RoutingKey b)"
  using assms(1) unfolding DeclareTopic_def declare_defs assms(2) topic_bindings.simps Let_def
  by (auto elim!: call_fail_plain dest!: declare_Inr topic_queue_Inr bind_queue_Inr
      simp: topic_decls_def buildNames_def Let_def)

section \<open>Where messages go\<close>

lemma direct_routes:
  fixes e :: string and ttl :: int
  assumes "routing_ok B"
  defines "n \<equiv> buildNames e e" and "D \<equiv> direct_decls e ttl"
  shows "route B D (mainExchange n) (mainQueue n) = {mainQueue n}"
    "route B D (dlxExchange n) (dlq n) = {dlq n}"
    "dead_letter B D (mainQueue n) = {retryQueue n}"
    "dead_letter B D (retryQueue n) = {mainQueue n}"
proof -
  have kinds: "exchange_kind D (mainExchange n) = Some ''direct''" "exchange_kind D (dlxExchange n) = Some ''direct''"
    by (simp_all add: D_def n_def direct_decls_def Let_def)
  have direct: "route B D x k = {q. QueueBind q k x \<in> set D}" if "exchange_kind D x = Some ''direct''" for x k
    using assms(1) that unfolding routing_ok_def by blast
  have r: "route B D (mainExchange n) (mainQueue n) = {mainQueue n}"
    "route B D (mainExchange n) (retryQueue n) = {retryQueue n}"
    unfolding direct [OF kinds(1)] by (auto simp: D_def n_def direct_decls_def Let_def buildNames_def)
  show "route B D (mainExchange n) (mainQueue n) = {mainQueue n}" by (rule r(1))
  show "route B D (dlxExchange n) (dlq n) = {dlq n}"
    unfolding direct [OF kinds(2)] by (auto simp: D_def n_def direct_decls_def Let_def buildNames_def)
  have args: "queue_args D (mainQueue n) = Some (dlx_args (mainExchange n) (retryQueue n))"
    "queue_args D (retryQueue n) = Some ((''x-message-ttl'', AInt64 (milliseconds ttl)) # dlx_args (mainExchange n) (mainQueue n))"
    by (simp_all add: D_def n_def direct_decls_def Let_def buildNames_def)
  have dead: "dead_letter B D q = route B D x k"
    if "queue_args D q = Some args" "map_of args ''x-dead-letter-exchange'' = Some (AString x)"
      "map_of args ''x-dead-letter-routing-key'' = Some (AString k)" for q args x k
    using assms(1) that unfolding routing_ok_def by blast
  show "dead_letter B D (mainQueue n) = {retryQueue n}"
    using dead [OF args(1)] r(2) by (simp add: dlx_args_def)
  show "dead_letter B D (retryQueue n) = {mainQueue n}"
    using dead [OF args(2)] r(1) by (simp add: dlx_args_def)
qed

lemma topic_routes:
  fixes e :: string and ttl :: int
  assumes "routing_ok B" "no_wildcards key" "no_wildcards queue" "key \<noteq> queue @ ''.retry.queue''"
  defines "n \<equiv> buildNames e queue" and "D \<equiv> topic_decls e ttl queue key"
  shows "route B D (mainExchange n) key = {mainQueue n}"
    "dead_letter B D (mainQueue n) = {retryQueue n}"
    "key \<noteq> queue @ ''.queue'' \<Longrightarrow> dead_letter B D (retryQueue n) = {}"
proof -
  have kind: "exchange_kind D (mainExchange n) = Some ''topic''"
    by (simp add: D_def n_def topic_decls_def Let_def)
  have keys: "no_wildcards k" if "QueueBind q k (mainExchange n) \<in> set D" for q k
    using that assms(2,3) by (auto simp: D_def n_def topic_decls_def Let_def buildNames_def no_wildcards_def)
  have topic: "route B D (mainExchange n) k = {q. QueueBind q k (mainExchange n) \<in> set D}" for k
    using assms(1) kind keys unfolding routing_ok_def by blast
  show "route B D (mainExchange n) key = {mainQueue n}"
    unfolding topic using assms(4) by (auto simp: D_def n_def topic_decls_def Let_def buildNames_def)
  have args: "queue_args D (mainQueue n) = Some (dlx_args (mainExchange n) (retryQueue n))"
    "queue_args D (retryQueue n) = Some ((''x-message-ttl'', AInt64 (milliseconds ttl)) # dlx_args (mainExchange n) (mainQueue n))"
    by (simp_all add: D_def n_def topic_decls_def Let_def buildNames_def)
  have dead: "dead_letter B D q = route B D x k"
    if "queue_args D q = Some args" "map_of args ''x-dead-letter-exchange'' = Some (AString x)"
      "map_of args ''x-dead-letter-routing-key'' = Some (AString k)" for q args x k
    using assms(1) that unfolding routing_ok_def by blast
  have r: "route B D (mainExchange n) (retryQueue n) = {retryQueue n}"
    unfolding topic using assms(4) by (auto simp: D_def n_def topic_decls_def Let_def buildNames_def)
  show "dead_letter B D (mainQueue n) = {retryQueue n}"
    using dead [OF args(1)] r by (simp add: dlx_args_def)
  assume "key \<noteq> queue @ ''.queue''"
  then have "route B D (mainExchange n) (mainQueue n) = {}"
    unfolding topic by (auto simp: D_def n_def topic_decls_def Let_def buildNames_def)
  then show "dead_letter B D (retryQueue n) = {}"
    using dead [OF args(2)] by (simp add: dlx_args_def)
qed

text \<open>A broker that behaves as documented, for concrete instances.\<close>

definition sample_route :: "amqp_decl list \<Rightarrow> string \<Rightarrow> string \<Rightarrow> string set" where
  "sample_route D x k = (if exchange_kind D x = Some ''fanout'' then {q. \<exists>k'. QueueBind q k' x \<in> set D}
     else {q. QueueBind q k x \<in> set D})"

definition sample_dead_letter :: "amqp_decl list \<Rightarrow> string \<Rightarrow> string set" where
  "sample_dead_letter D q = (case queue_args D q of None \<Rightarrow> {} | Some args \<Rightarrow>
     (case (map_of args ''x-dead-letter-exchange'', map_of args ''x-dead-letter-routing-key'') of
        (Some (AString x), Some (AString k)) \<Rightarrow> sample_route D x k
      | _ \<Rightarrow> {}))"

lemma sample_routing_ok: "route B = sample_route \<Longrightarrow> dead_letter B = sample_dead_letter \<Longrightarrow> routing_ok B"
  by (simp add: routing_ok_def sample_route_def sample_dead_letter_def)

end
