(* ===== verification/Subscriber.thy ===== *)
theory Subscriber
  imports Topology
begin

text \<open>
  Consuming side of \<^verbatim>\<open>pkg/rabbitmq\<close> (\<^verbatim>\<open>worker.go\<close>, \<^verbatim>\<open>subscriber.go\<close> and
  \<^verbatim>\<open>extractRejectedCount\<close> of \<^verbatim>\<open>helpers.go\<close>): what happens to one delivery, and the life
  of a message between the queues of a topology as a step relation. Content type,
  delivery mode and the handler's timeout are left out, and so are the two callbacks of the
  configuration, which only write a log line in all three services.
\<close>

section \<open>The death count\<close>

fun scan_deaths :: "string \<Rightarrow> amqp_value list \<Rightarrow> int" where
  "scan_deaths queueName [] = 0"
| "scan_deaths queueName (item # items) =
     (case item of
        ATable entry \<Rightarrow>
          if map_of entry ''queue'' \<noteq> Some (AString queueName) then scan_deaths queueName items
          else if map_of entry ''reason'' \<noteq> Some (AString ''rejected'') then scan_deaths queueName items
          else (case map_of entry ''count'' of
                  None \<Rightarrow> 0
                | Some (AInt64 v) \<Rightarrow> v
                | Some (AInt32 v) \<Rightarrow> v
                | Some _ \<Rightarrow> 0)
      | _ \<Rightarrow> scan_deaths queueName items)"

definition extractRejectedCount :: "amqp_table option \<Rightarrow> string \<Rightarrow> int" where
  "extractRejectedCount headers queueName =
     (case headers of None \<Rightarrow> 0
      | Some h \<Rightarrow> (case map_of h ''x-death'' of Some (AArray items) \<Rightarrow> scan_deaths queueName items | _ \<Rightarrow> 0))"

section \<open>Configuration\<close>

record SubscriberConfig =
  sc_MaxRetry :: int
  sc_Workers :: int
  sc_PrefetchCount :: int
  sc_HandlerTimeout :: int

record workerConfig =
  maxRetry :: int
  workers :: int
  prefetchCount :: int
  handlerTimeout :: int

definition toWorkerConfig :: "SubscriberConfig \<Rightarrow> workerConfig" where
  "toWorkerConfig c = \<lparr>maxRetry = sc_MaxRetry c, workers = sc_Workers c,
     prefetchCount = sc_PrefetchCount c, handlerTimeout = sc_HandlerTimeout c\<rparr>"

section \<open>One delivery\<close>

record Delivery =
  del_MessageId :: string
  del_Body :: string
  del_Headers :: "amqp_table option"
  del_Timestamp :: int

datatype handler_result = HandlerNil | HandlerError go_error | HandlerPanic

type_synonym 'd handler = "Message \<Rightarrow> 'd world \<Rightarrow> handler_result \<times> 'd world"

datatype settlement = Ack | Nack bool

definition broker_Message :: "Delivery \<Rightarrow> Message" where
  "broker_Message msg = \<lparr>msg_ID = del_MessageId msg, msg_Body = del_Body msg,
     msg_Headers = del_Headers msg, msg_Timestamp = del_Timestamp msg\<rparr>"

definition dlq_publication :: "queueNames \<Rightarrow> Delivery \<Rightarrow> publication" where
  "dlq_publication n msg = \<lparr>pub_exchange = dlxExchange n, pub_key = dlq n, pub_body = del_Body msg,
     pub_message_id = del_MessageId msg, pub_timestamp = del_Timestamp msg, pub_headers = del_Headers msg\<rparr>"

definition publish_to_dlq :: "queueNames \<Rightarrow> Delivery \<Rightarrow> ('d, unit) wprog" where
  "publish_to_dlq n msg = call outside fail (\<lambda>_ w. (Inr (), w\<lparr>sent := sent w @ [dlq_publication n msg]\<rparr>))"

definition processMessage ::
  "workerConfig \<Rightarrow> queueNames \<Rightarrow> 'd handler \<Rightarrow> Delivery \<Rightarrow> 'd world \<Rightarrow> settlement \<times> 'd world" where
  "processMessage cfg n handler msg w =
     (case handler (broker_Message msg) w of
        (HandlerPanic, w1) \<Rightarrow> (Nack True, w1)
      | (HandlerNil, w1) \<Rightarrow> (Ack, w1)
      | (HandlerError err, w1) \<Rightarrow>
          if maxRetry cfg \<le> extractRejectedCount (del_Headers msg) (mainQueue n)
          then (case publish_to_dlq n msg w1 of
                  (Inl pubErr, w2) \<Rightarrow> (Nack True, w2)
                | (Inr _, w2) \<Rightarrow> (Ack, w2))
          else (Nack False, w1))"

text \<open>A handler of this development as one for a worker.\<close>

definition as_handler :: "(Message \<Rightarrow> ('d, unit) wprog) \<Rightarrow> 'd handler" where
  "as_handler h m w = (case h m w of (Inl e, w') \<Rightarrow> (HandlerError e, w') | (Inr _, w') \<Rightarrow> (HandlerNil, w'))"

section \<open>Workers and subscribers\<close>

record consumerGroup =
  cg_queue :: string
  cg_tag :: string
  cg_workers :: int
  cg_prefetch :: int
  cg_timeout :: int

record baseSubscriber =
  bs_closed :: bool
  bs_consumers :: "consumerGroup list"
  bs_cfg :: workerConfig

definition startWorkers :: "queueNames \<Rightarrow> workerConfig \<Rightarrow> ('d, consumerGroup) wprog" where
  "startWorkers n cfg =
     (let wk = (if workers cfg \<le> 0 then 1 else workers cfg);
          timeout = (if handlerTimeout cfg \<le> 0 then 30 * 1000000000 else handlerTimeout cfg);
          prefetch = (if prefetchCount cfg \<le> 0 then 10 else prefetchCount cfg);
          close_channel = (\<lambda>err. call outside (\<lambda>_. fail err) (\<lambda>_. fail err)) in
      call conn_channel (\<lambda>err. fail (WrapError (''rabbitmq: open consume channel for '' @ mainQueue n @ '': '') err)) (\<lambda>_.
      call outside (\<lambda>err. close_channel (WrapError (''rabbitmq: set qos for '' @ mainQueue n @ '': '') err)) (\<lambda>_.
      call uuid_NewString fail (\<lambda>tag.
      call outside (\<lambda>err. close_channel (WrapError (''rabbitmq: consume '' @ mainQueue n @ '': '') err)) (\<lambda>_.
      ret \<lparr>cg_queue = mainQueue n, cg_tag = tag, cg_workers = wk, cg_prefetch = prefetch, cg_timeout = timeout\<rparr>)))))"

definition newBaseSubscriber :: "SubscriberConfig \<Rightarrow> ('d, baseSubscriber) wprog" where
  "newBaseSubscriber cfg =
     call conn_channel (\<lambda>err. fail (WrapError ''rabbitmq: open publish channel for dlq: '' err)) (\<lambda>_.
     ret \<lparr>bs_closed = False, bs_consumers = [], bs_cfg = toWorkerConfig cfg\<rparr>)"

definition subscribe :: "queueNames \<Rightarrow> baseSubscriber \<Rightarrow> ('d, baseSubscriber) wprog" where
  "subscribe n s =
     (if bs_closed s then fail ErrClosed
      else call (startWorkers n (bs_cfg s)) fail (\<lambda>cg.
           ret (s\<lparr>bs_consumers := bs_consumers s @ [cg]\<rparr>)))"

definition consumer_close :: "consumerGroup \<Rightarrow> ('d, unit) wprog" where
  "consumer_close cg =
     (let closing = (\<lambda>first. call outside
            (\<lambda>err. fail (case first of Some e \<Rightarrow> e
                          | None \<Rightarrow> WrapError (''rabbitmq: close consumer channel '' @ cg_tag cg @ '': '') err))
            (\<lambda>_. case first of Some e \<Rightarrow> fail e | None \<Rightarrow> ret ()))
      in call outside
           (\<lambda>err. closing (Some (WrapError (''rabbitmq: cancel consumer '' @ cg_tag cg @ '': '') err)))
           (\<lambda>_. closing None))"

fun close_consumers :: "consumerGroup list \<Rightarrow> go_error list \<Rightarrow> ('d, go_error list) wprog" where
  "close_consumers [] errs = ret errs"
| "close_consumers (c # cs) errs =
     call (consumer_close c) (\<lambda>err. close_consumers cs (errs @ [err])) (\<lambda>_. close_consumers cs errs)"

text \<open>
  \<^verbatim>\<open>close\<close> marks the subscriber closed whatever follows; the returned error only says that
  there were errors, here with the list itself.
\<close>

definition base_subscriber_close :: "baseSubscriber \<Rightarrow> ('d world \<Rightarrow> go_error list \<times> 'd world) \<times> baseSubscriber" where
  "base_subscriber_close s =
     ((\<lambda>w. if bs_closed s then ([], w)
           else (case close_consumers (bs_consumers s) [] w of
                   (Inl err, w1) \<Rightarrow> ([err], w1)
                 | (Inr errs, w1) \<Rightarrow>
                     (case outside w1 of
                        (Inl err, w2) \<Rightarrow> (errs @ [WrapError ''rabbitmq: close dlq publish channel: '' err], w2)
                      | (Inr _, w2) \<Rightarrow> (errs, w2)))),
      s\<lparr>bs_closed := True\<rparr>)"

definition DirectSubscriber_Subscribe :: "string \<Rightarrow> baseSubscriber \<Rightarrow> ('d, baseSubscriber) wprog" where
  "DirectSubscriber_Subscribe ev s = subscribe (buildNames ev ev) s"

definition FanoutSubscriber_Subscribe :: "string \<Rightarrow> string \<Rightarrow> baseSubscriber \<Rightarrow> ('d, baseSubscriber) wprog" where
  "FanoutSubscriber_Subscribe ev queueBase s =
     subscribe ((buildNames ev queueBase)\<lparr>mainExchange := ev @ ''.retry.exchange''\<rparr>) s"

definition TopicSubscriber_Subscribe :: "string \<Rightarrow> string \<Rightarrow> baseSubscriber \<Rightarrow> ('d, baseSubscriber) wprog" where
  "TopicSubscriber_Subscribe ev queueBase s = subscribe (buildNames ev queueBase) s"

section \<open>The life of a message\<close>

text \<open>
  A message lies in a queue with its headers, has been settled for good, or has been
  dropped because its dead-letter exchange led nowhere. The main queue is consumed; in the
  retry queue it waits for its time to live. The number counts handler invocations.
\<close>

datatype place = InQueue string "amqp_table option" | Settled | Dropped

inductive life_step ::
  "amqp_broker \<Rightarrow> amqp_decl list \<Rightarrow> workerConfig \<Rightarrow> queueNames \<Rightarrow> 'd handler \<Rightarrow> Delivery \<Rightarrow>
   place \<times> nat \<times> 'd world \<Rightarrow> place \<times> nat \<times> 'd world \<Rightarrow> bool"
  for B D cfg n handler msg where
  acked: "processMessage cfg n handler (msg\<lparr>del_Headers := h\<rparr>) w = (Ack, w') \<Longrightarrow>
    life_step B D cfg n handler msg (InQueue (mainQueue n) h, k, w) (Settled, Suc k, w')"
| requeued: "processMessage cfg n handler (msg\<lparr>del_Headers := h\<rparr>) w = (Nack True, w') \<Longrightarrow>
    life_step B D cfg n handler msg (InQueue (mainQueue n) h, k, w) (InQueue (mainQueue n) h, Suc k, w')"
| rejected: "processMessage cfg n handler (msg\<lparr>del_Headers := h\<rparr>) w = (Nack False, w') \<Longrightarrow>
    q \<in> dead_letter B D (mainQueue n) \<Longrightarrow>
    life_step B D cfg n handler msg (InQueue (mainQueue n) h, k, w)
      (InQueue q (x_death B (mainQueue n) ''rejected'' h), Suc k, w')"
| reject_lost: "processMessage cfg n handler (msg\<lparr>del_Headers := h\<rparr>) w = (Nack False, w') \<Longrightarrow>
    dead_letter B D (mainQueue n) = {} \<Longrightarrow>
    life_step B D cfg n handler msg (InQueue (mainQueue n) h, k, w) (Dropped, Suc k, w')"
| expired: "q \<in> dead_letter B D (retryQueue n) \<Longrightarrow>
    life_step B D cfg n handler msg (InQueue (retryQueue n) h, k, w)
      (InQueue q (x_death B (retryQueue n) ''expired'' h), k, w)"
| expire_lost: "dead_letter B D (retryQueue n) = {} \<Longrightarrow>
    life_step B D cfg n handler msg (InQueue (retryQueue n) h, k, w) (Dropped, k, w)"

inductive_cases life_stepE: "life_step B D cfg n handler msg s t"

abbreviation life ::
  "amqp_broker \<Rightarrow> amqp_decl list \<Rightarrow> workerConfig \<Rightarrow> queueNames \<Rightarrow> 'd handler \<Rightarrow> Delivery \<Rightarrow>
   place \<times> nat \<times> 'd world \<Rightarrow> place \<times> nat \<times> 'd world \<Rightarrow> bool" where
  "life B D cfg n handler msg \<equiv> (life_step B D cfg n handler msg)\<^sup>*\<^sup>*"

section \<open>Death headers\<close>

text \<open>
  The documented form of \<^verbatim>\<open>x-death\<close>: an array with one table per pair of queue and
  reason, whose count is the number of times the message was dead-lettered there.
\<close>

definition death_entry :: "amqp_value \<Rightarrow> string \<times> string \<Rightarrow> nat \<Rightarrow> bool" where
  "death_entry v k c \<longleftrightarrow> (\<exists>t. v = ATable t \<and> map_of t ''queue'' = Some (AString (fst k)) \<and>
     map_of t ''reason'' = Some (AString (snd k)) \<and> map_of t ''count'' = Some (AInt64 (int c)))"

definition deaths :: "amqp_table option \<Rightarrow> (string \<times> string \<Rightarrow> nat) \<Rightarrow> bool" where
  "deaths headers c \<longleftrightarrow>
     (case headers of None \<Rightarrow> c = (\<lambda>_. 0)
      | Some h \<Rightarrow> (case map_of h ''x-death'' of
            None \<Rightarrow> c = (\<lambda>_. 0)
          | Some (AArray es) \<Rightarrow> (\<exists>ks. distinct ks \<and> list_all2 (\<lambda>v k. death_entry v k (c k)) es ks \<and> (\<forall>k. k \<notin> set ks \<longrightarrow> c k = 0))
          | Some _ \<Rightarrow> False))"

definition x_death_ok :: "amqp_broker \<Rightarrow> bool" where
  "x_death_ok B \<longleftrightarrow> (\<forall>h c q r. deaths h c \<longrightarrow> deaths (x_death B q r h) (c((q, r) := Suc (c (q, r)))))"

lemma scan_deaths_count:
  assumes "list_all2 (\<lambda>v k. death_entry v k (c k)) es ks" "(q, ''rejected'') \<notin> set ks \<Longrightarrow> c (q, ''rejected'') = 0"
  shows "scan_deaths q es = int (c (q, ''rejected''))"
  using assms
proof (induction es ks rule: list_all2_induct)
  case (Cons v vs k ks)
  then obtain t where t: "v = ATable t" "map_of t ''queue'' = Some (AString (fst k))"
    "map_of t ''reason'' = Some (AString (snd k))" "map_of t ''count'' = Some (AInt64 (int (c k)))"
    by (auto simp: death_entry_def)
  show ?case
  proof (cases "k = (q, ''rejected'')")
    case True
    then show ?thesis using t by simp
  next
    case False
    then show ?thesis using t Cons by (cases k) auto
  qed
qed simp

lemma extractRejectedCount_deaths:
  "deaths h c \<Longrightarrow> extractRejectedCount h q = int (c (q, ''rejected''))"
  by (auto simp: deaths_def extractRejectedCount_def scan_deaths_count
      split: option.splits amqp_value.splits)

end
