(* ===== verification/Retry.thy ===== *)
theory Retry
  imports Subscriber
begin

text \<open>
  What the topologies and \<^verbatim>\<open>processMessage\<close> give together for a message whose handler
  fails: on a direct topology a bounded number of attempts and then the dead-letter queue,
  on a topic topology one attempt and the loss of the message.
\<close>

definition always_fails :: "'d handler \<Rightarrow> bool" where
  "always_fails handler \<longleftrightarrow>
     (\<forall>m w. fault_free w \<longrightarrow> (\<exists>e w'. handler m w = (HandlerError e, w') \<and> fault_free w'))"

text \<open>One attempt: rejected while the count is below the limit, parked at the limit.\<close>

lemma processMessage_fails:
  assumes "always_fails handler" "fault_free w" "deaths (del_Headers msg) c"
  obtains w' where "fault_free w'"
    and "processMessage cfg n handler msg w =
      (if int (c (mainQueue n, ''rejected'')) < maxRetry cfg then (Nack False, w')
       else (Ack, w'\<lparr>calls := Suc (calls w'), sent := sent w' @ [dlq_publication n msg]\<rparr>))"
proof -
  obtain e w' where h: "handler (broker_Message msg) w = (HandlerError e, w')" "fault_free w'"
    using assms(1,2) unfolding always_fails_def by blast
  from h(2) have p: "publish_to_dlq n msg w' = (Inr (), w'\<lparr>calls := Suc (calls w'), sent := sent w' @ [dlq_publication n msg]\<rparr>)"
    by (simp add: publish_to_dlq_def call_def outside_def fault_free_def)
  show ?thesis
    using that [OF h(2)] h(1) p by (simp add: processMessage_def extractRejectedCount_deaths [OF assms(3)] not_le)
qed

definition in_retry :: "int \<Rightarrow> queueNames \<Rightarrow> Delivery \<Rightarrow> place \<times> nat \<times> 'd world \<Rightarrow> bool" where
  "in_retry m n msg s \<longleftrightarrow>
     (case s of (p, k, w) \<Rightarrow> fault_free w \<and>
        (case p of
           InQueue q h \<Rightarrow> (q = mainQueue n \<or> q = retryQueue n) \<and> int k \<le> m \<and>
             (\<exists>c. deaths h c \<and> c (mainQueue n, ''rejected'') = k)
         | Settled \<Rightarrow> int k = m + 1 \<and> (\<exists>h. last (sent w) = dlq_publication n (msg\<lparr>del_Headers := h\<rparr>))
         | Dropped \<Rightarrow> False))"

lemma in_retry_step:
  assumes "life_step B D cfg n handler msg s t" "in_retry (maxRetry cfg) n msg s"
    and "always_fails handler" "x_death_ok B" "mainQueue n \<noteq> retryQueue n"
    and "dead_letter B D (mainQueue n) = {retryQueue n}" "dead_letter B D (retryQueue n) = {mainQueue n}"
  shows "in_retry (maxRetry cfg) n msg t"
proof -
  obtain h q k w c where s: "s = (InQueue q h, k, w)" "fault_free w" "int k \<le> maxRetry cfg"
    and c: "deaths h c" "c (mainQueue n, ''rejected'') = k"
    using assms(1,2) by (elim life_stepE) (auto simp: in_retry_def)
  obtain w1 where w1: "fault_free w1" and p: "processMessage cfg n handler (msg\<lparr>del_Headers := h\<rparr>) w =
      (if int k < maxRetry cfg then (Nack False, w1)
       else (Ack, w1\<lparr>calls := Suc (calls w1), sent := sent w1 @ [dlq_publication n (msg\<lparr>del_Headers := h\<rparr>)]\<rparr>))"
    using processMessage_fails [OF assms(3) s(2), of "msg\<lparr>del_Headers := h\<rparr>" c cfg n] c by auto
  have d: "deaths (x_death B (mainQueue n) ''rejected'' h) (c((mainQueue n, ''rejected'') := Suc k))"
    "deaths (x_death B (retryQueue n) ''expired'' h) (c((retryQueue n, ''expired'') := Suc (c (retryQueue n, ''expired''))))"
    using assms(4) c unfolding x_death_ok_def by metis+
  have "in_retry (maxRetry cfg) n msg (InQueue (retryQueue n) (x_death B (mainQueue n) ''rejected'' h), Suc k, w1)"
    if "int k < maxRetry cfg"
    unfolding in_retry_def using d(1) w1 that by (intro case_prodI) (auto intro!: exI [of _ "c((mainQueue n, ''rejected'') := Suc k)"])
  moreover have "in_retry (maxRetry cfg) n msg (InQueue (mainQueue n) (x_death B (retryQueue n) ''expired'' h), k, w)"
    unfolding in_retry_def using d(2) s(2,3) c(2)
    by (auto intro!: exI [of _ "c((retryQueue n, ''expired'') := Suc (c (retryQueue n, ''expired'')))"])
  moreover have "in_retry (maxRetry cfg) n msg (Settled, Suc k,
      w1\<lparr>calls := Suc (calls w1), sent := sent w1 @ [dlq_publication n (msg\<lparr>del_Headers := h\<rparr>)]\<rparr>)"
    if "\<not> int k < maxRetry cfg"
    unfolding in_retry_def using w1 that s(3) by (auto simp: fault_free_def)
  ultimately show ?thesis
    using assms(1) unfolding s(1)
    by (elim life_stepE) (simp_all add: p assms(6,7) split: if_splits)
qed


lemma in_retry_life:
  assumes "life B D cfg n handler msg s t" "in_retry (maxRetry cfg) n msg s"
    and "always_fails handler" "x_death_ok B" "mainQueue n \<noteq> retryQueue n"
    and "dead_letter B D (mainQueue n) = {retryQueue n}" "dead_letter B D (retryQueue n) = {mainQueue n}"
  shows "in_retry (maxRetry cfg) n msg t"
  using assms(1,2) by (induction rule: rtranclp_induct) (auto intro: in_retry_step [OF _ _ assms(3-7)])

text \<open>The attempts end: induction on the number of attempts left.\<close>

lemma life_settles:
  assumes "always_fails handler" "x_death_ok B"
    and "dead_letter B D (mainQueue n) = {retryQueue n}" "dead_letter B D (retryQueue n) = {mainQueue n}"
    and "mainQueue n \<noteq> retryQueue n" "fault_free w" "deaths h c" "c (mainQueue n, ''rejected'') = k" "maxRetry cfg = int (k + left)"
  shows "\<exists>w'. life B D cfg n handler msg (InQueue (mainQueue n) h, k, w) (Settled, k + left + 1, w')"
  using assms(6-9)
proof (induction left arbitrary: h c k w)
  case 0
  obtain w1 where "processMessage cfg n handler (msg\<lparr>del_Headers := h\<rparr>) w = (Ack, w1)"
    using processMessage_fails [OF assms(1) 0(1), of "msg\<lparr>del_Headers := h\<rparr>" c cfg n] 0 by auto
  then show ?case using life_step.acked by (metis Nat.add_0_right Suc_eq_plus1 r_into_rtranclp)
next
  case (Suc left)
  let ?h1 = "x_death B (mainQueue n) ''rejected'' h" let ?h2 = "x_death B (retryQueue n) ''expired'' ?h1"
  let ?c1 = "c((mainQueue n, ''rejected'') := Suc k)"
  let ?c2 = "?c1((retryQueue n, ''expired'') := Suc (?c1 (retryQueue n, ''expired'')))"
  obtain w1 where w1: "fault_free w1" and p: "processMessage cfg n handler (msg\<lparr>del_Headers := h\<rparr>) w = (Nack False, w1)"
    using processMessage_fails [OF assms(1) Suc.prems(1), of "msg\<lparr>del_Headers := h\<rparr>" c cfg n] Suc.prems by auto
  have "deaths ?h1 ?c1" using assms(2) Suc.prems(2,3) unfolding x_death_ok_def by metis
  then have d: "deaths ?h2 ?c2" using assms(2) unfolding x_death_ok_def by blast
  have 1: "life_step B D cfg n handler msg (InQueue (mainQueue n) h, k, w) (InQueue (retryQueue n) ?h1, Suc k, w1)"
    using life_step.rejected [OF p] assms(3) by blast
  have 2: "life_step B D cfg n handler msg (InQueue (retryQueue n) ?h1, Suc k, w1) (InQueue (mainQueue n) ?h2, Suc k, w1)"
    using life_step.expired assms(4) by blast
  obtain w' where "life B D cfg n handler msg (InQueue (mainQueue n) ?h2, Suc k, w1) (Settled, Suc k + left + 1, w')"
    using Suc.IH [OF w1 d, of "Suc k"] Suc.prems(4) assms(5) by auto
  then have "life B D cfg n handler msg (InQueue (mainQueue n) h, k, w) (Settled, Suc k + left + 1, w')"
    using 1 2 by (meson converse_rtranclp_into_rtranclp)
  then show ?case by auto
qed

text \<open>
  C31. Retries are bounded and end in the dead-letter queue. On the queues a successful
  \<^verbatim>\<open>DeclareDirect\<close> leaves behind, a message whose handler keeps failing is handed to the
  handler exactly \<^verbatim>\<open>MaxRetry + 1\<close> times, never more often, is never dropped, and is
  finally published with its id and body to the dead-letter exchange, from which it
  reaches the dead-letter queue.
\<close>

theorem direct_retry_bound:
  fixes handler :: "'d handler"
  assumes "routing_ok B" "x_death_ok B" "DeclareDirect tcfg w0 = (Inr (), wD)" "db w0 = []"
    and "0 \<le> maxRetry cfg" "always_fails handler" "fault_free w" "n = buildNames (dt_EventName tcfg) (dt_EventName tcfg)"
  shows "(\<forall>p k w'. life B (db wD) cfg n handler msg (InQueue (mainQueue n) None, 0, w) (p, k, w') \<longrightarrow>
        int k \<le> maxRetry cfg + 1 \<and> p \<noteq> Dropped) \<and>
    (\<exists>w' h. life B (db wD) cfg n handler msg (InQueue (mainQueue n) None, 0, w) (Settled, nat (maxRetry cfg) + 1, w') \<and>
        last (sent w') = dlq_publication n (msg\<lparr>del_Headers := h\<rparr>)) \<and>
    route B (db wD) (dlxExchange n) (dlq n) = {dlq n}"
proof -
  have D: "db wD = direct_decls (dt_EventName tcfg) (dt_RetryTTL tcfg)"
    using DeclareDirect_Inr [OF assms(3)] assms(4) by simp
  note r = direct_routes [OF assms(1), of "dt_EventName tcfg" "dt_RetryTTL tcfg", folded assms(8) D]
  have ne: "mainQueue n \<noteq> retryQueue n" by (simp add: assms(8) buildNames_def)
  let ?s = "(InQueue (mainQueue n) None, 0, w) :: place \<times> nat \<times> 'd world"
  have start: "in_retry (maxRetry cfg) n msg ?s" "deaths None (\<lambda>_. 0)"
    using assms(5,7) by (simp_all add: in_retry_def deaths_def)
  note inv = in_retry_life [OF _ start(1) assms(6,2) ne r(3,4)]
  obtain w' where w': "life B (db wD) cfg n handler msg ?s (Settled, nat (maxRetry cfg) + 1, w')"
    using life_settles [OF assms(6,2) r(3,4) ne assms(7) start(2), of 0 cfg "nat (maxRetry cfg)"] assms(5) by auto
  have "\<exists>h. last (sent w') = dlq_publication n (msg\<lparr>del_Headers := h\<rparr>)"
    using inv [OF w'] by (simp add: in_retry_def)
  moreover have "int k \<le> maxRetry cfg + 1 \<and> p \<noteq> Dropped"
    if "life B (db wD) cfg n handler msg ?s (p, k, w'')" for p k w''
    using inv [OF that] by (cases p) (auto simp: in_retry_def)
  ultimately show ?thesis using w' r(2) by blast
qed

section \<open>Topic topologies\<close>

definition in_topic :: "queueNames \<Rightarrow> place \<times> nat \<times> 'd world \<Rightarrow> bool" where
  "in_topic n s \<longleftrightarrow> (case s of (p, k, w) \<Rightarrow>
     (case p of
        InQueue q h \<Rightarrow> q = mainQueue n \<and> k = 0 \<and> h = None \<and> fault_free w \<or> q = retryQueue n \<and> k = 1
      | Settled \<Rightarrow> False
      | Dropped \<Rightarrow> k = 1))"

lemma in_topic_step:
  assumes "life_step B D cfg n handler msg s t" "in_topic n s" "always_fails handler" "0 < maxRetry cfg"
    and "mainQueue n \<noteq> retryQueue n" "dead_letter B D (mainQueue n) = {retryQueue n}" "dead_letter B D (retryQueue n) = {}"
  shows "in_topic n t"
proof -
  have reject: "\<exists>w1. processMessage cfg n handler (msg\<lparr>del_Headers := None\<rparr>) w = (Nack False, w1)" if "fault_free w" for w
    using processMessage_fails [OF assms(3) that, of "msg\<lparr>del_Headers := None\<rparr>" "\<lambda>_. 0" cfg n] assms(4)
    by (auto simp: deaths_def)
  show ?thesis
    using assms(1,2,5) by (elim life_stepE) (use reject in \<open>fastforce simp: in_topic_def assms(6,7)\<close>)+
qed

text \<open>
  C38. On a topic topology nothing is retried. The retry queue that \<^verbatim>\<open>DeclareTopic\<close>
  declares sends expired messages back to the topic exchange under the name of the main
  queue, but the main queue is bound only under its routing key: a message whose handler
  fails is handed to it once, waits in the retry queue and is then dropped, without ever
  reaching the dead-letter queue.
\<close>

theorem topic_retry_lost:
  fixes handler :: "'d handler"
  assumes "routing_ok B" "DeclareTopic tcfg w0 = (Inr (), wD)" "db w0 = []"
    and "tt_Bindings tcfg = [\<lparr>tb_Queue = queue, tb_RoutingKey = key\<rparr>]" "no_wildcards queue" "no_wildcards key"
    and "key \<noteq> queue @ ''.queue''" "key \<noteq> queue @ ''.retry.queue''"
    and "0 < maxRetry cfg" "always_fails handler" "fault_free w" "n = buildNames (tt_EventName tcfg) queue"
  shows "(\<forall>p k w'. life B (db wD) cfg n handler msg (InQueue (mainQueue n) None, 0, w) (p, k, w') \<longrightarrow> k \<le> 1 \<and> p \<noteq> Settled) \<and>
    (\<exists>w'. life B (db wD) cfg n handler msg (InQueue (mainQueue n) None, 0, w) (Dropped, 1, w'))"
proof -
  have D: "db wD = topic_decls (tt_EventName tcfg) (tt_RetryTTL tcfg) queue key"
    using DeclareTopic_Inr [OF assms(2,4)] assms(3) by simp
  note r = topic_routes [OF assms(1,6,5,8), of "tt_EventName tcfg" "tt_RetryTTL tcfg", folded assms(12) D]
  have ne: "mainQueue n \<noteq> retryQueue n" by (simp add: assms(12) buildNames_def)
  let ?s = "(InQueue (mainQueue n) None, 0, w) :: place \<times> nat \<times> 'd world"
  have inv: "in_topic n t" if "life B (db wD) cfg n handler msg ?s t" for t
    using that
  proof (induction rule: rtranclp_induct)
    case base
    then show ?case by (simp add: in_topic_def assms(11))
  next
    case (step t u)
    then show ?case using in_topic_step [OF _ _ assms(10,9) ne r(2) r(3) [OF assms(7)]] by blast
  qed
  obtain w1 where "processMessage cfg n handler (msg\<lparr>del_Headers := None\<rparr>) w = (Nack False, w1)"
    using processMessage_fails [OF assms(10,11), of "msg\<lparr>del_Headers := None\<rparr>" "\<lambda>_. 0" cfg n] assms(9)
    by (auto simp: deaths_def)
  then have 1: "life_step B (db wD) cfg n handler msg ?s
      (InQueue (retryQueue n) (x_death B (mainQueue n) ''rejected'' None), Suc 0, w1)"
    using life_step.rejected r(2) by blast
  have 2: "life_step B (db wD) cfg n handler msg
      (InQueue (retryQueue n) (x_death B (mainQueue n) ''rejected'' None), Suc 0, w1) (Dropped, Suc 0, w1)"
    using life_step.expire_lost r(3) [OF assms(7)] by blast
  have "life B (db wD) cfg n handler msg ?s (Dropped, 1, w1)"
    using 1 2 unfolding One_nat_def by (rule converse_rtranclp_into_rtranclp [OF _ r_into_rtranclp])
  moreover have "k \<le> 1 \<and> p \<noteq> Settled" if "life B (db wD) cfg n handler msg ?s (p, k, w')" for p k w'
    using inv [OF that] by (cases p) (auto simp: in_topic_def)
  ultimately show ?thesis by blast
qed


section \<open>Instances\<close>

text \<open>A broker that counts deaths as documented.\<close>

fun bump :: "string \<Rightarrow> string \<Rightarrow> amqp_value list \<Rightarrow> amqp_value list" where
  "bump q r [] = [ATable [(''queue'', AString q), (''reason'', AString r), (''count'', AInt64 1)]]"
| "bump q r (ATable t # vs) =
     (if map_of t ''queue'' = Some (AString q) \<and> map_of t ''reason'' = Some (AString r)
      then ATable ((''count'', AInt64 (case map_of t ''count'' of Some (AInt64 c) \<Rightarrow> c + 1 | _ \<Rightarrow> 1)) # t) # vs
      else ATable t # bump q r vs)"
| "bump q r (v # vs) = v # bump q r vs"

definition sample_x_death :: "string \<Rightarrow> string \<Rightarrow> amqp_table option \<Rightarrow> amqp_table option" where
  "sample_x_death q r headers = (case headers of
      None \<Rightarrow> Some [(''x-death'', AArray (bump q r []))]
    | Some h \<Rightarrow> Some ((''x-death'', AArray (bump q r (case map_of h ''x-death'' of Some (AArray es) \<Rightarrow> es | _ \<Rightarrow> []))) # h))"

definition sample_broker :: amqp_broker where
  "sample_broker = \<lparr>route = sample_route, dead_letter = sample_dead_letter, x_death = sample_x_death\<rparr>"

lemma sample_broker_routes: "routing_ok sample_broker"
  by (rule sample_routing_ok) (simp_all add: sample_broker_def)

lemma bump_other:
  assumes "list_all2 (\<lambda>v k. death_entry v k (c k)) es ks" "x \<notin> set ks"
  shows "list_all2 (\<lambda>v k. death_entry v k ((c(x := m)) k)) es ks"
  using assms by (induction es ks rule: list_all2_induct) auto

lemma bump_counts:
  assumes "list_all2 (\<lambda>v k. death_entry v k (c k)) es ks" "distinct ks" "(q, r) \<notin> set ks \<Longrightarrow> c (q, r) = 0"
  shows "list_all2 (\<lambda>v k. death_entry v k ((c((q, r) := Suc (c (q, r)))) k)) (bump q r es)
     (if (q, r) \<in> set ks then ks else ks @ [(q, r)])"
  using assms
proof (induction es ks rule: list_all2_induct)
  case Nil
  then show ?case by (simp add: death_entry_def)
next
  case (Cons v vs k ks)
  then obtain t where t: "v = ATable t" "map_of t ''queue'' = Some (AString (fst k))"
    "map_of t ''reason'' = Some (AString (snd k))" "map_of t ''count'' = Some (AInt64 (int (c k)))"
    by (auto simp: death_entry_def)
  show ?case
  proof (cases "k = (q, r)")
    case True
    then have "list_all2 (\<lambda>v k. death_entry v k ((c((q, r) := Suc (c (q, r)))) k)) vs ks"
      using Cons by (intro bump_other) auto
    then show ?thesis using True t by (simp add: death_entry_def)
  next
    case False
    then have "death_entry v k ((c((q, r) := Suc (c (q, r)))) k)" using Cons.hyps by simp
    moreover have "bump q r (v # vs) = v # bump q r vs" using False t by (cases k) simp
    ultimately show ?thesis using False Cons by (auto simp del: fun_upd_apply)
  qed
qed

lemma deaths_cons:
  assumes "list_all2 (\<lambda>v k. death_entry v k (c k)) es ks" "distinct ks" "\<forall>k. k \<notin> set ks \<longrightarrow> c k = 0"
  shows "deaths (Some ((''x-death'', AArray es) # h)) c"
  using assms by (auto simp: deaths_def)

lemma deaths_bump:
  assumes "list_all2 (\<lambda>v k. death_entry v k (c k)) es ks" "distinct ks" "\<forall>k. k \<notin> set ks \<longrightarrow> c k = 0"
  shows "deaths (Some ((''x-death'', AArray (bump q r es)) # h)) (c((q, r) := Suc (c (q, r))))"
proof -
  let ?ks = "if (q, r) \<in> set ks then ks else ks @ [(q, r)]"
  have "list_all2 (\<lambda>v k. death_entry v k ((c((q, r) := Suc (c (q, r)))) k)) (bump q r es) ?ks"
    using assms by (intro bump_counts) auto
  moreover have "distinct ?ks" "\<forall>k. k \<notin> set ?ks \<longrightarrow> (c((q, r) := Suc (c (q, r)))) k = 0"
    using assms(2,3) by auto
  ultimately show ?thesis by (rule deaths_cons)
qed

lemma sample_broker_deaths: "x_death_ok sample_broker"
proof -
  have "deaths (sample_x_death q r h) (c((q, r) := Suc (c (q, r))))" if "deaths h c" for h c q r
  proof (cases "\<exists>h' es. h = Some h' \<and> map_of h' ''x-death'' = Some (AArray es)")
    case True
    then obtain h' es where h: "h = Some h'" "map_of h' ''x-death'' = Some (AArray es)" by blast
    with that obtain ks where "distinct ks" "list_all2 (\<lambda>v k. death_entry v k (c k)) es ks" "\<forall>k. k \<notin> set ks \<longrightarrow> c k = 0"
      by (auto simp: deaths_def)
    then show ?thesis using h deaths_bump [of c es ks] by (simp add: sample_x_death_def)
  next
    case False
    then have "c = (\<lambda>_. 0)" "\<exists>h'. sample_x_death q r h = Some ((''x-death'', AArray (bump q r [])) # h')"
      using that by (auto simp: deaths_def sample_x_death_def split: option.splits amqp_value.splits)
    then show ?thesis using deaths_bump [of "\<lambda>_. 0" "[]" "[]"] by auto
  qed
  then show ?thesis by (simp add: x_death_ok_def sample_broker_def)
qed

abbreviation empty_broker :: "amqp_decl list world" where
  "empty_broker \<equiv> quiet_world []"

abbreviation failing_handler :: "unit handler" where
  "failing_handler \<equiv> \<lambda>m w. (HandlerError (ErrorString ''failed''), w)"

abbreviation sample_delivery :: Delivery where
  "sample_delivery \<equiv> \<lparr>del_MessageId = ''m1'', del_Body = ''body'', del_Headers = None, del_Timestamp = 0\<rparr>"

abbreviation retry_twice :: workerConfig where
  "retry_twice \<equiv> \<lparr>maxRetry = 2, workers = 1, prefetchCount = 1, handlerTimeout = 1\<rparr>"

lemma failing_handler_fails: "always_fails failing_handler"
  by (simp add: always_fails_def)

lemma declare_ok: "fault w = (\<lambda>_. None) \<Longrightarrow> amqp_declare d w = (Inr (), w\<lparr>calls := Suc (calls w), db := db w @ [d]\<rparr>)"
  by (simp add: amqp_declare_def sql_def call_def outside_def)

theorem direct_retry_bound_witness:
  "\<exists>wD w' h. DeclareDirect \<lparr>dt_EventName = ''notification'', dt_RetryTTL = 1000000\<rparr> empty_broker = (Inr (), wD) \<and>
     life sample_broker (db wD) retry_twice (buildNames ''notification'' ''notification'') failing_handler sample_delivery
       (InQueue ''notification.queue'' None, 0, quiet_world ()) (Settled, 3, w') \<and>
     last (sent w') = dlq_publication (buildNames ''notification'' ''notification'') (sample_delivery\<lparr>del_Headers := h\<rparr>)"
proof -
  let ?cfg = "\<lparr>dt_EventName = ''notification'', dt_RetryTTL = 1000000\<rparr>"
  obtain wD where D: "DeclareDirect ?cfg empty_broker = (Inr (), wD)"
    by (simp add: DeclareDirect_def declare_defs bind_queue_def call_def Let_def declare_ok quiet_world_def)
  have f: "fault_free (quiet_world ())" "db empty_broker = []" "0 \<le> maxRetry retry_twice"
    by (simp_all add: quiet_world_def fault_free_def)
  have n: "mainQueue (buildNames ''notification'' ''notification'') = ''notification.queue''" by (simp add: buildNames_def)
  show ?thesis
    using direct_retry_bound [OF sample_broker_routes sample_broker_deaths D f(2,3) failing_handler_fails f(1) refl,
        of sample_delivery] D n by auto
qed

theorem topic_retry_lost_witness:
  "\<exists>wD w'. DeclareTopic \<lparr>tt_EventName = ''user'', tt_RetryTTL = 1000000,
        tt_Bindings = [\<lparr>tb_Queue = ''wallet-service'', tb_RoutingKey = ''user.created''\<rparr>]\<rparr> empty_broker = (Inr (), wD) \<and>
     life sample_broker (db wD) retry_twice (buildNames ''user'' ''wallet-service'') failing_handler sample_delivery
       (InQueue ''wallet-service.queue'' None, 0, quiet_world ()) (Dropped, 1, w')"
proof -
  let ?cfg = "\<lparr>tt_EventName = ''user'', tt_RetryTTL = 1000000,
        tt_Bindings = [\<lparr>tb_Queue = ''wallet-service'', tb_RoutingKey = ''user.created''\<rparr>]\<rparr>"
  obtain wD where D: "DeclareTopic ?cfg empty_broker = (Inr (), wD)"
    by (simp add: DeclareTopic_def topic_queue_def declare_defs bind_queue_def call_def Let_def declare_ok quiet_world_def)
  have f: "fault_free (quiet_world ())" "db empty_broker = []" "0 < maxRetry retry_twice"
    "no_wildcards ''wallet-service''" "no_wildcards ''user.created''"
    by (simp_all add: quiet_world_def fault_free_def no_wildcards_def)
  have n: "mainQueue (buildNames ''user'' ''wallet-service'') = ''wallet-service.queue''"
    "tt_EventName ?cfg = ''user''" by (simp_all add: buildNames_def)
  show ?thesis
    using topic_retry_lost [OF sample_broker_routes D f(2) _ f(4,5) _ _ f(3) failing_handler_fails f(1) refl,
        of sample_delivery] D n by auto
qed

end
