(* ===== verification/Http.thy ===== *)
theory Http
  imports AccessToken
begin

text \<open>
  \<^verbatim>\<open>pkg/middleware\<close> over the web framework's request context. Gin is outside the
  repository; of its context the code uses request headers, the key store, the
  request's own context and the response. A middleware either answers the request and
  aborts the chain or passes a changed context on. Tracing, metrics, request
  logging and panic recovery (\<^verbatim>\<open>gin.go\<close>) are in \<open>Gin\<close>.
\<close>

section \<open>Requests and answers\<close>

record http_request =
  hr_header :: "string \<Rightarrow> string"
  hr_body :: string
  hr_client_ip :: string
  hr_path :: string
  hr_query :: "string \<Rightarrow> string"
  hr_param :: "string \<Rightarrow> string"

datatype contextKey = CorrelationID | IPAddress | UserAgent | Path

text \<open>
  The keys the middlewares set, one field each, with the type of the value stored. The
  values attached to the request's context are those of \<^verbatim>\<open>DeviceContextMiddleware\<close>.
  \<open>gc_fallback\<close> is the engine's option \<^verbatim>\<open>ContextWithFallback\<close>.
\<close>

record gin_context =
  gc_request :: http_request
  gc_account_id :: "int option"
  gc_session_id :: "string option"
  gc_installation_id :: "string option"
  gc_platform :: "string option"
  gc_app_version :: "string option"
  gc_device_name :: "string option"
  gc_request_context :: "contextKey \<Rightarrow> string option"
  gc_response_header :: "(string \<times> string) list"
  gc_fallback :: bool

definition new_context :: "bool \<Rightarrow> http_request \<Rightarrow> gin_context" where
  "new_context fallback req = \<lparr>gc_request = req, gc_account_id = None, gc_session_id = None,
     gc_installation_id = None, gc_platform = None, gc_app_version = None, gc_device_name = None,
     gc_request_context = (\<lambda>_. None), gc_response_header = [], gc_fallback = fallback\<rparr>"

abbreviation GetHeader :: "gin_context \<Rightarrow> string \<Rightarrow> string" where
  "GetHeader c \<equiv> hr_header (gc_request c)"

text \<open>
  \<^verbatim>\<open>Context.Value\<close> of the framework, for a key that is not a plain string: the request's
  context is consulted only when the fallback option is on.
\<close>

definition gin_Value :: "gin_context \<Rightarrow> contextKey \<Rightarrow> string option" where
  "gin_Value c k = (if gc_fallback c then gc_request_context c k else None)"

datatype 'a body =
    NoBody
  | MessageBody string
  | ErrorBody string
  | RichBody ErrHTTPResponse
  | DataBody 'a

type_synonym 'a http_response = "nat \<times> 'a body"

type_synonym ('a, 'd) middleware = "gin_context \<Rightarrow> ('a http_response, 'd world, gin_context) prog"

section \<open>Middlewares\<close>

definition unauthorized :: "'a http_response" where
  "unauthorized = (401, MessageBody ''unauthorized'')"

definition AuthMiddleware :: "jwt_lib \<Rightarrow> string \<Rightarrow> ('a, 'd) middleware" where
  "AuthMiddleware J jwtSecret c =
     (let authHeader = GetHeader c ''Authorization'' in
      if authHeader = [] then fail unauthorized
      else
      let parts = split_on CHR '' '' authHeader in
      if length parts \<noteq> 2 \<or> parts ! 0 \<noteq> ''Bearer'' then fail unauthorized
      else (\<lambda>w.
        case VerifyAccessToken J (clock w) (parts ! 1) jwtSecret of
          Inl err \<Rightarrow> (Inl unauthorized, w)
        | Inr tokenClaims \<Rightarrow>
            (Inr (c\<lparr>gc_account_id := Some (cl_AccountID tokenClaims),
                    gc_session_id := Some (cl_SessionID tokenClaims)\<rparr>), w)))"

definition GetUserId :: "gin_context \<Rightarrow> int" where
  "GetUserId c = (case gc_account_id c of None \<Rightarrow> 0 | Some accountId \<Rightarrow> accountId)"

definition GetSessionId :: "gin_context \<Rightarrow> string" where
  "GetSessionId c = (case gc_session_id c of None \<Rightarrow> [] | Some sessionId \<Rightarrow> sessionId)"

definition DeviceContextMiddleware :: "('a, 'd) middleware" where
  "DeviceContextMiddleware c =
     call uuid_NewString (\<lambda>e. fail (500, NoBody)) (\<lambda>correlationID.
     ret (c\<lparr>gc_request_context := (gc_request_context c)
              (UserAgent \<mapsto> GetHeader c ''User-Agent'', IPAddress \<mapsto> hr_client_ip (gc_request c),
               Path \<mapsto> hr_path (gc_request c), CorrelationID \<mapsto> correlationID),
            gc_response_header := gc_response_header c @ [(''X-Request-ID'', correlationID)]\<rparr>))"

definition GetCorrelationID :: "(contextKey \<Rightarrow> string option) \<Rightarrow> string" where
  "GetCorrelationID ctx = (case ctx CorrelationID of Some v \<Rightarrow> v | None \<Rightarrow> [])"

definition GetIPAddress :: "(contextKey \<Rightarrow> string option) \<Rightarrow> string" where
  "GetIPAddress ctx = (case ctx IPAddress of Some v \<Rightarrow> v | None \<Rightarrow> [])"

definition GetUserAgent :: "(contextKey \<Rightarrow> string option) \<Rightarrow> string" where
  "GetUserAgent ctx = (case ctx UserAgent of Some v \<Rightarrow> v | None \<Rightarrow> [])"

definition GetPath :: "(contextKey \<Rightarrow> string option) \<Rightarrow> string" where
  "GetPath ctx = (case ctx Path of Some v \<Rightarrow> v | None \<Rightarrow> [])"

text \<open>The trace and span ids, when the request is traced, come from the tracing library.\<close>

definition getLoggerArguments :: "(string \<times> string) option \<Rightarrow> (contextKey \<Rightarrow> string option) \<Rightarrow> (string \<times> string) list" where
  "getLoggerArguments span ctx =
     [(''request_id'', GetCorrelationID ctx), (''ip_address'', GetIPAddress ctx), (''path'', GetPath ctx)] @
     (case span of None \<Rightarrow> [] | Some (traceID, spanID) \<Rightarrow> [(''trace_id'', traceID), (''span_id'', spanID)])"

definition IdentityMiddleware :: "('a, 'd) middleware" where
  "IdentityMiddleware c =
     (let installationID = GetHeader c ''X-Installation-Id'' in
      if installationID = [] then fail (400, ErrorBody ''missing installation id'')
      else if length installationID < 10 then fail (400, ErrorBody ''invalid installation id'')
      else ret (c\<lparr>gc_installation_id := Some installationID\<rparr>))"

definition GetIdentity :: "gin_context \<Rightarrow> string" where
  "GetIdentity c = (case gc_installation_id c of None \<Rightarrow> [] | Some installationId \<Rightarrow> installationId)"

definition PlatformMiddleware :: "('a, 'd) middleware" where
  "PlatformMiddleware c =
     (let platform = GetHeader c ''X-Platform'' in
      if platform = [] then fail (400, ErrorBody ''missing platform id'')
      else ret (c\<lparr>gc_platform := Some platform\<rparr>))"

definition GetPlatform :: "gin_context \<Rightarrow> string" where
  "GetPlatform c = (case gc_platform c of None \<Rightarrow> [] | Some platform \<Rightarrow> platform)"

definition AppVersionMiddleware :: "('a, 'd) middleware" where
  "AppVersionMiddleware c =
     (let appVersion = GetHeader c ''X-App-Version'' in
      if appVersion = [] then fail (400, ErrorBody ''missing app version'')
      else ret (c\<lparr>gc_app_version := Some appVersion\<rparr>))"

definition GetAppVersion :: "gin_context \<Rightarrow> string" where
  "GetAppVersion c = (case gc_app_version c of None \<Rightarrow> [] | Some appVersion \<Rightarrow> appVersion)"

definition DeviceNameMiddleware :: "('a, 'd) middleware" where
  "DeviceNameMiddleware c =
     (let deviceName = GetHeader c ''X-Device-Name'' in
      if deviceName = [] then fail (400, ErrorBody ''missing device name'')
      else ret (c\<lparr>gc_device_name := Some deviceName\<rparr>))"

definition GetDeviceName :: "gin_context \<Rightarrow> string" where
  "GetDeviceName c = (case gc_device_name c of None \<Rightarrow> [] | Some deviceName \<Rightarrow> deviceName)"

section \<open>Chains\<close>

fun run_chain :: "('a, 'd) middleware list \<Rightarrow> ('a, 'd) middleware" where
  "run_chain [] c = ret c"
| "run_chain (m # ms) c = call (m c) fail (run_chain ms)"

definition device_chain :: "('a, 'd) middleware list" where
  "device_chain = [IdentityMiddleware, DeviceContextMiddleware, PlatformMiddleware, AppVersionMiddleware,
     DeviceNameMiddleware]"

section \<open>Facts\<close>

text \<open>The shape of an accepted header, and what an accepted token leaves in the context.\<close>

lemma bearer_parts:
  assumes "\<not> (length (split_on CHR '' '' h) \<noteq> 2 \<or> split_on CHR '' '' h ! 0 \<noteq> ''Bearer'')"
  obtains t where "split_on CHR '' '' h = [''Bearer'', t]" "h = ''Bearer '' @ t"
proof -
  from assms obtain t where t: "split_on CHR '' '' h = [''Bearer'', t]"
    by (cases "split_on CHR '' '' h") (auto simp: length_Suc_conv)
  moreover have "h = ''Bearer '' @ t" using split_on_join [OF t] by simp
  ultimately show ?thesis by (rule that)
qed

lemma split_bearer: "CHR '' '' \<notin> set t \<Longrightarrow> split_on CHR '' '' (''Bearer '' @ t) = [''Bearer'', t]"
  using split_on_append [of "CHR '' ''" "''Bearer''" t] by (simp add: split_on_notin)

lemma AuthMiddleware_Inr:
  assumes "AuthMiddleware J s c w = (Inr c', w')"
  obtains t cl where "GetHeader c ''Authorization'' = ''Bearer '' @ t" "VerifyAccessToken J (clock w) t s = Inr cl" "w' = w"
    "c' = c\<lparr>gc_account_id := Some (cl_AccountID cl), gc_session_id := Some (cl_SessionID cl)\<rparr>"
proof -
  let ?h = "GetHeader c ''Authorization''"
  have "\<not> (length (split_on CHR '' '' ?h) \<noteq> 2 \<or> split_on CHR '' '' ?h ! 0 \<noteq> ''Bearer'')"
    using assms by (auto simp: AuthMiddleware_def Let_def split: if_splits)
  then obtain t where t: "split_on CHR '' '' ?h = [''Bearer'', t]" "?h = ''Bearer '' @ t" by (rule bearer_parts)
  then show ?thesis
    using assms that [OF t(2)] by (simp add: AuthMiddleware_def Let_def split: if_splits sum.splits)
qed

lemma AuthMiddleware_Inl: "AuthMiddleware J s c w = (Inl r, w') \<Longrightarrow> r = unauthorized \<and> w' = w"
  by (auto simp: AuthMiddleware_def Let_def split: if_splits sum.splits)

lemma AuthMiddleware_frame:
  "AuthMiddleware J s c w = (r, w') \<Longrightarrow> w' = w \<and> (\<forall>c'. r = Inr c' \<longrightarrow> gc_fallback c' = gc_fallback c)"
  by (auto simp: AuthMiddleware_def Let_def split: if_splits sum.splits)

lemma AuthMiddleware_accepts:
  assumes "GetHeader c ''Authorization'' = ''Bearer '' @ t" "CHR '' '' \<notin> set t" "VerifyAccessToken J (clock w) t s = Inr cl"
  shows "AuthMiddleware J s c w =
    (Inr (c\<lparr>gc_account_id := Some (cl_AccountID cl), gc_session_id := Some (cl_SessionID cl)\<rparr>), w)"
  using assms split_bearer [OF assms(2)] by (simp add: AuthMiddleware_def Let_def)

text \<open>The device middlewares touch neither the tables nor what authentication stored.\<close>

lemma device_chain_frame:
  assumes "run_chain device_chain c w = (r, w')"
  shows "db w' = db w \<and> clock w' = clock w \<and> fault w' = fault w \<and>
    (\<forall>c'. r = Inr c' \<longrightarrow> gc_account_id c' = gc_account_id c \<and> gc_session_id c' = gc_session_id c \<and>
       gc_request c' = gc_request c \<and> gc_fallback c' = gc_fallback c)"
  using assms
  by (auto simp: device_chain_def IdentityMiddleware_def DeviceContextMiddleware_def PlatformMiddleware_def
      AppVersionMiddleware_def DeviceNameMiddleware_def Let_def call_def uuid_NewString_def split: if_splits)

text \<open>A signer that issues one token, and a request that carries it, for concrete instances.\<close>

definition sample_claims :: Claims where
  "sample_claims = \<lparr>cl_Issuer = ''mini-wallet'', cl_Subject = ''access'', cl_IssuedAt = 1000, cl_ExpiresAt = 1060,
     cl_AccountID = 1, cl_SessionID = ''s1''\<rparr>"

definition sample_jwt :: jwt_lib where
  "sample_jwt = \<lparr>
     jwt_SignedString = (\<lambda>s c. if s = ''secret'' \<and> c = sample_claims then Inr ''token'' else Inl (ErrorString ''sign'')),
     jwt_ParseWithClaims = (\<lambda>now kf t. if t = ''token'' \<and> kf True = Inr ''secret'' \<and> now < 1060
        then Inr (sample_claims, True) else Inl (ErrorString ''invalid''))\<rparr>"

lemma sample_jwt_ok: "jwt_ok sample_jwt" "jwt_unforgeable sample_jwt"
  by (auto simp: jwt_ok_def jwt_unforgeable_def sample_jwt_def sample_claims_def split: if_splits)

definition sample_request :: http_request where
  "sample_request = \<lparr>hr_header = (\<lambda>h. if h = ''Authorization'' then ''Bearer token'' else if h = ''User-Agent'' then ''browser'' else ''installation''),
     hr_body = [], hr_client_ip = ''10.0.0.1'', hr_path = ''/logout'', hr_query = (\<lambda>_. []), hr_param = (\<lambda>_. [])\<rparr>"

end
