(* ===== verification/AuthHttp.thy ===== *)
theory AuthHttp
  imports Http AuthSessions
begin

text \<open>
  \<^verbatim>\<open>internal/auth/delivery/http\<close>: the handlers, and the routes with their middleware
  chains. JSON decoding of a body and the parsing of IP addresses are arguments; the
  framework's router is represented by the route it has selected. Register and login answer
  with the goroutine they start.
\<close>

section \<open>Handlers\<close>

record UpdatePushTokenRequest =
  uq_PushToken :: string

record auth_http =
  ah_env :: auth_env
  ah_fallback :: bool
  bind_Register :: "string \<Rightarrow> go_error + RegisterRequest"
  bind_Login :: "string \<Rightarrow> go_error + LoginRequest"
  bind_RefreshToken :: "string \<Rightarrow> go_error + RefreshTokenRequest"
  bind_UpdatePushToken :: "string \<Rightarrow> go_error + UpdatePushTokenRequest"
  net_ParseIP :: "string \<Rightarrow> string option"

datatype auth_data =
    RegisterData RegisterResponse
  | LoginData LoginResponse
  | RefreshData RefreshTokenResponse
  | SessionsData "SessionItem list"

type_synonym auth_answer = "auth_data http_response \<times> unit auth_prog option"
type_synonym auth_handler = "gin_context \<Rightarrow> auth_db world \<Rightarrow> auth_answer \<times> auth_db world"

abbreviation answer :: "nat \<Rightarrow> auth_data body \<Rightarrow> auth_db world \<Rightarrow> auth_answer \<times> auth_db world" where
  "answer code b w \<equiv> (((code, b), None), w)"

definition error_answer :: "go_error \<Rightarrow> auth_db world \<Rightarrow> auth_answer \<times> auth_db world" where
  "error_answer err w = (let errRes = ErrHTTP err in answer (http_code errRes) (RichBody errRes) w)"

definition LiveHandler :: auth_handler where
  "LiveHandler c w = answer 200 NoBody w"

definition ReadyHandler :: auth_handler where
  "ReadyHandler c w = (case auth_IsReady w of (Inl err, w') \<Rightarrow> error_answer err w' | (Inr _, w') \<Rightarrow> answer 200 NoBody w')"

definition getDeviceContext :: "auth_http \<Rightarrow> gin_context \<Rightarrow> DeviceContext" where
  "getDeviceContext H c =
     (let userAgent = GetUserAgent (gin_Value c);
          ipString = GetIPAddress (gin_Value c) in
      \<lparr>dc_UserAgent = userAgent,
       dc_IPAddress = (case net_ParseIP H ipString of None \<Rightarrow> [] | Some ip \<Rightarrow> ip),
       dc_InstallationID = GetIdentity c, dc_Platform = GetPlatform c,
       dc_DeviceName = GetDeviceName c, dc_AppVersion = GetAppVersion c\<rparr>)"

definition RegisterHandler :: "auth_http \<Rightarrow> auth_handler" where
  "RegisterHandler H c w =
     (case bind_Register H (hr_body (gc_request c)) of
        Inl err \<Rightarrow> answer 400 (MessageBody ''invalid request'') w
      | Inr req \<Rightarrow>
          (case Register (ah_env H) (getDeviceContext H c) req w of
             (Inl err, w') \<Rightarrow> error_answer err w'
           | (Inr (response, goroutine), w') \<Rightarrow>
               (((res_Code response, DataBody (RegisterData (res_Data response))), Some goroutine), w')))"

definition LoginHandler :: "auth_http \<Rightarrow> auth_handler" where
  "LoginHandler H c w =
     (case bind_Login H (hr_body (gc_request c)) of
        Inl err \<Rightarrow> answer 400 (MessageBody ''invalid request'') w
      | Inr req \<Rightarrow>
          (case Login (ah_env H) (getDeviceContext H c) req w of
             (Inl err, w') \<Rightarrow> error_answer err w'
           | (Inr (response, goroutine), w') \<Rightarrow>
               (((res_Code response, DataBody (LoginData (res_Data response))), Some goroutine), w')))"

definition RefreshTokenHandler :: "auth_http \<Rightarrow> auth_handler" where
  "RefreshTokenHandler H c w =
     (case bind_RefreshToken H (hr_body (gc_request c)) of
        Inl err \<Rightarrow> answer 400 (MessageBody ''invalid request'') w
      | Inr req \<Rightarrow>
          (case RefreshToken (ah_env H) (getDeviceContext H c) req w of
             (Inl err, w') \<Rightarrow> error_answer err w'
           | (Inr response, w') \<Rightarrow> answer (res_Code response) (DataBody (RefreshData (res_Data response))) w'))"

definition VerifyTokenHandler :: "auth_http \<Rightarrow> auth_handler" where
  "VerifyTokenHandler H c w =
     (let authHeader = GetHeader c ''Authorization''; parts = split_on CHR '' '' authHeader in
      if authHeader = [] then answer 401 NoBody w
      else if length parts \<noteq> 2 \<or> parts ! 0 \<noteq> ''Bearer'' then answer 401 NoBody w
      else (case VerifyAccessToken (env_jwt (ah_env H)) (clock w) (parts ! 1) (JWTSecret (ah_env H)) of
              Inl err \<Rightarrow> answer 401 NoBody w
            | Inr _ \<Rightarrow> answer 200 NoBody w))"

definition GetSessionsHandler :: auth_handler where
  "GetSessionsHandler c w =
     (case svc_GetUserSessions (GetUserId c) w of
        (Inl err, w') \<Rightarrow> error_answer err w'
      | (Inr response, w') \<Rightarrow> answer (res_Code response) (DataBody (SessionsData (res_Data response))) w')"

definition LogoutSessionHandler :: auth_handler where
  "LogoutSessionHandler c w =
     (case LogoutSession (GetUserId c) (GetSessionId c) w of
        (Inl err, w') \<Rightarrow> error_answer err w' | (Inr _, w') \<Rightarrow> answer 200 NoBody w')"

definition LogoutAllSessionsHandler :: auth_handler where
  "LogoutAllSessionsHandler c w =
     (case LogoutAllSessions (GetUserId c) (Some (GetSessionId c)) w of
        (Inl err, w') \<Rightarrow> error_answer err w' | (Inr _, w') \<Rightarrow> answer 200 NoBody w')"

definition RevokeSessionHandler :: auth_handler where
  "RevokeSessionHandler c w =
     (let sessionID = hr_param (gc_request c) ''session-id'' in
      if sessionID = [] then answer 400 (MessageBody ''session id required'') w
      else (case LogoutSession (GetUserId c) sessionID w of
              (Inl err, w') \<Rightarrow> error_answer err w'
            | (Inr _, w') \<Rightarrow> answer 200 (MessageBody ''session revoked successfully'') w'))"

definition UpdatePushTokenHandler :: "auth_http \<Rightarrow> auth_handler" where
  "UpdatePushTokenHandler H c w =
     (case bind_UpdatePushToken H (hr_body (gc_request c)) of
        Inl err \<Rightarrow> answer 400 (ErrorBody ''push_token required'') w
      | Inr req \<Rightarrow>
          (case UpdatePushToken (GetUserId c) (GetSessionId c) (uq_PushToken req) w of
             (Inl err, w') \<Rightarrow> error_answer err w' | (Inr _, w') \<Rightarrow> answer 200 NoBody w'))"

section \<open>Routes\<close>

datatype auth_route =
    Live | Ready | PostRegister | PostLogin | PostRefreshToken
  | GetVerifyToken | GetSessions | PostLogout | PostLogoutAll | DeleteSession | PutPushToken

fun route_chain :: "auth_http \<Rightarrow> auth_route \<Rightarrow> (auth_data, auth_db) middleware list" where
  "route_chain H Live = []"
| "route_chain H Ready = []"
| "route_chain H PostRegister = device_chain"
| "route_chain H PostLogin = device_chain"
| "route_chain H PostRefreshToken = device_chain"
| "route_chain H GetVerifyToken = [AuthMiddleware (env_jwt (ah_env H)) (JWTSecret (ah_env H))]"
| "route_chain H _ = AuthMiddleware (env_jwt (ah_env H)) (JWTSecret (ah_env H)) # device_chain"

fun route_handler :: "auth_http \<Rightarrow> auth_route \<Rightarrow> auth_handler" where
  "route_handler H Live = LiveHandler"
| "route_handler H Ready = ReadyHandler"
| "route_handler H PostRegister = RegisterHandler H"
| "route_handler H PostLogin = LoginHandler H"
| "route_handler H PostRefreshToken = RefreshTokenHandler H"
| "route_handler H GetVerifyToken = VerifyTokenHandler H"
| "route_handler H GetSessions = GetSessionsHandler"
| "route_handler H PostLogout = LogoutSessionHandler"
| "route_handler H PostLogoutAll = LogoutAllSessionsHandler"
| "route_handler H DeleteSession = RevokeSessionHandler"
| "route_handler H PutPushToken = UpdatePushTokenHandler H"

definition auth_serve :: "auth_http \<Rightarrow> auth_route \<Rightarrow> http_request \<Rightarrow> auth_db world \<Rightarrow> auth_answer \<times> auth_db world" where
  "auth_serve H rt req w =
     (case run_chain (route_chain H rt) (new_context (ah_fallback H) req) w of
        (Inl (code, b), w') \<Rightarrow> answer code b w'
      | (Inr c, w') \<Rightarrow> route_handler H rt c w')"

definition protected_route :: "auth_route \<Rightarrow> bool" where
  "protected_route rt \<longleftrightarrow> rt \<in> {GetVerifyToken, GetSessions, PostLogout, PostLogoutAll, DeleteSession, PutPushToken}"

section \<open>Tokens round-trip through the middleware\<close>

text \<open>
  C16. An access token identifies the account and session it was issued for. Sent back as
  a bearer token before it expires it is accepted and the handlers see that account and
  session; after its expiry every protected route answers 401 and changes nothing. (Signed
  tokens contain no blank.)
\<close>

theorem access_token_roundtrip:
  assumes "jwt_ok J" "GenerateAccessToken J accountID sessionID secret duration w = (Inr t, w')"
    and "CHR '' '' \<notin> set t" "GetHeader c ''Authorization'' = ''Bearer '' @ t"
  shows "if clock v < clock w + seconds duration
    then \<exists>c'. AuthMiddleware J secret c v = (Inr c', v) \<and> GetUserId c' = accountID \<and> GetSessionId c' = sessionID
    else AuthMiddleware J secret c v = (Inl (401, MessageBody ''unauthorized''), v)"
proof (cases "clock v < clock w + seconds duration")
  case True
  then obtain cl where cl: "VerifyAccessToken J (clock v) t secret = Inr cl" "cl_AccountID cl = accountID" "cl_SessionID cl = sessionID"
    using GenerateAccessToken_verify [OF assms(1,2), of "clock v"] by auto
  then show ?thesis
    using True by (auto simp: AuthMiddleware_accepts [OF assms(4,3) cl(1)] GetUserId_def GetSessionId_def)
next
  case False
  then obtain e where "VerifyAccessToken J (clock v) t secret = Inl e"
    using GenerateAccessToken_verify [OF assms(1,2), of "clock v"] by auto
  then show ?thesis
    using False split_bearer [OF assms(3)] assms(4) by (simp add: AuthMiddleware_def Let_def unauthorized_def)
qed

section \<open>Isolation of accounts\<close>

definition others :: "int \<Rightarrow> auth_db \<Rightarrow> session_row list" where
  "others uid d = filter (\<lambda>s. ses_user_id s \<noteq> uid) (device_sessions d)"

definition foreign_to :: "int \<Rightarrow> auth_db \<Rightarrow> auth_db \<Rightarrow> bool" where
  "foreign_to uid d0 d \<longleftrightarrow> others uid d = others uid d0 \<and> users d = users d0 \<and> devices d = devices d0 \<and>
     auth_outbox_events d = auth_outbox_events d0 \<and>
     (\<exists>h. session_history d = session_history d0 @ h \<and> (\<forall>r \<in> set h. his_user_id r = uid))"

lemma foreign_refl [simp]: "foreign_to uid d d"
  by (simp add: foreign_to_def)

lemma foreign_archive:
  assumes "foreign_to uid d0 d" "archive_sessions (\<lambda>r. ses_public_id r = sid \<and> ses_user_id r = uid) reason by n d = Inr (k, d')"
  shows "foreign_to uid d0 d'"
proof -
  let ?rs = "select_where (\<lambda>r. ses_public_id r = sid \<and> ses_user_id r = uid) (device_sessions d)"
  let ?new = "map2 (\<lambda>i r. to_history reason by n (session_history_next d + int i) r) [0..<length ?rs] ?rs"
  have new: "\<forall>r \<in> set ?new. his_user_id r = uid"
    by (auto simp: to_history_def select_where_def dest!: set_zip_rightD)
  obtain h where "session_history d = session_history d0 @ h" "\<forall>r \<in> set h. his_user_id r = uid"
    using assms(1) by (auto simp: foreign_to_def)
  moreover have d': "d' = d\<lparr>session_history := session_history d @ ?new,
      session_history_next := session_history_next d + int (length ?rs)\<rparr>"
    using assms(2) unfolding archive_sessions_def Let_def by auto
  ultimately have "session_history d' = session_history d0 @ (h @ ?new)" "\<forall>r \<in> set (h @ ?new). his_user_id r = uid"
    using new by auto
  then show ?thesis using assms(1) d' unfolding foreign_to_def others_def by auto
qed

lemma foreign_sessions:
  "foreign_to uid d0 d \<Longrightarrow> filter (\<lambda>s. ses_user_id s \<noteq> uid) rs = others uid d \<Longrightarrow> foreign_to uid d0 (d\<lparr>device_sessions := rs\<rparr>)"
  by (simp add: foreign_to_def others_def)

lemma foreign_delete:
  assumes "foreign_to uid d0 d" "delete_sessions (\<lambda>r. ses_public_id r = sid \<and> ses_user_id r = uid) d = Inr (k, d')"
  shows "foreign_to uid d0 d'"
proof -
  let ?p = "\<lambda>r. ses_public_id r = sid \<and> ses_user_id r = uid"
  have "filter (\<lambda>s. ses_user_id s \<noteq> uid) (delete_where ?p rs) = filter (\<lambda>s. ses_user_id s \<noteq> uid) rs" for rs
    by (induction rs) (auto simp: delete_where_def)
  then show ?thesis using assms by (auto simp: delete_sessions_def others_def intro!: foreign_sessions)
qed

lemma foreign_push_token:
  assumes "foreign_to uid d0 d" "set_push_token tok sid uid d = Inr (k, d')"
  shows "foreign_to uid d0 d'"
proof -
  let ?p = "\<lambda>r. ses_public_id r = sid \<and> ses_user_id r = uid" and ?f = "\<lambda>r. r\<lparr>ses_push_token := tok\<rparr>"
  have "filter (\<lambda>s. ses_user_id s \<noteq> uid) (update_where ?p ?f rs) = filter (\<lambda>s. ses_user_id s \<noteq> uid) rs" for rs
    by (induction rs) (auto simp: update_where_def)
  then show ?thesis using assms by (auto simp: set_push_token_def Let_def others_def intro!: foreign_sessions)
qed

lemma keeps_foreign_LogoutSession: "keeps_db (foreign_to uid d0) (LogoutSession uid sid)"
  unfolding LogoutSession_def RevokeSession_def revoke_body_def Let_def
  by (intro keep_rules keeps_sql_now keeps_sql; (erule (1) foreign_archive | erule (1) foreign_delete))

lemma keeps_foreign_UpdatePushToken: "keeps_db (foreign_to uid d0) (UpdatePushToken uid sid tok)"
  unfolding UpdatePushToken_def repo_UpdatePushToken_def Let_def
  by (intro keep_rules keeps_sql; erule (1) foreign_push_token)


lemma foreign_kept:
  assumes "keeps_db (foreign_to uid (db w)) m" "m w = (r, w')"
  shows "foreign_to uid (db w) (db w')"
  using keepsD' [OF assms(1) _ assms(2)] by simp

lemma error_answer_world [simp]: "snd (error_answer err w) = w"
  by (simp add: error_answer_def Let_def)

text \<open>A session route's handler touches only rows of the account in its context.\<close>

lemma session_handler_foreign:
  assumes "protected_route rt"
  shows "foreign_to (GetUserId c) (db w) (db (snd (route_handler H rt c w)))"
proof -
  have logout: "foreign_to (GetUserId c) (db w) (db w')" if "LogoutSession (GetUserId c) sid w = (r, w')" for sid r w'
    using foreign_kept [OF keeps_foreign_LogoutSession that] .
  have push: "foreign_to (GetUserId c) (db w) (db w')" if "UpdatePushToken (GetUserId c) sid tok w = (r, w')" for sid tok r w'
    using foreign_kept [OF keeps_foreign_UpdatePushToken that] .
  have all: "db w' = db w" if "LogoutAllSessions (GetUserId c) ex w = (r, w')" for ex r w'
    using LogoutAllSessions_fails [of "GetUserId c" ex w] that by auto
  have get: "db w' = db w" if "svc_GetUserSessions (GetUserId c) w = (r, w')" for r w'
    using that by (auto simp: svc_GetUserSessions_def GetUserSessions_def call_def split: prod.splits sum.splits
        dest!: sql_query_db)
  show ?thesis
    using assms
    by (cases rt) (auto simp: protected_route_def VerifyTokenHandler_def GetSessionsHandler_def LogoutSessionHandler_def
        LogoutAllSessionsHandler_def RevokeSessionHandler_def UpdatePushTokenHandler_def Let_def
        split: prod.splits sum.splits dest!: all get intro: logout push)
qed

lemma protected_chain:
  assumes "protected_route rt" "run_chain (route_chain H rt) (new_context f req) w = (r, w')"
  shows "db w' = db w \<and> (case r of
      Inl resp \<Rightarrow> fst resp = 401 \<or> (\<exists>t cl. hr_header req ''Authorization'' = ''Bearer '' @ t \<and>
          VerifyAccessToken (env_jwt (ah_env H)) (clock w) t (JWTSecret (ah_env H)) = Inr cl)
    | Inr c \<Rightarrow> \<exists>t cl. hr_header req ''Authorization'' = ''Bearer '' @ t \<and>
          VerifyAccessToken (env_jwt (ah_env H)) (clock w) t (JWTSecret (ah_env H)) = Inr cl \<and> GetUserId c = cl_AccountID cl)"
proof -
  let ?c = "new_context f req" and ?A = "AuthMiddleware (env_jwt (ah_env H)) (JWTSecret (ah_env H)) :: (auth_data, auth_db) middleware"
  obtain ms where ms: "route_chain H rt = ?A # ms" "ms = [] \<or> ms = device_chain"
    using assms(1) by (cases rt) (auto simp: protected_route_def)
  have run: "call (?A ?c) fail (run_chain ms) w = (r, w')" using assms(2) ms(1) by simp
  show ?thesis
  proof (cases "?A ?c w")
    case (Pair a w1)
    show ?thesis
    proof (cases a)
      case (Inl resp)
      then have "resp = unauthorized \<and> w1 = w" using AuthMiddleware_Inl Pair by blast
      then show ?thesis using run Pair Inl by (auto simp: call_def unauthorized_def)
    next
      case (Inr c1)
      obtain t cl where t: "GetHeader ?c ''Authorization'' = ''Bearer '' @ t"
        "VerifyAccessToken (env_jwt (ah_env H)) (clock w) t (JWTSecret (ah_env H)) = Inr cl" "w1 = w"
        "c1 = ?c\<lparr>gc_account_id := Some (cl_AccountID cl), gc_session_id := Some (cl_SessionID cl)\<rparr>"
        using AuthMiddleware_Inr [OF Pair [unfolded Inr]] .
      then have h: "hr_header req ''Authorization'' = ''Bearer '' @ t" by (simp add: new_context_def)
      have "run_chain ms c1 w = (r, w')" using run Pair Inr t(3) by (simp add: call_def)
      then have "db w' = db w \<and> (\<forall>c'. r = Inr c' \<longrightarrow> gc_account_id c' = gc_account_id c1)"
        using ms(2) by (auto dest: device_chain_frame)
      then show ?thesis using t h by (cases r) (auto simp: GetUserId_def)
    qed
  qed
qed

text \<open>
  C15. Protected routes act only for the bearer. Whatever calls fail, a request to one of
  them either carries a token the service accepts, and then users, devices, events, all
  other accounts' sessions and their history are left as they were; or it is answered
  with 401 and nothing changes.
\<close>

theorem protected_routes_isolated:
  assumes "protected_route rt" "auth_serve H rt req w = ((resp, g), w')"
  shows "(\<exists>t cl. hr_header req ''Authorization'' = ''Bearer '' @ t \<and>
        VerifyAccessToken (env_jwt (ah_env H)) (clock w) t (JWTSecret (ah_env H)) = Inr cl \<and>
        foreign_to (cl_AccountID cl) (db w) (db w')) \<or>
    fst resp = 401 \<and> db w' = db w"
proof (cases "run_chain (route_chain H rt) (new_context (ah_fallback H) req) w")
  case (Pair r w1)
  note chain = protected_chain [OF assms(1) Pair]
  show ?thesis
  proof (cases r)
    case (Inl x)
    then have "resp = x" "w' = w1" using assms(2) Pair by (auto simp: auth_serve_def split: prod.splits)
    then show ?thesis using chain Inl by (auto intro: exI)
  next
    case (Inr c)
    then have "w' = snd (route_handler H rt c w1)" using assms(2) Pair by (simp add: auth_serve_def)
    then have "foreign_to (GetUserId c) (db w) (db w')" using session_handler_foreign [OF assms(1)] chain by metis
    then show ?thesis using chain Inr by auto
  qed
qed


section \<open>What the service learns about a device\<close>

definition anonymous :: "auth_db \<Rightarrow> bool" where
  "anonymous d \<longleftrightarrow> (\<forall>s \<in> set (device_sessions d). ses_user_agent s = [] \<and> ses_ip_address s = [])"

definition anonymous_device :: "DeviceContext \<Rightarrow> bool" where
  "anonymous_device dc \<longleftrightarrow> dc_UserAgent dc = [] \<and> dc_IPAddress dc = []"

lemma anonymous_stmts:
  "anonymous d \<Longrightarrow> insert_user email pw n d = Inr (i, d') \<Longrightarrow> anonymous d'"
  "anonymous d \<Longrightarrow> upsert_device pid dc n d = Inr (u, d') \<Longrightarrow> anonymous d'"
  "anonymous d \<Longrightarrow> archive_sessions q reason by n d = Inr (k, d') \<Longrightarrow> anonymous d'"
  "anonymous d \<Longrightarrow> delete_sessions q d = Inr (k, d') \<Longrightarrow> anonymous d'"
  "anonymous d \<Longrightarrow> set_push_token tok sid uid d = Inr (k, d') \<Longrightarrow> anonymous d'"
  by (auto simp: anonymous_def insert_user_def upsert_device_def Let_def archive_sessions_def delete_sessions_def
      delete_where_def set_push_token_def set_update_where split: if_splits)

lemma anonymous_sessions:
  "anonymous_device dc \<Longrightarrow> anonymous d \<Longrightarrow> update_session h e dc p pid n d = Inr (u, d') \<Longrightarrow> anonymous d'"
  "anonymous_device dc \<Longrightarrow> anonymous d \<Longrightarrow> insert_session pid uid did h dc p' e n d = Inr (u, d') \<Longrightarrow> anonymous d'"
  by (auto simp: anonymous_def anonymous_device_def update_session_def insert_session_def renew_session_def Let_def
      set_update_where split: if_splits option.splits)

lemma anonymous_device_of:
  "\<not> gc_fallback c \<Longrightarrow> net_ParseIP H [] = None \<Longrightarrow> anonymous_device (getDeviceContext H c)"
  by (simp add: anonymous_device_def getDeviceContext_def Let_def GetUserAgent_def GetIPAddress_def gin_Value_def)

lemma keeps_anonymous_upsert:
  assumes "anonymous_device dc"
  shows "keeps_db anonymous (UpsertSession dc uid h e p)"
  unfolding UpsertSession_def upsert_device_step_def create_session_def overwrite_session_def Let_def
  by (intro keep_rules keeps_sql_now; (erule (1) anonymous_stmts | erule (1) anonymous_sessions [OF assms]))

lemma keeps_anonymous_repo:
  "keeps_db anonymous (CreateUserByEmailAndPassword email pw)" "keeps_db anonymous (auth_InsertOutboxEvent ev)"
  unfolding CreateUserByEmailAndPassword_def auth_InsertOutboxEvent_def Let_def
  by (intro keep_rules keeps_sql_now keeps_sql; (erule (1) anonymous_stmts | auto simp: anonymous_def split: sum.splits if_splits))+


lemma keeps_anonymous_services:
  assumes "anonymous_device dc"
  shows "keeps_db anonymous (Register E dc rq)" "keeps_db anonymous (Login E dc lq)" "keeps_db anonymous (RefreshToken E dc fq)"
proof -
  note rules = keep_rules keeps_anonymous_upsert [OF assms] keeps_anonymous_repo
  have rotate: "keeps_db anonymous (RotateRefreshToken dc old new e p)" for old new e p
    unfolding RotateRefreshToken_def rotate_body_def Let_def
    by (intro keep_rules keeps_sql_now; erule (1) anonymous_sessions [OF assms])
  show "keeps_db anonymous (Register E dc rq)" unfolding Register_def register_tx_def by (intro rules)
  show "keeps_db anonymous (Login E dc lq)" unfolding Login_def login_tx_def by (intro rules)
  show "keeps_db anonymous (RefreshToken E dc fq)" unfolding RefreshToken_def Let_def by (intro keep_rules rotate)
qed

lemma keeps_anonymous_sessions:
  "keeps_db anonymous (LogoutSession uid sid)" "keeps_db anonymous (UpdatePushToken uid sid tok)"
  "keeps_db anonymous (svc_GetUserSessions uid)" "keeps_db anonymous auth_IsReady"
  unfolding LogoutSession_def RevokeSession_def revoke_body_def UpdatePushToken_def repo_UpdatePushToken_def
    svc_GetUserSessions_def GetUserSessions_def auth_IsReady_def auth_Ping_def Let_def
  by (intro keep_rules keeps_sql_now keeps_sql; erule (1) anonymous_stmts)+

lemma chain_no_fallback:
  assumes "run_chain (route_chain H rt) (new_context f req) w = (r, w')"
  shows "db w' = db w \<and> (\<forall>c. r = Inr c \<longrightarrow> gc_fallback c = f)"
proof -
  have "gc_fallback (new_context f req) = f" by (simp add: new_context_def)
  then show ?thesis
    using assms
    by (cases rt) (auto elim!: call_cases dest!: AuthMiddleware_frame device_chain_frame)
qed

text \<open>
  User agent and address are never recorded. The handlers read them from the
  framework's context and not from the request's; the engine is built without the fallback
  option, so no request on any route, whatever it was sent with and whatever calls fail,
  stores a user agent or an address in a session.
\<close>

theorem device_data_never_recorded:
  assumes "\<not> ah_fallback H" "net_ParseIP H [] = None" "anonymous (db w)" "auth_serve H rt req w = (a, w')"
  shows "anonymous (db w')"
proof (cases "run_chain (route_chain H rt) (new_context (ah_fallback H) req) w")
  case (Pair r w1)
  have w1: "anonymous (db w1)" "\<forall>c. r = Inr c \<longrightarrow> \<not> gc_fallback c"
    using chain_no_fallback [OF Pair] assms(1,3) by auto
  have keep: "anonymous (db v')" if "keeps_db anonymous m" "m w1 = (x, v')" for m :: "'x auth_prog" and x v'
    using keepsD' [OF that(1) _ that(2)] w1(1) by simp
  have all: "anonymous (db v')" if "LogoutAllSessions uid ex w1 = (x, v')" for uid ex x v'
    using LogoutAllSessions_fails [of uid ex w1] that w1(1) by auto
  show ?thesis
  proof (cases r)
    case (Inl x)
    then show ?thesis using assms(4) Pair w1(1) by (auto simp: auth_serve_def split: prod.splits)
  next
    case (Inr c)
    then have "anonymous_device (getDeviceContext H c)" using w1(2) assms(2) by (simp add: anonymous_device_of)
    note ks = keeps_anonymous_services [OF this] keeps_anonymous_sessions
    have "anonymous (db (snd (route_handler H rt c w1)))"
      using w1(1)
      by (cases rt) (auto simp: LiveHandler_def ReadyHandler_def RegisterHandler_def LoginHandler_def RefreshTokenHandler_def
          VerifyTokenHandler_def GetSessionsHandler_def LogoutSessionHandler_def LogoutAllSessionsHandler_def
          RevokeSessionHandler_def UpdatePushTokenHandler_def Let_def split: prod.splits sum.splits
          dest: all keepsD' [OF ks(1)] keepsD' [OF ks(2)] keepsD' [OF ks(3)] keepsD' [OF ks(4)] keepsD' [OF ks(5)]
            keepsD' [OF ks(6)] keepsD' [OF ks(7)])
    then show ?thesis using assms(4) Pair Inr by (simp add: auth_serve_def)
  qed
qed

section \<open>Instances\<close>

text \<open>A signing library in which a token is its claims, and a request with a bearer token.\<close>

definition sample_http :: "proto_lib \<Rightarrow> auth_http" where
  "sample_http L = \<lparr>ah_env = (sample_env L)\<lparr>env_jwt := sample_jwt\<rparr>, ah_fallback = False,
     bind_Register = (\<lambda>_. Inl (ErrorString ''EOF'')), bind_Login = (\<lambda>_. Inl (ErrorString ''EOF'')),
     bind_RefreshToken = (\<lambda>_. Inl (ErrorString ''EOF'')), bind_UpdatePushToken = (\<lambda>_. Inl (ErrorString ''EOF'')),
     net_ParseIP = (\<lambda>s. if s = ''10.0.0.1'' then Some (replicate 12 CHR ''0'' @ ''abcd'') else None)\<rparr>"

theorem access_token_roundtrip_witness:
  "\<exists>c'. AuthMiddleware sample_jwt ''secret'' (new_context False sample_request) (quiet_world sample_auth_db) =
       (Inr c' :: unit http_response + gin_context, quiet_world sample_auth_db) \<and>
     GetUserId c' = 1 \<and> GetSessionId c' = ''s1''"
proof -
  let ?w = "quiet_world sample_auth_db"
  have "GenerateAccessToken sample_jwt 1 ''s1'' ''secret'' 60000000000 ?w = (Inr ''token'', ?w)"
    by (simp add: GenerateAccessToken_def call_def time_Now_def quiet_world_def sample_jwt_def sample_claims_def seconds_def)
  from access_token_roundtrip [where v = ?w and c = "new_context False sample_request", OF sample_jwt_ok(1) this]
  show ?thesis by (simp add: new_context_def sample_request_def seconds_def)
qed

theorem protected_routes_isolated_witness:
  "\<exists>resp g w'. auth_serve (sample_http register_codec) PostLogout sample_request (quiet_world sample_auth_db) = ((resp, g), w') \<and>
     foreign_to 1 sample_auth_db (db w')"
proof -
  let ?H = "sample_http register_codec"
  obtain resp g w' where r: "auth_serve ?H PostLogout sample_request (quiet_world sample_auth_db) = ((resp, g), w')"
    by (metis surj_pair)
  have "cl_AccountID cl = 1" if "hr_header sample_request ''Authorization'' = ''Bearer '' @ t"
      "VerifyAccessToken (env_jwt (ah_env ?H)) 1000 t (JWTSecret (ah_env ?H)) = Inr cl" for t cl
    using that by (auto simp: sample_request_def VerifyAccessToken_def sample_http_def sample_jwt_def sample_claims_def
        split: if_splits sum.splits)
  moreover have "protected_route PostLogout" by (simp add: protected_route_def)
  ultimately have "foreign_to 1 sample_auth_db (db w')"
    using protected_routes_isolated [OF _ r] by (auto simp: quiet_world_def)
  then show ?thesis using r by blast
qed

theorem device_data_never_recorded_witness:
  "\<exists>a w'. auth_serve (sample_http register_codec) PostLogout sample_request
     (quiet_world (sample_auth_db\<lparr>device_sessions := []\<rparr>)) = (a, w') \<and> anonymous (db w')"
proof -
  let ?w = "quiet_world (sample_auth_db\<lparr>device_sessions := []\<rparr>)"
  obtain a w' where r: "auth_serve (sample_http register_codec) PostLogout sample_request ?w = (a, w')" by (metis surj_pair)
  have "anonymous (db w')"
    by (rule device_data_never_recorded [OF _ _ _ r]) (simp_all add: sample_http_def anonymous_def quiet_world_def)
  then show ?thesis using r by blast
qed

end
