(* ===== verification/WalletHttp.thy ===== *)
theory WalletHttp
  imports Http WalletProps
begin

text \<open>
  \<^verbatim>\<open>internal/wallet/delivery/http\<close>: the wallet's handlers and routes. No route of
  this service has an authentication middleware.
\<close>

type_synonym wallet_answer = "TransferResponse http_response \<times> wallet_db world"

definition wallet_LiveHandler :: "gin_context \<Rightarrow> wallet_db world \<Rightarrow> wallet_answer" where
  "wallet_LiveHandler c w = ((200, NoBody), w)"

definition wallet_ReadyHandler :: "gin_context \<Rightarrow> wallet_db world \<Rightarrow> wallet_answer" where
  "wallet_ReadyHandler c w =
     (case wallet_IsReady w of
        (Inl err, w') \<Rightarrow> (let errRes = ErrHTTP err in ((http_code errRes, RichBody errRes), w'))
      | (Inr _, w') \<Rightarrow> ((200, NoBody), w'))"

definition TransferHandler :: "(string \<Rightarrow> go_error + TransferRequest) \<Rightarrow> gin_context \<Rightarrow> wallet_db world \<Rightarrow> wallet_answer" where
  "TransferHandler bind_Transfer c w =
     (case bind_Transfer (hr_body (gc_request c)) of
        Inl err \<Rightarrow> ((400, MessageBody ''invalid request''), w)
      | Inr req \<Rightarrow>
          (case Transfer 0 req w of
             (Inl (err, code), w') \<Rightarrow> ((code, MessageBody (Error err)), w')
           | (Inr (response, code), w') \<Rightarrow> ((code, DataBody response), w')))"

datatype wallet_route = WalletLive | WalletReady | PostTransfer

fun wallet_route_handler ::
  "(string \<Rightarrow> go_error + TransferRequest) \<Rightarrow> wallet_route \<Rightarrow> gin_context \<Rightarrow> wallet_db world \<Rightarrow> wallet_answer" where
  "wallet_route_handler bind_Transfer WalletLive = wallet_LiveHandler"
| "wallet_route_handler bind_Transfer WalletReady = wallet_ReadyHandler"
| "wallet_route_handler bind_Transfer PostTransfer = TransferHandler bind_Transfer"

definition wallet_serve ::
  "(string \<Rightarrow> go_error + TransferRequest) \<Rightarrow> wallet_route \<Rightarrow> http_request \<Rightarrow> wallet_db world \<Rightarrow> wallet_answer" where
  "wallet_serve bind_Transfer rt req w =
     (case run_chain ([] :: (TransferResponse, wallet_db) middleware list) (new_context False req) w of
        (Inl resp, w') \<Rightarrow> (resp, w')
      | (Inr c, w') \<Rightarrow> wallet_route_handler bind_Transfer rt c w')"

text \<open>
  Anyone can transfer money. The transfer route looks at the body only: a request
  without any credentials whose body names two wallets is answered with 200 when the source
  wallet has the amount, and the money has moved.
\<close>

theorem transfer_needs_no_credentials:
  assumes "wallet_wf (db w)" "fault_free w" "\<forall>h. hr_header r h = []" "bind_Transfer (hr_body r) = Inr req"
    and "balance_of (db w) (SourceId req) = Some b" "Amount req \<le> b"
    and "balance_of (db w) (DestId req) = Some c" "SourceId req \<noteq> DestId req"
    and "int64_range (b - Amount req)" "int64_range (c + Amount req)"
  shows "\<exists>resp w'. wallet_serve bind_Transfer PostTransfer r w = ((200, DataBody resp), w') \<and>
    balance_of (db w') = move (SourceId req) (DestId req) (Amount req) (balance_of (db w))"
proof -
  obtain resp w' where t: "Transfer 0 req w = (Inr (resp, 200), w')"
    using Transfer_runs [OF assms(1,2,5-10)] by blast
  then have "balance_of (db w') = move (SourceId req) (DestId req) (Amount req) (balance_of (db w))"
    using Transfer_Inr [OF t] transfer_steps_balance by fastforce
  then show ?thesis
    using t assms(4) by (simp add: wallet_serve_def TransferHandler_def new_context_def)
qed

abbreviation bare_request :: http_request where
  "bare_request \<equiv> \<lparr>hr_header = (\<lambda>_. []), hr_body = [], hr_client_ip = [], hr_path = ''/transfer'', hr_query = (\<lambda>_. []),
     hr_param = (\<lambda>_. [])\<rparr>"

abbreviation sample_transfer :: TransferRequest where
  "sample_transfer \<equiv> \<lparr>SourceId = 1, DestId = 2, Amount = 30\<rparr>"

theorem transfer_needs_no_credentials_witness:
  "\<exists>resp w'. wallet_serve (\<lambda>_. Inr sample_transfer) PostTransfer bare_request (quiet_world sample_db) =
     ((200, DataBody resp), w') \<and> balance_of (db w') 2 = Some 35"
proof -
  let ?w = "quiet_world sample_db"
  have h: "wallet_wf (db ?w)" "fault_free ?w" "balance_of (db ?w) (SourceId sample_transfer) = Some 100"
    "balance_of (db ?w) (DestId sample_transfer) = Some 5"
    using sample_db_wf by (simp_all add: fault_free_def sample_simps balance_of_def)
  have "\<exists>resp w'. wallet_serve (\<lambda>_. Inr sample_transfer) PostTransfer bare_request ?w = ((200, DataBody resp), w') \<and>
      balance_of (db w') = move 1 2 30 (balance_of (db ?w))"
    using transfer_needs_no_credentials [OF h(1,2) _ _ h(3) _ h(4), of bare_request "\<lambda>_. Inr sample_transfer"]
    by (simp add: int64_range_def)
  moreover have "move 1 2 30 (balance_of (db ?w)) 2 = Some 35" using h(4) by (simp add: move_def)
  ultimately show ?thesis by metis
qed

end
