(* ===== verification/Redis.thy ===== *)
theory Redis
  imports World
begin

text \<open>
  Redis as \<^verbatim>\<open>pkg/redis\<close> hands it out. Server and client are outside the repository: the
  commands the services send are the fields of \<open>redis_lib\<close> over an unspecified store, and
  \<open>redis_ok\<close> states what their documentation promises about keys with a time to live.
  A command may fail like every other call that leaves the process.
\<close>

section \<open>Commands\<close>

record 'r redis_lib =
  rd_Set :: "string \<Rightarrow> string \<Rightarrow> int \<Rightarrow> int \<Rightarrow> 'r \<Rightarrow> 'r"
  rd_Get :: "string \<Rightarrow> int \<Rightarrow> 'r \<Rightarrow> string option"
  rd_GetDel :: "string \<Rightarrow> int \<Rightarrow> 'r \<Rightarrow> string option \<times> 'r"
  rd_Del :: "string \<Rightarrow> int \<Rightarrow> 'r \<Rightarrow> 'r"
  rd_Publish :: "string \<Rightarrow> string \<Rightarrow> 'r \<Rightarrow> 'r"

text \<open>
  \<open>rd_Set R k v ttl now\<close> sets a key at time \<open>now\<close>; times to live are durations in
  nanoseconds, and the promise is stated for whole seconds.
\<close>

definition whole_seconds :: "int \<Rightarrow> bool" where
  "whole_seconds ttl \<longleftrightarrow> 0 < ttl \<and> 1000000000 dvd ttl"

definition redis_ok :: "'r redis_lib \<Rightarrow> bool" where
  "redis_ok R \<longleftrightarrow>
     (\<forall>k v ttl now t r. whole_seconds ttl \<longrightarrow> now \<le> t \<longrightarrow>
        rd_Get R k t (rd_Set R k v ttl now r) = (if t < now + seconds ttl then Some v else None)) \<and>
     (\<forall>k k' v ttl now t r. now \<le> t \<longrightarrow> k' \<noteq> k \<longrightarrow> rd_Get R k' t (rd_Set R k v ttl now r) = rd_Get R k' t r) \<and>
     (\<forall>k t r. fst (rd_GetDel R k t r) = rd_Get R k t r) \<and>
     (\<forall>k k' t t' r. t \<le> t' \<longrightarrow>
        rd_Get R k' t' (snd (rd_GetDel R k t r)) = (if k' = k then None else rd_Get R k' t' r)) \<and>
     (\<forall>k k' t t' r. t \<le> t' \<longrightarrow> rd_Get R k' t' (rd_Del R k t r) = (if k' = k then None else rd_Get R k' t' r)) \<and>
     (\<forall>k t t' v r. t \<le> t' \<longrightarrow> rd_Get R k t' r = Some v \<longrightarrow> rd_Get R k t r = Some v)"

definition redis_Set :: "'r redis_lib \<Rightarrow> string \<Rightarrow> string \<Rightarrow> int \<Rightarrow> ('r, unit) wprog" where
  "redis_Set R k v ttl = call outside fail (\<lambda>_ w. (Inr (), w\<lparr>db := rd_Set R k v ttl (clock w) (db w)\<rparr>))"

text \<open>Reading a key that is not there is the error \<^verbatim>\<open>redis.Nil\<close>.\<close>

definition redis_Get :: "'r redis_lib \<Rightarrow> string \<Rightarrow> ('r, string) wprog" where
  "redis_Get R k = call outside fail (\<lambda>_ w.
     (case rd_Get R k (clock w) (db w) of None \<Rightarrow> Inl RedisNil | Some v \<Rightarrow> Inr v, w))"

definition redis_GetDel :: "'r redis_lib \<Rightarrow> string \<Rightarrow> ('r, string) wprog" where
  "redis_GetDel R k = call outside fail (\<lambda>_ w. case rd_GetDel R k (clock w) (db w) of
     (res, d) \<Rightarrow> (case res of None \<Rightarrow> Inl RedisNil | Some v \<Rightarrow> Inr v, w\<lparr>db := d\<rparr>))"

definition redis_Del :: "'r redis_lib \<Rightarrow> string \<Rightarrow> ('r, unit) wprog" where
  "redis_Del R k = call outside fail (\<lambda>_ w. (Inr (), w\<lparr>db := rd_Del R k (clock w) (db w)\<rparr>))"

definition redis_Publish :: "'r redis_lib \<Rightarrow> string \<Rightarrow> string \<Rightarrow> ('r, unit) wprog" where
  "redis_Publish R channel msg = call outside fail (\<lambda>_ w. (Inr (), w\<lparr>db := rd_Publish R channel msg (db w)\<rparr>))"

definition redis_Ping :: "('r, unit) wprog" where
  "redis_Ping = outside"

definition IsNil :: "go_error \<Rightarrow> bool" where
  "IsNil err \<longleftrightarrow> errors_Is err RedisNil"

section \<open>What the promise gives\<close>

lemma redis_Set_effect:
  assumes "redis_ok R" "redis_Set R k v ttl w = (r, w')" "clock w \<le> t"
  shows "clock w' = clock w \<and> fault w' = fault w \<and>
    rd_Get R k' t (db w') =
      (if r = Inr () \<and> k' = k \<and> whole_seconds ttl then (if t < clock w + seconds ttl then Some v else None)
       else if r = Inr () \<and> k' = k then rd_Get R k t (db w') else rd_Get R k' t (db w))"
  using assms by (auto simp: redis_Set_def call_def outside_def redis_ok_def split: option.splits)

lemma redis_GetDel_laws:
  assumes "redis_ok R"
  shows "fst (rd_GetDel R k t r) = rd_Get R k t r"
    "t \<le> t' \<Longrightarrow> rd_Get R k' t' (snd (rd_GetDel R k t r)) = (if k' = k then None else rd_Get R k' t' r)"
  using assms unfolding redis_ok_def by blast+

lemma redis_GetDel_effect:
  assumes "redis_ok R" "redis_GetDel R k w = (r, w')" "clock w \<le> t"
  shows "clock w' = clock w \<and> fault w' = fault w \<and>
    (fault w (calls w) = None \<longrightarrow> r = (case rd_Get R k (clock w) (db w) of None \<Rightarrow> Inl RedisNil | Some v \<Rightarrow> Inr v) \<and>
       rd_Get R k' t (db w') = (if k' = k then None else rd_Get R k' t (db w))) \<and>
    (fault w (calls w) \<noteq> None \<longrightarrow> isl r \<and> db w' = db w)"
proof -
  obtain res d where g: "rd_GetDel R k (clock w) (db w) = (res, d)" by (cases "rd_GetDel R k (clock w) (db w)")
  have "res = rd_Get R k (clock w) (db w)" using redis_GetDel_laws(1) [OF assms(1), of k "clock w" "db w"] g by simp
  moreover have "rd_Get R k' t d = (if k' = k then None else rd_Get R k' t (db w))"
    using redis_GetDel_laws(2) [OF assms(1,3), of k' k "db w"] g by simp
  ultimately show ?thesis
    using assms(2) g by (auto simp: redis_GetDel_def call_def outside_def split: option.splits)
qed

lemma redis_expiry: "redis_ok R \<Longrightarrow> t \<le> t' \<Longrightarrow> rd_Get R k t' r = Some v \<Longrightarrow> rd_Get R k t r = Some v"
  by (auto simp: redis_ok_def)

section \<open>A store that meets the promise\<close>

text \<open>Keys with their values and expiry times, for concrete instances.\<close>

type_synonym mem = "string \<Rightarrow> (string \<times> int) option"

definition mem_get :: "string \<Rightarrow> int \<Rightarrow> mem \<Rightarrow> string option" where
  "mem_get k t m = (case m k of Some (v, e) \<Rightarrow> if t < e then Some v else None | None \<Rightarrow> None)"

definition mem_redis :: "mem redis_lib" where
  "mem_redis = \<lparr>rd_Set = (\<lambda>k v ttl now m. m(k \<mapsto> (v, now + seconds ttl))), rd_Get = mem_get,
     rd_GetDel = (\<lambda>k t m. (mem_get k t m, m(k := None))), rd_Del = (\<lambda>k t m. m(k := None)),
     rd_Publish = (\<lambda>c v m. m)\<rparr>"

lemma mem_redis_ok: "redis_ok mem_redis"
  by (auto simp: redis_ok_def mem_redis_def mem_get_def split: option.splits prod.splits if_splits)

end
