(* ===== verification/Tickets.thy ===== *)
theory Tickets
  imports Redis Http
begin

text \<open>
  Stream tickets of the notification service: \<^verbatim>\<open>internal/notification/service/notification\<close> and
  the HTTP handlers of \<^verbatim>\<open>internal/notification/delivery/http\<close>. A ticket is a random string kept
  in Redis with a time to live; opening the event stream consumes it. The stream itself is the
  subject of \<open>Hub\<close>: the stream route either answers the request or says for whom it opens a
  stream. The CORS middleware is outside the repository and lets every origin pass.
\<close>

section \<open>Service\<close>

definition ticketPrefix :: string where
  "ticketPrefix = ''ticket:''"

definition hex_digit :: "nat \<Rightarrow> char" where
  "hex_digit n = ''0123456789abcdef'' ! n"

definition hex_EncodeToString :: "string \<Rightarrow> string" where
  "hex_EncodeToString b = concat (map (\<lambda>c. [hex_digit (of_char c div 16), hex_digit (of_char c mod 16)]) b)"

definition generateTicketID :: "('r, string) wprog" where
  "generateTicketID = call rand_Read fail (\<lambda>b. ret (hex_EncodeToString b))"

definition notif_IsReady :: "'r world \<Rightarrow> (go_error option \<times> nat) \<times> 'r world" where
  "notif_IsReady w =
     (case redis_Ping w of
        (Inl rErr, w') \<Rightarrow> ((Some (ErrorString ''redis down''), 503), w')
      | (Inr _, w') \<Rightarrow> ((None, 200), w'))"

definition CreateTicket :: "'r redis_lib \<Rightarrow> int \<Rightarrow> int \<Rightarrow> ('r, string) wprog" where
  "CreateTicket R ticketTTL userId =
     call generateTicketID fail (\<lambda>ticket.
     call (redis_Set R (ticketPrefix @ ticket) (int_to_string userId) ticketTTL)
       (\<lambda>err. fail (ErrorString ''internal Server Error'')) (\<lambda>_.
     ret ticket))"

definition ConsumeTicket :: "'r redis_lib \<Rightarrow> string \<Rightarrow> ('r, int) wprog" where
  "ConsumeTicket R code =
     call (redis_GetDel R (ticketPrefix @ code))
       (\<lambda>err. if IsNil err then fail ErrTicketNotFound else fail (ErrorString ''internal Server Error''))
       (\<lambda>idString.
     case ParseInt idString of
       None \<Rightarrow> fail (ErrorString ''internal Server Error'')
     | Some userId \<Rightarrow> ret userId)"

section \<open>Handlers and routes\<close>

datatype notif_json = Alive | ReadyState bool "string option" | TicketJSON string

datatype notif_answer = Answered "notif_json http_response" | Streaming int "(string \<times> string) list"

definition notif_LiveHandler :: "gin_context \<Rightarrow> 'r world \<Rightarrow> notif_answer \<times> 'r world" where
  "notif_LiveHandler c w = (Answered (200, DataBody Alive), w)"

definition notif_ReadyHandler :: "gin_context \<Rightarrow> 'r world \<Rightarrow> notif_answer \<times> 'r world" where
  "notif_ReadyHandler c w =
     (case notif_IsReady w of
        ((Some err, code), w') \<Rightarrow> (Answered (code, DataBody (ReadyState False (Some (Error err)))), w')
      | ((None, code), w') \<Rightarrow> (Answered (code, DataBody (ReadyState True None)), w'))"

definition TicketHandler :: "'r redis_lib \<Rightarrow> int \<Rightarrow> gin_context \<Rightarrow> 'r world \<Rightarrow> notif_answer \<times> 'r world" where
  "TicketHandler R ttl c w =
     (case CreateTicket R ttl (GetUserId c) w of
        (Inl err, w') \<Rightarrow> (Answered (500, ErrorBody (Error err)), w')
      | (Inr ticket, w') \<Rightarrow> (Answered (200, DataBody (TicketJSON ticket)), w'))"

definition stream_headers :: "(string \<times> string) list" where
  "stream_headers = [(''Content-Type'', ''text/event-stream''), (''Cache-Control'', ''no-cache''),
     (''Connection'', ''keep-alive''), (''X-Accel-Buffering'', ''no'')]"

definition NotificationsHandler :: "'r redis_lib \<Rightarrow> gin_context \<Rightarrow> 'r world \<Rightarrow> notif_answer \<times> 'r world" where
  "NotificationsHandler R c w =
     (let ticket = hr_query (gc_request c) ''ticket'' in
      if ticket = [] then (Answered (400, ErrorBody ''ticket required''), w)
      else (case ConsumeTicket R ticket w of
              (Inl err, w') \<Rightarrow>
                if errors_Is err ErrTicketNotFound then (Answered (401, ErrorBody ''invalid or expired ticket''), w')
                else (Answered (500, ErrorBody (Error err)), w')
            | (Inr userId, w') \<Rightarrow> (Streaming userId stream_headers, w')))"

datatype notif_route = NotifLive | NotifReady | GetStream | PostTicket

record 'r notif_http =
  nh_redis :: "'r redis_lib"
  nh_ttl :: int
  nh_jwt :: jwt_lib
  nh_secret :: string

fun notif_chain :: "'r notif_http \<Rightarrow> notif_route \<Rightarrow> (notif_json, 'r) middleware list" where
  "notif_chain N PostTicket = [AuthMiddleware (nh_jwt N) (nh_secret N)]"
| "notif_chain N _ = []"

fun notif_route_handler :: "'r notif_http \<Rightarrow> notif_route \<Rightarrow> gin_context \<Rightarrow> 'r world \<Rightarrow> notif_answer \<times> 'r world" where
  "notif_route_handler N NotifLive = notif_LiveHandler"
| "notif_route_handler N NotifReady = notif_ReadyHandler"
| "notif_route_handler N GetStream = NotificationsHandler (nh_redis N)"
| "notif_route_handler N PostTicket = TicketHandler (nh_redis N) (nh_ttl N)"

definition notif_serve :: "'r notif_http \<Rightarrow> notif_route \<Rightarrow> http_request \<Rightarrow> 'r world \<Rightarrow> notif_answer \<times> 'r world" where
  "notif_serve N rt req w =
     (case run_chain (notif_chain N rt) (new_context False req) w of
        (Inl resp, w') \<Rightarrow> (Answered resp, w')
      | (Inr c, w') \<Rightarrow> notif_route_handler N rt c w')"

section \<open>One ticket\<close>

lemma errors_Is_sentinels [simp]:
  "errors_Is RedisNil RedisNil" "errors_Is ErrTicketNotFound ErrTicketNotFound"
  by (simp_all add: errors_Is.simps)

lemma CreateTicket_Inr:
  assumes "redis_ok R" "whole_seconds ttl" "CreateTicket R ttl u w = (Inr t, w')" "clock w \<le> n"
  shows "clock w' = clock w" "fault w' = fault w"
    "rd_Get R (ticketPrefix @ s) n (db w') =
      (if s = t then (if n < clock w + seconds ttl then Some (int_to_string u) else None)
       else rd_Get R (ticketPrefix @ s) n (db w))"
proof -
  obtain b w1 w2 where g: "generateTicketID w = (Inr b, w1)" "redis_Set R (ticketPrefix @ b) (int_to_string u) ttl w1 = (Inr (), w2)"
    "t = b" "w' = w2"
    using assms(3) unfolding CreateTicket_def by (auto simp: call_def split: prod.splits sum.splits)
  have w1: "db w1 = db w" "clock w1 = clock w" "fault w1 = fault w"
    using g(1) by (auto simp: generateTicketID_def rand_Read_def call_def outside_def split: option.splits)
  note s = redis_Set_effect [OF assms(1) g(2), unfolded w1(2), OF assms(4)]
  show "clock w' = clock w" "fault w' = fault w" using s w1 g(4) by simp_all
  show "rd_Get R (ticketPrefix @ s) n (db w') =
      (if s = t then (if n < clock w + seconds ttl then Some (int_to_string u) else None)
       else rd_Get R (ticketPrefix @ s) n (db w))"
    using s [of "ticketPrefix @ s"] assms(2) w1 g(3,4) by simp
qed

lemma CreateTicket_Inl: "CreateTicket R ttl u w = (Inl e, w') \<Longrightarrow> db w' = db w \<and> clock w' = clock w"
  by (auto simp: CreateTicket_def generateTicketID_def rand_Read_def redis_Set_def call_def outside_def
      split: option.splits prod.splits sum.splits)

lemma ConsumeTicket_effect:
  assumes "redis_ok R" "ConsumeTicket R c w = (r, w')" "clock w \<le> n"
  shows "clock w' = clock w"
    "rd_Get R (ticketPrefix @ s) n (db w') = None \<or> rd_Get R (ticketPrefix @ s) n (db w') = rd_Get R (ticketPrefix @ s) n (db w)"
    "r = Inr u \<Longrightarrow> \<exists>v. rd_Get R (ticketPrefix @ c) (clock w) (db w) = Some v \<and> ParseInt v = Some u \<and>
       rd_Get R (ticketPrefix @ c) n (db w') = None"
proof -
  obtain r1 w1 where g: "redis_GetDel R (ticketPrefix @ c) w = (r1, w1)" by (cases "redis_GetDel R (ticketPrefix @ c) w")
  note e = redis_GetDel_effect [OF assms(1) g assms(3)]
  have w': "w' = w1" using assms(2) g by (auto simp: ConsumeTicket_def call_def split: sum.splits option.splits if_splits)
  show "clock w' = clock w" using e w' by simp
  show "rd_Get R (ticketPrefix @ s) n (db w') = None \<or> rd_Get R (ticketPrefix @ s) n (db w') = rd_Get R (ticketPrefix @ s) n (db w)"
    using e [of "ticketPrefix @ s"] w' by (cases "fault w (calls w)") auto
  assume r: "r = Inr u"
  then obtain v where v: "r1 = Inr v" "ParseInt v = Some u"
    using assms(2) g by (auto simp: ConsumeTicket_def call_def split: sum.splits option.splits if_splits)
  then have "fault w (calls w) = None" using e by (cases "fault w (calls w)") auto
  then show "\<exists>v. rd_Get R (ticketPrefix @ c) (clock w) (db w) = Some v \<and> ParseInt v = Some u \<and>
       rd_Get R (ticketPrefix @ c) n (db w') = None"
    using e [of "ticketPrefix @ c"] v w' by (auto split: option.splits)
qed

lemma ConsumeTicket_reads:
  assumes "redis_ok R" "fault_free w"
  shows "\<exists>w'. ConsumeTicket R c w =
    ((case rd_Get R (ticketPrefix @ c) (clock w) (db w) of
        None \<Rightarrow> Inl ErrTicketNotFound
      | Some v \<Rightarrow> (case ParseInt v of None \<Rightarrow> Inl (ErrorString ''internal Server Error'') | Some u \<Rightarrow> Inr u)), w') \<and> fault_free w'"
proof -
  obtain r1 w1 where g: "redis_GetDel R (ticketPrefix @ c) w = (r1, w1)" by (cases "redis_GetDel R (ticketPrefix @ c) w")
  have "fault_free w1" "r1 = (case rd_Get R (ticketPrefix @ c) (clock w) (db w) of None \<Rightarrow> Inl RedisNil | Some v \<Rightarrow> Inr v)"
    using redis_GetDel_effect [OF assms(1) g order.refl] assms(2) by (simp_all add: fault_free_def)
  then show ?thesis
    using g by (auto simp: ConsumeTicket_def call_def IsNil_def split: option.splits)
qed

section \<open>All tickets\<close>

text \<open>
  The ticket service over time: tickets are issued and redeemed in any order, calls fail, time
  passes. The trace records what succeeded.
\<close>

datatype ticket_event = Issued string int | Redeemed string int

inductive tk_run :: "'r redis_lib \<Rightarrow> int \<Rightarrow> 'r world \<Rightarrow> ticket_event list \<Rightarrow> 'r world \<Rightarrow> bool"
  for R :: "'r redis_lib" and ttl :: int and w0 :: "'r world" where
  tk_start: "tk_run R ttl w0 [] w0"
| tk_issue: "tk_run R ttl w0 tr w \<Longrightarrow> int64_range u \<Longrightarrow> CreateTicket R ttl u w = (Inr t, w') \<Longrightarrow>
    tk_run R ttl w0 (tr @ [Issued t u]) w'"
| tk_issue_error: "tk_run R ttl w0 tr w \<Longrightarrow> CreateTicket R ttl u w = (Inl e, w') \<Longrightarrow> tk_run R ttl w0 tr w'"
| tk_redeem: "tk_run R ttl w0 tr w \<Longrightarrow> ConsumeTicket R t w = (Inr u, w') \<Longrightarrow>
    tk_run R ttl w0 (tr @ [Redeemed t u]) w'"
| tk_redeem_error: "tk_run R ttl w0 tr w \<Longrightarrow> ConsumeTicket R t w = (Inl e, w') \<Longrightarrow> tk_run R ttl w0 tr w'"
| tk_tick: "tk_run R ttl w0 tr w \<Longrightarrow> clock w \<le> n \<Longrightarrow> tk_run R ttl w0 tr (w\<lparr>clock := n\<rparr>)"

fun issues :: "string \<Rightarrow> ticket_event \<Rightarrow> bool" where
  "issues t (Issued t' u) = (t' = t)"
| "issues t (Redeemed t' u) = False"

fun redeems :: "string \<Rightarrow> ticket_event \<Rightarrow> bool" where
  "redeems t (Redeemed t' u) = (t' = t)"
| "redeems t (Issued t' u) = False"

definition occurrences :: "('a \<Rightarrow> bool) \<Rightarrow> 'a list \<Rightarrow> nat" where
  "occurrences p xs = length (filter p xs)"

lemma occurrences_simps [simp]:
  "occurrences p [] = 0" "occurrences p (xs @ [x]) = occurrences p xs + (if p x then 1 else 0)"
  by (simp_all add: occurrences_def)

abbreviation stored :: "'r redis_lib \<Rightarrow> 'r world \<Rightarrow> string \<Rightarrow> string option" where
  "stored R w t \<equiv> rd_Get R (ticketPrefix @ t) (clock w) (db w)"

text \<open>A stored ticket is backed by an issue that has not been redeemed yet.\<close>

definition ticket_ok :: "ticket_event list \<Rightarrow> string option \<Rightarrow> string \<Rightarrow> bool" where
  "ticket_ok tr s t \<longleftrightarrow>
     occurrences (redeems t) tr + (if s = None then 0 else 1) \<le> occurrences (issues t) tr \<and>
     (\<forall>v. s = Some v \<longrightarrow> (\<exists>u. v = int_to_string u \<and> int64_range u \<and> Issued t u \<in> set tr)) \<and>
     (\<forall>u. Redeemed t u \<in> set tr \<longrightarrow> Issued t u \<in> set tr)"

lemma ticket_ok_None: "ticket_ok tr s t \<Longrightarrow> ticket_ok tr None t"
  by (auto simp: ticket_ok_def)

lemma ticket_ok_issue:
  "ticket_ok tr s t \<Longrightarrow> int64_range u \<Longrightarrow> ticket_ok (tr @ [Issued t u]) (if b then Some (int_to_string u) else None) t"
  "ticket_ok tr s t' \<Longrightarrow> t' \<noteq> t \<Longrightarrow> ticket_ok (tr @ [Issued t u]) s t'"
  by (auto simp: ticket_ok_def split: if_splits)

lemma ticket_ok_redeem:
  "ticket_ok tr (Some v) t \<Longrightarrow> ParseInt v = Some u \<Longrightarrow> ticket_ok (tr @ [Redeemed t u]) None t"
  "ticket_ok tr s t' \<Longrightarrow> t' \<noteq> t \<Longrightarrow> ticket_ok (tr @ [Redeemed t u]) s t'"
  by (auto simp: ticket_ok_def ParseInt_int_to_string split: if_splits)

lemma tk_run_ok:
  assumes "tk_run R ttl w0 tr w" "redis_ok R" "whole_seconds ttl" "\<And>t. stored R w0 t = None"
  shows "ticket_ok tr (stored R w t) t"
  using assms(1)
proof (induction arbitrary: t)
  case tk_start
  then show ?case using assms(4) by (simp add: ticket_ok_def)
next
  case (tk_issue tr w u s w')
  note c = CreateTicket_Inr [OF assms(2,3) tk_issue.hyps(3) order.refl]
  show ?case
    unfolding c(1) c(3) [of t]
    using ticket_ok_issue(1) [OF tk_issue.IH [of s] tk_issue.hyps(2)] ticket_ok_issue(2) [OF tk_issue.IH [of t]]
    by (cases "t = s") simp_all
next
  case (tk_issue_error tr w u e w')
  then show ?case using CreateTicket_Inl [OF tk_issue_error.hyps(2)] by simp
next
  case (tk_redeem tr w s u w')
  note c = ConsumeTicket_effect [OF assms(2) tk_redeem.hyps(2) order.refl]
  obtain v where v: "stored R w s = Some v" "ParseInt v = Some u" "stored R w' s = None"
    using c(1) c(3) [OF refl] by auto
  show ?case
  proof (cases "t = s")
    case True
    then show ?thesis using tk_redeem.IH [of s] v ticket_ok_redeem(1) by simp
  next
    case False
    then show ?thesis
      using tk_redeem.IH [of t] c(1) c(2) [of t] ticket_ok_redeem(2) [OF _ False] ticket_ok_None by metis
  qed
next
  case (tk_redeem_error tr w s e w')
  note c = ConsumeTicket_effect [OF assms(2) tk_redeem_error.hyps(2) order.refl]
  show ?case using tk_redeem_error.IH [of t] c(1) c(2) [of t] ticket_ok_None by metis
next
  case (tk_tick tr w n)
  have "stored R (w\<lparr>clock := n\<rparr>) t = None \<or> stored R (w\<lparr>clock := n\<rparr>) t = stored R w t"
    using redis_expiry [OF assms(2) tk_tick.hyps(2), of "ticketPrefix @ t" "db w"]
    by (cases "rd_Get R (ticketPrefix @ t) n (db w)") auto
  then show ?case using tk_tick.IH [of t] ticket_ok_None by metis
qed

text \<open>
  C18. Tickets are single use: whatever requests arrive in whatever order, however much time
  passes and whichever calls fail, a ticket is redeemed at most as often as it was issued, and
  always for an account it was issued to. Redis starts without tickets and keeps its promise.
\<close>

theorem tickets_single_use:
  assumes "tk_run R ttl w0 tr w" "redis_ok R" "whole_seconds ttl" "\<And>t. stored R w0 t = None"
  shows "occurrences (redeems t) tr \<le> occurrences (issues t) tr \<and>
    (\<forall>u. Redeemed t u \<in> set tr \<longrightarrow> Issued t u \<in> set tr)"
  using tk_run_ok [OF assms, of t] by (simp add: ticket_ok_def)

section \<open>From a token to a stream\<close>

text \<open>
  C30. A ticket obtained with an access token opens, within its time to live, one event stream
  for the account of that token; opening a second one with it, or a first one too late, is
  answered with 401. (\<open>v\<close> is the world when the stream is requested, \<open>x\<close> a later one.)
\<close>

theorem ticket_opens_one_stream:
  fixes N :: "'r notif_http"
  assumes "redis_ok (nh_redis N)" "whole_seconds (nh_ttl N)"
    and "notif_serve N PostTicket req w = (Answered (200, DataBody (TicketJSON t)), w')" "t \<noteq> []"
    and "db v = db w'" "clock w \<le> clock v" "fault_free v" "hr_query req' ''ticket'' = t"
    and "\<forall>tok cl. VerifyAccessToken (nh_jwt N) (clock w) tok (nh_secret N) = Inr cl \<longrightarrow> int64_range (cl_AccountID cl)"
  shows "\<exists>tok cl. hr_header req ''Authorization'' = ''Bearer '' @ tok \<and>
    VerifyAccessToken (nh_jwt N) (clock w) tok (nh_secret N) = Inr cl \<and>
    (if clock v < clock w + seconds (nh_ttl N)
     then \<exists>v'. notif_serve N GetStream req' v = (Streaming (cl_AccountID cl) stream_headers, v') \<and>
       (\<forall>x. db x = db v' \<longrightarrow> clock v \<le> clock x \<longrightarrow> fault_free x \<longrightarrow>
          fst (notif_serve N GetStream req' x) = Answered (401, ErrorBody ''invalid or expired ticket''))
     else fst (notif_serve N GetStream req' v) = Answered (401, ErrorBody ''invalid or expired ticket''))"
proof -
  let ?auth = "AuthMiddleware (nh_jwt N) (nh_secret N) :: (notif_json, 'r) middleware"
  obtain c w1 where m: "?auth (new_context False req) w = (Inr c, w1)"
    "TicketHandler (nh_redis N) (nh_ttl N) c w1 = (Answered (200, DataBody (TicketJSON t)), w')"
    using assms(3) by (cases "?auth (new_context False req) w")
      (auto simp: notif_serve_def call_def unauthorized_def split: sum.splits prod.splits dest!: AuthMiddleware_Inl)
  obtain tok cl where a: "hr_header req ''Authorization'' = ''Bearer '' @ tok"
    "VerifyAccessToken (nh_jwt N) (clock w) tok (nh_secret N) = Inr cl" "w1 = w" "GetUserId c = cl_AccountID cl"
    by (rule AuthMiddleware_Inr [OF m(1)]) (auto simp: new_context_def GetUserId_def)
  have ct: "CreateTicket (nh_redis N) (nh_ttl N) (cl_AccountID cl) w = (Inr t, w')"
    using m(2) a(3,4) by (auto simp: TicketHandler_def split: prod.splits sum.splits)
  have st: "stored (nh_redis N) v t = (if clock v < clock w + seconds (nh_ttl N) then Some (int_to_string (cl_AccountID cl)) else None)"
    using CreateTicket_Inr(3) [OF assms(1,2) ct assms(6), of t] assms(5) by simp
  have refused: "fst (notif_serve N GetStream req' x) = Answered (401, ErrorBody ''invalid or expired ticket'')"
    if "fault_free x" "stored (nh_redis N) x t = None" for x
    using ConsumeTicket_reads [OF assms(1) that(1), of t] that(2) assms(4,8)
    by (auto simp: notif_serve_def NotificationsHandler_def new_context_def)
  show ?thesis
  proof (cases "clock v < clock w + seconds (nh_ttl N)")
    case True
    then obtain v' where v': "ConsumeTicket (nh_redis N) t v = (Inr (cl_AccountID cl), v')"
      using ConsumeTicket_reads [OF assms(1,7), of t] st assms(9) a(2) by (auto simp: ParseInt_int_to_string)
    have "rd_Get (nh_redis N) (ticketPrefix @ t) n (db v') = None" if "clock v \<le> n" for n
      using ConsumeTicket_effect(3) [OF assms(1) v' that refl] by blast
    then show ?thesis
      using True v' a(1,2) refused assms(4,8)
      by (intro exI [of _ tok] exI [of _ cl]) (auto simp: notif_serve_def NotificationsHandler_def new_context_def)
  next
    case False
    then show ?thesis using a(1,2) refused [OF assms(7)] st by auto
  qed
qed

section \<open>Instances\<close>

definition sample_notif_http :: "mem notif_http" where
  "sample_notif_http = \<lparr>nh_redis = mem_redis, nh_ttl = 300000000000, nh_jwt = sample_jwt, nh_secret = ''secret''\<rparr>"

definition sample_ticket :: string where
  "sample_ticket = hex_EncodeToString (nat_to_string 1)"

abbreviation empty_mem :: mem where
  "empty_mem \<equiv> (\<lambda>_. None)"

abbreviation ticket_mem :: mem where
  "ticket_mem \<equiv> empty_mem(ticketPrefix @ sample_ticket \<mapsto> (int_to_string 1, 1300))"

lemma sample_ticket_ne: "sample_ticket \<noteq> []"
  by (cases "nat_to_string 1") (simp_all add: sample_ticket_def hex_EncodeToString_def)

lemma sample_ttl: "whole_seconds 300000000000" "seconds 300000000000 = 300"
  by (simp_all add: whole_seconds_def seconds_def)

lemma sample_CreateTicket:
  "CreateTicket mem_redis 300000000000 1 (quiet_world empty_mem) = (Inr sample_ticket, (quiet_world ticket_mem)\<lparr>calls := 2\<rparr>)"
  by (simp add: CreateTicket_def generateTicketID_def rand_Read_def redis_Set_def call_def outside_def quiet_world_def
      mem_redis_def sample_ticket_def sample_ttl fun_eq_iff)

lemma sample_ConsumeTicket:
  "\<exists>w'. ConsumeTicket mem_redis sample_ticket ((quiet_world ticket_mem)\<lparr>calls := 2\<rparr>) = (Inr 1, w')"
  using ConsumeTicket_reads [OF mem_redis_ok, of "(quiet_world ticket_mem)\<lparr>calls := 2\<rparr>" sample_ticket]
  by (auto simp: fault_free_def mem_redis_def mem_get_def ParseInt_int_to_string int64_range_def)

theorem tickets_single_use_witness:
  "\<exists>w. tk_run mem_redis 300000000000 (quiet_world empty_mem) [Issued sample_ticket 1, Redeemed sample_ticket 1] w \<and>
     occurrences (redeems sample_ticket) [Issued sample_ticket 1, Redeemed sample_ticket 1] \<le>
     occurrences (issues sample_ticket) [Issued sample_ticket 1, Redeemed sample_ticket 1]"
proof -
  obtain w' where c: "ConsumeTicket mem_redis sample_ticket ((quiet_world ticket_mem)\<lparr>calls := 2\<rparr>) = (Inr 1, w')"
    using sample_ConsumeTicket by blast
  have "tk_run mem_redis 300000000000 (quiet_world empty_mem) [Issued sample_ticket 1] ((quiet_world ticket_mem)\<lparr>calls := 2\<rparr>)"
    using tk_issue [OF tk_start _ sample_CreateTicket] by (simp add: int64_range_def)
  from tk_redeem [OF this c]
  have r: "tk_run mem_redis 300000000000 (quiet_world empty_mem) [Issued sample_ticket 1, Redeemed sample_ticket 1] w'" by simp
  have "\<And>t. stored mem_redis (quiet_world empty_mem) t = None" by (simp add: mem_redis_def mem_get_def)
  from tickets_single_use [OF r mem_redis_ok sample_ttl(1) this, of sample_ticket] r show ?thesis by blast
qed

theorem ticket_opens_one_stream_witness:
  "\<exists>w' v'. notif_serve sample_notif_http PostTicket sample_request (quiet_world empty_mem) =
      (Answered (200, DataBody (TicketJSON sample_ticket)), w') \<and>
    notif_serve sample_notif_http GetStream (sample_request\<lparr>hr_query := (\<lambda>_. sample_ticket)\<rparr>) w' = (Streaming 1 stream_headers, v')"
proof -
  let ?w = "quiet_world empty_mem" and ?w' = "(quiet_world ticket_mem)\<lparr>calls := 2\<rparr>"
  have V: "VerifyAccessToken sample_jwt 1000 ''token'' ''secret'' = Inr sample_claims"
    by (simp add: VerifyAccessToken_def sample_jwt_def hmac_keyfunc_def)
  have m: "(AuthMiddleware sample_jwt ''secret'' :: (notif_json, mem) middleware) (new_context False sample_request) ?w =
      (Inr ((new_context False sample_request)\<lparr>gc_account_id := Some 1, gc_session_id := Some ''s1''\<rparr>), ?w)"
    using AuthMiddleware_accepts [of "new_context False sample_request" "''token''" sample_jwt ?w "''secret''" sample_claims] V
    by (simp add: new_context_def sample_request_def sample_claims_def)
  then have s: "notif_serve sample_notif_http PostTicket sample_request ?w = (Answered (200, DataBody (TicketJSON sample_ticket)), ?w')"
    by (simp add: notif_serve_def sample_notif_http_def call_def TicketHandler_def GetUserId_def sample_CreateTicket)
  have r: "redis_ok (nh_redis sample_notif_http)" "whole_seconds (nh_ttl sample_notif_http)" "fault_free ?w'"
    using mem_redis_ok sample_ttl(1) by (simp_all add: sample_notif_http_def fault_free_def)
  have "\<forall>tok cl. VerifyAccessToken (nh_jwt sample_notif_http) (clock ?w) tok (nh_secret sample_notif_http) = Inr cl \<longrightarrow>
      int64_range (cl_AccountID cl)"
    by (auto simp: VerifyAccessToken_def sample_jwt_def sample_notif_http_def sample_claims_def int64_range_def
        split: if_splits)
  from ticket_opens_one_stream [OF r(1,2) s sample_ticket_ne refl _ r(3) _ this, of "sample_request\<lparr>hr_query := (\<lambda>_. sample_ticket)\<rparr>"]
  obtain tok cl v' where "hr_header sample_request ''Authorization'' = ''Bearer '' @ tok"
    "VerifyAccessToken sample_jwt 1000 tok ''secret'' = Inr cl"
    "notif_serve sample_notif_http GetStream (sample_request\<lparr>hr_query := (\<lambda>_. sample_ticket)\<rparr>) ?w' = (Streaming (cl_AccountID cl) stream_headers, v')"
    by (auto simp: sample_notif_http_def sample_ttl)
  moreover from this have "tok = ''token''" by (simp add: sample_request_def)
  ultimately show ?thesis using s V by (auto simp: sample_claims_def)
qed

end
