(* ===== verification/Hub.thy ===== *)
theory Hub
  imports Redis "HOL-Library.Sublist"
begin

text \<open>
  \<^verbatim>\<open>pkg/hub\<close>: the table of open event streams of one notification process, its methods, and
  the goroutines that use it, as a step relation. Channels live in a store because the table,
  the stream handlers and the listener share them. A Go panic is the value \<open>None\<close>. Results of
  the Redis commands are ignored, as in the source. The listener looks a channel up under the
  lock and sends to it after releasing the lock, so the two are separate steps; so are the
  snapshot of the heartbeat and each refresh.
\<close>

section \<open>Channels\<close>

record chan =
  ch_buf :: "string list"
  ch_closed :: bool

record hub =
  online :: "string \<Rightarrow> nat option"
  chans :: "nat \<Rightarrow> chan"
  next_chan :: nat

definition onlinePrefix :: string where "onlinePrefix = ''online:''"
definition notifyPrefix :: string where "notifyPrefix = ''notify:''"
definition onlineTTL :: int where "onlineTTL = 30 * 1000000000"
definition chan_cap :: nat where "chan_cap = 10"

definition NewHub :: hub where
  "NewHub = \<lparr>online = (\<lambda>_. None), chans = (\<lambda>_. \<lparr>ch_buf = [], ch_closed = False\<rparr>), next_chan = 0\<rparr>"

text \<open>\<^verbatim>\<open>make(chan string, 10)\<close>, \<^verbatim>\<open>close\<close>, and a send that does not wait.\<close>

definition make_chan :: "hub \<Rightarrow> nat \<times> hub" where
  "make_chan h = (next_chan h, h\<lparr>chans := (chans h)(next_chan h := \<lparr>ch_buf = [], ch_closed = False\<rparr>),
     next_chan := Suc (next_chan h)\<rparr>)"

definition close_chan :: "nat \<Rightarrow> hub \<Rightarrow> hub option" where
  "close_chan c h = (if ch_closed (chans h c) then None
     else Some (h\<lparr>chans := (chans h)(c := (chans h c)\<lparr>ch_closed := True\<rparr>)\<rparr>))"

definition listener_send :: "nat \<Rightarrow> string \<Rightarrow> hub \<Rightarrow> hub option" where
  "listener_send c payload h =
     (if ch_closed (chans h c) then None
      else if length (ch_buf (chans h c)) < chan_cap
      then Some (h\<lparr>chans := (chans h)(c := (chans h c)\<lparr>ch_buf := ch_buf (chans h c) @ [payload]\<rparr>)\<rparr>)
      else Some h)"

datatype stream_read = Got string hub | Ended | Waiting

definition stream_recv :: "nat \<Rightarrow> hub \<Rightarrow> stream_read" where
  "stream_recv c h =
     (case ch_buf (chans h c) of
        m # ms \<Rightarrow> Got m (h\<lparr>chans := (chans h)(c := (chans h c)\<lparr>ch_buf := ms\<rparr>)\<rparr>)
      | [] \<Rightarrow> if ch_closed (chans h c) then Ended else Waiting)"

section \<open>Methods\<close>

definition Connect :: "'r redis_lib \<Rightarrow> string \<Rightarrow> hub \<times> 'r world \<Rightarrow> (nat \<times> hub \<times> 'r world) option" where
  "Connect R userID s =
     (case s of (h, w) \<Rightarrow>
      case make_chan h of (ch, h1) \<Rightarrow>
      case (case online h1 userID of Some oldCh \<Rightarrow> close_chan oldCh h1 | None \<Rightarrow> Some h1) of
        None \<Rightarrow> None
      | Some h2 \<Rightarrow> Some (ch, h2\<lparr>online := (online h2)(userID \<mapsto> ch)\<rparr>,
          snd (redis_Set R (onlinePrefix @ userID) ''1'' onlineTTL w)))"

definition Disconnect :: "'r redis_lib \<Rightarrow> string \<Rightarrow> hub \<times> 'r world \<Rightarrow> hub \<times> 'r world" where
  "Disconnect R userID s =
     (case s of (h, w) \<Rightarrow> (h\<lparr>online := (online h)(userID := None)\<rparr>, snd (redis_Del R (onlinePrefix @ userID) w)))"

definition IsOnline :: "'r redis_lib \<Rightarrow> string \<Rightarrow> 'r world \<Rightarrow> bool \<times> 'r world" where
  "IsOnline R userID w =
     (case redis_Get R (onlinePrefix @ userID) w of (Inl err, w') \<Rightarrow> (False, w') | (Inr val, w') \<Rightarrow> (val = ''1'', w'))"

definition Hub_Publish :: "'r redis_lib \<Rightarrow> string \<Rightarrow> string \<Rightarrow> 'r world \<Rightarrow> 'r world" where
  "Hub_Publish R userID msg w = snd (redis_Publish R (notifyPrefix @ userID) msg w)"

definition listener_lookup :: "string \<Rightarrow> string \<Rightarrow> hub \<Rightarrow> (nat \<times> string) option" where
  "listener_lookup channel payload h =
     (let userID = TrimPrefix channel notifyPrefix in
      case online h userID of Some ch \<Rightarrow> Some (ch, payload) | None \<Rightarrow> None)"

definition heartbeat :: "'r redis_lib \<Rightarrow> string \<Rightarrow> 'r world \<Rightarrow> 'r world" where
  "heartbeat R userID w = snd (redis_Set R (onlinePrefix @ userID) ''1'' onlineTTL w)"

text \<open>\<^verbatim>\<open>Close\<close> visits the table in the order the runtime chooses, the argument.\<close>

fun Hub_Close :: "'r redis_lib \<Rightarrow> string list \<Rightarrow> hub \<times> 'r world \<Rightarrow> (hub \<times> 'r world) option" where
  "Hub_Close R [] s = Some s"
| "Hub_Close R (userID # userIDs) (h, w) =
     (case online h userID of
        None \<Rightarrow> Hub_Close R userIDs (h, w)
      | Some ch \<Rightarrow>
          (case close_chan ch h of
             None \<Rightarrow> None
           | Some h1 \<Rightarrow> Hub_Close R userIDs (h1\<lparr>online := (online h1)(userID := None)\<rparr>,
               snd (redis_Del R (onlinePrefix @ userID) w))))"

section \<open>The process\<close>

text \<open>
  Streams that are being served, with their users; what each has written to its client; the
  message the listener holds; the messages it has received; the users the current heartbeat
  still has to refresh. \<open>hs_owner\<close> remembers for whom a channel was made.
\<close>

record 'r hub_sys =
  hs_hub :: hub
  hs_world :: "'r world"
  hs_streams :: "nat \<Rightarrow> string option"
  hs_owner :: "nat \<Rightarrow> string"
  hs_out :: "nat \<Rightarrow> string list"
  hs_held :: "(nat \<times> string) option"
  hs_received :: "(string \<times> string) list"
  hs_beat :: "string list"

definition hub_start :: "'r world \<Rightarrow> 'r hub_sys" where
  "hub_start w = \<lparr>hs_hub = NewHub, hs_world = w, hs_streams = (\<lambda>_. None), hs_owner = (\<lambda>_. []), hs_out = (\<lambda>_. []),
     hs_held = None, hs_received = [], hs_beat = []\<rparr>"

inductive hub_step :: "'r redis_lib \<Rightarrow> 'r hub_sys \<Rightarrow> 'r hub_sys \<Rightarrow> bool" for R :: "'r redis_lib" where
  hub_connect: "Connect R u (hs_hub s, hs_world s) = Some (c, h, w) \<Longrightarrow>
    hub_step R s (s\<lparr>hs_hub := h, hs_world := w, hs_streams := (hs_streams s)(c \<mapsto> u), hs_owner := (hs_owner s)(c := u)\<rparr>)"
| hub_read: "hs_streams s c = Some u \<Longrightarrow> stream_recv c (hs_hub s) = Got m h \<Longrightarrow>
    hub_step R s (s\<lparr>hs_hub := h, hs_out := (hs_out s)(c := hs_out s c @ [m])\<rparr>)"
| hub_leave: "hs_streams s c = Some u \<Longrightarrow> Disconnect R u (hs_hub s, hs_world s) = (h, w) \<Longrightarrow>
    hub_step R s (s\<lparr>hs_hub := h, hs_world := w, hs_streams := (hs_streams s)(c := None)\<rparr>)"
| hub_listen: "hs_held s = None \<Longrightarrow>
    hub_step R s (s\<lparr>hs_received := hs_received s @ [(channel, payload)], hs_held := listener_lookup channel payload (hs_hub s)\<rparr>)"
| hub_send: "hs_held s = Some (c, m) \<Longrightarrow> listener_send c m (hs_hub s) = Some h \<Longrightarrow>
    hub_step R s (s\<lparr>hs_hub := h, hs_held := None\<rparr>)"
| hub_beat: "hs_beat s = [] \<Longrightarrow> set us = dom (online (hs_hub s)) \<Longrightarrow> distinct us \<Longrightarrow> hub_step R s (s\<lparr>hs_beat := us\<rparr>)"
| hub_refresh: "hs_beat s = u # us \<Longrightarrow> hub_step R s (s\<lparr>hs_world := heartbeat R u (hs_world s), hs_beat := us\<rparr>)"
| hub_close: "set us = dom (online (hs_hub s)) \<Longrightarrow> distinct us \<Longrightarrow> Hub_Close R us (hs_hub s, hs_world s) = Some (h, w) \<Longrightarrow>
    hub_step R s (s\<lparr>hs_hub := h, hs_world := w\<rparr>)"
| hub_tick: "clock (hs_world s) \<le> n \<Longrightarrow> hub_step R s (s\<lparr>hs_world := (hs_world s)\<lparr>clock := n\<rparr>\<rparr>)"

abbreviation hub_steps :: "'r redis_lib \<Rightarrow> 'r hub_sys \<Rightarrow> 'r hub_sys \<Rightarrow> bool" where
  "hub_steps R \<equiv> (hub_step R)\<^sup>*\<^sup>*"

section \<open>Invariant\<close>

text \<open>A channel in the table is open and belongs to its user; buffers respect the capacity.\<close>

definition hub_ok :: "hub \<Rightarrow> (nat \<Rightarrow> string) \<Rightarrow> bool" where
  "hub_ok h owner \<longleftrightarrow>
     (\<forall>u c. online h u = Some c \<longrightarrow> c < next_chan h \<and> \<not> ch_closed (chans h c) \<and> owner c = u) \<and>
     (\<forall>c. length (ch_buf (chans h c)) \<le> chan_cap) \<and>
     (\<forall>c. next_chan h \<le> c \<longrightarrow> ch_buf (chans h c) = [])"

definition msgs_for :: "string \<Rightarrow> (string \<times> string) list \<Rightarrow> string list" where
  "msgs_for u rcv = map snd (filter (\<lambda>m. TrimPrefix (fst m) notifyPrefix = u) rcv)"

definition held_for :: "nat \<Rightarrow> 'r hub_sys \<Rightarrow> string list" where
  "held_for c s = (case hs_held s of Some (c', m) \<Rightarrow> if c' = c then [m] else [] | None \<Rightarrow> [])"

text \<open>What a stream has written, has buffered, and is about to get.\<close>

definition carried :: "nat \<Rightarrow> 'r hub_sys \<Rightarrow> string list" where
  "carried c s = hs_out s c @ ch_buf (chans (hs_hub s) c) @ held_for c s"

definition hub_inv :: "'r hub_sys \<Rightarrow> bool" where
  "hub_inv s \<longleftrightarrow> hub_ok (hs_hub s) (hs_owner s) \<and>
     (\<forall>c u. hs_streams s c = Some u \<longrightarrow> c < next_chan (hs_hub s) \<and> hs_owner s c = u) \<and>
     (\<forall>c m. hs_held s = Some (c, m) \<longrightarrow> c < next_chan (hs_hub s)) \<and>
     (\<forall>c. next_chan (hs_hub s) \<le> c \<longrightarrow> hs_out s c = []) \<and>
     (\<forall>c. subseq (carried c s) (msgs_for (hs_owner s c) (hs_received s)))"

lemma hub_start_inv: "hub_inv (hub_start w)"
  by (simp add: hub_inv_def hub_ok_def hub_start_def NewHub_def carried_def held_for_def)

text \<open>The table's channels are open, so no method closes a channel twice.\<close>

lemma hub_okD:
  assumes "hub_ok h ow" "online h u = Some c"
  shows "c < next_chan h" "\<not> ch_closed (chans h c)" "ow c = u"
  using assms by (auto simp: hub_ok_def)

lemma hub_okI:
  assumes "\<And>u c. online h u = Some c \<Longrightarrow> c < next_chan h \<and> \<not> ch_closed (chans h c) \<and> ow c = u"
    and "\<And>c. length (ch_buf (chans h c)) \<le> chan_cap" "\<And>c. next_chan h \<le> c \<Longrightarrow> ch_buf (chans h c) = []"
  shows "hub_ok h ow"
  using assms by (simp add: hub_ok_def)

lemma hub_ok_buf:
  assumes "hub_ok h ow"
  shows "length (ch_buf (chans h c)) \<le> chan_cap" "next_chan h \<le> c \<Longrightarrow> ch_buf (chans h c) = []"
  using assms by (simp_all add: hub_ok_def)

lemma Connect_ok:
  assumes "hub_ok h ow"
  shows "\<exists>h' w'. Connect R u (h, w) = Some (next_chan h, h', w') \<and> hub_ok h' (ow(next_chan h := u)) \<and>
    next_chan h' = Suc (next_chan h) \<and> (\<forall>c. ch_buf (chans h' c) = ch_buf (chans h c)) \<and>
    online h' = (online h)(u \<mapsto> next_chan h)"
proof -
  let ?n = "next_chan h"
  define cs where "cs = (case online h u of None \<Rightarrow> chans h | Some old \<Rightarrow> (chans h)(old := (chans h old)\<lparr>ch_closed := True\<rparr>))"
  define h' where "h' = h\<lparr>chans := cs(?n := \<lparr>ch_buf = [], ch_closed = False\<rparr>), next_chan := Suc ?n, online := (online h)(u \<mapsto> ?n)\<rparr>"
  have old: "old \<noteq> ?n" "\<not> ch_closed (chans h old)" if "online h u = Some old" for old
    using hub_okD [OF assms that] by auto
  then have "\<exists>w'. Connect R u (h, w) = Some (?n, h', w')"
    by (cases "online h u") (auto simp: Connect_def make_chan_def close_chan_def h'_def cs_def fun_upd_twist)
  moreover have buf: "ch_buf (chans h' c) = ch_buf (chans h c)" for c
    using hub_ok_buf(2) [OF assms, of ?n] by (auto simp: h'_def cs_def split: option.splits)
  moreover have others: "\<not> ch_closed (cs c) \<and> c < ?n \<and> ow c = v" if "online h v = Some c" "v \<noteq> u" for v c
    using hub_okD [OF assms that(1)] that(2) hub_okD(3) [OF assms, of u] by (auto simp: cs_def split: option.splits)
  have "hub_ok h' (ow(?n := u))"
  proof (rule hub_okI)
    fix v c assume "online h' v = Some c"
    then show "c < next_chan h' \<and> \<not> ch_closed (chans h' c) \<and> (ow(?n := u)) c = v"
      using others [of v c] by (auto simp: h'_def split: if_splits)
  next
    fix c show "length (ch_buf (chans h' c)) \<le> chan_cap" "next_chan h' \<le> c \<Longrightarrow> ch_buf (chans h' c) = []"
      unfolding buf using hub_ok_buf [OF assms, of c] by (simp_all add: h'_def)
  qed
  ultimately show ?thesis by (auto simp: h'_def)
qed

lemma Disconnect_ok:
  assumes "hub_ok h ow" "Disconnect R u (h, w) = (h', w')"
  shows "hub_ok h' ow \<and> next_chan h' = next_chan h \<and> chans h' = chans h \<and> online h' = (online h)(u := None)"
proof -
  have h': "h' = h\<lparr>online := (online h)(u := None)\<rparr>" using assms(2) by (simp add: Disconnect_def)
  have "hub_ok h' ow"
    using hub_okD [OF assms(1)] hub_ok_buf [OF assms(1)] by (intro hub_okI) (simp_all add: h' split: if_splits)
  then show ?thesis by (simp add: h')
qed

lemma Hub_Close_ok:
  assumes "hub_ok h ow"
  shows "\<exists>h' w'. Hub_Close R us (h, w) = Some (h', w') \<and> hub_ok h' ow \<and> next_chan h' = next_chan h \<and>
    (\<forall>c. ch_buf (chans h' c) = ch_buf (chans h c)) \<and> dom (online h') \<subseteq> dom (online h) - set us \<and>
    (\<forall>u c. online h' u = Some c \<longrightarrow> online h u = Some c)"
  using assms
proof (induction us arbitrary: h w)
  case (Cons u us)
  show ?case
  proof (cases "online h u")
    case None
    then show ?thesis using Cons.IH [OF Cons.prems, of w] by (fastforce simp: dom_def)
  next
    case (Some c)
    define h1 where "h1 = h\<lparr>chans := (chans h)(c := (chans h c)\<lparr>ch_closed := True\<rparr>), online := (online h)(u := None)\<rparr>"
    have c: "\<not> ch_closed (chans h c)" "ow c = u" using Cons.prems Some by (auto simp: hub_ok_def)
    have ok: "hub_ok h1 ow"
      using hub_okD [OF Cons.prems] hub_ok_buf [OF Cons.prems] c(2)
      by (intro hub_okI) (auto simp: h1_def split: if_splits)
    have step: "Hub_Close R (u # us) (h, w) = Hub_Close R us (h1, snd (redis_Del R (onlinePrefix @ u) w))"
      using Some c(1) by (simp add: close_chan_def h1_def)
    show ?thesis
      unfolding step using Cons.IH [OF ok, of "snd (redis_Del R (onlinePrefix @ u) w)"]
      by (auto simp: h1_def dom_def split: if_splits)
  qed
qed auto

section \<open>Every step keeps it\<close>

lemma hub_ok_set_buf:
  assumes "hub_ok h ow" "length b \<le> chan_cap" "c < next_chan h"
  shows "hub_ok (h\<lparr>chans := (chans h)(c := (chans h c)\<lparr>ch_buf := b\<rparr>)\<rparr>) ow"
  using hub_okD [OF assms(1)] hub_ok_buf [OF assms(1)] assms(2,3) by (intro hub_okI) auto

lemma hub_invI:
  assumes "hub_ok (hs_hub s) (hs_owner s)"
    and "\<And>c u. hs_streams s c = Some u \<Longrightarrow> c < next_chan (hs_hub s) \<and> hs_owner s c = u"
    and "\<And>c m. hs_held s = Some (c, m) \<Longrightarrow> c < next_chan (hs_hub s)"
    and "\<And>c. next_chan (hs_hub s) \<le> c \<Longrightarrow> hs_out s c = []"
    and "\<And>c. subseq (carried c s) (msgs_for (hs_owner s c) (hs_received s))"
  shows "hub_inv s"
  using assms by (simp add: hub_inv_def)

lemma hub_invD:
  assumes "hub_inv s"
  shows "hub_ok (hs_hub s) (hs_owner s)"
    "hs_streams s c = Some u \<Longrightarrow> c < next_chan (hs_hub s) \<and> hs_owner s c = u"
    "hs_held s = Some (c, m) \<Longrightarrow> c < next_chan (hs_hub s)"
    "next_chan (hs_hub s) \<le> c \<Longrightarrow> hs_out s c = []"
    "subseq (carried c s) (msgs_for (hs_owner s c) (hs_received s))"
  using assms by (simp_all add: hub_inv_def)

lemma carried_fresh: "hub_inv s \<Longrightarrow> next_chan (hs_hub s) \<le> c \<Longrightarrow> carried c s = []"
  using hub_invD(3,4) [of s] hub_ok_buf(2) [OF hub_invD(1)]
  by (fastforce simp: carried_def held_for_def split: option.splits)

lemma msgs_for_snoc:
  "msgs_for u (rcv @ [(ch, m)]) = msgs_for u rcv @ (if TrimPrefix ch notifyPrefix = u then [m] else [])"
  by (simp add: msgs_for_def)

text \<open>Steps that change neither what streams carry nor their owners.\<close>

lemma hub_inv_frame:
  assumes "hub_inv s" "hub_ok (hs_hub s') (hs_owner s)" "next_chan (hs_hub s') = next_chan (hs_hub s)"
    and "\<And>c. ch_buf (chans (hs_hub s') c) = ch_buf (chans (hs_hub s) c)" "hs_owner s' = hs_owner s"
    and "\<And>c u. hs_streams s' c = Some u \<Longrightarrow> hs_streams s c = Some u" "hs_out s' = hs_out s" "hs_held s' = hs_held s"
      "hs_received s' = hs_received s"
  shows "hub_inv s'"
proof -
  have "carried c s' = carried c s" for c using assms(4,7,8) by (simp add: carried_def held_for_def)
  moreover have "c < next_chan (hs_hub s')" if "hs_held s' = Some (c, m)" for c m
    using that assms(3,8) hub_invD(3) [OF assms(1)] by simp
  ultimately show ?thesis
    using assms(2-7,9) hub_invD(2,4,5) [OF assms(1)] by (intro hub_invI) simp_all
qed

lemma hub_step_inv:
  assumes "hub_step R s s'" "hub_inv s"
  shows "hub_inv s'"
  using assms(1)
proof cases
  case (hub_connect u c h w)
  obtain h' w' where k: "Connect R u (hs_hub s, hs_world s) = Some (next_chan (hs_hub s), h', w')"
    "hub_ok h' ((hs_owner s)(next_chan (hs_hub s) := u))" "next_chan h' = Suc (next_chan (hs_hub s))"
    "\<forall>c. ch_buf (chans h' c) = ch_buf (chans (hs_hub s) c)"
    using Connect_ok [OF hub_invD(1) [OF assms(2)]] by blast
  then have c: "c = next_chan (hs_hub s)" "h = h'" using hub_connect(2) by auto
  have car: "carried x s' = carried x s" for x using k(4) c by (simp add: hub_connect(1) carried_def held_for_def)
  show ?thesis
  proof (rule hub_invI)
    fix x show "subseq (carried x s') (msgs_for (hs_owner s' x) (hs_received s'))"
      unfolding car using hub_invD(5) [OF assms(2), of x] carried_fresh [OF assms(2), of x]
      by (cases "x = c") (simp_all add: hub_connect(1) c)
  qed (use k c hub_invD [OF assms(2)] in \<open>auto simp: hub_connect(1) less_Suc_eq split: if_splits\<close>)
next
  case (hub_read c u m h)
  obtain ms where b: "ch_buf (chans (hs_hub s) c) = m # ms"
    and h: "h = (hs_hub s)\<lparr>chans := (chans (hs_hub s))(c := (chans (hs_hub s) c)\<lparr>ch_buf := ms\<rparr>)\<rparr>"
    using hub_read(3) by (auto simp: stream_recv_def split: list.splits if_splits)
  have car: "carried x s' = carried x s" for x
    using b by (simp add: hub_read(1) h carried_def held_for_def)
  have "hub_ok h (hs_owner s)"
    using hub_ok_buf(1) [OF hub_invD(1) [OF assms(2)], of c] hub_invD(2) [OF assms(2) hub_read(2)] b
    unfolding h by (intro hub_ok_set_buf hub_invD(1) [OF assms(2)]) simp_all
  then show ?thesis
    using hub_invD [OF assms(2)] hub_invD(2) [OF assms(2) hub_read(2)] car [unfolded hub_read(1) h]
    by (intro hub_invI) (auto simp: hub_read(1) h)
next
  case (hub_leave c u h w)
  then show ?thesis
    using Disconnect_ok [OF hub_invD(1) [OF assms(2)] hub_leave(3)]
    by (intro hub_inv_frame [OF assms(2)]) (auto split: if_splits)
next
  case (hub_listen channel payload)
  let ?u = "TrimPrefix channel notifyPrefix"
  have look: "listener_lookup channel payload (hs_hub s) = Some (c, m) \<Longrightarrow>
      online (hs_hub s) ?u = Some c \<and> m = payload" for c m
    by (auto simp: listener_lookup_def Let_def split: option.splits)
  show ?thesis
  proof (rule hub_invI)
    fix x
    have 0: "carried x s = hs_out s x @ ch_buf (chans (hs_hub s) x)" using hub_listen(2) by (simp add: carried_def held_for_def)
    show "subseq (carried x s') (msgs_for (hs_owner s' x) (hs_received s'))"
    proof (cases "held_for x s' = []")
      case True
      then have "carried x s' = carried x s" unfolding 0 by (simp add: hub_listen(1) carried_def)
      then show ?thesis
        using hub_invD(5) [OF assms(2), of x] by (simp add: hub_listen(1) msgs_for_snoc subseq_rev_drop_many)
    next
      case False
      then have o': "online (hs_hub s) ?u = Some x" "held_for x s' = [payload]"
        using look by (auto simp: held_for_def hub_listen(1) split: option.splits if_splits)
      then have "hs_owner s x = ?u" using hub_okD(3) [OF hub_invD(1) [OF assms(2)]] by simp
      moreover have "carried x s' = carried x s @ [payload]" unfolding 0 using o'(2) by (simp add: hub_listen(1) carried_def)
      ultimately show ?thesis
        using hub_invD(5) [OF assms(2), of x] by (simp add: hub_listen(1) msgs_for_snoc list_emb_append_mono)
    qed
  qed (use hub_invD [OF assms(2)] hub_okD(1) [OF hub_invD(1) [OF assms(2)]] look in \<open>auto simp: hub_listen(1)\<close>)
next
  case (hub_send c m h)
  have ok: "hub_ok (hs_hub s) (hs_owner s)" using assms(2) by (rule hub_invD)
  have c: "c < next_chan (hs_hub s)" using hub_invD(3) [OF assms(2)] hub_send(2) by simp
  show ?thesis
  proof (cases "length (ch_buf (chans (hs_hub s) c)) < chan_cap")
    case True
    then have h: "h = (hs_hub s)\<lparr>chans := (chans (hs_hub s))(c := (chans (hs_hub s) c)\<lparr>ch_buf := ch_buf (chans (hs_hub s) c) @ [m]\<rparr>)\<rparr>"
      using hub_send(3) by (auto simp: listener_send_def split: if_splits)
    have "carried x s' = carried x s" for x using hub_send(2) by (simp add: hub_send(1) h carried_def held_for_def)
    moreover have "hub_ok h (hs_owner s)"
      unfolding h using True c by (intro hub_ok_set_buf ok) simp_all
    ultimately show ?thesis
      using hub_invD [OF assms(2)] by (intro hub_invI) (auto simp: hub_send(1) h)
  next
    case False
    then have h: "h = hs_hub s" using hub_send(3) by (auto simp: listener_send_def split: if_splits)
    have "carried x s = carried x s' @ held_for x s" for x by (simp add: hub_send(1) h carried_def held_for_def)
    then have "subseq (carried x s') (carried x s)" for x by (simp add: subseq_rev_drop_many)
    then have "subseq (carried x s') (msgs_for (hs_owner s x) (hs_received s))" for x
      using hub_invD(5) [OF assms(2)] subseq_order.trans by blast
    then show ?thesis
      using hub_invD(1-4) [OF assms(2)] by (intro hub_invI) (simp_all add: hub_send(1) h)
  qed
next
  case (hub_close us h w)
  obtain h' w' where "Hub_Close R us (hs_hub s, hs_world s) = Some (h', w')" "hub_ok h' (hs_owner s)"
    "next_chan h' = next_chan (hs_hub s)" "\<forall>c. ch_buf (chans h' c) = ch_buf (chans (hs_hub s) c)"
    using Hub_Close_ok [OF hub_invD(1) [OF assms(2)]] by blast
  then show ?thesis using hub_close by (intro hub_inv_frame [OF assms(2)]) auto
qed (use hub_invD(1) [OF assms(2)] in \<open>auto intro!: hub_inv_frame [OF assms(2)]\<close>)

lemma hub_steps_inv: "hub_steps R s s' \<Longrightarrow> hub_inv s \<Longrightarrow> hub_inv s'"
  by (induction rule: rtranclp_induct) (auto intro: hub_step_inv)

section \<open>Theorems\<close>

text \<open>
  C19. A stream shows its user's messages, in order, each at most once, and nothing else:
  whatever the interleaving of connections, departures, messages, heartbeats and shutdown,
  what a stream has written and buffered is a subsequence of the messages received for its
  user, and its buffer never exceeds ten messages.
\<close>

theorem hub_streams_in_order:
  assumes "hub_steps R (hub_start w) s" "hs_streams s c = Some u"
  shows "subseq (hs_out s c @ ch_buf (chans (hs_hub s) c)) (msgs_for u (hs_received s)) \<and>
    length (ch_buf (chans (hs_hub s) c)) \<le> 10"
proof -
  have inv: "hub_inv s" using hub_steps_inv [OF assms(1) hub_start_inv] .
  have "carried c s = (hs_out s c @ ch_buf (chans (hs_hub s) c)) @ held_for c s" by (simp add: carried_def)
  then have "subseq (hs_out s c @ ch_buf (chans (hs_hub s) c)) (carried c s)"
    by (simp only: subseq_rev_drop_many subseq_order.order_refl)
  then show ?thesis
    using hub_invD(5) [OF inv, of c] hub_invD(2) [OF inv assms(2)] hub_ok_buf(1) [OF hub_invD(1) [OF inv], of c]
    by (auto simp: chan_cap_def intro: subseq_order.trans)
qed

text \<open>
  No channel is closed twice: in every reachable state connecting a user and shutting the
  hub down succeed without a panic; afterwards the table holds the new connection, or nothing.
\<close>

theorem hub_never_closes_twice:
  assumes "hub_steps R (hub_start w) s" "set us = dom (online (hs_hub s))"
  shows "(\<exists>c h w'. Connect R u (hs_hub s, hs_world s) = Some (c, h, w') \<and> online h u = Some c \<and> hs_streams s c = None) \<and>
    (\<exists>h w'. Hub_Close R us (hs_hub s, hs_world s) = Some (h, w') \<and> online h = (\<lambda>_. None))"
proof -
  have inv: "hub_inv s" using hub_steps_inv [OF assms(1) hub_start_inv] .
  obtain h w' where "Connect R u (hs_hub s, hs_world s) = Some (next_chan (hs_hub s), h, w')"
    "online h = (online (hs_hub s))(u \<mapsto> next_chan (hs_hub s))"
    using Connect_ok [OF hub_invD(1) [OF inv]] by blast
  moreover have "hs_streams s (next_chan (hs_hub s)) = None"
    using hub_invD(2) [OF inv, of "next_chan (hs_hub s)"] by (cases "hs_streams s (next_chan (hs_hub s))") auto
  moreover obtain h2 w2 where "Hub_Close R us (hs_hub s, hs_world s) = Some (h2, w2)" "dom (online h2) \<subseteq> {}"
    using Hub_Close_ok [OF hub_invD(1) [OF inv], of R us "hs_world s"] assms(2) by auto
  ultimately show ?thesis by auto
qed

section \<open>A user who reconnects\<close>

text \<open>A channel that is neither in the table nor held by the listener stays as it is.\<close>

definition cut_off :: "nat \<Rightarrow> string list \<Rightarrow> 'r hub_sys \<Rightarrow> bool" where
  "cut_off c ms s \<longleftrightarrow> c < next_chan (hs_hub s) \<and> (\<forall>u. online (hs_hub s) u \<noteq> Some c) \<and> carried c s = ms \<and> held_for c s = []"

lemma hub_step_cut_off:
  assumes "hub_step R s s'" "hub_inv s" "cut_off c ms s"
  shows "cut_off c ms s'"
  using assms(1)
proof cases
  case (hub_connect u c' h w)
  obtain h' w' where "Connect R u (hs_hub s, hs_world s) = Some (next_chan (hs_hub s), h', w')"
    "next_chan h' = Suc (next_chan (hs_hub s))" "\<forall>c. ch_buf (chans h' c) = ch_buf (chans (hs_hub s) c)"
    "online h' = (online (hs_hub s))(u \<mapsto> next_chan (hs_hub s))"
    using Connect_ok [OF hub_invD(1) [OF assms(2)]] by blast
  then show ?thesis
    using assms(3) hub_connect by (auto simp: cut_off_def carried_def held_for_def split: if_splits)
next
  case (hub_read c' u m h)
  then show ?thesis
    using assms(3) by (auto simp: cut_off_def carried_def held_for_def stream_recv_def split: list.splits if_splits)
next
  case (hub_leave c' u h w)
  then show ?thesis
    using Disconnect_ok [OF hub_invD(1) [OF assms(2)] hub_leave(3)] assms(3)
    by (auto simp: cut_off_def carried_def held_for_def split: if_splits)
next
  case (hub_listen channel payload)
  then show ?thesis
    using assms(3) by (auto simp: cut_off_def carried_def held_for_def listener_lookup_def Let_def split: option.splits)
next
  case (hub_send c' m h)
  then have "c' \<noteq> c" using assms(3) by (auto simp: cut_off_def held_for_def)
  then show ?thesis
    using assms(3) hub_send by (auto simp: cut_off_def carried_def held_for_def listener_send_def split: if_splits)
next
  case (hub_close us h w)
  obtain h' w' where "Hub_Close R us (hs_hub s, hs_world s) = Some (h', w')"
    "next_chan h' = next_chan (hs_hub s)" "\<forall>c. ch_buf (chans h' c) = ch_buf (chans (hs_hub s) c)"
    "\<forall>u c. online h' u = Some c \<longrightarrow> online (hs_hub s) u = Some c"
    using Hub_Close_ok [OF hub_invD(1) [OF assms(2)]] by blast
  moreover from this have "\<forall>u. online h' u \<noteq> Some c" using assms(3) by (fastforce simp: cut_off_def)
  ultimately show ?thesis
    using assms(3) hub_close by (auto simp: cut_off_def carried_def held_for_def)
qed (use assms(3) in \<open>auto simp: cut_off_def carried_def held_for_def\<close>)

lemma hub_steps_cut_off:
  "hub_steps R s s' \<Longrightarrow> hub_inv s \<Longrightarrow> cut_off c ms s \<Longrightarrow> cut_off c ms s'"
  by (induction rule: rtranclp_induct) (auto intro: hub_step_cut_off hub_steps_inv)

text \<open>
  C39. A user who reconnects is cut off. The second connection closes the first channel, which
  ends the first stream; its handler then disconnects the user by name and so removes the
  second connection from the table. From then on, whatever happens, the stream that is still
  being served never shows a message.
\<close>

theorem reconnected_stream_is_dead:
  assumes "hub_steps R (hub_start w0) s" "hs_streams s c1 = Some u"
    and "Connect R u (hs_hub s, hs_world s) = Some (c2, h1, w1)" "Disconnect R u (h1, w1) = (h2, w2)"
    and "s2 = s\<lparr>hs_hub := h2, hs_world := w2, hs_streams := (hs_streams s)(c2 \<mapsto> u, c1 := None), hs_owner := (hs_owner s)(c2 := u)\<rparr>"
    and "hub_steps R s2 s3"
  shows "hub_steps R s s2 \<and> hs_streams s2 c2 = Some u \<and> hs_out s3 c2 = []"
proof -
  define s1 where "s1 = s\<lparr>hs_hub := h1, hs_world := w1, hs_streams := (hs_streams s)(c2 \<mapsto> u), hs_owner := (hs_owner s)(c2 := u)\<rparr>"
  have inv: "hub_inv s" using hub_steps_inv [OF assms(1) hub_start_inv] .
  obtain h w where k: "Connect R u (hs_hub s, hs_world s) = Some (next_chan (hs_hub s), h, w)"
    "next_chan h = Suc (next_chan (hs_hub s))" "\<forall>c. ch_buf (chans h c) = ch_buf (chans (hs_hub s) c)"
    "online h = (online (hs_hub s))(u \<mapsto> next_chan (hs_hub s))"
    using Connect_ok [OF hub_invD(1) [OF inv]] by blast
  then have c2: "c2 = next_chan (hs_hub s)" "h1 = h" using assms(3) by auto
  have ne: "c1 \<noteq> c2" using hub_invD(2) [OF inv assms(2)] c2 by simp
  have st1: "hub_step R s s1" unfolding s1_def using assms(3) by (rule hub_step.hub_connect)
  have s2: "s2 = s1\<lparr>hs_hub := h2, hs_world := w2, hs_streams := (hs_streams s1)(c1 := None)\<rparr>"
    by (simp add: s1_def assms(5))
  have "hs_streams s1 c1 = Some u" "Disconnect R u (hs_hub s1, hs_world s1) = (h2, w2)"
    using assms(2,4) ne by (simp_all add: s1_def)
  then have st2: "hub_step R s1 s2" unfolding s2 by (rule hub_step.hub_leave)
  have "h2 = h\<lparr>online := (online (hs_hub s))(u := None)\<rparr>" using assms(4) k(4) c2 by (auto simp: Disconnect_def)
  moreover have "online (hs_hub s) v \<noteq> Some c2" for v using hub_okD(1) [OF hub_invD(1) [OF inv], of v] c2 by auto
  moreover have "held_for c2 s = []" "hs_out s c2 = []" "ch_buf (chans (hs_hub s) c2) = []"
    using carried_fresh [OF inv, of c2] c2 by (simp_all add: carried_def)
  ultimately have "cut_off c2 [] s2"
    using k(2,3) c2 by (simp add: cut_off_def carried_def held_for_def assms(5))
  then have "cut_off c2 [] s3"
    using hub_steps_cut_off [OF assms(6)] hub_step_inv [OF st2 hub_step_inv [OF st1 inv]] by blast
  then show ?thesis
    using st1 st2 ne by (auto simp: cut_off_def carried_def assms(5))
qed

section \<open>Concrete runs\<close>

abbreviation fresh_chan :: chan where
  "fresh_chan \<equiv> \<lparr>ch_buf = [], ch_closed = False\<rparr>"

definition hub_one :: "string \<Rightarrow> hub" where
  "hub_one u = \<lparr>online = (\<lambda>_. None)(u \<mapsto> 0), chans = (\<lambda>_. fresh_chan), next_chan = 1\<rparr>"

definition one_stream :: "'r redis_lib \<Rightarrow> string \<Rightarrow> 'r world \<Rightarrow> 'r hub_sys" where
  "one_stream R u w = (hub_start w)\<lparr>hs_hub := hub_one u, hs_world := heartbeat R u w,
     hs_streams := (\<lambda>_. None)(0 \<mapsto> u), hs_owner := (\<lambda>_. [])(0 := u)\<rparr>"

lemma one_stream_steps: "hub_steps R (hub_start w) (one_stream R u w)"
proof (rule r_into_rtranclp)
  have "Connect R u (hs_hub (hub_start w), hs_world (hub_start w)) = Some (0, hub_one u, heartbeat R u w)"
    by (simp add: Connect_def make_chan_def hub_start_def NewHub_def hub_one_def heartbeat_def fun_eq_iff)
  from hub_step.hub_connect [OF this] show "hub_step R (hub_start w) (one_stream R u w)"
    by (simp add: one_stream_def hub_start_def)
qed

lemma one_stream_holding:
  "hub_steps R (hub_start w) ((one_stream R u w)\<lparr>hs_received := [(notifyPrefix @ u, m)], hs_held := Some (0, m)\<rparr>)"
proof -
  have "hub_step R (one_stream R u w) ((one_stream R u w)\<lparr>hs_received := [(notifyPrefix @ u, m)], hs_held := Some (0, m)\<rparr>)"
    using hub_step.hub_listen [of "one_stream R u w" R "notifyPrefix @ u" m]
    by (simp add: one_stream_def hub_start_def listener_lookup_def hub_one_def)
  then show ?thesis using one_stream_steps by (rule rtranclp.rtrancl_into_rtrancl [rotated])
qed

text \<open>
  The listener can panic: between looking a channel up and sending to it, its user may
  reconnect, which closes the channel; sending to a closed channel is a panic, which no one
  recovers. It takes one connection, one message and one more connection.
\<close>

theorem listener_can_panic:
  "\<exists>s c m. hub_steps R (hub_start w) s \<and> hs_held s = Some (c, m) \<and> listener_send c m (hs_hub s) = None"
proof -
  let ?s = "(one_stream R ''7'' w)\<lparr>hs_received := [(notifyPrefix @ ''7'', ''m'')], hs_held := Some (0, ''m'')\<rparr>"
  obtain h w' where k: "Connect R ''7'' (hs_hub ?s, hs_world ?s) = Some (1, h, w')" "ch_closed (chans h 0)"
    by (simp add: Connect_def make_chan_def close_chan_def one_stream_def hub_one_def)
  have "hub_step R ?s (?s\<lparr>hs_hub := h, hs_world := w', hs_streams := (hs_streams ?s)(1 \<mapsto> ''7''), hs_owner := (hs_owner ?s)(1 := ''7'')\<rparr>)"
    using k(1) by (rule hub_step.hub_connect)
  then show ?thesis
    using k(2) one_stream_holding [where R = R and w = w and u = "''7''" and m = "''m''"]
    by (intro exI [of _ "?s\<lparr>hs_hub := h, hs_world := w', hs_streams := (hs_streams ?s)(1 \<mapsto> ''7''), hs_owner := (hs_owner ?s)(1 := ''7'')\<rparr>"]
        exI [of _ 0] exI [of _ "''m''"]) (auto simp: listener_send_def intro: rtranclp.rtrancl_into_rtrancl)
qed

theorem hub_streams_in_order_witness:
  "\<exists>s. hub_steps mem_redis (hub_start (quiet_world (\<lambda>_. None))) s \<and> ch_buf (chans (hs_hub s) 0) = [''hi''] \<and>
     subseq (hs_out s 0 @ ch_buf (chans (hs_hub s) 0)) (msgs_for ''7'' (hs_received s))"
proof -
  let ?w = "quiet_world (\<lambda>_. None) :: mem world"
  let ?s = "(one_stream mem_redis ''7'' ?w)\<lparr>hs_received := [(notifyPrefix @ ''7'', ''hi'')], hs_held := Some (0, ''hi'')\<rparr>"
  let ?h = "(hub_one ''7'')\<lparr>chans := (\<lambda>_. fresh_chan)(0 := \<lparr>ch_buf = [''hi''], ch_closed = False\<rparr>)\<rparr>"
  have "listener_send 0 ''hi'' (hs_hub ?s) = Some ?h"
    by (simp add: listener_send_def one_stream_def hub_one_def chan_cap_def)
  then have st: "hub_steps mem_redis (hub_start ?w) (?s\<lparr>hs_hub := ?h, hs_held := None\<rparr>)"
    using hub_step.hub_send [of ?s 0 "''hi''" ?h] one_stream_holding [where R = mem_redis and w = ?w and u = "''7''" and m = "''hi''"]
    by (auto intro: rtranclp.rtrancl_into_rtrancl)
  have "hs_streams (?s\<lparr>hs_hub := ?h, hs_held := None\<rparr>) 0 = Some ''7''" by (simp add: one_stream_def)
  from hub_streams_in_order [OF st this] show ?thesis
    using st by (intro exI [of _ "?s\<lparr>hs_hub := ?h, hs_held := None\<rparr>"]) (auto simp: hub_one_def)
qed

theorem hub_never_closes_twice_witness:
  "\<exists>c h w'. Connect mem_redis ''7'' (hub_one ''7'', heartbeat mem_redis ''7'' (quiet_world (\<lambda>_. None))) = Some (c, h, w') \<and> online h ''7'' = Some c"
proof -
  let ?w = "quiet_world (\<lambda>_. None) :: mem world"
  have "set [''7''] = dom (online (hs_hub (one_stream mem_redis ''7'' ?w)))" by (auto simp: one_stream_def hub_one_def split: if_splits)
  from hub_never_closes_twice [OF one_stream_steps this, of "''7''"] show ?thesis by (auto simp: one_stream_def)
qed

theorem reconnected_stream_is_dead_witness:
  "\<exists>c2 h1 w1 h2 w2. Connect mem_redis ''7'' (hub_one ''7'', heartbeat mem_redis ''7'' (quiet_world (\<lambda>_. None))) = Some (c2, h1, w1) \<and>
     Disconnect mem_redis ''7'' (h1, w1) = (h2, w2) \<and>
     (\<exists>s2. hub_steps mem_redis (one_stream mem_redis ''7'' (quiet_world (\<lambda>_. None))) s2 \<and> hs_hub s2 = h2 \<and>
        hs_streams s2 c2 = Some ''7'' \<and> (\<forall>s3. hub_steps mem_redis s2 s3 \<longrightarrow> hs_out s3 c2 = []))"
proof -
  let ?s = "one_stream mem_redis ''7'' (quiet_world (\<lambda>_. None) :: mem world)"
  obtain c2 h1 w1 where k: "Connect mem_redis ''7'' (hs_hub ?s, hs_world ?s) = Some (c2, h1, w1)"
    by (simp add: Connect_def make_chan_def close_chan_def one_stream_def hub_one_def)
  obtain h2 w2 where d: "Disconnect mem_redis ''7'' (h1, w1) = (h2, w2)" by (cases "Disconnect mem_redis ''7'' (h1, w1)")
  define s2 where "s2 = ?s\<lparr>hs_hub := h2, hs_world := w2, hs_streams := (hs_streams ?s)(c2 \<mapsto> ''7'', 0 := None), hs_owner := (hs_owner ?s)(c2 := ''7'')\<rparr>"
  have "hs_streams ?s 0 = Some ''7''" by (simp add: one_stream_def)
  note dead = reconnected_stream_is_dead [OF one_stream_steps this k d s2_def]
  have "hub_steps mem_redis ?s s2" "hs_streams s2 c2 = Some ''7''" "\<And>s3. hub_steps mem_redis s2 s3 \<Longrightarrow> hs_out s3 c2 = []"
    using dead [OF rtranclp.rtrancl_refl] dead by blast+
  moreover have "hs_hub s2 = h2" "hs_hub ?s = hub_one ''7''" "hs_world ?s = heartbeat mem_redis ''7'' (quiet_world (\<lambda>_. None))"
    by (simp_all add: s2_def one_stream_def)
  ultimately show ?thesis using k d by (intro exI [of _ c2] exI [of _ h1] exI [of _ w1] exI [of _ h2] exI [of _ w2] conjI exI [of _ s2]) simp_all
qed

end
