(* ===== verification/Interceptors.thy ===== *)
theory Interceptors
  imports RichError
begin

text \<open>
  \<^verbatim>\<open>pkg/grpc/interceptors\<close>: the wrappers around every gRPC call. A call returns or panics; an
  interceptor adds what it reports to the tracer, the logger and the metrics, in order, and is
  itself a function that returns or panics. Durations and stack traces are left out of the
  reports. The gRPC runtime's mapping of errors to status codes is an argument.
\<close>

datatype 'a go_call = Returns 'a | Panics string

datatype report =
    SpanStart string
  | SpanEnd
  | SpanError string
  | SpanStatus bool string
  | LogError string
  | LogInfo string
  | Metric string string string

record Interceptors =
  ic_serviceName :: string
  ic_metrics :: bool
  ic_code :: "go_error option \<Rightarrow> string"

definition record_metric :: "Interceptors \<Rightarrow> string \<Rightarrow> string \<Rightarrow> report list" where
  "record_metric I meth st = (if ic_metrics I then [Metric (ic_serviceName I) meth st] else [])"

definition recovered :: "string \<Rightarrow> string \<Rightarrow> report list" where
  "recovered what r = [LogError what, SpanError (''panic: '' @ r), SpanStatus False ''panic'']"

definition outcome :: "go_error option \<Rightarrow> string \<Rightarrow> report list \<Rightarrow> report list" where
  "outcome err failed succeeded =
     (case err of
        Some e \<Rightarrow> [SpanError (Error e), SpanStatus False (Error e), LogError failed]
      | None \<Rightarrow> SpanStatus True ''success'' # succeeded)"

text \<open>
  The deferred function of the server interceptors assigns to a local variable. The results are
  not named, so a recovered panic makes the function return their zero values.
\<close>

definition UnaryServerInterceptor ::
  "Interceptors \<Rightarrow> string \<Rightarrow> ('q \<Rightarrow> ('a option \<times> go_error option) go_call) \<Rightarrow> 'q \<Rightarrow>
   ('a option \<times> go_error option) go_call \<times> report list" where
  "UnaryServerInterceptor I meth handler req =
     (case handler req of
        Panics r \<Rightarrow> (Returns (None, None), [SpanStart meth] @ recovered ''panic in gRPC handler'' r @ [SpanEnd])
      | Returns (resp, err) \<Rightarrow>
          (Returns (resp, err),
           [SpanStart meth] @ record_metric I meth (ic_code I err) @ outcome err ''gRPC request failed'' [] @ [SpanEnd]))"

definition StreamServerInterceptor ::
  "Interceptors \<Rightarrow> string \<Rightarrow> ('q \<Rightarrow> go_error option go_call) \<Rightarrow> 'q \<Rightarrow> go_error option go_call \<times> report list" where
  "StreamServerInterceptor I meth handler srv =
     (case handler srv of
        Panics r \<Rightarrow> (Returns None, [SpanStart meth] @ recovered ''panic in gRPC stream handler'' r @ [SpanEnd])
      | Returns err \<Rightarrow>
          (Returns err,
           [SpanStart meth] @ record_metric I meth (ic_code I err) @
             outcome err ''gRPC stream failed'' [LogInfo ''gRPC stream completed''] @ [SpanEnd]))"

definition UnaryClientInterceptor ::
  "Interceptors \<Rightarrow> string \<Rightarrow> ('q \<Rightarrow> go_error option go_call) \<Rightarrow> 'q \<Rightarrow> go_error option go_call \<times> report list" where
  "UnaryClientInterceptor I meth invoker req =
     (case invoker req of
        Panics r \<Rightarrow> (Panics r, [SpanStart meth, SpanEnd])
      | Returns err \<Rightarrow>
          (Returns err,
           [SpanStart meth] @ record_metric I meth (ic_code I err) @
             outcome err ''gRPC client request failed'' [] @ [SpanEnd]))"

text \<open>A client stream is handed on wrapped, with its span still open.\<close>

record 's wrappedClientStream =
  wcs_stream :: 's
  wcs_method :: string

definition StreamClientInterceptor ::
  "string \<Rightarrow> ('q \<Rightarrow> (go_error + 's) go_call) \<Rightarrow> 'q \<Rightarrow>
   (go_error + 's wrappedClientStream) go_call \<times> report list" where
  "StreamClientInterceptor meth streamer req =
     (case streamer req of
        Panics r \<Rightarrow> (Panics r, [SpanStart meth])
      | Returns (Inl err) \<Rightarrow>
          (Returns (Inl err), [SpanStart meth, SpanError (Error err), SpanStatus False (Error err), SpanEnd,
             LogError ''gRPC client stream failed''])
      | Returns (Inr s) \<Rightarrow> (Returns (Inr \<lparr>wcs_stream = s, wcs_method = meth\<rparr>), [SpanStart meth]))"

definition wrapped_RecvMsg ::
  "Interceptors \<Rightarrow> ('s \<Rightarrow> go_error option) \<Rightarrow> 's wrappedClientStream \<Rightarrow> go_error option \<times> report list" where
  "wrapped_RecvMsg I RecvMsg w =
     (case RecvMsg (wcs_stream w) of
        None \<Rightarrow> (None, [])
      | Some err \<Rightarrow> (Some err, record_metric I (wcs_method w) (ic_code I (Some err)) @
          [SpanError (Error err), SpanStatus False (Error err), SpanEnd]))"

definition wrapped_CloseSend ::
  "Interceptors \<Rightarrow> ('s \<Rightarrow> go_error option) \<Rightarrow> 's wrappedClientStream \<Rightarrow> go_error option \<times> report list" where
  "wrapped_CloseSend I CloseSend w =
     (case CloseSend (wcs_stream w) of
        Some err \<Rightarrow> (Some err, [])
      | None \<Rightarrow> (None, record_metric I (wcs_method w) ''OK'' @ [SpanStatus True ''success'', SpanEnd]))"

section \<open>Wrapping changes nothing but the reports\<close>

definition metrics_of :: "report list \<Rightarrow> report list" where
  "metrics_of rs = filter (\<lambda>r. case r of Metric _ _ _ \<Rightarrow> True | _ \<Rightarrow> False) rs"

definition balanced :: "report list \<Rightarrow> bool" where
  "balanced rs \<longleftrightarrow> length (filter (\<lambda>r. r = SpanEnd) rs) = 1 \<and> last rs = SpanEnd \<and> (\<exists>m. hd rs = SpanStart m)"

lemma metrics_of_simps [simp]:
  "metrics_of [] = []" "metrics_of (xs @ ys) = metrics_of xs @ metrics_of ys"
  "metrics_of (Metric a b c # rs) = Metric a b c # metrics_of rs"
  "metrics_of (SpanStart m # rs) = metrics_of rs" "metrics_of (SpanEnd # rs) = metrics_of rs"
  "metrics_of (SpanError e # rs) = metrics_of rs" "metrics_of (SpanStatus ok e # rs) = metrics_of rs"
  "metrics_of (LogError e # rs) = metrics_of rs" "metrics_of (LogInfo e # rs) = metrics_of rs"
  by (simp_all add: metrics_of_def)

lemma reports_balanced:
  "balanced ([SpanStart m] @ record_metric I m s @ outcome err f [] @ [SpanEnd])"
  "balanced ([SpanStart m] @ record_metric I m s @ outcome err f [LogInfo i] @ [SpanEnd])"
  "balanced ([SpanStart m] @ recovered f r @ [SpanEnd])"
  by (auto simp: balanced_def record_metric_def outcome_def recovered_def split: option.splits)

lemma outcome_no_metrics: "metrics_of succeeded = [] \<Longrightarrow> metrics_of (outcome err f succeeded) = []"
  by (auto simp: outcome_def split: option.splits)

text \<open>
  Interceptors are transparent: a wrapped server or client call that returns gives exactly
  the result of the call itself, its span is closed once, and, when metrics are enabled, exactly
  one is recorded, with the status code of the result.
\<close>

theorem interceptors_transparent:
  "(handler q = Returns (resp, err) \<longrightarrow>
      (\<exists>rs. UnaryServerInterceptor I m handler q = (handler q, rs) \<and> balanced rs \<and>
         metrics_of rs = record_metric I m (ic_code I err))) \<and>
   (stream q' = Returns err' \<longrightarrow>
      (\<exists>rs. StreamServerInterceptor I m stream q' = (stream q', rs) \<and> balanced rs \<and>
         metrics_of rs = record_metric I m (ic_code I err')) \<and>
      (\<exists>rs. UnaryClientInterceptor I m stream q' = (stream q', rs) \<and> balanced rs \<and>
         metrics_of rs = record_metric I m (ic_code I err')))"
  unfolding UnaryServerInterceptor_def StreamServerInterceptor_def UnaryClientInterceptor_def
  using reports_balanced by (auto simp: outcome_no_metrics record_metric_def)

text \<open>
  A panic in a handler becomes a success: the recovered error is assigned to a variable that
  is not returned, so the caller of a unary method gets neither a response nor an error, the
  caller of a stream sees a clean end, and no metric counts the call.
\<close>

theorem panic_becomes_success:
  "(handler q = Panics r \<longrightarrow>
      (\<exists>rs. UnaryServerInterceptor I m handler q = (Returns (None, None), rs) \<and> metrics_of rs = [])) \<and>
   (stream q' = Panics r' \<longrightarrow>
      (\<exists>rs. StreamServerInterceptor I m stream q' = (Returns None, rs) \<and> metrics_of rs = []))"
  by (simp add: UnaryServerInterceptor_def StreamServerInterceptor_def recovered_def)

abbreviation sample_interceptors :: Interceptors where
  "sample_interceptors \<equiv> \<lparr>ic_serviceName = ''auth'', ic_metrics = True,
     ic_code = (\<lambda>e. case e of None \<Rightarrow> ''OK'' | Some _ \<Rightarrow> ''Unknown'')\<rparr>"

theorem interceptors_transparent_witness:
  "\<exists>rs. UnaryServerInterceptor sample_interceptors ''m'' (\<lambda>_ :: unit. Returns (Some ''r'', None)) () = (Returns (Some ''r'', None), rs) \<and>
     metrics_of rs = [Metric ''auth'' ''m'' ''OK'']"
  using interceptors_transparent [of "\<lambda>_ :: unit. Returns (Some ''r'', None)" "()" "Some ''r''" None sample_interceptors "''m''"
      "\<lambda>_ :: unit. Returns None" "()" None]
  by (auto simp: record_metric_def)

theorem panic_becomes_success_witness:
  "\<exists>rs. UnaryServerInterceptor sample_interceptors ''m'' (\<lambda>_ :: unit. Panics ''nil'' :: (string option \<times> go_error option) go_call) () =
     (Returns (None, None), rs) \<and> metrics_of rs = []"
  using panic_becomes_success [of "\<lambda>_ :: unit. Panics ''nil''" "()" "''nil''" sample_interceptors "''m''" "\<lambda>_ :: unit. Panics ''nil''" "()" "''nil''"]
  by auto

end
