(* ===== verification/Batch.thy ===== *)
theory Batch
  imports Outbox "HOL-Library.Multiset"
begin

text \<open>
  The goroutines of \<^verbatim>\<open>ProcessBatch\<close> in small steps. The loop launches one goroutine per event
  and waits for a slot of the semaphore channel before each; a goroutine calls
  \<^verbatim>\<open>ProcessEvent\<close>, records the event under the mutex and frees its slot; \<^verbatim>\<open>wg.Wait()\<close> waits for
  all. The theorems justify \<open>run_goroutines\<close>, which processes the events one after the other
  in some order. A call of \<^verbatim>\<open>ProcessEvent\<close> is one step.
\<close>

record 'd batch =
  bt_todo :: "OutboxEvent list"
  bt_running :: "OutboxEvent list"
  bt_processed :: "string list"
  bt_failed :: "string list"
  bt_world :: "'d world"

definition batch_start :: "OutboxEvent list \<Rightarrow> 'd world \<Rightarrow> 'd batch" where
  "batch_start es w = \<lparr>bt_todo = es, bt_running = [], bt_processed = [], bt_failed = [], bt_world = w\<rparr>"

inductive batch_step :: "(OutboxEvent \<Rightarrow> ('d, unit) wprog) \<Rightarrow> nat \<Rightarrow> 'd batch \<Rightarrow> 'd batch \<Rightarrow> bool"
  for process :: "OutboxEvent \<Rightarrow> ('d, unit) wprog" and cap :: nat where
  batch_launch: "bt_todo s = e # es \<Longrightarrow> length (bt_running s) < cap \<Longrightarrow>
    batch_step process cap s (s\<lparr>bt_todo := es, bt_running := bt_running s @ [e]\<rparr>)"
| batch_ok: "bt_running s = xs @ e # ys \<Longrightarrow> process e (bt_world s) = (Inr u, w') \<Longrightarrow>
    batch_step process cap s (s\<lparr>bt_running := xs @ ys, bt_processed := bt_processed s @ [oe_EventID e], bt_world := w'\<rparr>)"
| batch_failed: "bt_running s = xs @ e # ys \<Longrightarrow> process e (bt_world s) = (Inl err, w') \<Longrightarrow>
    batch_step process cap s (s\<lparr>bt_running := xs @ ys, bt_failed := bt_failed s @ [oe_EventID e], bt_world := w'\<rparr>)"

abbreviation batch_steps :: "(OutboxEvent \<Rightarrow> ('d, unit) wprog) \<Rightarrow> nat \<Rightarrow> 'd batch \<Rightarrow> 'd batch \<Rightarrow> bool" where
  "batch_steps process cap \<equiv> (batch_step process cap)\<^sup>*\<^sup>*"

definition batch_done :: "'d batch \<Rightarrow> bool" where
  "batch_done s \<longleftrightarrow> bt_todo s = [] \<and> bt_running s = []"

section \<open>Every step is progress\<close>

definition batch_work :: "'d batch \<Rightarrow> nat" where
  "batch_work s = 2 * length (bt_todo s) + length (bt_running s)"

lemma batch_step_work: "batch_step process cap s s' \<Longrightarrow> batch_work s' < batch_work s"
  by (induction rule: batch_step.induct) (simp_all add: batch_work_def)

lemma no_infinite_batch: "\<not> (\<forall>i. batch_step process cap (f i) (f (Suc i)))"
proof
  assume "\<forall>i. batch_step process cap (f i) (f (Suc i))"
  then have "\<forall>i. (f (Suc i), f i) \<in> measure batch_work" using batch_step_work by simp blast
  then show False using wf_measure [of batch_work] by (meson wf_iff_no_infinite_down_chain)
qed

lemma batch_progress:
  assumes "0 < cap" "\<not> batch_done s"
  shows "\<exists>s'. batch_step process cap s s'"
proof (cases "bt_running s")
  case Nil
  then obtain e es where "bt_todo s = e # es" using assms(2) by (auto simp: batch_done_def neq_Nil_conv)
  then show ?thesis using Nil assms(1) batch_launch [of s e es cap process] by auto
next
  case (Cons e ys)
  then have r: "bt_running s = [] @ e # ys" by simp
  show ?thesis
  proof (cases "process e (bt_world s)")
    case (Pair res w')
    then show ?thesis using batch_ok [OF r] batch_failed [OF r] by (cases res) blast+
  qed
qed

lemma batch_completes:
  assumes "0 < cap"
  shows "\<exists>s'. batch_steps process cap s s' \<and> batch_done s'"
proof (induction s rule: measure_induct_rule [of batch_work])
  case (less s)
  show ?case
  proof (cases "batch_done s")
    case False
    then obtain s1 where "batch_step process cap s s1" using batch_progress [OF assms] by blast
    then show ?thesis using less.IH [OF batch_step_work] by (meson converse_rtranclp_into_rtranclp)
  qed auto
qed

section \<open>The result is that of some sequential order\<close>

lemma run_goroutines_snoc:
  "run_goroutines process (es @ [e]) w =
     (case run_goroutines process es w of ((P, F), w1) \<Rightarrow>
        (case process e w1 of (Inl err, w2) \<Rightarrow> ((P, F @ [oe_EventID e]), w2) | (Inr u, w2) \<Rightarrow> ((P @ [oe_EventID e], F), w2)))"
  by (induction es arbitrary: w) (simp_all split: prod.splits sum.splits)

definition batch_inv :: "(OutboxEvent \<Rightarrow> ('d, unit) wprog) \<Rightarrow> nat \<Rightarrow> OutboxEvent list \<Rightarrow> 'd world \<Rightarrow> 'd batch \<Rightarrow> bool" where
  "batch_inv process cap es w s \<longleftrightarrow> length (bt_running s) \<le> cap \<and>
     (\<exists>ord. mset es = mset ord + mset (bt_running s) + mset (bt_todo s) \<and>
        run_goroutines process ord w = ((bt_processed s, bt_failed s), bt_world s))"

lemma batch_step_inv:
  assumes "batch_step process cap s s'" "batch_inv process cap es w s"
  shows "batch_inv process cap es w s'"
  using assms
proof (induction rule: batch_step.induct)
  case (batch_launch s e rest)
  then show ?case by (auto simp: batch_inv_def)
next
  case (batch_ok s xs e ys u w')
  then obtain ord where "mset es = mset ord + mset (bt_running s) + mset (bt_todo s)"
    "run_goroutines process ord w = ((bt_processed s, bt_failed s), bt_world s)" by (auto simp: batch_inv_def)
  then show ?case
    using batch_ok unfolding batch_inv_def
    by (intro conjI exI [of _ "ord @ [e]"]) (simp_all add: run_goroutines_snoc)
next
  case (batch_failed s xs e ys err w')
  then obtain ord where "mset es = mset ord + mset (bt_running s) + mset (bt_todo s)"
    "run_goroutines process ord w = ((bt_processed s, bt_failed s), bt_world s)" by (auto simp: batch_inv_def)
  then show ?case
    using batch_failed unfolding batch_inv_def
    by (intro conjI exI [of _ "ord @ [e]"]) (simp_all add: run_goroutines_snoc)
qed

lemma batch_steps_inv: "batch_steps process cap s s' \<Longrightarrow> batch_inv process cap es w s \<Longrightarrow> batch_inv process cap es w s'"
  by (induction rule: rtranclp_induct) (auto intro: batch_step_inv)

lemma batch_start_inv: "batch_inv process cap es w (batch_start es w)"
  by (auto simp: batch_inv_def batch_start_def)

section \<open>Theorems\<close>

text \<open>
  C23. A batch always finishes: with a positive concurrency no schedule of the goroutines runs
  for ever, and from every state a schedule can get into, the rest of the batch runs to the
  end; at no time are more goroutines running than the concurrency allows. With concurrency
  zero the worker is stuck at its first event.
\<close>

theorem batch_terminates:
  "\<not> (\<forall>i. batch_step process cap (f i) (f (Suc i))) \<and>
   (batch_steps process cap (batch_start es w) s \<longrightarrow>
      length (bt_running s) \<le> cap \<and>
      (if 0 < cap then \<exists>s'. batch_steps process cap s s' \<and> batch_done s'
       else s = batch_start es w))"
proof (intro conjI impI)
  assume st: "batch_steps process cap (batch_start es w) s"
  then have inv: "batch_inv process cap es w s" using batch_steps_inv batch_start_inv by blast
  then show "length (bt_running s) \<le> cap" by (simp add: batch_inv_def)
  show "if 0 < cap then \<exists>s'. batch_steps process cap s s' \<and> batch_done s' else s = batch_start es w"
  proof (cases "0 < cap")
    case False
    have "\<not> batch_step process cap (batch_start es w) s'" for s'
      using False by (auto simp: batch_start_def elim!: batch_step.cases)
    then show ?thesis using st False by (auto elim: converse_rtranclpE)
  qed (use batch_completes in auto)
qed (rule no_infinite_batch)


section \<open>Instances\<close>

abbreviation sample_batch_event :: OutboxEvent where
  "sample_batch_event \<equiv> \<lparr>oe_ID = 1, oe_EventID = ''e1'', oe_EventType = ''t'', oe_Payload = ''body'', oe_AggregateType = ''user'',
     oe_AggregateID = ''1'', oe_Status = [], oe_LockedUntil = None, oe_CreatedAt = 0, oe_ProcessedAt = None\<rparr>"

lemma sample_batch_run:
  "batch_steps (\<lambda>_. ret ()) 2 (batch_start [sample_batch_event] (quiet_world ()))
     ((batch_start [] (quiet_world ()))\<lparr>bt_processed := [''e1'']\<rparr>)"
proof -
  let ?s = "batch_start [sample_batch_event] (quiet_world ())"
  have "batch_step (\<lambda>_. ret ()) 2 ?s (?s\<lparr>bt_todo := [], bt_running := [sample_batch_event]\<rparr>)"
    using batch_launch [of ?s sample_batch_event "[]" 2] by (simp add: batch_start_def)
  moreover have "batch_step (\<lambda>_. ret ()) 2 (?s\<lparr>bt_todo := [], bt_running := [sample_batch_event]\<rparr>)
      ((batch_start [] (quiet_world ()))\<lparr>bt_processed := [''e1'']\<rparr>)"
    using batch_ok [of "?s\<lparr>bt_todo := [], bt_running := [sample_batch_event]\<rparr>" "[]" sample_batch_event "[]" "\<lambda>_. ret ()" "()" "quiet_world ()" 2]
    by (simp add: batch_start_def)
  ultimately show ?thesis by (meson converse_rtranclp_into_rtranclp rtranclp.rtrancl_refl)
qed

theorem batch_terminates_witness:
  "\<exists>s'. batch_steps (\<lambda>_. ret ()) 2 (batch_start [sample_batch_event] (quiet_world ())) s' \<and> batch_done s'"
  using batch_terminates [of "\<lambda>_. ret ()" 2 "\<lambda>_. batch_start [] (quiet_world ())" "[sample_batch_event]" "quiet_world ()"
      "batch_start [sample_batch_event] (quiet_world ())"] by simp


end
