(* ===== verification/AuthOutbox.thy ===== *)
theory AuthOutbox
  imports AuthRegister
begin

text \<open>
  The auth service's outbox with the publishers \<^verbatim>\<open>Setup\<close> builds: a topic publisher for
  the event \<^verbatim>\<open>user\<close> and a direct publisher for \<^verbatim>\<open>notification\<close>. The contracts of
  \<open>OutboxProps\<close> hold for them, so its guarantees hold for this service.
\<close>

definition auth_app_ProcessEvent :: "OutboxEvent \<Rightarrow> ('d, unit) wprog" where
  "auth_app_ProcessEvent =
     auth_ProcessEvent (TopicPublisher_Publish (open_base ''user'')) (DirectPublisher_Publish (open_base ''notification''))"

definition auth_routed :: "string \<Rightarrow> bool" where
  "auth_routed t \<longleftrightarrow> t = event_Type_string TypeAuthNewSessionLoggedIn \<or> t = event_Type_string TypeAuthRegisterNewUser"

text \<open>From publishers to an outbox processor: one contract gives the other.\<close>

locale auth_publishers =
  user: open_publisher "up ''user.created''" + notif: open_publisher np
  for up :: "string \<Rightarrow> string \<Rightarrow> ('d, unit) wprog" and np :: "string \<Rightarrow> ('d, unit) wprog"
begin

lemma process_cases:
  "auth_ProcessEvent up np e w =
     (if oe_EventType e = event_Type_string TypeAuthNewSessionLoggedIn then np (oe_Payload e) w
      else if oe_EventType e = event_Type_string TypeAuthRegisterNewUser then up ''user.created'' (oe_Payload e) w
      else (Inr (), w))"
  by (simp add: auth_ProcessEvent_def)

end

sublocale auth_publishers \<subseteq> live_processor "auth_ProcessEvent up np" auth_routed
proof unfold_locales
  fix e w u w'
  assume p: "auth_ProcessEvent up np e w = (Inr u, w')" and r: "auth_routed (oe_EventType e)"
  have "\<exists>p. sent w' = sent w @ [p] \<and> pub_body p = oe_Payload e"
    using p r user.pub_ok notif.pub_ok unfolding process_cases auth_routed_def by (auto split: if_splits)
  then show "\<exists>p \<in> set (sent w'). pub_body p = oe_Payload e" by auto
next
  fix e w r w'
  assume p: "auth_ProcessEvent up np e w = (r, w')"
  show "set (sent w) \<subseteq> set (sent w')"
    using p user.pub_monotone notif.pub_monotone unfolding process_cases by (auto split: if_splits)
  show "same_but_io w w'"
    using p user.pub_frame notif.pub_frame unfolding process_cases by (auto split: if_splits)
next
  fix w :: "'d world" and e
  assume "fault_free w"
  then show "\<exists>w'. auth_ProcessEvent up np e w = (Inr (), w')"
    using user.pub_open notif.pub_open unfolding process_cases by auto
qed

interpretation auth_pub: auth_publishers "TopicPublisher_Publish (open_base ''user'')"
    "DirectPublisher_Publish (open_base ''notification'')"
  by unfold_locales

interpretation auth_live: live_outbox auth_outbox auth_app_ProcessEvent auth_routed
  unfolding auth_app_ProcessEvent_def by unfold_locales


text \<open>
  Delivery: when nothing fails, all locks have expired and the batch size covers the
  table, one recovery tick and one batch publish every event and mark it processed, in whatever order
  the batch's goroutines finish.
\<close>

theorem auth_outbox_delivery:
  assumes "fault_free w" "ob_rows_ok auth_routed (sent w) (events auth_outbox w)"
    and "\<forall>r \<in> set (events auth_outbox w). oe_Status r = ''processing'' \<longrightarrow> ob_stale (clock w) r"
    and "int (length (events auth_outbox w)) \<le> BatchSize config" "0 < Concurrency config" "\<And>es. mset (order es) = mset es"
  shows "\<exists>w'. ProcessBatch auth_outbox auth_app_ProcessEvent order config (recovery_tick auth_outbox w) = Returned w' \<and>
    map ob_key (events auth_outbox w') = map ob_key (events auth_outbox w) \<and>
    (\<forall>r \<in> set (events auth_outbox w'). oe_Status r = ''processed'' \<and>
       (auth_routed (oe_EventType r) \<longrightarrow> (\<exists>p \<in> set (sent w'). pub_body p = oe_Payload r)))"
  using auth_live.eventual_delivery [OF assms] by (auto simp: ob_published_def)

text \<open>
  An event is held by one claimant: once the goroutine of a request has claimed it,
  a second claim is refused as a conflict and changes nothing.
\<close>

theorem auth_outbox_claim_exclusive:
  assumes "ClaimSingleEvent auth_outbox i lt w = (Inr (), w')" "fault_free w" "unique_by oe_EventID (events auth_outbox w)"
  shows "\<exists>e w''. ClaimSingleEvent auth_outbox i lt' w' = (Inl e, w'') \<and> is_kind KindConflict e \<and>
    events auth_outbox w'' = events auth_outbox w'"
  using assms by (rule auth_live.second_claim_refused)

section \<open>Instances\<close>

definition sample_event :: "string \<Rightarrow> int option \<Rightarrow> OutboxEvent" where
  "sample_event status lock = \<lparr>oe_ID = 1, oe_EventID = ''e1'', oe_EventType = event_Type_string TypeAuthRegisterNewUser,
     oe_Payload = ''body'', oe_AggregateType = ''user'', oe_AggregateID = ''1'', oe_Status = status,
     oe_LockedUntil = lock, oe_CreatedAt = 0, oe_ProcessedAt = None\<rparr>"

definition sample_outbox_world :: "OutboxEvent list \<Rightarrow> auth_db world" where
  "sample_outbox_world rs = quiet_world (empty_auth_db\<lparr>auth_outbox_events := \<lparr>ob_rows = rs, ob_next = 2\<rparr>\<rparr>)"

lemma sample_outbox_events [simp]: "events auth_outbox (sample_outbox_world rs) = rs"
  by (simp add: auth_outbox_def sample_outbox_world_def)

lemma sample_outbox_world_simps [simp]:
  "clock (sample_outbox_world rs) = 1000" "sent (sample_outbox_world rs) = []" "fault (sample_outbox_world rs) = (\<lambda>_. None)"
  by (simp_all add: sample_outbox_world_def)

abbreviation stale_world :: "auth_db world" where
  "stale_world \<equiv> sample_outbox_world [sample_event ''processing'' (Some 500)]"

abbreviation sample_config :: WorkerConfig where
  "sample_config \<equiv> \<lparr>BatchInterval = 5, RecoveryInterval = 30, LockTimeout = 30000000000, BatchSize = 60, Concurrency = 5\<rparr>"

lemma stale_world_ok: "ob_rows_ok auth_routed (sent stale_world) (events auth_outbox stale_world)"
  by (simp add: ob_rows_ok_def ob_row_ok_def sample_event_def)

theorem auth_outbox_delivery_witness:
  "\<exists>w'. ProcessBatch auth_outbox auth_app_ProcessEvent rev sample_config (recovery_tick auth_outbox stale_world) = Returned w' \<and>
    (\<forall>r \<in> set (events auth_outbox w'). oe_Status r = ''processed'')"
proof -
  have "\<forall>r \<in> set (events auth_outbox stale_world). oe_Status r = ''processing'' \<longrightarrow> ob_stale (clock stale_world) r"
    by (simp add: ob_stale_def sample_event_def)
  moreover have "fault_free stale_world" "int (length (events auth_outbox stale_world)) \<le> BatchSize sample_config"
    "0 < Concurrency sample_config" by (simp_all add: fault_free_def)
  ultimately show ?thesis
    using auth_outbox_delivery [OF _ stale_world_ok, of sample_config rev] by fastforce
qed


theorem auth_outbox_claim_exclusive_witness:
  "\<exists>w' e w''. ClaimSingleEvent auth_outbox ''e1'' 30000000000 (sample_outbox_world [sample_event ''pending'' None]) = (Inr (), w') \<and>
     ClaimSingleEvent auth_outbox ''e1'' 30000000000 w' = (Inl e, w'') \<and> is_kind KindConflict e"
proof -
  let ?w = "sample_outbox_world [sample_event ''pending'' None]"
  have "fst (ClaimSingleEvent auth_outbox ''e1'' 30000000000 ?w) = Inr ()"
    by (simp add: ClaimSingleEvent_def call_def auth_store.ob_update_ok outside_def changed_rows_def sample_event_def ob_lock_def)
  then obtain w' where c: "ClaimSingleEvent auth_outbox ''e1'' 30000000000 ?w = (Inr (), w')" by (metis prod.collapse)
  from auth_outbox_claim_exclusive [OF c, of 30000000000] show ?thesis
    using c by (auto simp: fault_free_def)
qed

section \<open>The goroutine after a registration\<close>

lemma ClaimSingleEvent_ok:
  assumes "fault_free w" "r \<in> set (events auth_outbox w)" "oe_EventID r = i" "oe_Status r = ''pending''"
  shows "\<exists>w'. ClaimSingleEvent auth_outbox i lt w = (Inr (), w') \<and> fault_free w' \<and> sent w' = sent w"
proof -
  have f: "fault w = (\<lambda>_. None)" using assms(1) by (simp add: fault_free_def)
  let ?p = "\<lambda>x. oe_EventID x = i \<and> oe_Status x = ''pending''"
  have "ob_lock t r \<noteq> r" for t
  proof
    assume "ob_lock t r = r"
    then have "oe_Status (ob_lock t r) = oe_Status r" by (rule arg_cong)
    then show False using assms(4) by simp
  qed
  then have n: "changed_rows ?p (ob_lock (clock w + seconds lt)) (events auth_outbox w) \<noteq> 0"
    using assms(2-4) by (auto simp: changed_rows_0)
  show ?thesis
    by (simp add: ClaimSingleEvent_def call_def auth_store.ob_update_ok [OF f] outside_def f n fault_free_def)
qed

text \<open>A request's goroutine claims its event, publishes it and marks it; the mark may fail.\<close>

lemma ProcessSingleEvent_runs:
  assumes "fault_free w" "r \<in> set (events auth_outbox w)" "ob_key r = ob_key e" "oe_Status r = ''pending''"
    and pub: "\<And>v. fault_free v \<Longrightarrow> \<exists>v' p. process e v = (Inr (), v') \<and> sent v' = sent v @ [p] \<and> P p"
  shows "\<exists>w' p. ProcessSingleEvent auth_outbox process lt e w = (Inr (), w') \<and> sent w' = sent w @ [p] \<and> P p"
proof -
  have "oe_EventID r = oe_EventID e" using assms(3) by (simp add: ob_key_def)
  then obtain w1 where c: "ClaimSingleEvent auth_outbox (oe_EventID e) lt w = (Inr (), w1)" "fault_free w1" "sent w1 = sent w"
    using ClaimSingleEvent_ok [OF assms(1,2) _ assms(4)] by blast
  obtain v p where v: "process e w1 = (Inr (), v)" "sent v = sent w1 @ [p]" "P p" using pub [OF c(2)] by blast
  obtain r2 w3 where m: "MarkOutboxEventProcessed auth_outbox (oe_EventID e) v = (r2, w3)"
    by (cases "MarkOutboxEventProcessed auth_outbox (oe_EventID e) v")
  have "sent w3 = sent v"
    using auth_store.MarkOutboxEventProcessed_effect [OF m] by (simp add: auth_store.ob_effect_def)
  moreover have "ProcessSingleEvent auth_outbox process lt e w = (Inr (), w3)"
    using c(1) v(1) m by (cases r2) (simp_all add: ProcessSingleEvent_def call_def)
  ultimately show ?thesis using v(2,3) c(3) by simp
qed

lemma ProcessSingleEvent_publishes:
  assumes "fault_free w" "r \<in> set (events auth_outbox w)" "ob_key r = ob_key e" "oe_Status r = ''pending''"
  shows "oe_EventType e = event_Type_string TypeAuthRegisterNewUser \<Longrightarrow>
      \<exists>w' p. ProcessSingleEvent auth_outbox auth_app_ProcessEvent lt e w = (Inr (), w') \<and> sent w' = sent w @ [p] \<and>
        pub_body p = oe_Payload e \<and> pub_exchange p = ''user.exchange'' \<and> pub_key p = ''user.created''"
    and "oe_EventType e = event_Type_string TypeAuthNewSessionLoggedIn \<Longrightarrow>
      \<exists>w' p. ProcessSingleEvent auth_outbox auth_app_ProcessEvent lt e w = (Inr (), w') \<and> sent w' = sent w @ [p] \<and>
        pub_body p = oe_Payload e \<and> pub_exchange p = ''notification.exchange'' \<and> pub_key p = ''notification.queue''"
  using ProcessSingleEvent_runs [OF assms, where process = auth_app_ProcessEvent and lt = lt]
  by (auto simp: auth_app_ProcessEvent_def auth_ProcessEvent_def TopicPublisher_Publish_def DirectPublisher_Publish_def
      buildNames_def base_publish_open)

text \<open>
  A republished event cannot be recognised: when marking an event as processed
  fails after its publication, recovery and the next batch publish it again, and the
  second message carries a new message id, which is the key the consumers' duplicate
  tables use.
\<close>

theorem republished_event_gets_new_id:
  "\<exists>w0 w1 w2 p q.
     ProcessSingleEvent auth_outbox auth_app_ProcessEvent 30000000000 (sample_event [] None) w0 = (Inr (), w1) \<and>
     ProcessBatch auth_outbox auth_app_ProcessEvent id sample_config
       (recovery_tick auth_outbox (w1\<lparr>clock := clock w1 + 31\<rparr>)) = Returned w2 \<and>
     sent w2 = [p, q] \<and> pub_body p = pub_body q \<and> pub_message_id p \<noteq> pub_message_id q"
proof -
  let ?f = "\<lambda>n::nat. if n = 3 then Some (MySQLError 1205 ''Lock wait timeout'') else None"
  let ?w0 = "(sample_outbox_world [sample_event ''pending'' None])\<lparr>fault := ?f\<rparr>"
  let ?p = "\<lambda>n t. \<lparr>pub_exchange = ''user.exchange'', pub_key = ''user.created'', pub_body = ''body'',
      pub_message_id = nat_to_string n, pub_timestamp = t, pub_headers = None\<rparr>"
  define w1 where "w1 = ?w0\<lparr>calls := 4, uuids := 1, sent := [?p 0 1000],
      db := empty_auth_db\<lparr>auth_outbox_events := \<lparr>ob_rows = [sample_event ''processing'' (Some 1030)], ob_next = 2\<rparr>\<rparr>\<rparr>"
  have 1: "ProcessSingleEvent auth_outbox auth_app_ProcessEvent 30000000000 (sample_event [] None) ?w0 = (Inr (), w1)"
    by (simp add: ProcessSingleEvent_def call_def ClaimSingleEvent_def ob_update_def sql_now_def sql_def outside_def Let_def
        auth_outbox_def changed_rows_def sample_event_def ob_lock_def seconds_def
        auth_app_ProcessEvent_def auth_ProcessEvent_def TopicPublisher_Publish_def base_publish_def PublishWithContext_def
        uuid_NewString_def time_Now_def MarkOutboxEventProcessed_def sample_outbox_world_def quiet_world_def w1_def)
  define w2 where "w2 = w1\<lparr>clock := 1031, calls := 6,
      db := empty_auth_db\<lparr>auth_outbox_events := \<lparr>ob_rows = [sample_event ''pending'' None], ob_next = 2\<rparr>\<rparr>\<rparr>"
  have 2: "recovery_tick auth_outbox (w1\<lparr>clock := clock w1 + 31\<rparr>) = w2"
    by (simp add: recovery_tick_def RecoverStaleEvents_def RecoverStaleOutboxEvents_def call_def ob_update_def sql_now_def
        sql_def outside_def Let_def auth_outbox_def ob_stale_def ob_release_def sample_event_def w1_def w2_def
        sample_outbox_world_def quiet_world_def)
  have 3: "\<exists>w3. ProcessBatch auth_outbox auth_app_ProcessEvent id sample_config w2 = Returned w3 \<and> sent w3 = [?p 0 1000, ?p 1 1031]"
    by (simp add: ProcessBatch_def svc_ClaimOutboxEvents_def ClaimOutboxEvents_def call_def begin_tx_def sql_query_def
        ob_update_def sql_now_def sql_def outside_def Let_def auth_outbox_def ob_select_pending_def sample_event_def
        ob_selected_def ob_lock_def commit_tx_def auth_app_ProcessEvent_def auth_ProcessEvent_def TopicPublisher_Publish_def
        base_publish_def PublishWithContext_def uuid_NewString_def time_Now_def MarkEventsProcessed_def
        MarkOutboxEventsProcessed_def MarkEventsFailed_def w1_def w2_def sample_outbox_world_def quiet_world_def)
  have "pub_message_id (?p 0 1000) \<noteq> pub_message_id (?p 1 1031)"
    by (simp add: nat_to_string_inj)
  moreover obtain w3 where "ProcessBatch auth_outbox auth_app_ProcessEvent id sample_config w2 = Returned w3"
    "sent w3 = [?p 0 1000, ?p 1 1031]" using 3 by blast
  ultimately show ?thesis
    using 1 2 by (intro exI [of _ ?w0] exI [of _ w1] exI [of _ w3] exI [of _ "?p 0 1000"] exI [of _ "?p 1 1031"]) simp
qed

end
