(* ===== verification/Notification.thy ===== *)
theory Notification
  imports OutboxProps Inbox
begin

text \<open>
  The notification service behind its queue: the two tables
  (\<^verbatim>\<open>internal/notification/repository\<close>), the outbox service with its own \<^verbatim>\<open>ProcessEvent\<close>
  (\<^verbatim>\<open>service/outbox\<close>), the outbox worker, the event service, and the subscriber, which turns
  a new login into one push event per other session of the user and a push event into a
  request to the push provider (\<^verbatim>\<open>pkg/one_signal\<close>). The repository, service and worker
  functions are those of \<open>Outbox\<close> and \<open>Inbox\<close> on this service's tables. The auth service's
  client and the provider's HTTP endpoint are arguments.
\<close>

section \<open>Tables\<close>

record notif_db =
  notification_outbox_events :: outbox_tab
  notification_processed_messages :: "processed_message list"

type_synonym 'a notif_prog = "(notif_db, 'a) wprog"

definition notif_outbox :: "notif_db outbox_ref" where
  "notif_outbox = \<lparr>tab = notification_outbox_events, set_tab = (\<lambda>t d. d\<lparr>notification_outbox_events := t\<rparr>)\<rparr>"

definition notif_messages :: "notif_db inbox_ref" where
  "notif_messages = \<lparr>msgs = notification_processed_messages,
     set_msgs = (\<lambda>rs d. d\<lparr>notification_processed_messages := rs\<rparr>)\<rparr>"

lemma notif_outbox_simps [simp]:
  "tab notif_outbox = notification_outbox_events" "set_tab notif_outbox t d = d\<lparr>notification_outbox_events := t\<rparr>"
  by (simp_all add: notif_outbox_def)

lemma notif_messages_simps [simp]:
  "msgs notif_messages = notification_processed_messages"
  "set_msgs notif_messages rs d = d\<lparr>notification_processed_messages := rs\<rparr>"
  by (simp_all add: notif_messages_def)

interpretation notif_inbox: inbox_table notif_messages
  by unfold_locales simp

interpretation notif_store: outbox_store notif_outbox
  by unfold_locales simp

section \<open>Repository and services on these tables\<close>

definition notif_ClaimOutboxEvents :: "int \<Rightarrow> int \<Rightarrow> OutboxEvent list notif_prog" where
  "notif_ClaimOutboxEvents = ClaimOutboxEvents notif_outbox"

definition notif_ClaimSingleEvent :: "string \<Rightarrow> int \<Rightarrow> unit notif_prog" where
  "notif_ClaimSingleEvent = ClaimSingleEvent notif_outbox"

definition notif_MarkOutboxEventProcessed :: "string \<Rightarrow> unit notif_prog" where
  "notif_MarkOutboxEventProcessed = MarkOutboxEventProcessed notif_outbox"

definition notif_MarkOutboxEventFailed :: "string \<Rightarrow> unit notif_prog" where
  "notif_MarkOutboxEventFailed = MarkOutboxEventFailed notif_outbox"

definition notif_MarkOutboxEventsProcessed :: "string list \<Rightarrow> unit notif_prog" where
  "notif_MarkOutboxEventsProcessed = MarkOutboxEventsProcessed notif_outbox"

definition notif_MarkOutboxEventsFailed :: "string list \<Rightarrow> unit notif_prog" where
  "notif_MarkOutboxEventsFailed = MarkOutboxEventsFailed notif_outbox"

definition notif_RecoverStaleOutboxEvents :: "nat notif_prog" where
  "notif_RecoverStaleOutboxEvents = RecoverStaleOutboxEvents notif_outbox"

definition notif_RunProcess :: "string \<Rightarrow> string \<Rightarrow> unit notif_prog" where
  "notif_RunProcess = RunProcess notif_messages"

definition notif_MarkSent :: "string \<Rightarrow> unit notif_prog" where
  "notif_MarkSent = MarkSent notif_messages"

definition notif_MarkFailed :: "string \<Rightarrow> unit notif_prog" where
  "notif_MarkFailed = MarkFailed notif_messages"

definition notif_svc_ClaimOutboxEvents :: "int \<Rightarrow> int \<Rightarrow> OutboxEvent list notif_prog" where
  "notif_svc_ClaimOutboxEvents = svc_ClaimOutboxEvents notif_outbox"

definition notif_ProcessEvent :: "proto_lib \<Rightarrow> (string \<Rightarrow> unit notif_prog) \<Rightarrow> OutboxEvent \<Rightarrow> unit notif_prog" where
  "notif_ProcessEvent L publish outboxEvent =
     (if oe_EventType outboxEvent = event_Type_string TypeNotificationPush
      then (case proto_Unmarshal L (oe_Payload outboxEvent) of
              Inl err \<Rightarrow> fail err
            | Inr ev \<Rightarrow>
                (case UnmarshalTo_NotificationEvent L (ev_Payload ev) of
                   Inl err \<Rightarrow> fail err
                 | Inr notifEv \<Rightarrow> publish (oe_Payload outboxEvent)))
      else ret ())"

definition notif_ProcessSingleEvent ::
  "proto_lib \<Rightarrow> (string \<Rightarrow> unit notif_prog) \<Rightarrow> int \<Rightarrow> OutboxEvent \<Rightarrow> unit notif_prog" where
  "notif_ProcessSingleEvent L publish = ProcessSingleEvent notif_outbox (notif_ProcessEvent L publish)"

definition notif_RecoverStaleEvents :: "nat notif_prog" where
  "notif_RecoverStaleEvents = RecoverStaleEvents notif_outbox"

definition notif_MarkEventsProcessed :: "string list \<Rightarrow> unit notif_prog" where
  "notif_MarkEventsProcessed = MarkEventsProcessed notif_outbox"

definition notif_MarkEventsFailed :: "string list \<Rightarrow> unit notif_prog" where
  "notif_MarkEventsFailed = MarkEventsFailed notif_outbox"

definition notif_InsertOutboxEvent :: "OutboxEvent \<Rightarrow> unit notif_prog" where
  "notif_InsertOutboxEvent e =
     call (InsertOutboxEvent notif_outbox e)
       (\<lambda>err. fail (svc_error ''outbox.InsertOutboxEvent'' ''failed to insert outbox event'' err)) ret"

definition notif_InsertOutboxEvents :: "OutboxEvent list \<Rightarrow> unit notif_prog" where
  "notif_InsertOutboxEvents es =
     call (InsertOutboxEvents notif_outbox es)
       (\<lambda>err. fail (svc_error ''outbox.InsertOutboxEvents'' ''failed to insert outbox events'' err)) ret"

definition notif_svc_RunProcess :: "string \<Rightarrow> string \<Rightarrow> unit notif_prog" where
  "notif_svc_RunProcess = svc_RunProcess notif_messages"

definition notif_svc_MarkSent :: "string \<Rightarrow> unit notif_prog" where
  "notif_svc_MarkSent = svc_MarkSent notif_messages"

definition notif_svc_MarkFailed :: "string \<Rightarrow> unit notif_prog" where
  "notif_svc_MarkFailed = svc_MarkFailed notif_messages"

definition notif_ProcessBatch ::
  "proto_lib \<Rightarrow> (string \<Rightarrow> unit notif_prog) \<Rightarrow> (OutboxEvent list \<Rightarrow> OutboxEvent list) \<Rightarrow> WorkerConfig \<Rightarrow>
   notif_db world \<Rightarrow> notif_db world run" where
  "notif_ProcessBatch L publish = ProcessBatch notif_outbox (notif_ProcessEvent L publish)"

definition notif_recovery_tick :: "notif_db world \<Rightarrow> notif_db world" where
  "notif_recovery_tick = recovery_tick notif_outbox"

section \<open>The push provider\<close>

record OneSignal_Config =
  os_AppID :: string
  os_ApiKey :: string

text \<open>The request \<^verbatim>\<open>Send\<close> posts: what it puts into the JSON body, and the two headers.\<close>

record OneSignal_request =
  or_app_id :: string
  or_headings_en :: string
  or_contents_en :: string
  or_target_channel :: string
  or_external_id :: "string list"
  or_ContentType :: string
  or_Authorization :: string

definition FakeRepo_GetOneSignalToken :: "string \<Rightarrow> string notif_prog" where
  "FakeRepo_GetOneSignalToken deviceId = ret []"

definition OneSignal_Send ::
  "OneSignal_Config \<Rightarrow> (string \<Rightarrow> string notif_prog) \<Rightarrow> (OneSignal_request \<Rightarrow> (nat \<times> string) notif_prog) \<Rightarrow>
   string \<Rightarrow> string \<Rightarrow> string \<Rightarrow> unit notif_prog" where
  "OneSignal_Send config GetOneSignalToken http_Do deviceId title msg =
     call (GetOneSignalToken deviceId) fail (\<lambda>token.
     call (http_Do \<lparr>or_app_id = os_AppID config, or_headings_en = title, or_contents_en = msg,
             or_target_channel = ''push'', or_external_id = [token],
             or_ContentType = ''application/json'', or_Authorization = ''Key '' @ os_ApiKey config\<rparr>)
       fail (\<lambda>(status, body).
     if status \<noteq> 200 then fail (ErrorString (''onesignal error: '' @ nat_to_string status @ '' - '' @ body))
     else ret ()))"

section \<open>Subscriber\<close>

record sub_SessionItem =
  sub_SessionID :: string
  sub_PushToken :: string

definition notif_event :: "NewSessionLoggedIn \<Rightarrow> sub_SessionItem \<Rightarrow> string \<Rightarrow> NotificationEvent" where
  "notif_event newSessionEv session eventId = \<lparr>ne_EventId = eventId, ne_EventType = EVENT_TYPE_ALERT_SESSION,
     ne_SessionPayload = Some \<lparr>sp_UserId = nsl_UserId newSessionEv, sp_SessionId = sub_SessionID session,
       sp_PushToken = sub_PushToken session\<rparr>\<rparr>"

fun session_events :: "proto_lib \<Rightarrow> NewSessionLoggedIn \<Rightarrow> sub_SessionItem list \<Rightarrow> OutboxEvent list notif_prog" where
  "session_events L newSessionEv [] = ret []"
| "session_events L newSessionEv (session # sessions) =
     (if sub_SessionID session = nsl_Id newSessionEv then session_events L newSessionEv sessions
      else
      call uuid_NewString fail (\<lambda>eventId.
      case event_New L (PbNotificationEvent (notif_event newSessionEv session eventId)) TypeNotificationPush of
        Inl err \<Rightarrow> fail err
      | Inr notifToCommon \<Rightarrow>
          (case proto_Marshal L notifToCommon of
             Inl err \<Rightarrow> fail err
           | Inr notifEventBody \<Rightarrow>
               call uuid_NewString fail (\<lambda>outboxId.
               call time_Now fail (\<lambda>now.
               call (session_events L newSessionEv sessions) fail (\<lambda>es.
               ret (\<lparr>oe_ID = 0, oe_EventID = outboxId, oe_EventType = event_Type_string TypeNotificationPush,
                     oe_Payload = notifEventBody, oe_AggregateType = ''user'',
                     oe_AggregateID = int_to_string (nsl_UserId newSessionEv), oe_Status = [], oe_LockedUntil = None,
                     oe_CreatedAt = now, oe_ProcessedAt = None\<rparr> # es)))))))"

definition handleNewSession ::
  "proto_lib \<Rightarrow> (int \<Rightarrow> sub_SessionItem list notif_prog) \<Rightarrow> EventEnvelope \<Rightarrow> unit notif_prog" where
  "handleNewSession L GetUserActiveSessions ev =
     (case UnmarshalTo_NewSessionLoggedIn L (ev_Payload ev) of
        Inl err \<Rightarrow> fail err
      | Inr newSessionEv \<Rightarrow>
          call (GetUserActiveSessions (nsl_UserId newSessionEv)) fail (\<lambda>sessions.
          if sessions \<noteq> []
          then call (session_events L newSessionEv sessions) fail (\<lambda>sessionEvents.
               if sessionEvents \<noteq> [] then call (notif_InsertOutboxEvents sessionEvents) fail ret
               else ret ())
          else ret ()))"

definition handlePushNotification ::
  "proto_lib \<Rightarrow> (string \<Rightarrow> string \<Rightarrow> string \<Rightarrow> unit notif_prog) \<Rightarrow> EventEnvelope \<Rightarrow> unit notif_prog" where
  "handlePushNotification L Send ev =
     (case UnmarshalTo_NotificationEvent L (ev_Payload ev) of
        Inl err \<Rightarrow> fail err
      | Inr notifEv \<Rightarrow>
          (case ne_SessionPayload notifEv of
             Some p \<Rightarrow>
               call (Send (int_to_string (sp_UserId p)) ''new notification''
                       (''user '' @ int_to_string (sp_UserId p) @ '' logged in with session '' @ sp_SessionId p))
                 fail ret
           | None \<Rightarrow> ret ()))"

definition notif_handleEvent ::
  "proto_lib \<Rightarrow> (int \<Rightarrow> sub_SessionItem list notif_prog) \<Rightarrow> (string \<Rightarrow> string \<Rightarrow> string \<Rightarrow> unit notif_prog) \<Rightarrow>
   EventEnvelope \<Rightarrow> unit notif_prog" where
  "notif_handleEvent L client Send ev =
     (if ev_EventType ev = event_Type_string TypeAuthNewSessionLoggedIn then handleNewSession L client ev
      else if ev_EventType ev = event_Type_string TypeNotificationPush then handlePushNotification L Send ev
      else ret ())"

definition notif_Handle ::
  "proto_lib \<Rightarrow> (int \<Rightarrow> sub_SessionItem list notif_prog) \<Rightarrow> (string \<Rightarrow> string \<Rightarrow> string \<Rightarrow> unit notif_prog) \<Rightarrow>
   Message \<Rightarrow> unit notif_prog" where
  "notif_Handle L client Send = inbox_Handle notif_messages L (notif_handleEvent L client Send)"

section \<open>The outbox of the notification service\<close>

text \<open>
  Its \<^verbatim>\<open>ProcessEvent\<close> publishes what it can decode, so it meets the safety contract; an event
  it cannot decode is never delivered, so it does not meet the liveness one.
\<close>

definition notif_routed :: "string \<Rightarrow> bool" where
  "notif_routed t \<longleftrightarrow> t = event_Type_string TypeNotificationPush"

locale notif_publisher = event_publisher publish for publish :: "string \<Rightarrow> unit notif_prog" +
  fixes L :: proto_lib

sublocale notif_publisher \<subseteq> outbox_processor "notif_ProcessEvent L publish" notif_routed
proof unfold_locales
  fix e w u w'
  assume "notif_ProcessEvent L publish e w = (Inr u, w')" "notif_routed (oe_EventType e)"
  then have "publish (oe_Payload e) w = (Inr u, w')"
    by (auto simp: notif_ProcessEvent_def notif_routed_def split: sum.splits)
  from pub_ok [OF this] show "\<exists>p \<in> set (sent w'). pub_body p = oe_Payload e" by auto
next
  fix e w r w'
  assume "notif_ProcessEvent L publish e w = (r, w')"
  then have "publish (oe_Payload e) w = (r, w') \<or> w' = w"
    by (auto simp: notif_ProcessEvent_def split: sum.splits if_splits)
  then show "set (sent w) \<subseteq> set (sent w')" "same_but_io w w'"
    using pub_monotone [of "oe_Payload e" w r w'] pub_frame [of "oe_Payload e" w r w'] by auto
qed

definition notif_app_ProcessEvent :: "proto_lib \<Rightarrow> OutboxEvent \<Rightarrow> unit notif_prog" where
  "notif_app_ProcessEvent L = notif_ProcessEvent L (DirectPublisher_Publish (open_base ''notification''))"

interpretation notif_pub: notif_publisher "DirectPublisher_Publish (open_base ''notification'')" L for L
  by unfold_locales

interpretation notif_svc: outbox_service notif_outbox "notif_app_ProcessEvent L" notif_routed for L
  unfolding notif_app_ProcessEvent_def by unfold_locales

section \<open>A new login is announced to the other sessions\<close>

text \<open>
  \<open>announces\<close>: the stored event is pending, is of the push type, and its payload decodes to
  a notification for that session and its push token.
\<close>

definition announces :: "proto_lib \<Rightarrow> NewSessionLoggedIn \<Rightarrow> sub_SessionItem \<Rightarrow> OutboxEvent \<Rightarrow> bool" where
  "announces L n s e \<longleftrightarrow> oe_EventType e = event_Type_string TypeNotificationPush \<and>
     (\<exists>env i. proto_Unmarshal L (oe_Payload e) = Inr env \<and> ev_EventType env = event_Type_string TypeNotificationPush \<and>
        UnmarshalTo_NotificationEvent L (ev_Payload env) = Inr (notif_event n s i))"

definition other_sessions :: "NewSessionLoggedIn \<Rightarrow> sub_SessionItem list \<Rightarrow> sub_SessionItem list" where
  "other_sessions n = filter (\<lambda>s. sub_SessionID s \<noteq> nsl_Id n)"

lemma announces_key: "ob_key e = ob_key e' \<Longrightarrow> announces L n s e \<Longrightarrow> announces L n s e'"
  by (simp add: announces_def ob_key_def)

lemma keeps_session_events: "keeps_db P (session_events L n ss)"
proof (induction ss)
  case (Cons s ss)
  then show ?case unfolding session_events.simps by (intro keep_rules)
qed (simp only: session_events.simps keeps_ret)

lemma session_events_announce:
  assumes "proto_ok L" "session_events L n ss w = (Inr es, w')"
  shows "list_all2 (announces L n) (other_sessions n ss) es"
  using assms(2)
proof (induction ss arbitrary: w es w')
  case Nil
  then show ?case by (simp add: other_sessions_def)
next
  case (Cons s ss)
  show ?case
  proof (cases "sub_SessionID s = nsl_Id n")
    case True
    then show ?thesis using Cons by (simp add: other_sessions_def)
  next
    case False
    define i where "i = uuid_src w (uuids w)"
    from Cons.prems False obtain env body where
      e: "event_New L (PbNotificationEvent (notif_event n s i)) TypeNotificationPush = Inr env" "proto_Marshal L env = Inr body"
      by (auto simp: call_def uuid_NewString_def i_def split: sum.splits)
    from Cons.prems False e obtain e0 es0 w1 w2 where
      r: "session_events L n ss w1 = (Inr es0, w2)" "es = e0 # es0" "oe_Payload e0 = body"
        "oe_EventType e0 = event_Type_string TypeNotificationPush"
      by (auto simp: call_def uuid_NewString_def time_Now_def i_def split: sum.splits prod.splits)
    have "announces L n s e0"
      using envelope_roundtrip [OF assms(1) e] r(3,4)
      by (auto simp: announces_def UnmarshalTo_NotificationEvent_def)
    then show ?thesis using Cons.IH [OF r(1)] r(2) False by (simp add: other_sessions_def)
  qed
qed

lemma InsertOutboxEvents_notif:
  assumes "notif_InsertOutboxEvents es w = (r, w')"
  shows "case r of Inl _ \<Rightarrow> db w' = db w
    | Inr _ \<Rightarrow> \<exists>new. events notif_outbox w' = events notif_outbox w @ new \<and> map ob_key new = map ob_key es \<and>
        (\<forall>e \<in> set new. oe_Status e = ''pending'') \<and>
        notification_processed_messages (db w') = notification_processed_messages (db w)"
  using assms unfolding notif_InsertOutboxEvents_def InsertOutboxEvents_def
  by (auto simp: call_def split: if_splits prod.splits sum.splits dest!: sql_Inl_cases sql_Inr_cases ob_insert_rows)

lemma list_all2_key:
  assumes "list_all2 R xs es" "map ob_key new = map ob_key es" "\<And>x e e'. ob_key e = ob_key e' \<Longrightarrow> R x e \<Longrightarrow> R x e'"
  shows "list_all2 R xs new"
  using assms(1,2)
proof (induction xs es arbitrary: new rule: list_all2_induct)
  case (Cons x xs e es)
  from Cons.prems obtain e' new' where new: "new = e' # new'" "ob_key e = ob_key e'" "map ob_key new' = map ob_key es"
    by auto
  then show ?case using Cons.hyps(1) Cons.IH [OF new(3)] assms(3) [OF new(2)] by simp
qed simp

lemma handleNewSession_fanout:
  assumes "proto_ok L" "UnmarshalTo_NewSessionLoggedIn L (ev_Payload ev) = Inr n"
    and "client (nsl_UserId n) w = (Inr sessions, w1)" "db w1 = db w" "handleNewSession L client ev w = (r, w')"
  shows "case r of Inl _ \<Rightarrow> db w' = db w
    | Inr _ \<Rightarrow> \<exists>new. events notif_outbox w' = events notif_outbox w @ new \<and>
        list_all2 (announces L n) (other_sessions n sessions) new \<and> (\<forall>e \<in> set new. oe_Status e = ''pending'') \<and>
        notification_processed_messages (db w') = notification_processed_messages (db w)"
proof -
  obtain r1 w2 where se: "session_events L n sessions w1 = (r1, w2)" by (cases "session_events L n sessions w1")
  have d: "db w2 = db w" using keepsD' [OF keeps_session_events [of "\<lambda>d. d = db w"] _ se] assms(4) by simp
  have h: "handleNewSession L client ev w =
    (if sessions \<noteq> [] then call (session_events L n sessions) fail (\<lambda>es. if es \<noteq> [] then call (notif_InsertOutboxEvents es) fail ret
       else ret ()) w1 else (Inr (), w1))"
    using assms(2,3) by (simp add: handleNewSession_def call_def)
  show ?thesis
  proof (cases "sessions = [] \<or> isl r1 \<or> r1 = Inr []")
    case True
    then show ?thesis
      using h se d assms(4,5) session_events_announce [OF assms(1), of n sessions w1 "[]" w2]
      by (auto simp: call_def other_sessions_def split: if_splits sum.splits)
  next
    case False
    then obtain es where es: "r1 = Inr es" "es \<noteq> []" "sessions \<noteq> []" by (cases r1) auto
    obtain r3 w3 where i: "notif_InsertOutboxEvents es w2 = (r3, w3)" by (cases "notif_InsertOutboxEvents es w2")
    have rw: "r = r3" "w' = w3" using h se es i assms(5) by (auto simp: call_def split: sum.splits)
    have an: "list_all2 (announces L n) (other_sessions n sessions) es"
      using session_events_announce [OF assms(1)] se es(1) by simp
    show ?thesis
      using InsertOutboxEvents_notif [OF i] d rw list_all2_key [OF an _ announces_key]
      by (auto split: sum.splits)
  qed
qed

section \<open>Guarantees of the outbox\<close>

lemma notif_outbox_safe:
  assumes "ob_steps notif_outbox (notif_app_ProcessEvent L) (idle w) s"
    and "ob_rows_ok notif_routed (sent w) (events notif_outbox w)"
  shows "ob_rows_ok notif_routed (sent (sys_world s)) (events notif_outbox (sys_world s)) \<and>
    (\<exists>new. map ob_key (events notif_outbox (sys_world s)) = map ob_key (events notif_outbox w) @ new)"
  using assms by (rule notif_svc.steps_from_idle)

lemma notif_batch_is_run:
  assumes "unique_by oe_EventID (events notif_outbox w)" "\<And>es. mset (order es) = mset es"
  shows "\<exists>s'. ob_steps notif_outbox (notif_app_ProcessEvent L) (idle w) s' \<and>
    sys_world s' = notif_svc.run_world (notif_ProcessBatch L (DirectPublisher_Publish (open_base ''notification'')) order config w)"
  using notif_svc.ProcessBatch_steps [OF assms, of L config]
  by (simp add: notif_ProcessBatch_def notif_app_ProcessEvent_def)

section \<open>Pushes reach nobody\<close>

lemma OneSignal_Send_blank:
  "(\<forall>r. or_external_id r = [[]] \<longrightarrow> http_Do r = http_Do' r) \<Longrightarrow>
   OneSignal_Send C FakeRepo_GetOneSignalToken http_Do u t m = OneSignal_Send C FakeRepo_GetOneSignalToken http_Do' u t m"
  by (simp add: OneSignal_Send_def FakeRepo_GetOneSignalToken_def)

text \<open>
  No push reaches a user: the application wires the sender to a token store that
  answers every request with the empty string, so the requests it sends to the provider are
  all addressed to the alias \<^verbatim>\<open>""\<close>. Two providers that agree on that alias cannot be told apart,
  whatever they do for every other address.
\<close>

theorem push_reaches_nobody:
  assumes "\<forall>r. or_external_id r = [[]] \<longrightarrow> http_Do r = http_Do' r"
  shows "notif_Handle L client (OneSignal_Send C FakeRepo_GetOneSignalToken http_Do) msg w =
         notif_Handle L client (OneSignal_Send C FakeRepo_GetOneSignalToken http_Do') msg w"
proof -
  have "OneSignal_Send C FakeRepo_GetOneSignalToken http_Do = OneSignal_Send C FakeRepo_GetOneSignalToken http_Do'"
    by (intro ext OneSignal_Send_blank [OF assms, THEN fun_cong])
  then show ?thesis by simp
qed

text \<open>A provider that accepts everything, and one that refuses every real address.\<close>

theorem push_reaches_nobody_witness:
  "\<forall>L client msg w.
   notif_Handle L client (OneSignal_Send \<lparr>os_AppID = ''app'', os_ApiKey = ''key''\<rparr> FakeRepo_GetOneSignalToken (\<lambda>r. ret (200, []))) msg w =
   notif_Handle L client (OneSignal_Send \<lparr>os_AppID = ''app'', os_ApiKey = ''key''\<rparr> FakeRepo_GetOneSignalToken
     (\<lambda>r. if or_external_id r = [[]] then ret (200, []) else ret (400, ''no such user''))) msg w"
  by (intro allI push_reaches_nobody) simp

end
