(* ===== verification/Wire.thy ===== *)
theory Wire
  imports Events
begin

text \<open>
  A wire format that meets the hypotheses about the protobuf runtime on every message, for
  concrete instances: fields with a length prefix in unary, integers in decimal. Messages
  whose integer fields leave the range of 64 bits have no encoding.
\<close>

section \<open>Lists of fields\<close>

definition enc_field :: "string \<Rightarrow> string" where
  "enc_field s = replicate (length s) CHR ''1'' @ CHR ''0'' # s"

definition enc_fields :: "string list \<Rightarrow> string" where
  "enc_fields fs = concat (map enc_field fs)"

function dec_fields :: "string \<Rightarrow> string list option" where
  "dec_fields s =
     (if s = [] then Some []
      else let k = length (takeWhile ((=) CHR ''1'') s); rest = drop (Suc k) s in
           map_option (Cons (take k rest)) (dec_fields (drop k rest)))"
  by pat_completeness auto
termination by (relation "measure length") auto

declare dec_fields.simps [simp del]

lemma dec_enc_fields: "dec_fields (enc_fields fs) = Some fs"
proof (induction fs)
  case Nil
  then show ?case by (simp add: enc_fields_def dec_fields.simps)
next
  case (Cons f fs)
  let ?s = "replicate (length f) CHR ''1'' @ CHR ''0'' # f @ enc_fields fs"
  have e: "enc_fields (f # fs) = ?s" by (simp add: enc_fields_def enc_field_def)
  have "takeWhile ((=) CHR ''1'') ?s = replicate (length f) CHR ''1''"
    by (subst takeWhile_append2) auto
  moreover have "drop (Suc (length f)) ?s = f @ enc_fields fs" by simp
  ultimately show ?case
    using Cons unfolding e by (subst dec_fields.simps) (simp add: Let_def)
qed

section \<open>Messages\<close>

fun wire_msg :: "pb_message \<Rightarrow> string list option" where
  "wire_msg (PbRegisterNewUser r) =
     (if int64_range (rnu_Id r) then Some [''r'', int_to_string (rnu_Id r), rnu_Email r] else None)"
| "wire_msg (PbNewSessionLoggedIn n) =
     (if int64_range (nsl_UserId n) then Some [''s'', nsl_Id n, int_to_string (nsl_UserId n)] else None)"
| "wire_msg (PbNotificationEvent e) =
     (let t = (case ne_EventType e of EVENT_TYPE_UNSPECIFIED \<Rightarrow> ''0'' | EVENT_TYPE_ALERT_SESSION \<Rightarrow> ''1'') in
      case ne_SessionPayload e of
        None \<Rightarrow> Some [''n'', ne_EventId e, t]
      | Some p \<Rightarrow> if int64_range (sp_UserId p)
                  then Some [''n'', ne_EventId e, t, int_to_string (sp_UserId p), sp_SessionId p, sp_PushToken p] else None)"

definition unwire_type :: "string \<Rightarrow> NotificationEventType" where
  "unwire_type t = (if t = ''0'' then EVENT_TYPE_UNSPECIFIED else EVENT_TYPE_ALERT_SESSION)"

definition unwire_msg :: "string list \<Rightarrow> pb_message option" where
  "unwire_msg fs =
     (case fs of
        [t, a, b] \<Rightarrow>
          if t = ''r'' then map_option (\<lambda>i. PbRegisterNewUser \<lparr>rnu_Id = i, rnu_Email = b\<rparr>) (ParseInt a)
          else if t = ''s'' then map_option (\<lambda>i. PbNewSessionLoggedIn \<lparr>nsl_Id = a, nsl_UserId = i\<rparr>) (ParseInt b)
          else Some (PbNotificationEvent \<lparr>ne_EventId = a, ne_EventType = unwire_type b, ne_SessionPayload = None\<rparr>)
      | [t, a, b, c, d, e] \<Rightarrow>
          map_option (\<lambda>i. PbNotificationEvent \<lparr>ne_EventId = a, ne_EventType = unwire_type b,
             ne_SessionPayload = Some \<lparr>sp_UserId = i, sp_SessionId = d, sp_PushToken = e\<rparr>\<rparr>) (ParseInt c)
      | _ \<Rightarrow> None)"

lemma unwire_wire: "wire_msg m = Some fs \<Longrightarrow> unwire_msg fs = Some m"
  by (cases m rule: wire_msg.cases)
     (auto simp: unwire_msg_def unwire_type_def ParseInt_int_to_string Let_def
       split: if_splits option.splits NotificationEventType.splits)

definition wire_env :: "EventEnvelope \<Rightarrow> string" where
  "wire_env e = enc_fields (ev_EventType e #
     (case ev_Payload e of None \<Rightarrow> [] | Some a \<Rightarrow> [any_type_url a, any_value a]))"

definition unwire_env :: "string \<Rightarrow> EventEnvelope option" where
  "unwire_env s =
     (case dec_fields s of
        Some [t] \<Rightarrow> Some \<lparr>ev_EventType = t, ev_Payload = None\<rparr>
      | Some [t, u, v] \<Rightarrow> Some \<lparr>ev_EventType = t, ev_Payload = Some \<lparr>any_type_url = u, any_value = v\<rparr>\<rparr>
      | _ \<Rightarrow> None)"

lemma unwire_wire_env: "unwire_env (wire_env e) = Some e"
  by (auto simp: unwire_env_def wire_env_def dec_enc_fields split: option.splits)

definition wire_proto :: proto_lib where
  "wire_proto = \<lparr>
     anypb_New = (\<lambda>m. case wire_msg m of None \<Rightarrow> Inl (ErrorString ''encode'')
        | Some fs \<Rightarrow> Inr \<lparr>any_type_url = ''type'', any_value = enc_fields fs\<rparr>),
     anypb_UnmarshalTo = (\<lambda>a. case a of None \<Rightarrow> Inl (ErrorString ''invalid nil source message'')
        | Some a' \<Rightarrow> (case dec_fields (any_value a') of None \<Rightarrow> Inl (ErrorString ''decode'')
            | Some fs \<Rightarrow> (case unwire_msg fs of None \<Rightarrow> Inl (ErrorString ''decode'') | Some m \<Rightarrow> Inr m))),
     proto_Marshal = (\<lambda>e. Inr (wire_env e)),
     proto_Unmarshal = (\<lambda>b. case unwire_env b of None \<Rightarrow> Inl (ErrorString ''decode'') | Some e \<Rightarrow> Inr e)\<rparr>"

lemma wire_proto_ok: "proto_ok wire_proto"
  by (auto simp: proto_ok_def wire_proto_def dec_enc_fields unwire_wire unwire_wire_env split: option.splits)

text \<open>Every message within range can be put into an envelope and encoded.\<close>

lemma wire_proto_encodes:
  assumes "wire_msg m \<noteq> None"
  shows "\<exists>env b. event_New wire_proto m t = Inr env \<and> proto_Marshal wire_proto env = Inr b"
  using assms by (auto simp: wire_proto_def event_New_def)

end
