(* ===== verification/SessionAlerts.thy ===== *)
theory SessionAlerts
  imports Notification AuthSessions Wire
begin

text \<open>
  The call from the notification service into the auth service and what it is for. The
  gRPC method (\<^verbatim>\<open>internal/auth/delivery/grpc/handler.go\<close>) and the client
  (\<^verbatim>\<open>adapter/notification/auth/client.go\<close>) are modelled; between them is the gRPC runtime,
  which may fail and which turns the handler's error into a status error. With that client,
  handling a login event creates one alert for every other session row of the user.
\<close>

section \<open>The remote call\<close>

record Session_pb =
  pbs_UserId :: int
  pbs_SessionId :: string
  pbs_PushToken :: string

definition GetUserActiveSessions :: "int \<Rightarrow> Session_pb list auth_prog" where
  "GetUserActiveSessions userId =
     call (GetActiveSessions userId) fail (\<lambda>sessions.
     ret (map (\<lambda>session. \<lparr>pbs_UserId = userId, pbs_SessionId = si_SessionID session,
                pbs_PushToken = (case si_PushToken session of None \<Rightarrow> [] | Some t \<Rightarrow> if t \<noteq> [] then t else [])\<rparr>) sessions))"

definition auth_rpc :: "(go_error \<Rightarrow> go_error) \<Rightarrow> auth_db world \<Rightarrow> int \<Rightarrow> Session_pb list notif_prog" where
  "auth_rpc status_error aw userId =
     call outside fail (\<lambda>_.
     case fst (GetUserActiveSessions userId aw) of Inl err \<Rightarrow> fail (status_error err) | Inr res \<Rightarrow> ret res)"

definition Client_GetUserActiveSessions ::
  "(int \<Rightarrow> Session_pb list notif_prog) \<Rightarrow> int \<Rightarrow> sub_SessionItem list notif_prog" where
  "Client_GetUserActiveSessions rpc userId =
     call (rpc userId) fail (\<lambda>res.
     ret (map (\<lambda>session. \<lparr>sub_SessionID = pbs_SessionId session, sub_PushToken = pbs_PushToken session\<rparr>) res))"

abbreviation auth_client :: "(go_error \<Rightarrow> go_error) \<Rightarrow> auth_db world \<Rightarrow> int \<Rightarrow> sub_SessionItem list notif_prog" where
  "auth_client status_error aw \<equiv> Client_GetUserActiveSessions (auth_rpc status_error aw)"

lemma auth_client_uniform:
  assumes "fault_free aw" "auth_wf (db aw)"
  shows "\<exists>items. (\<forall>w. fault_free w \<longrightarrow> auth_client se aw uid w = (Inr items, w\<lparr>calls := Suc (calls w)\<rparr>)) \<and>
    mset (map sub_SessionID items) = mset (map ses_public_id (filter (\<lambda>s. ses_user_id s = uid) (device_sessions (db aw))))"
proof -
  obtain items aw' where i: "GetActiveSessions uid aw = (Inr items, aw')"
    "mset (map si_SessionID items) = mset (map ses_public_id (filter (\<lambda>s. ses_user_id s = uid) (device_sessions (db aw))))"
    using GetActiveSessions_lists_all [OF assms(1,2), of uid] by blast
  let ?conv = "\<lambda>x. \<lparr>sub_SessionID = si_SessionID x,
      sub_PushToken = (case si_PushToken x of None \<Rightarrow> [] | Some t \<Rightarrow> if t \<noteq> [] then t else [])\<rparr>"
  show ?thesis
    using i by (intro exI [of _ "map ?conv items"]) (simp add: Client_GetUserActiveSessions_def auth_rpc_def GetUserActiveSessions_def call_def outside_def
        fault_free_def multiset.map_comp comp_def)
qed

section \<open>Building the alerts succeeds\<close>

definition encodable :: "proto_lib \<Rightarrow> pb_message \<Rightarrow> bool" where
  "encodable L m \<longleftrightarrow> (\<exists>env b. event_New L m TypeNotificationPush = Inr env \<and> proto_Marshal L env = Inr b)"

text \<open>Their ids are new values of the UUID source, drawn between two positions of it.\<close>

definition fresh_ids :: "notif_db world \<Rightarrow> nat \<Rightarrow> OutboxEvent list \<Rightarrow> bool" where
  "fresh_ids w j es \<longleftrightarrow> (\<exists>ks. map oe_EventID es = map (uuid_src w) ks \<and> distinct ks \<and> (\<forall>k \<in> set ks. uuids w \<le> k \<and> k < j))"

lemma session_events_ok:
  assumes "\<And>s i. s \<in> set ss \<Longrightarrow> encodable L (PbNotificationEvent (notif_event n s i))"
  shows "\<exists>es k. session_events L n ss w = (Inr es, w\<lparr>uuids := k\<rparr>) \<and> fresh_ids w k es \<and> uuids w \<le> k \<and>
    (\<forall>e \<in> set es. oe_AggregateID e = int_to_string (nsl_UserId n))"
  using assms
proof (induction ss arbitrary: w)
  case Nil
  have "w = w\<lparr>uuids := uuids w\<rparr>" by simp
  then show ?case by (intro exI [of _ "[]"] exI [of _ "uuids w"]) (simp add: fresh_ids_def)
next
  case (Cons s ss)
  show ?case
  proof (cases "sub_SessionID s = nsl_Id n")
    case True
    then show ?thesis using Cons by simp
  next
    case False
    let ?w2 = "w\<lparr>uuids := Suc (Suc (uuids w))\<rparr>"
    obtain env b where e: "event_New L (PbNotificationEvent (notif_event n s (uuid_src w (uuids w)))) TypeNotificationPush = Inr env"
      "proto_Marshal L env = Inr b" using Cons.prems [of s "uuid_src w (uuids w)"] by (auto simp: encodable_def)
    obtain es k where r: "session_events L n ss ?w2 = (Inr es, ?w2\<lparr>uuids := k\<rparr>)" "fresh_ids ?w2 k es"
      "uuids ?w2 \<le> k" "\<forall>e \<in> set es. oe_AggregateID e = int_to_string (nsl_UserId n)"
      using Cons.IH [of ?w2] Cons.prems by auto
    obtain ks where ks: "map oe_EventID es = map (uuid_src w) ks" "distinct ks" "\<forall>j \<in> set ks. Suc (Suc (uuids w)) \<le> j \<and> j < k"
      using r(2) by (auto simp: fresh_ids_def)
    define e0 where "e0 = \<lparr>oe_ID = 0, oe_EventID = uuid_src w (Suc (uuids w)), oe_EventType = event_Type_string TypeNotificationPush,
        oe_Payload = b, oe_AggregateType = ''user'', oe_AggregateID = int_to_string (nsl_UserId n), oe_Status = [],
        oe_LockedUntil = None, oe_CreatedAt = clock w, oe_ProcessedAt = None\<rparr>"
    have "session_events L n (s # ss) w = (Inr (e0 # es), w\<lparr>uuids := k\<rparr>)"
      using False e r(1) by (simp add: call_def uuid_NewString_def time_Now_def e0_def)
    moreover have "fresh_ids w k (e0 # es)"
      unfolding fresh_ids_def using ks r(3) by (intro exI [of _ "Suc (uuids w) # ks"]) (auto simp: e0_def)
    ultimately show ?thesis
      using r(3,4) by (intro exI [of _ "e0 # es"] exI [of _ k]) (auto simp: e0_def)
  qed
qed

lemma ob_insert_ok:
  assumes "distinct (map oe_EventID es)" "\<And>e r. e \<in> set es \<Longrightarrow> r \<in> set (ob_rows t) \<Longrightarrow> oe_EventID r \<noteq> oe_EventID e"
    and "\<And>e. e \<in> set es \<Longrightarrow> ParseInt (oe_AggregateID e) \<noteq> None"
  shows "\<exists>t'. ob_insert es t = Inr ((), t')"
  using assms
proof (induction es arbitrary: t)
  case (Cons e es)
  define t1 where "t1 = t\<lparr>ob_rows := ob_rows t @ [e\<lparr>oe_ID := ob_next t, oe_Status := ''pending'',
      oe_LockedUntil := None, oe_ProcessedAt := None\<rparr>], ob_next := ob_next t + 1\<rparr>"
  have "ob_insert (e # es) t = ob_insert es t1"
    using Cons.prems(2) [of e] Cons.prems(3) [of e] by (auto simp: t1_def)
  moreover have "oe_EventID r \<noteq> oe_EventID e'" if "e' \<in> set es" "r \<in> set (ob_rows t1)" for e' r
  proof (cases "r \<in> set (ob_rows t)")
    case False
    then have "oe_EventID r = oe_EventID e" using that(2) by (simp add: t1_def)
    then show ?thesis using Cons.prems(1) that(1) by auto
  qed (use Cons.prems(2) that(1) in auto)
  ultimately show ?case using Cons.IH [of t1] Cons.prems(1,3) by auto
qed simp

definition uuids_fresh :: "notif_db world \<Rightarrow> bool" where
  "uuids_fresh w \<longleftrightarrow> inj (uuid_src w) \<and> (\<forall>r \<in> set (events notif_outbox w). \<forall>k. uuids w \<le> k \<longrightarrow> oe_EventID r \<noteq> uuid_src w k)"

lemma uuids_freshI:
  "inj (uuid_src w) \<Longrightarrow> (\<And>r k. r \<in> set (events notif_outbox w) \<Longrightarrow> uuids w \<le> k \<Longrightarrow> oe_EventID r \<noteq> uuid_src w k) \<Longrightarrow> uuids_fresh w"
  by (simp add: uuids_fresh_def)

lemma InsertOutboxEvents_ok:
  assumes "fault_free w" "uuids_fresh w" "int64_range uid" "fresh_ids w j es"
    and ag: "\<And>e. e \<in> set es \<Longrightarrow> oe_AggregateID e = int_to_string uid"
  shows "\<exists>w'. notif_InsertOutboxEvents es (w\<lparr>uuids := j\<rparr>) = (Inr (), w') \<and> fault_free w' \<and> (uuids w \<le> j \<longrightarrow> uuids_fresh w')"
proof -
  obtain ks where ks: "map oe_EventID es = map (uuid_src w) ks" "distinct ks" "\<forall>k \<in> set ks. uuids w \<le> k \<and> k < j"
    using assms(4) by (auto simp: fresh_ids_def)
  have inj: "uuid_src w k = uuid_src w k' \<longleftrightarrow> k = k'" for k k' using assms(2) by (auto simp: uuids_fresh_def inj_def)
  have ids: "\<exists>k. oe_EventID e = uuid_src w k \<and> uuids w \<le> k \<and> k < j" if "e \<in> set es" for e
  proof -
    have "oe_EventID e \<in> set (map (uuid_src w) ks)" using that ks(1) by (metis image_eqI list.set_map)
    then show ?thesis using ks(3) by auto
  qed
  have "distinct (map oe_EventID es)"
    unfolding ks(1) using ks(2) inj by (simp add: distinct_map inj_on_def)
  moreover have "oe_EventID r \<noteq> oe_EventID e" if "e \<in> set es" "r \<in> set (events notif_outbox w)" for e r
    using ids [OF that(1)] assms(2) that(2) by (auto simp: uuids_fresh_def)
  moreover have "ParseInt (oe_AggregateID e) \<noteq> None" if "e \<in> set es" for e
    using assms(3) ag that by (simp add: ParseInt_int_to_string)
  ultimately obtain t where t: "ob_insert es (notification_outbox_events (db w)) = Inr ((), t)"
    using ob_insert_ok [of es "notification_outbox_events (db w)"] by auto
  obtain new where new: "ob_rows t = events notif_outbox w @ new" "map ob_key new = map ob_key es"
    using ob_insert_rows [OF t] by auto
  have "oe_EventID r \<noteq> uuid_src w k" if "uuids w \<le> j" "r \<in> set (ob_rows t)" "j \<le> k" for r k
  proof (cases "r \<in> set new")
    case True
    then obtain e where "e \<in> set es" "ob_key r = ob_key e" using new(2) by (metis image_iff list.set_map)
    then show ?thesis using ids [of e] that(3) by (auto simp: ob_key_def inj)
  next
    case False
    then have "r \<in> set (events notif_outbox w)" using new(1) that(2) by auto
    then show ?thesis using assms(2) that(1,3) by (auto simp: uuids_fresh_def)
  qed
  moreover have "inj (uuid_src w)" using assms(2) by (simp add: uuids_fresh_def)
  ultimately show ?thesis
    using assms(1) t by (auto simp: notif_InsertOutboxEvents_def InsertOutboxEvents_def call_def sql_ok fault_free_def intro: uuids_freshI)
qed

lemma handleNewSession_ok:
  assumes "fault_free w" "uuids_fresh w" "int64_range (nsl_UserId n)"
    and "UnmarshalTo_NewSessionLoggedIn L (ev_Payload ev) = Inr n"
    and "client (nsl_UserId n) w = (Inr ss, w\<lparr>calls := k\<rparr>)"
    and "\<And>s i. s \<in> set ss \<Longrightarrow> encodable L (PbNotificationEvent (notif_event n s i))"
  shows "\<exists>w'. handleNewSession L client ev w = (Inr (), w') \<and> fault_free w' \<and> uuids_fresh w'"
proof -
  define w1 where "w1 = w\<lparr>calls := k\<rparr>"
  have f1: "fault_free w1" "uuids_fresh w1" using assms(1,2) by (simp_all add: w1_def fault_free_def uuids_fresh_def)
  obtain es j where se: "session_events L n ss w1 = (Inr es, w1\<lparr>uuids := j\<rparr>)" "fresh_ids w1 j es" "uuids w1 \<le> j"
    "\<forall>e \<in> set es. oe_AggregateID e = int_to_string (nsl_UserId n)"
    using session_events_ok [of ss L n w1] assms(6) by blast
  have f2: "fault_free (w1\<lparr>uuids := j\<rparr>)" "uuids_fresh (w1\<lparr>uuids := j\<rparr>)"
    using f1 se(3) by (simp_all add: fault_free_def uuids_fresh_def)
  obtain w3 where i: "notif_InsertOutboxEvents es (w1\<lparr>uuids := j\<rparr>) = (Inr (), w3)" "fault_free w3" "uuids_fresh w3"
    using InsertOutboxEvents_ok [OF f1 assms(3) se(2)] se(3,4) by blast
  have "handleNewSession L client ev w = (if ss = [] then (Inr (), w1)
      else if es = [] then (Inr (), w1\<lparr>uuids := j\<rparr>) else (Inr (), w3))"
    using assms(4,5) se(1) i(1) by (simp add: handleNewSession_def call_def w1_def)
  then show ?thesis using f1 f2 i by auto
qed

text \<open>The whole handler on a login event, when no call fails.\<close>

definition notif_status :: "notif_db \<Rightarrow> string \<Rightarrow> string option" where
  "notif_status d = pm_status_of (notification_processed_messages d)"

lemma notif_inbox_status: "notif_inbox.inbox_status = notif_status"
  by (rule ext) (simp add: notif_status_def notif_inbox.inbox_status_def)

lemma notif_Handle_login:
  assumes "fault_free w" "uuids_fresh w" "notif_status (db w) (msg_ID msg) \<noteq> Some ''sent''"
    and "proto_ok L" "event_New L (PbNewSessionLoggedIn n) TypeAuthNewSessionLoggedIn = Inr env"
      "proto_Marshal L env = Inr (msg_Body msg)" "int64_range (nsl_UserId n)"
    and "\<forall>v. fault_free v \<longrightarrow> client (nsl_UserId n) v = (Inr ss, v\<lparr>calls := Suc (calls v)\<rparr>)"
      "\<And>s i. s \<in> set ss \<Longrightarrow> encodable L (PbNotificationEvent (notif_event n s i))"
  shows "\<exists>w' new. notif_Handle L client send msg w = (Inr (), w') \<and> fault_free w' \<and> uuids_fresh w' \<and>
    events notif_outbox w' = events notif_outbox w @ new \<and> list_all2 (announces L n) (other_sessions n ss) new \<and>
    (\<forall>e \<in> set new. oe_Status e = ''pending'') \<and> notif_status (db w') (msg_ID msg) = Some ''completed''"
proof -
  note env = envelope_roundtrip [OF assms(4-6)]
  have dec: "UnmarshalTo_NewSessionLoggedIn L (ev_Payload env) = Inr n"
    using env(3) by (simp add: UnmarshalTo_NewSessionLoggedIn_def)
  obtain rs k where run: "svc_RunProcess notif_messages (msg_ID msg) (msg_Body msg) w =
      (Inr (), w\<lparr>calls := k, db := (db w)\<lparr>notification_processed_messages := rs\<rparr>\<rparr>)"
    and rs: "pm_status_of rs = (notif_status (db w))(msg_ID msg \<mapsto> ''processing'')"
    using notif_inbox.svc_RunProcess_ok [of w "msg_ID msg" "msg_Body msg"] assms(1,3)
    unfolding notif_inbox_status fault_free_def by auto
  define w1 where "w1 = w\<lparr>calls := k, db := (db w)\<lparr>notification_processed_messages := rs\<rparr>\<rparr>"
  have 1: "fault_free w1" "uuids_fresh w1" using assms(1,2) by (simp_all add: w1_def fault_free_def uuids_fresh_def)
  obtain w2 where h: "handleNewSession L client env w1 = (Inr (), w2)" and f2: "fault_free w2" "uuids_fresh w2"
    using handleNewSession_ok [OF 1 assms(7) dec, where client = client and k = "Suc (calls w1)" and ss = ss]
      assms(8) [rule_format, OF 1(1)] assms(9) by blast
  obtain new where new: "events notif_outbox w2 = events notif_outbox w1 @ new"
    "list_all2 (announces L n) (other_sessions n ss) new" "\<forall>e \<in> set new. oe_Status e = ''pending''"
    "notification_processed_messages (db w2) = rs"
    using handleNewSession_fanout [OF assms(4) dec, where client = client, OF assms(8) [rule_format, OF 1(1)] _ h] by (auto simp: w1_def)
  have "notif_Handle L client send msg w = (Inr (), w2\<lparr>calls := Suc (calls w2),
      db := (db w2)\<lparr>notification_processed_messages := pm_complete (msg_ID msg) (clock w2) rs\<rparr>\<rparr>)"
    using run env(1,2) h f2 new(4)
    by (simp add: notif_Handle_def inbox_Handle_def call_def w1_def notif_handleEvent_def svc_MarkSent_def MarkSent_ok fault_free_def)
  then show ?thesis
    using new f2 rs by (simp add: fault_free_def uuids_fresh_def w1_def notif_status_def pm_complete_def pm_status_simps)
qed

lemma notif_Handle_alerts:
  assumes "fault_free w" "uuids_fresh w" "notif_status (db w) (msg_ID msg) \<noteq> Some ''sent''"
    and "fault_free aw" "auth_wf (db aw)"
    and "proto_ok L" "event_New L (PbNewSessionLoggedIn n) TypeAuthNewSessionLoggedIn = Inr env"
      "proto_Marshal L env = Inr (msg_Body msg)" "int64_range (nsl_UserId n)"
      "\<And>s i. encodable L (PbNotificationEvent (notif_event n s i))"
  shows "\<exists>w' new others. notif_Handle L (auth_client se aw) send msg w = (Inr (), w') \<and>
    events notif_outbox w' = events notif_outbox w @ new \<and>
    (\<forall>e \<in> set new. oe_Status e = ''pending'') \<and> list_all2 (announces L n) others new \<and>
    mset (map sub_SessionID others) = mset (map ses_public_id
      (filter (\<lambda>s. ses_user_id s = nsl_UserId n \<and> ses_public_id s \<noteq> nsl_Id n) (device_sessions (db aw))))"
proof -
  define rows where "rows = filter (\<lambda>s. ses_user_id s = nsl_UserId n) (device_sessions (db aw))"
  obtain items where items: "\<forall>v. fault_free v \<longrightarrow> auth_client se aw (nsl_UserId n) v = (Inr items, v\<lparr>calls := Suc (calls v)\<rparr>)"
    "mset (map sub_SessionID items) = mset (map ses_public_id rows)"
    using auth_client_uniform [OF assms(4,5), of se "nsl_UserId n"] unfolding rows_def by blast
  obtain w' new where "notif_Handle L (auth_client se aw) send msg w = (Inr (), w')"
    "events notif_outbox w' = events notif_outbox w @ new" "list_all2 (announces L n) (other_sessions n items) new"
    "\<forall>e \<in> set new. oe_Status e = ''pending''"
    using notif_Handle_login [OF assms(1-3,6-9), where client = "auth_client se aw" and ss = items and send = send]
      items(1) assms(10) by blast
  moreover have "mset (map sub_SessionID (other_sessions n items)) = mset (map ses_public_id (filter (\<lambda>s. ses_public_id s \<noteq> nsl_Id n) rows))"
    using arg_cong [OF items(2), of "filter_mset (\<lambda>i. i \<noteq> nsl_Id n)"]
    by (simp add: other_sessions_def filter_mset_image_mset)
  ultimately show ?thesis
    by (intro exI [of _ w'] exI [of _ new] exI [of _ "other_sessions n items"]) (simp add: rows_def conj_commute)
qed

text \<open>
  A login is announced to every other session and to no one else. When no call fails,
  handling the login event that auth encoded acknowledges the message and adds to the
  notification outbox exactly one pending event for each session row that auth holds for
  the user, except the new session; each stored payload decodes to a notification for that
  session. Encoding is assumed to succeed and UUIDs to be fresh.
\<close>

theorem login_alerts_other_sessions:
  assumes "fault_free w" "uuids_fresh w" "notif_status (db w) (msg_ID msg) \<noteq> Some ''sent''"
    and "fault_free aw" "auth_wf (db aw)"
    and "proto_ok L" "event_New L (PbNewSessionLoggedIn n) TypeAuthNewSessionLoggedIn = Inr env"
      "proto_Marshal L env = Inr (msg_Body msg)" "int64_range (nsl_UserId n)"
      "\<And>s i. encodable L (PbNotificationEvent (notif_event n s i))"
  shows "\<exists>w' new others. notif_Handle L (auth_client se aw) send msg w = (Inr (), w') \<and>
    events notif_outbox w' = events notif_outbox w @ new \<and>
    (\<forall>e \<in> set new. oe_Status e = ''pending'') \<and> list_all2 (announces L n) others new \<and>
    mset (map sub_SessionID others) = mset (map ses_public_id
      (filter (\<lambda>s. ses_user_id s = nsl_UserId n \<and> ses_public_id s \<noteq> nsl_Id n) (device_sessions (db aw))))"
  using assms by (rule notif_Handle_alerts)

text \<open>
  Redelivery is not harmless here: the duplicate check never fires, so a login message
  that was handled to the end and is delivered again stores the same alerts a second time,
  and each session is alerted twice.
\<close>

theorem redelivered_login_alerts_twice:
  assumes "fault_free w" "uuids_fresh w" "notif_status (db w) (msg_ID msg) \<noteq> Some ''sent''"
    and "fault_free aw" "auth_wf (db aw)"
    and "proto_ok L" "event_New L (PbNewSessionLoggedIn n) TypeAuthNewSessionLoggedIn = Inr env"
      "proto_Marshal L env = Inr (msg_Body msg)" "int64_range (nsl_UserId n)"
      "\<And>s i. encodable L (PbNotificationEvent (notif_event n s i))"
  shows "\<exists>w1 w2 new again others. notif_Handle L (auth_client se aw) send msg w = (Inr (), w1) \<and>
    notif_status (db w1) (msg_ID msg) = Some ''completed'' \<and>
    notif_Handle L (auth_client se aw) send msg w1 = (Inr (), w2) \<and>
    events notif_outbox w1 = events notif_outbox w @ new \<and> events notif_outbox w2 = events notif_outbox w @ new @ again \<and>
    list_all2 (announces L n) others new \<and> list_all2 (announces L n) others again"
proof -
  obtain items where items: "\<forall>v. fault_free v \<longrightarrow> auth_client se aw (nsl_UserId n) v = (Inr items, v\<lparr>calls := Suc (calls v)\<rparr>)"
    using auth_client_uniform [OF assms(4,5), of se "nsl_UserId n"] by blast
  note login = notif_Handle_login [where client = "auth_client se aw" and ss = items and send = send, OF _ _ _ assms(6-9) items assms(10)]
  obtain w1 new where 1: "notif_Handle L (auth_client se aw) send msg w = (Inr (), w1)" "fault_free w1" "uuids_fresh w1"
    "events notif_outbox w1 = events notif_outbox w @ new" "list_all2 (announces L n) (other_sessions n items) new"
    "notif_status (db w1) (msg_ID msg) = Some ''completed''"
    using login [OF assms(1-3)] by (elim exE conjE)
  then have ns: "notif_status (db w1) (msg_ID msg) \<noteq> Some ''sent''" by simp
  obtain w2 again where 2: "notif_Handle L (auth_client se aw) send msg w1 = (Inr (), w2)"
    "events notif_outbox w2 = events notif_outbox w1 @ again" "list_all2 (announces L n) (other_sessions n items) again"
    using login [OF 1(2,3) ns] by (elim exE conjE)
  show ?thesis
    using 1 2 by (intro exI [of _ w1] exI [of _ w2] exI [of _ new] exI [of _ again] exI [of _ "other_sessions n items"]) simp
qed

section \<open>Instances\<close>

abbreviation login_event :: NewSessionLoggedIn where
  "login_event \<equiv> \<lparr>nsl_Id = ''s2'', nsl_UserId = 1\<rparr>"

abbreviation empty_notif_db :: notif_db where
  "empty_notif_db \<equiv> \<lparr>notification_outbox_events = \<lparr>ob_rows = [], ob_next = 1\<rparr>, notification_processed_messages = []\<rparr>"

definition login_body :: string where
  "login_body = wire_env \<lparr>ev_EventType = event_Type_string TypeAuthNewSessionLoggedIn, ev_Payload =
     Some \<lparr>any_type_url = ''type'', any_value = enc_fields [''s'', ''s2'', int_to_string 1]\<rparr>\<rparr>"

abbreviation login_msg :: Message where
  "login_msg \<equiv> \<lparr>msg_ID = ''m1'', msg_Body = login_body, msg_Headers = None, msg_Timestamp = 0\<rparr>"

lemma login_encoded:
  "event_New wire_proto (PbNewSessionLoggedIn login_event) TypeAuthNewSessionLoggedIn =
     Inr \<lparr>ev_EventType = event_Type_string TypeAuthNewSessionLoggedIn, ev_Payload =
       Some \<lparr>any_type_url = ''type'', any_value = enc_fields [''s'', ''s2'', int_to_string 1]\<rparr>\<rparr>"
  "\<And>e. proto_Marshal wire_proto e = Inr (wire_env e)"
  by (simp_all add: event_New_def wire_proto_def int64_range_def)

lemma wire_alerts_encodable: "int64_range (nsl_UserId n) \<Longrightarrow> encodable wire_proto (PbNotificationEvent (notif_event n s i))"
  using wire_proto_encodes [of "PbNotificationEvent (notif_event n s i)" TypeNotificationPush]
  by (simp add: encodable_def notif_event_def Let_def)

lemma sample_login_ok:
  "fault_free (quiet_world empty_notif_db)" "uuids_fresh (quiet_world empty_notif_db)"
  "notif_status (db (quiet_world empty_notif_db)) (msg_ID login_msg) \<noteq> Some ''sent''"
  "fault_free sample_world" "auth_wf (db sample_world)" "int64_range (nsl_UserId login_event)"
  using sample_auth_db_wf
  by (simp_all add: fault_free_def uuids_fresh_def notif_status_def pm_status_of_def inj_def nat_to_string_inj int64_range_def)

text \<open>The user of the sample tables has one session, \<^verbatim>\<open>s1\<close>; \<^verbatim>\<open>s2\<close> has just logged in.\<close>

theorem login_alerts_other_sessions_witness:
  "\<exists>w' e s. notif_Handle wire_proto (auth_client id sample_world) (\<lambda>_ _ _. ret ()) login_msg (quiet_world empty_notif_db) = (Inr (), w') \<and>
     events notif_outbox w' = [e] \<and> sub_SessionID s = ''s1'' \<and> announces wire_proto login_event s e"
proof -
  let ?w = "quiet_world empty_notif_db"
  have "map ses_public_id (filter (\<lambda>s. ses_user_id s = 1 \<and> ses_public_id s \<noteq> ''s2'') (device_sessions (db sample_world))) = [''s1'']"
    by (simp add: sample_auth_simps)
  then obtain w' new others where
    "notif_Handle wire_proto (auth_client id sample_world) (\<lambda>_ _ _. ret ()) login_msg ?w = (Inr (), w')"
    "events notif_outbox w' = new" "list_all2 (announces wire_proto login_event) others new"
    "mset (map sub_SessionID others) = {#''s1''#}"
    using login_alerts_other_sessions [of ?w login_msg sample_world wire_proto login_event _ id "\<lambda>_ _ _. ret ()"]
      sample_login_ok wire_proto_ok login_encoded wire_alerts_encodable by (auto simp: login_body_def)
  then show ?thesis
    by (cases others) (auto simp: list_all2_Cons1)
qed

theorem redelivered_login_alerts_twice_witness:
  "\<exists>w1 w2. notif_Handle wire_proto (auth_client id sample_world) (\<lambda>_ _ _. ret ()) login_msg (quiet_world empty_notif_db) = (Inr (), w1) \<and>
     notif_Handle wire_proto (auth_client id sample_world) (\<lambda>_ _ _. ret ()) login_msg w1 = (Inr (), w2) \<and>
     length (events notif_outbox w2) = 2 * length (events notif_outbox w1)"
proof -
  let ?w = "quiet_world empty_notif_db" and ?H = "notif_Handle wire_proto (auth_client id sample_world) (\<lambda>_ _ _. ret ()) login_msg"
  obtain w1 w2 new again others where 1: "?H ?w = (Inr (), w1)" "?H w1 = (Inr (), w2)" "events notif_outbox w1 = new" "events notif_outbox w2 = new @ again"
    "list_all2 (announces wire_proto login_event) others new" "list_all2 (announces wire_proto login_event) others again"
    using redelivered_login_alerts_twice [of ?w login_msg sample_world wire_proto login_event _ id "\<lambda>_ _ _. ret ()"]
      sample_login_ok wire_proto_ok login_encoded wire_alerts_encodable by (auto simp: login_body_def)
  then show ?thesis by (intro exI [of _ w1] exI [of _ w2]) (auto dest!: list_all2_lengthD)
qed

end
