(* ===== verification/LoginAlert.thy ===== *)
theory LoginAlert
  imports AuthOutbox SessionAlerts Retry
begin

text \<open>
  The way of a login alert through both services: login, auth's outbox, the broker's direct
  topology, the notification service's consumer with its call into auth, its own outbox, the
  same queue again, and the push sender.
\<close>

definition delivery_of :: "publication \<Rightarrow> Delivery" where
  "delivery_of p = \<lparr>del_MessageId = pub_message_id p, del_Body = pub_body p, del_Headers = pub_headers p,
     del_Timestamp = pub_timestamp p\<rparr>"

lemma delivered_message [simp]:
  "msg_ID (broker_Message (delivery_of p)) = pub_message_id p" "msg_Body (broker_Message (delivery_of p)) = pub_body p"
  by (simp_all add: broker_Message_def delivery_of_def)

lemma notification_routes:
  assumes "routing_ok B" "DeclareDirect \<lparr>dt_EventName = ''notification'', dt_RetryTTL = ttl\<rparr> w0 = (Inr (), wD)" "db w0 = []"
  shows "route B (db wD) ''notification.exchange'' ''notification.queue'' = {''notification.queue''}"
  using direct_routes(1) [OF assms(1), of "''notification''" ttl] DeclareDirect_Inr [OF assms(2)] assms(3)
  by (simp add: buildNames_def)

section \<open>The event of a login\<close>

definition login_announcement :: "LoginResponse \<Rightarrow> NewSessionLoggedIn" where
  "login_announcement d = \<lparr>nsl_Id = lr_SessionID d, nsl_UserId = usr_ID (lr_User d)\<rparr>"

definition login_stored :: "auth_env \<Rightarrow> NewSessionLoggedIn \<Rightarrow> auth_db \<Rightarrow> OutboxEvent \<Rightarrow> bool" where
  "login_stored E n d ev \<longleftrightarrow> (\<exists>r env. r \<in> set (ob_rows (auth_outbox_events d)) \<and> oe_Status r = ''pending'' \<and>
     ob_key r = ob_key ev \<and> oe_EventType ev = event_Type_string TypeAuthNewSessionLoggedIn \<and>
     event_New (env_proto E) (PbNewSessionLoggedIn n) TypeAuthNewSessionLoggedIn = Inr env \<and>
     proto_Marshal (env_proto E) env = Inr (oe_Payload ev))"

lemma login_tx_Inr:
  assumes "login_tx E dc req user w = (Inr (at, rt, dev, sid, ev), w')"
  shows "login_stored E \<lparr>nsl_Id = sid, nsl_UserId = usr_ID user\<rparr> (db w') ev"
proof -
  obtain w5 w6 v body where 4: "encode_event E (PbNewSessionLoggedIn \<lparr>nsl_Id = sid, nsl_UserId = usr_ID user\<rparr>)
      TypeAuthNewSessionLoggedIn v = (Inr body, w5)"
    and 5: "outbox_entry TypeAuthNewSessionLoggedIn body (usr_ID user) w5 = (Inr ev, w6)"
    and 6: "auth_InsertOutboxEvent ev w6 = (Inr (), w')"
    using assms unfolding login_tx_def login_failed_def
    by (elim call_fail_Inr) (auto simp: time_Now_def elim!: call_fail_Inr)
  obtain r t where r: "ob_key r = ob_key ev" "oe_Status r = ''pending''"
    "ob_rows t = ob_rows (auth_outbox_events (db w6)) @ [r]" "db w' = (db w6)\<lparr>auth_outbox_events := t\<rparr>"
    using InsertOutbox_Inr [OF 6] by auto
  have "r \<in> set (ob_rows (auth_outbox_events (db w')))" using r(3,4) by simp
  moreover have "oe_EventType ev = event_Type_string TypeAuthNewSessionLoggedIn" "oe_Payload ev = body"
    using outbox_entry_Inr [OF 5] by (simp_all add: ob_key_def)
  ultimately show ?thesis using r(1,2) encode_event_Inr [OF 4] unfolding login_stored_def by metis
qed

lemma Login_Inr:
  assumes "Login E dc req w = (Inr (resp, g), w')"
  shows "\<exists>ev. login_stored E (login_announcement (res_Data resp)) (db w') ev \<and>
    g = ProcessSingleEvent auth_outbox (env_ProcessEvent E) (OutboxLockTimeout E) ev"
proof -
  obtain user w1 where 1: "call (auth_RunInTx (login_tx E dc req user)) (login_failed ErrLoginFailed)
        (\<lambda>(accessToken, refreshToken, deviceID, sessionID, outboxEvent).
      ret (\<lparr>res_Code = 200,
            res_Data = \<lparr>lr_AccessToken = accessToken, lr_RefreshToken = refreshToken, lr_DeviceID = deviceID,
                        lr_SessionID = sessionID, lr_User = user\<rparr>\<rparr>,
           ProcessSingleEvent auth_outbox (env_ProcessEvent E) (OutboxLockTimeout E) outboxEvent)) w1 = (Inr (resp, g), w')"
    using assms unfolding Login_def
    by (auto split: if_splits option.splits elim!: call_cases simp: login_failed_def)
  obtain at rt dev sid ev where t: "run_in_tx (login_tx E dc req user) w1 = (Inr (at, rt, dev, sid, ev), w')"
    and resp: "res_Data resp = \<lparr>lr_AccessToken = at, lr_RefreshToken = rt, lr_DeviceID = dev, lr_SessionID = sid, lr_User = user\<rparr>"
      "g = ProcessSingleEvent auth_outbox (env_ProcessEvent E) (OutboxLockTimeout E) ev"
    using 1 unfolding auth_RunInTx_eq login_failed_def by (auto elim!: call_fail_Inr)
  obtain w2 where "login_tx E dc req user (after_begin w1) = (Inr (at, rt, dev, sid, ev), w2)" "db w' = db w2"
    using t by (auto dest!: run_in_tx_Inr)
  from login_tx_Inr [OF this(1)] this(2) resp show ?thesis by (auto simp: login_announcement_def)
qed

section \<open>Theorems\<close>

text \<open>
  C14. A login reaches the user's other sessions. When a login has succeeded and no call fails
  afterwards, the goroutine it started publishes one message; the topology the notification
  service declares routes it to its own queue and nowhere else; the worker hands it to the
  handler, which asks auth for the sessions and stores exactly one alert for every session of
  the user but the new one; the message is acknowledged.
\<close>

theorem login_alert_reaches_sessions:
  assumes "Login E dc req wa = (Inr (resp, goroutine), wa')" "env_ProcessEvent E = auth_app_ProcessEvent" "auth_wf (db wa)"
    and "proto_ok (env_proto E)" "fault_free wb" "db wb = db wa'" "fault_free aw" "db aw = db wa'"
    and "routing_ok B" "DeclareDirect \<lparr>dt_EventName = ''notification'', dt_RetryTTL = ttl\<rparr> w0 = (Inr (), wD)" "db w0 = []"
    and "fault_free wn" "uuids_fresh wn" "\<forall>i. notif_status (db wn) i \<noteq> Some ''sent''"
    and "n = login_announcement (res_Data resp)" "int64_range (nsl_UserId n)"
      "\<forall>s i. encodable (env_proto E) (PbNotificationEvent (notif_event n s i))"
  shows "\<exists>wb' p wn' new others. goroutine wb = (Inr (), wb') \<and> sent wb' = sent wb @ [p] \<and>
    route B (db wD) (pub_exchange p) (pub_key p) = {''notification.queue''} \<and>
    processMessage cfg (buildNames ''notification'' ''notification'')
      (as_handler (notif_Handle (env_proto E) (auth_client se aw) send)) (delivery_of p) wn = (Ack, wn') \<and>
    events notif_outbox wn' = events notif_outbox wn @ new \<and> (\<forall>e \<in> set new. oe_Status e = ''pending'') \<and>
    list_all2 (announces (env_proto E) n) others new \<and>
    mset (map sub_SessionID others) = mset (map ses_public_id
      (filter (\<lambda>s. ses_user_id s = nsl_UserId n \<and> ses_public_id s \<noteq> nsl_Id n) (device_sessions (db wa'))))"
proof -
  obtain ev where g: "goroutine = ProcessSingleEvent auth_outbox auth_app_ProcessEvent (OutboxLockTimeout E) ev"
    and st: "login_stored E n (db wa') ev" using Login_Inr [OF assms(1)] assms(2,15) by auto
  obtain r env where r: "r \<in> set (events auth_outbox wb)" "ob_key r = ob_key ev" "oe_Status r = ''pending''"
    and t: "oe_EventType ev = event_Type_string TypeAuthNewSessionLoggedIn"
    and enc: "event_New (env_proto E) (PbNewSessionLoggedIn n) TypeAuthNewSessionLoggedIn = Inr env"
      "proto_Marshal (env_proto E) env = Inr (oe_Payload ev)"
    using st assms(6) unfolding login_stored_def by (auto simp: auth_outbox_def)
  obtain wb' p where pub: "goroutine wb = (Inr (), wb')" "sent wb' = sent wb @ [p]" "pub_body p = oe_Payload ev"
    "pub_exchange p = ''notification.exchange''" "pub_key p = ''notification.queue''"
    using ProcessSingleEvent_publishes(2) [OF assms(5) r t] g by metis
  have wf: "auth_wf (db aw)" using keepsD' [OF keeps_Login assms(3,1)] assms(8) by simp
  have ns: "notif_status (db wn) (msg_ID (broker_Message (delivery_of p))) \<noteq> Some ''sent''" using assms(14) by simp
  have body: "proto_Marshal (env_proto E) env = Inr (msg_Body (broker_Message (delivery_of p)))" using enc(2) pub(3) by simp
  obtain wn' new others where h: "notif_Handle (env_proto E) (auth_client se aw) send (broker_Message (delivery_of p)) wn = (Inr (), wn')"
    "events notif_outbox wn' = events notif_outbox wn @ new" "\<forall>e \<in> set new. oe_Status e = ''pending''"
    "list_all2 (announces (env_proto E) n) others new"
    "mset (map sub_SessionID others) = mset (map ses_public_id
      (filter (\<lambda>s. ses_user_id s = nsl_UserId n \<and> ses_public_id s \<noteq> nsl_Id n) (device_sessions (db aw))))"
    using notif_Handle_alerts [OF assms(12,13) ns assms(7) wf assms(4) enc(1) body assms(16), of se send] assms(17) by blast
  have "processMessage cfg (buildNames ''notification'' ''notification'')
      (as_handler (notif_Handle (env_proto E) (auth_client se aw) send)) (delivery_of p) wn = (Ack, wn')"
    using h(1) by (simp add: processMessage_def as_handler_def)
  then show ?thesis
    using pub h(2-5) notification_routes [OF assms(9-11)] assms(8) by auto
qed


section \<open>Instances\<close>

abbreviation login_env :: auth_env where
  "login_env \<equiv> (sample_env wire_proto)\<lparr>env_ProcessEvent := auth_app_ProcessEvent, sha256_Sum256 := \<lambda>_. []\<rparr>"

abbreviation login_request :: LoginRequest where
  "login_request \<equiv> \<lparr>lq_Email = ''a@b.c'', lq_Password = ''password'', lq_PushToken = None\<rparr>"

definition two_sessions :: "auth_db \<Rightarrow> bool" where
  "two_sessions d \<longleftrightarrow> map (\<lambda>s. (ses_user_id s, ses_public_id s)) (device_sessions d) = [(1, ''s1''), (1, nat_to_string 1)]"

lemma sample_upsert:
  assumes "fault w = (\<lambda>_. None)" "db w = sample_auth_db" "uuids w = 0" "uuid_src w = nat_to_string"
  shows "\<exists>w'. UpsertSession (sample_dc ''android'') 1 [] x None w = (Inr (nat_to_string 0, nat_to_string 1), w') \<and>
    fault w' = (\<lambda>_. None) \<and> ob_rows (auth_outbox_events (db w')) = [] \<and> two_sessions (db w')"
proof -
  have "nat_to_string 0 \<noteq> ''d1''" by (simp add: nat_to_string.simps)
  then show ?thesis
    using assms by (simp add: UpsertSession_def upsert_device_step_def call_def uuid_NewString_def sql_now_ok sql_query_ok
      upsert_device_def select_device_def select_session_of_def create_session_def insert_session_def nullable_def
      sample_auth_simps platforms_def Let_def two_sessions_def)
qed

lemma login_env_runs:
  "\<exists>resp g w'. Login login_env (sample_dc ''android'') login_request sample_world = (Inr (resp, g), w') \<and>
     login_announcement (res_Data resp) = \<lparr>nsl_Id = nat_to_string 1, nsl_UserId = 1\<rparr> \<and> two_sessions (db w')"
proof -
  let ?n = "\<lparr>nsl_Id = nat_to_string 1, nsl_UserId = 1\<rparr>"
  define w1 where "w1 = after_begin (sample_world\<lparr>calls := 1\<rparr>)"
  have f1: "fault_free w1" by (simp add: w1_def fault_free_def)
  define w2 where "w2 = w1\<lparr>calls := Suc (calls w1)\<rparr>"
  have g: "generateRefreshToken w1 = (Inr (next_token w1), w2)" using generateRefreshToken_eq [OF f1] by (simp add: w2_def)
  have h: "hashRefreshToken login_env t = []" for t by (simp add: hashRefreshToken_def sample_env_def)
  obtain w3 where u: "UpsertSession (sample_dc ''android'') 1 [] (clock w2 + seconds (RefreshTokenDuration login_env)) None w2 =
      (Inr (nat_to_string 0, nat_to_string 1), w3)" "fault w3 = (\<lambda>_. None)" "ob_rows (auth_outbox_events (db w3)) = []" "two_sessions (db w3)"
    using sample_upsert [of w2] by (auto simp: w2_def w1_def)
  obtain t where t: "GenerateAccessToken (env_jwt login_env) 1 (nat_to_string 1) (JWTSecret login_env) (AccessTokenDuration login_env) w3 = (Inr t, w3)"
    by (simp add: GenerateAccessToken_def call_def time_Now_def sample_env_def)
  obtain body where e: "encode_event login_env (PbNewSessionLoggedIn ?n) TypeAuthNewSessionLoggedIn w3 = (Inr body, w3)"
    using wire_proto_encodes [of "PbNewSessionLoggedIn ?n" TypeAuthNewSessionLoggedIn]
    by (auto simp: encode_event_def sample_env_def int64_range_def)
  obtain ev w4 where o: "outbox_entry TypeAuthNewSessionLoggedIn body 1 w3 = (Inr ev, w4)" "db w4 = db w3" "fault w4 = fault w3"
    "oe_AggregateID ev = int_to_string 1"
    by (simp add: outbox_entry_def call_def uuid_NewString_def time_Now_def)
  obtain tb where i: "auth_InsertOutboxEvent ev w4 = (Inr (), w4\<lparr>calls := Suc (calls w4), db := (db w4)\<lparr>auth_outbox_events := tb\<rparr>\<rparr>)"
    using InsertOutbox_ok [of w4 ev] o(2-4) u(2,3) ParseInt_int_to_string [of 1] by (auto simp: int64_range_def)
  define w5 where "w5 = w4\<lparr>calls := Suc (calls w4), db := (db w4)\<lparr>auth_outbox_events := tb\<rparr>\<rparr>"
  have tx: "login_tx login_env (sample_dc ''android'') login_request sample_user w1 = (Inr (t, next_token w1, nat_to_string 0, nat_to_string 1, ev), w5)"
    using g u(1) t e o(1) i by (simp add: login_tx_def call_def time_Now_def h w5_def sample_user_def)
  have "run_in_tx (login_tx login_env (sample_dc ''android'') login_request sample_user) (sample_world\<lparr>calls := 1\<rparr>) =
      (Inr (t, next_token w1, nat_to_string 0, nat_to_string 1, ev), w5\<lparr>calls := Suc (calls w5), open_tx := open_tx w5 - 1\<rparr>)"
    using tx o(3) u(2) by (intro run_in_tx_ok) (simp_all add: w1_def w5_def)
  moreover have "GetUserByEmail ''a@b.c'' sample_world = (Inr sample_user, sample_world\<lparr>calls := 1\<rparr>)"
    by (simp add: GetUserByEmail_def call_def sql_query_ok select_user_def sample_auth_simps)
  moreover have "bcrypt_CompareHashAndPassword login_env (usr_PasswordHash sample_user) ''password'' = None"
    by (simp add: sample_env_def sample_user_def)
  ultimately have "Login login_env (sample_dc ''android'') login_request sample_world =
     (Inr (\<lparr>res_Code = 200, res_Data = \<lparr>lr_AccessToken = t, lr_RefreshToken = next_token w1, lr_DeviceID = nat_to_string 0,
        lr_SessionID = nat_to_string 1, lr_User = sample_user\<rparr>\<rparr>,
       ProcessSingleEvent auth_outbox (env_ProcessEvent login_env) (OutboxLockTimeout login_env) ev),
      w5\<lparr>calls := Suc (calls w5), open_tx := open_tx w5 - 1\<rparr>)"
    by (simp add: Login_def login_validation_def call_def auth_RunInTx_eq)
  then show ?thesis
    using u(4) o(2) by (simp add: login_announcement_def w5_def two_sessions_def sample_user_def)
qed

theorem login_alert_reaches_sessions_witness:
  "\<exists>resp g wa' wb' p wn' e s. Login login_env (sample_dc ''android'') login_request sample_world = (Inr (resp, g), wa') \<and>
     g (quiet_world (db wa')) = (Inr (), wb') \<and> sent wb' = [p] \<and>
     processMessage retry_twice (buildNames ''notification'' ''notification'')
       (as_handler (notif_Handle wire_proto (auth_client id (quiet_world (db wa'))) (\<lambda>_ _ _. ret ()))) (delivery_of p)
       (quiet_world empty_notif_db) = (Ack, wn') \<and>
     events notif_outbox wn' = [e] \<and> sub_SessionID s = ''s1'' \<and>
     announces wire_proto \<lparr>nsl_Id = nat_to_string 1, nsl_UserId = 1\<rparr> s e"
proof -
  let ?topo = "\<lparr>dt_EventName = ''notification'', dt_RetryTTL = 1000000\<rparr>" and ?n = "\<lparr>nsl_Id = nat_to_string 1, nsl_UserId = 1\<rparr>"
  obtain resp g wa' where r: "Login login_env (sample_dc ''android'') login_request sample_world = (Inr (resp, g), wa')"
    "login_announcement (res_Data resp) = ?n" "two_sessions (db wa')" using login_env_runs by blast
  obtain wD where D: "DeclareDirect ?topo empty_broker = (Inr (), wD)"
    by (simp add: DeclareDirect_def declare_defs bind_queue_def call_def Let_def declare_ok quiet_world_def)
  have env: "env_ProcessEvent login_env = auth_app_ProcessEvent" "proto_ok (env_proto login_env)" "env_proto login_env = wire_proto"
    using wire_proto_ok by (simp_all add: sample_env_def)
  have hyps: "fault_free (quiet_world (db wa'))" "db (quiet_world (db wa')) = db wa'" "db empty_broker = []"
    "\<forall>i. notif_status (db (quiet_world empty_notif_db)) i \<noteq> Some ''sent''" "?n = login_announcement (res_Data resp)" "int64_range (nsl_UserId ?n)"
    "\<forall>s i. encodable (env_proto login_env) (PbNotificationEvent (notif_event ?n s i))"
    using r(2) wire_alerts_encodable [of ?n]
    by (simp_all add: env(3) fault_free_def quiet_world_def notif_status_def pm_status_of_def int64_range_def)
  obtain s1 s2 where ss: "device_sessions (db wa') = [s1, s2]" "ses_user_id s1 = 1" "ses_public_id s1 = ''s1''" "ses_public_id s2 = nat_to_string 1"
    using r(3) unfolding two_sessions_def by (auto simp: map_eq_Cons_conv)
  have "nat_to_string 1 \<noteq> ''s1''" by (simp add: nat_to_string.simps)
  then have "filter (\<lambda>s. ses_user_id s = nsl_UserId ?n \<and> ses_public_id s \<noteq> nsl_Id ?n) (device_sessions (db wa')) = [s1]"
    using ss by simp
  then obtain wb' p wn' new others where x: "g (quiet_world (db wa')) = (Inr (), wb')" "sent wb' = sent (quiet_world (db wa')) @ [p]"
    "processMessage retry_twice (buildNames ''notification'' ''notification'')
       (as_handler (notif_Handle wire_proto (auth_client id (quiet_world (db wa'))) (\<lambda>_ _ _. ret ()))) (delivery_of p)
       (quiet_world empty_notif_db) = (Ack, wn')"
    "events notif_outbox wn' = events notif_outbox (quiet_world empty_notif_db) @ new"
    "list_all2 (announces wire_proto ?n) others new" "mset (map sub_SessionID others) = mset (map ses_public_id [s1])"
    using login_alert_reaches_sessions [OF r(1) env(1) sample_login_ok(5) env(2) hyps(1,2,1,2) sample_broker_routes D hyps(3)
        sample_login_ok(1,2) hyps(4-7), where cfg = retry_twice and se = id and send = "\<lambda>_ _ _. ret ()", unfolded env(3)]
    by auto
  obtain s e where "others = [s]" "new = [e]" "announces wire_proto ?n s e" "sub_SessionID s = ''s1''"
    using x(5,6) ss(3) by (cases others) (auto simp: list_all2_Cons1)
  then show ?thesis using r(1) x(1-4) by (auto simp: quiet_world_def)
qed


end
