(* ===== verification/Sender.thy ===== *)
theory Sender
  imports Notification
begin

text \<open>
  \<^verbatim>\<open>pkg/sender\<close> and \<^verbatim>\<open>pkg/firebase\<close>: the factory that chooses a push provider from the
  configuration, and the Firebase sender. The Firebase library is the argument \<open>firebase_lib\<close>;
  an interface value is the constructor of its dynamic type. No service uses the factory: the
  notification service builds its OneSignal sender itself.
\<close>

record firebase_Config =
  fb_CredentialsFile :: string

record fb_Message =
  fbm_Token :: string
  fbm_Title :: string
  fbm_Body :: string

record firebase_lib =
  fb_NewApp :: "string \<Rightarrow> string notif_prog"
  fb_Messaging :: "string \<Rightarrow> string notif_prog"
  fb_client_Send :: "string \<Rightarrow> fb_Message \<Rightarrow> string notif_prog"

record sender_Repository =
  repo_GetOneSignalToken :: "string \<Rightarrow> string notif_prog"
  repo_GetFirebaseToken :: "string \<Rightarrow> string notif_prog"

definition ProviderOneSignal :: string where "ProviderOneSignal = ''one_signal''"
definition ProviderFirebase :: string where "ProviderFirebase = ''firebase''"

record sender_Config =
  sc_Provider :: string
  sc_OneSignal :: OneSignal_Config
  sc_Firebase :: firebase_Config

datatype Sender =
    OneSignalSender OneSignal_Config sender_Repository
  | FirebaseSender string sender_Repository

definition NewFactory :: "sender_Config \<Rightarrow> go_error + sender_Config" where
  "NewFactory config =
     (if sc_Provider config = [] then Inl (ErrorString ''provider type is required'')
      else if sc_Provider config = ProviderOneSignal then
        (if os_AppID (sc_OneSignal config) = [] \<or> os_ApiKey (sc_OneSignal config) = []
         then Inl (ErrorString ''one_signal config is incomplete'') else Inr config)
      else if sc_Provider config = ProviderFirebase then
        (if fb_CredentialsFile (sc_Firebase config) = [] then Inl (ErrorString ''firebase config is incomplete'')
         else Inr config)
      else Inl (ErrorString (''unsupported provider: '' @ sc_Provider config)))"

definition NewFirebaseSender :: "firebase_lib \<Rightarrow> firebase_Config \<Rightarrow> sender_Repository \<Rightarrow> Sender notif_prog" where
  "NewFirebaseSender F config repo =
     call (fb_NewApp F (fb_CredentialsFile config)) fail (\<lambda>app.
     call (fb_Messaging F app) fail (\<lambda>client.
     ret (FirebaseSender client repo)))"

definition CreateSender :: "firebase_lib \<Rightarrow> sender_Config \<Rightarrow> sender_Repository \<Rightarrow> Sender notif_prog" where
  "CreateSender F config repo =
     (if sc_Provider config = ProviderOneSignal then ret (OneSignalSender (sc_OneSignal config) repo)
      else if sc_Provider config = ProviderFirebase then NewFirebaseSender F (sc_Firebase config) repo
      else fail (ErrorString (''unsupported provider: '' @ sc_Provider config)))"

definition Firebase_Send ::
  "firebase_lib \<Rightarrow> string \<Rightarrow> sender_Repository \<Rightarrow> string \<Rightarrow> string \<Rightarrow> string \<Rightarrow> unit notif_prog" where
  "Firebase_Send F client repo deviceId title body =
     call (repo_GetFirebaseToken repo deviceId) fail (\<lambda>token.
     call (fb_client_Send F client \<lparr>fbm_Token = token, fbm_Title = title, fbm_Body = body\<rparr>) fail (\<lambda>_. ret ()))"

text \<open>A call of \<^verbatim>\<open>Send\<close> through the interface.\<close>

fun Sender_Send ::
  "firebase_lib \<Rightarrow> (OneSignal_request \<Rightarrow> (nat \<times> string) notif_prog) \<Rightarrow> Sender \<Rightarrow> string \<Rightarrow> string \<Rightarrow> string \<Rightarrow> unit notif_prog" where
  "Sender_Send F http_Do (OneSignalSender config repo) = OneSignal_Send config (repo_GetOneSignalToken repo) http_Do"
| "Sender_Send F http_Do (FirebaseSender client repo) = Firebase_Send F client repo"

section \<open>What a factory builds\<close>

lemma provider_names [simp]: "ProviderOneSignal \<noteq> []" "ProviderFirebase \<noteq> []" "ProviderOneSignal \<noteq> ProviderFirebase"
  by (simp_all add: ProviderOneSignal_def ProviderFirebase_def)

text \<open>
  A factory that \<^verbatim>\<open>NewFactory\<close> accepted never meets its unsupported branch: it builds a sender
  of the configured provider with complete credentials, or reports the error of the provider's
  library; every other configuration is refused up front.
\<close>

theorem factory_builds_configured_sender:
  assumes "NewFactory config = Inr f" "CreateSender F f repo w = (r, w')"
  shows "(sc_Provider config = ProviderOneSignal \<and> os_AppID (sc_OneSignal config) \<noteq> [] \<and> os_ApiKey (sc_OneSignal config) \<noteq> [] \<and>
      r = Inr (OneSignalSender (sc_OneSignal config) repo) \<and> w' = w) \<or>
    (sc_Provider config = ProviderFirebase \<and> fb_CredentialsFile (sc_Firebase config) \<noteq> [] \<and>
      (case r of
         Inr s \<Rightarrow> (\<exists>client. s = FirebaseSender client repo)
       | Inl e \<Rightarrow> (\<exists>v. fb_NewApp F (fb_CredentialsFile (sc_Firebase config)) w = (Inl e, v)) \<or>
                  (\<exists>app u v. fb_NewApp F (fb_CredentialsFile (sc_Firebase config)) w = (Inr app, u) \<and> fb_Messaging F app u = (Inl e, v))))"
  using assms
  by (auto simp: NewFactory_def CreateSender_def NewFirebaseSender_def call_def split: if_splits prod.splits sum.splits)

theorem factory_builds_configured_sender_witness:
  "let config = \<lparr>sc_Provider = ''one_signal'', sc_OneSignal = \<lparr>os_AppID = ''app'', os_ApiKey = ''key''\<rparr>,
         sc_Firebase = \<lparr>fb_CredentialsFile = []\<rparr>\<rparr>;
       repo = \<lparr>repo_GetOneSignalToken = \<lambda>_. ret ''t'', repo_GetFirebaseToken = \<lambda>_. ret []\<rparr>
   in \<forall>F w. fst (CreateSender F config repo w) = Inr (OneSignalSender (sc_OneSignal config) repo)"
proof -
  let ?c = "\<lparr>sc_Provider = ''one_signal'', sc_OneSignal = \<lparr>os_AppID = ''app'', os_ApiKey = ''key''\<rparr>,
         sc_Firebase = \<lparr>fb_CredentialsFile = []\<rparr>\<rparr>"
  have "NewFactory ?c = Inr ?c" by (simp add: NewFactory_def ProviderOneSignal_def)
  from factory_builds_configured_sender [OF this prod.collapse [symmetric]] show ?thesis by (fastforce simp: Let_def)
qed

end
