(* ===== verification/WorkerLoop.thy ===== *)
theory WorkerLoop
  imports AuthOutbox Notification
begin

text \<open>
  The ticker loops of the outbox workers (\<^verbatim>\<open>Start\<close> and \<^verbatim>\<open>runRecovery\<close> of
  \<^verbatim>\<open>internal/auth/workers/outbox/worker.go\<close>, and the same code in the notification service).
  Both loops run side by side and wait for their ticker or the end of the context; a schedule
  is the sequence in which their \<^verbatim>\<open>select\<close> statements proceed, and names for each batch the
  order in which its goroutines finish. \<^verbatim>\<open>NewTicker\<close> panics for an interval that is not positive.
\<close>

section \<open>The loops\<close>

datatype wake =
    BatchTick "OutboxEvent list \<Rightarrow> OutboxEvent list"
  | BatchDone
  | RecoveryTick
  | RecoveryDone

datatype loop = Ticking | Stuck | Ended

record 'd outbox_worker =
  ow_batch :: loop
  ow_recovery :: loop
  ow_crashed :: bool
  ow_world :: "'d world"

definition worker_Start :: "WorkerConfig \<Rightarrow> 'd world \<Rightarrow> 'd outbox_worker" where
  "worker_Start config w =
     \<lparr>ow_batch = Ticking, ow_recovery = Ticking,
      ow_crashed = (BatchInterval config \<le> 0 \<or> RecoveryInterval config \<le> 0), ow_world = w\<rparr>"

definition worker_select ::
  "'d outbox_ref \<Rightarrow> (OutboxEvent \<Rightarrow> ('d, unit) wprog) \<Rightarrow> WorkerConfig \<Rightarrow> wake \<Rightarrow> 'd outbox_worker \<Rightarrow> 'd outbox_worker" where
  "worker_select T process config wk s =
     (if ow_crashed s \<or> ow_batch s \<noteq> Ticking then s
      else case wk of
        BatchDone \<Rightarrow> s\<lparr>ow_batch := Ended\<rparr>
      | BatchTick order \<Rightarrow>
          (case ProcessBatch T process order config (ow_world s) of
             Returned w \<Rightarrow> s\<lparr>ow_world := w\<rparr>
           | Blocked w \<Rightarrow> s\<lparr>ow_batch := Stuck, ow_world := w\<rparr>
           | Panicked w \<Rightarrow> s\<lparr>ow_crashed := True, ow_world := w\<rparr>)
      | _ \<Rightarrow> s)"

definition runRecovery_select :: "'d outbox_ref \<Rightarrow> wake \<Rightarrow> 'd outbox_worker \<Rightarrow> 'd outbox_worker" where
  "runRecovery_select T wk s =
     (if ow_crashed s \<or> ow_recovery s \<noteq> Ticking then s
      else case wk of
        RecoveryDone \<Rightarrow> s\<lparr>ow_recovery := Ended\<rparr>
      | RecoveryTick \<Rightarrow> s\<lparr>ow_world := recovery_tick T (ow_world s)\<rparr>
      | _ \<Rightarrow> s)"

fun run_worker ::
  "'d outbox_ref \<Rightarrow> (OutboxEvent \<Rightarrow> ('d, unit) wprog) \<Rightarrow> WorkerConfig \<Rightarrow> wake list \<Rightarrow> 'd outbox_worker \<Rightarrow> 'd outbox_worker" where
  "run_worker T process config [] s = s"
| "run_worker T process config (wk # wks) s =
     run_worker T process config wks (runRecovery_select T wk (worker_select T process config wk s))"

fun batch_ticks :: "wake list \<Rightarrow> nat" where
  "batch_ticks [] = 0"
| "batch_ticks (BatchTick order # wks) = Suc (batch_ticks wks)"
| "batch_ticks (_ # wks) = batch_ticks wks"

text \<open>A schedule of ticks only, in which each batch's goroutines finish in some order of its events.\<close>

definition ticks_only :: "wake list \<Rightarrow> bool" where
  "ticks_only wks \<longleftrightarrow> (\<forall>wk \<in> set wks. wk = RecoveryTick \<or> (\<exists>order. wk = BatchTick order \<and> (\<forall>es. mset (order es) = mset es)))"

definition orders_ok :: "wake list \<Rightarrow> bool" where
  "orders_ok wks \<longleftrightarrow> (\<forall>order. BatchTick order \<in> set wks \<longrightarrow> (\<forall>es. mset (order es) = mset es))"

section \<open>Safety of the loops\<close>

context outbox_service
begin

lemma select_safe:
  assumes "ob_rows_ok routed (sent (ow_world s)) (events T (ow_world s))" "orders_ok [wk]"
    and "s' = runRecovery_select T wk (worker_select T process config wk s)"
  shows "ob_rows_ok routed (sent (ow_world s')) (events T (ow_world s')) \<and>
    (\<exists>new. map ob_key (events T (ow_world s')) = map ob_key (events T (ow_world s)) @ new)"
proof -
  have uni: "unique_by oe_EventID (events T (ow_world s))" using assms(1) by (simp add: ob_rows_ok_def)
  have run: "\<exists>t. ob_steps T process (idle (ow_world s)) t \<and> sys_world t = ow_world s'"
    if "ob_steps T process (idle (ow_world s)) t" "ow_world s' = ow_world s \<or> ow_world s' = sys_world t" for t
  proof (cases "ow_world s' = ow_world s")
    case True
    then show ?thesis by (intro exI [of _ "idle (ow_world s)"]) (simp add: idle_def)
  qed (use that in auto)
  have "\<exists>t. ob_steps T process (idle (ow_world s)) t \<and> sys_world t = ow_world s'"
  proof (cases wk)
    case (BatchTick order)
    then obtain t where t: "ob_steps T process (idle (ow_world s)) t"
      "sys_world t = run_world (ProcessBatch T process order config (ow_world s))"
      using ProcessBatch_steps [OF uni, of order config] assms(2) by (auto simp: orders_ok_def)
    show ?thesis
      by (rule run [OF t(1)])
        (simp add: assms(3) BatchTick t(2) worker_select_def runRecovery_select_def split: run.splits)
  next
    case RecoveryTick
    show ?thesis
      by (rule run [of "(idle (ow_world s))\<lparr>sys_world := recovery_tick T (ow_world s)\<rparr>"],
          intro r_into_rtranclp step_recover [of T "idle (ow_world s)" "fst (RecoverStaleEvents T (ow_world s))"])
        (simp_all add: idle_def recovery_tick_def assms(3) RecoveryTick worker_select_def runRecovery_select_def)
  qed (rule run [OF rtranclp.rtrancl_refl], simp add: assms(3) worker_select_def runRecovery_select_def)+
  then obtain t where t: "ob_steps T process (idle (ow_world s)) t" "sys_world t = ow_world s'" by (elim exE conjE)
  show ?thesis using steps_from_idle [OF t(1) assms(1)] unfolding t(2) .
qed

lemma run_worker_safe:
  assumes "ob_rows_ok routed (sent (ow_world s)) (events T (ow_world s))" "orders_ok wks"
  shows "ob_rows_ok routed (sent (ow_world (run_worker T process config wks s))) (events T (ow_world (run_worker T process config wks s))) \<and>
    (\<exists>new. map ob_key (events T (ow_world (run_worker T process config wks s))) = map ob_key (events T (ow_world s)) @ new)"
  using assms
proof (induction wks arbitrary: s)
  case (Cons wk wks)
  have o: "orders_ok [wk]" "orders_ok wks" using Cons.prems(2) by (auto simp: orders_ok_def)
  define s1 where "s1 = runRecovery_select T wk (worker_select T process config wk s)"
  have 1: "ob_rows_ok routed (sent (ow_world s1)) (events T (ow_world s1))"
    "\<exists>new. map ob_key (events T (ow_world s1)) = map ob_key (events T (ow_world s)) @ new"
    using select_safe [OF Cons.prems(1) o(1) s1_def] by simp_all
  show ?case
    unfolding run_worker.simps s1_def [symmetric] using Cons.IH [OF 1(1) o(2)] 1(2) by (elim exE conjE) simp
qed simp

end

section \<open>One batch of any size\<close>

definition pending_rows :: "OutboxEvent list \<Rightarrow> OutboxEvent list" where
  "pending_rows rs = filter (\<lambda>r. oe_Status r = ''pending'') rs"

definition settled_rows :: "OutboxEvent list \<Rightarrow> bool" where
  "settled_rows rs \<longleftrightarrow> (\<forall>r \<in> set rs. oe_Status r \<in> {''pending'', ''processed''})"

lemma length_claimed:
  assumes "unique_by oe_EventID rs" "distinct ids" "set ids \<subseteq> oe_EventID ` set (pending_rows rs)"
  shows "length (filter (\<lambda>r. oe_Status r = ''pending'' \<and> oe_EventID r \<notin> set ids) rs) + length ids = length (pending_rows rs)"
proof -
  let ?in = "filter (\<lambda>r. oe_EventID r \<in> set ids) (pending_rows rs)"
  have "distinct (map oe_EventID ?in)"
    using assms(1) by (simp add: unique_by_def pending_rows_def distinct_map_filter)
  moreover have "set (map oe_EventID ?in) = set ids" using assms(3) by auto
  ultimately have "length ?in = length ids" by (metis assms(2) distinct_card length_map)
  moreover have "length (pending_rows rs) = length ?in + length (filter (\<lambda>r. oe_EventID r \<notin> set ids) (pending_rows rs))"
    by (simp add: sum_length_filter_compl)
  ultimately show ?thesis by (simp add: pending_rows_def conj_commute)
qed

lemma pending_after_batch:
  "pending_rows (update_where (\<lambda>x. oe_EventID x \<in> I) (ob_done t) (update_where (\<lambda>x. oe_EventID x \<in> I) (ob_lock u) rs)) =
   filter (\<lambda>r. oe_Status r = ''pending'' \<and> oe_EventID r \<notin> I) rs"
  by (induction rs) (auto simp: pending_rows_def ob_done_def ob_lock_def)

lemma settled_after_batch:
  "settled_rows rs \<Longrightarrow>
   settled_rows (update_where (\<lambda>x. oe_EventID x \<in> I) (ob_done t) (update_where (\<lambda>x. oe_EventID x \<in> I) (ob_lock u) rs))"
  by (induction rs) (auto simp: settled_rows_def ob_done_def ob_lock_def)

lemma select_pending_size:
  assumes "0 < n"
  shows "\<exists>es. ob_select_pending n t = Inr es \<and> length es = min (nat n) (length (pending_rows (ob_rows t))) \<and>
    oe_EventID ` set es \<subseteq> oe_EventID ` set (pending_rows (ob_rows t))"
  using assms by (auto simp: ob_select_pending_def pending_rows_def ob_selected_def min.commute dest!: in_set_takeD)

context live_outbox
begin

lemma MarkEventsProcessed_fault_free:
  assumes "fault_free w"
  shows "\<exists>w'. MarkEventsProcessed T ids w = (Inr (), w') \<and> fault_free w' \<and>
    events T w' = update_where (\<lambda>x. oe_EventID x \<in> set ids) (ob_done (clock w)) (events T w)"
proof -
  have f: "fault w = (\<lambda>_. None)" using assms by (simp add: fault_free_def)
  show ?thesis
    by (auto simp: MarkEventsProcessed_def MarkOutboxEventsProcessed_def call_def ob_update_ok [OF f] f fault_free_def)
qed

lemma batch_shrinks:
  assumes "fault_free w" "ob_rows_ok routed (sent w) (events T w)" "settled_rows (events T w)"
    and "0 < BatchSize config" "0 < Concurrency config" "\<And>es. mset (order es) = mset es"
  shows "\<exists>w'. ProcessBatch T process order config w = Returned w' \<and> fault_free w' \<and> settled_rows (events T w') \<and>
    ob_rows_ok routed (sent w') (events T w') \<and> map ob_key (events T w') = map ob_key (events T w) \<and>
    length (pending_rows (events T w')) = length (pending_rows (events T w)) - nat (BatchSize config)"
proof -
  have uni: "unique_by oe_EventID (events T w)" using assms(2) by (simp add: ob_rows_ok_def)
  obtain es where es: "ob_select_pending (BatchSize config) (tab T (db w)) = Inr es"
    "length es = min (nat (BatchSize config)) (length (pending_rows (events T w)))"
    "oe_EventID ` set es \<subseteq> oe_EventID ` set (pending_rows (events T w))"
    using select_pending_size [OF assms(4)] by blast
  have d: "distinct (map oe_EventID es)" using ob_claimed_distinct [OF es(1) uni] .
  obtain w1 where c: "svc_ClaimOutboxEvents T (BatchSize config) (LockTimeout config) w = (Inr es, w1)" "fault_free w1"
    "events T w1 = update_where (\<lambda>x. oe_EventID x \<in> set (map oe_EventID es)) (ob_lock (clock w + seconds (LockTimeout config))) (events T w)"
    using ClaimOutboxEvents_ok [OF assms(1) es(1)] by blast
  obtain w2 where g: "run_goroutines process (order es) w1 = ((map oe_EventID (order es), []), w2)" "same_but_io w1 w2"
    using run_goroutines_all [OF c(2)] by blast
  then have w2: "fault_free w2" "events T w2 = events T w1" using c(2) by (simp_all add: same_but_io_def fault_free_def)
  obtain w3 where m: "MarkEventsProcessed T (map oe_EventID (order es)) w2 = (Inr (), w3)" "fault_free w3"
    "events T w3 = update_where (\<lambda>x. oe_EventID x \<in> set (map oe_EventID (order es))) (ob_done (clock w2)) (events T w1)"
    using MarkEventsProcessed_fault_free [OF w2(1)] w2(2) by metis
  define I where "I = set (map oe_EventID es)"
  have ord: "set (map oe_EventID (order es)) = I" using assms(6) by (metis I_def mset_map set_mset_mset)
  define w' where "w' = (if es = [] then w1 else w3)"
  have b: "ProcessBatch T process order config w = Returned w'"
    using c(1) g(1) m(1) assms(5) by (simp add: ProcessBatch_def w'_def call_def MarkEventsFailed_def)
  have ev: "events T w' = update_where (\<lambda>x. oe_EventID x \<in> I) (ob_done (clock w2))
      (update_where (\<lambda>x. oe_EventID x \<in> I) (ob_lock (clock w + seconds (LockTimeout config))) (events T w))"
    using c(3) m(3) ord by (simp add: w'_def I_def update_where_none)
  have "length (pending_rows (events T w')) + length es = length (pending_rows (events T w))"
    using length_claimed [OF uni d] es(3) unfolding ev pending_after_batch I_def by simp
  moreover obtain s where "ob_steps T process (idle w) s" "sys_world s = w'"
    using ProcessBatch_steps [OF uni assms(6), of config] b by auto
  then have "ob_rows_ok routed (sent w') (events T w')" using steps_from_idle [OF _ assms(2)] by blast
  moreover have "fault_free w'" using c(2) m(2) by (simp add: w'_def)
  moreover have "map ob_key (events T w') = map ob_key (events T w)" unfolding ev by (simp add: ob_keys_update)
  ultimately show ?thesis using b es(2) settled_after_batch [OF assms(3)] by (auto simp: ev)
qed

lemma ticks_deliver:
  assumes "fault_free (ow_world s)" "ob_rows_ok routed (sent (ow_world s)) (events T (ow_world s))" "settled_rows (events T (ow_world s))"
    and "0 < BatchSize config" "0 < Concurrency config" "ticks_only wks"
    and "ow_batch s = Ticking" "ow_recovery s = Ticking" "\<not> ow_crashed s"
  shows "ob_rows_ok routed (sent (ow_world (run_worker T process config wks s))) (events T (ow_world (run_worker T process config wks s))) \<and>
    settled_rows (events T (ow_world (run_worker T process config wks s))) \<and>
    map ob_key (events T (ow_world (run_worker T process config wks s))) = map ob_key (events T (ow_world s)) \<and>
    length (pending_rows (events T (ow_world (run_worker T process config wks s)))) =
      length (pending_rows (events T (ow_world s))) - batch_ticks wks * nat (BatchSize config)"
  using assms
proof (induction wks arbitrary: s)
  case Nil
  then show ?case by simp
next
  case (Cons wk wks)
  have ticks: "ticks_only wks" using Cons.prems(6) by (simp add: ticks_only_def)
  consider "wk = RecoveryTick" | order where "wk = BatchTick order" "\<And>es. mset (order es) = mset es"
    using Cons.prems(6) by (auto simp: ticks_only_def)
  then show ?case
  proof cases
    case 1
    define w1 where "w1 = recovery_tick T (ow_world s)"
    have r: "fault_free w1" "events T w1 = update_where (ob_stale (clock (ow_world s))) ob_release (events T (ow_world s))"
      using recovery_tick_ok [OF Cons.prems(1)] by (simp_all add: w1_def)
    have ev: "events T w1 = events T (ow_world s)"
      unfolding r(2) using Cons.prems(3) by (intro update_where_none) (auto simp: settled_rows_def ob_stale_def)
    have snt: "sent w1 = sent (ow_world s)"
      using Cons.prems(1) by (simp add: w1_def recovery_tick_def RecoverStaleEvents_def RecoverStaleOutboxEvents_def
          call_def ob_update_ok outside_def fault_free_def)
    have s1: "runRecovery_select T wk (worker_select T process config wk s) = s\<lparr>ow_world := w1\<rparr>"
      using 1 Cons.prems(7-9) by (simp add: runRecovery_select_def worker_select_def w1_def)
    show ?thesis
      using Cons.IH [of "s\<lparr>ow_world := w1\<rparr>"] Cons.prems ticks r(1) ev snt 1 s1 by simp
  next
    case 2
    obtain w1 where w1: "ProcessBatch T process order config (ow_world s) = Returned w1" "fault_free w1"
      "settled_rows (events T w1)" "ob_rows_ok routed (sent w1) (events T w1)"
      "map ob_key (events T w1) = map ob_key (events T (ow_world s))"
      "length (pending_rows (events T w1)) = length (pending_rows (events T (ow_world s))) - nat (BatchSize config)"
      using batch_shrinks [OF Cons.prems(1-5) 2(2)] by blast
    have s1: "runRecovery_select T wk (worker_select T process config wk s) = s\<lparr>ow_world := w1\<rparr>"
      using 2(1) w1(1) Cons.prems(7-9) by (simp add: runRecovery_select_def worker_select_def)
    show ?thesis
      using Cons.IH [of "s\<lparr>ow_world := w1\<rparr>"] Cons.prems ticks w1 2(1) s1 by (simp add: diff_diff_add)
  qed
qed

lemma worker_delivers:
  assumes "fault_free w" "ob_rows_ok routed (sent w) (events T w)"
    and "\<forall>r \<in> set (events T w). oe_Status r = ''processing'' \<longrightarrow> ob_stale (clock w) r"
    and "0 < BatchInterval config" "0 < RecoveryInterval config" "0 < BatchSize config" "0 < Concurrency config"
    and "ticks_only wks" "length (events T w) \<le> batch_ticks wks * nat (BatchSize config)"
    and "w' = ow_world (run_worker T process config (RecoveryTick # wks) (worker_Start config w))"
  shows "map ob_key (events T w') = map ob_key (events T w) \<and>
    (\<forall>r \<in> set (events T w'). oe_Status r = ''processed'' \<and> ob_published routed (sent w') r)"
proof -
  define w1 where "w1 = recovery_tick T w"
  have r: "fault_free w1" "events T w1 = update_where (ob_stale (clock w)) ob_release (events T w)"
    using recovery_tick_ok [OF assms(1)] by (simp_all add: w1_def)
  have set1: "settled_rows (events T w1)"
    using assms(2,3) unfolding r(2) by (auto simp: settled_rows_def set_update_where ob_rows_ok_def ob_row_ok_def)
  have "ob_steps T process (idle w) ((idle w)\<lparr>sys_world := w1\<rparr>)"
    by (intro r_into_rtranclp step_recover [of T "idle w" "fst (RecoverStaleEvents T w)"])
       (simp add: idle_def w1_def recovery_tick_def)
  then have ok1: "ob_rows_ok routed (sent w1) (events T w1)" using steps_from_idle [OF _ assms(2)] by fastforce
  let ?s = "(worker_Start config w)\<lparr>ow_world := w1\<rparr>"
  have run: "w' = ow_world (run_worker T process config wks ?s)"
    unfolding assms(10) using assms(4,5)
    by (simp add: worker_Start_def runRecovery_select_def worker_select_def w1_def)
  have "length (pending_rows (events T w1)) \<le> length (events T w)"
    using length_filter_le [of "\<lambda>r. oe_Status r = ''pending''" "events T w1"] by (simp add: r(2) pending_rows_def)
  moreover have fin: "ob_rows_ok routed (sent w') (events T w')" "settled_rows (events T w')"
    "map ob_key (events T w') = map ob_key (events T w1)"
    "length (pending_rows (events T w')) = length (pending_rows (events T w1)) - batch_ticks wks * nat (BatchSize config)"
    using ticks_deliver [of ?s config wks] r(1) ok1 set1 assms(4-8) run by (simp_all add: worker_Start_def)
  ultimately have "pending_rows (events T w') = []" using assms(9) by simp
  then have "\<forall>r \<in> set (events T w'). oe_Status r = ''processed''"
    using fin(2) by (auto simp: settled_rows_def pending_rows_def filter_empty_conv)
  then show ?thesis using fin(1,3) r(2) by (auto simp: ob_keys_update ob_rows_ok_def ob_row_ok_def)
qed

end

section \<open>Theorems\<close>

text \<open>
  C12. The worker delivers everything. Start it on a table in which every lock has expired; when
  nothing fails, one recovery tick and then enough batch ticks for the number of events, mixed
  with any number of further recovery ticks, publish every event and mark it processed,
  whatever the batch size and the order in which the goroutines of a batch finish.
\<close>

theorem auth_worker_delivers:
  assumes "fault_free w" "ob_rows_ok auth_routed (sent w) (events auth_outbox w)"
    and "\<forall>r \<in> set (events auth_outbox w). oe_Status r = ''processing'' \<longrightarrow> ob_stale (clock w) r"
    and "0 < BatchInterval config" "0 < RecoveryInterval config" "0 < BatchSize config" "0 < Concurrency config"
    and "ticks_only wks" "length (events auth_outbox w) \<le> batch_ticks wks * nat (BatchSize config)"
    and "w' = ow_world (run_worker auth_outbox auth_app_ProcessEvent config (RecoveryTick # wks) (worker_Start config w))"
  shows "map ob_key (events auth_outbox w') = map ob_key (events auth_outbox w) \<and>
    (\<forall>r \<in> set (events auth_outbox w'). oe_Status r = ''processed'' \<and>
       (auth_routed (oe_EventType r) \<longrightarrow> (\<exists>p \<in> set (sent w'). pub_body p = oe_Payload r)))"
  using auth_live.worker_delivers [OF assms] by (simp add: ob_published_def)

text \<open>
  After the context has ended both loops, no tick changes anything; and a worker whose
  configuration lacks an interval crashes the process when it starts.
\<close>

theorem worker_loops_end:
  "(ow_batch s = Ended \<and> ow_recovery s = Ended \<longrightarrow> run_worker T process config wks s = s) \<and>
   (BatchInterval config \<le> 0 \<or> RecoveryInterval config \<le> 0 \<longrightarrow> ow_crashed (worker_Start config w))"
proof -
  have "ow_batch s = Ended \<and> ow_recovery s = Ended \<longrightarrow> run_worker T process config wks s = s"
    by (induction wks) (simp_all add: worker_select_def runRecovery_select_def)
  then show ?thesis by (simp add: worker_Start_def)
qed

text \<open>The notification service's worker, over its own table and processor.\<close>

definition notif_worker_Start :: "WorkerConfig \<Rightarrow> notif_db world \<Rightarrow> notif_db outbox_worker" where
  "notif_worker_Start = worker_Start"

definition notif_run_worker :: "proto_lib \<Rightarrow> WorkerConfig \<Rightarrow> wake list \<Rightarrow> notif_db outbox_worker \<Rightarrow> notif_db outbox_worker" where
  "notif_run_worker L = run_worker notif_outbox (notif_app_ProcessEvent L)"

text \<open>
  No alert is lost by the notification service's worker. Whatever calls fail and in whatever
  order its loops wake up, are cancelled, block or crash, every stored alert is still there, and
  one that is marked processed has been published.
\<close>

theorem notif_worker_safe:
  assumes "ob_rows_ok notif_routed (sent w) (events notif_outbox w)" "orders_ok wks"
    and "w' = ow_world (notif_run_worker L config wks (notif_worker_Start config w))"
  shows "(\<exists>new. map ob_key (events notif_outbox w') = map ob_key (events notif_outbox w) @ new) \<and>
    (\<forall>r \<in> set (events notif_outbox w'). oe_Status r = ''processed'' \<and> notif_routed (oe_EventType r) \<longrightarrow>
       (\<exists>p \<in> set (sent w'). pub_body p = oe_Payload r))"
  using notif_svc.run_worker_safe [of "worker_Start config w" wks L config] assms
  by (auto simp: notif_run_worker_def notif_worker_Start_def worker_Start_def ob_rows_ok_def ob_row_ok_def ob_published_def)

section \<open>Witnesses\<close>

theorem notif_worker_safe_witness:
  "\<forall>L f. \<exists>new. map ob_key (events notif_outbox (ow_world (notif_run_worker L sample_config [BatchTick rev, RecoveryTick, BatchDone]
      (notif_worker_Start sample_config (quiet_world \<lparr>notification_outbox_events = \<lparr>ob_rows = [(sample_event ''pending'' None)\<lparr>oe_EventType :=
         event_Type_string TypeNotificationPush\<rparr>], ob_next = 2\<rparr>, notification_processed_messages = []\<rparr>\<lparr>fault := f\<rparr>))))) =
    (''e1'', event_Type_string TypeNotificationPush, ''body'') # new"
proof (intro allI)
  fix L and f :: "nat \<Rightarrow> go_error option"
  let ?w = "quiet_world \<lparr>notification_outbox_events = \<lparr>ob_rows = [(sample_event ''pending'' None)\<lparr>oe_EventType :=
         event_Type_string TypeNotificationPush\<rparr>], ob_next = 2\<rparr>, notification_processed_messages = []\<rparr>\<lparr>fault := f\<rparr>"
  have ok: "ob_rows_ok notif_routed (sent ?w) (events notif_outbox ?w)" "orders_ok [BatchTick rev, RecoveryTick, BatchDone]"
    by (simp_all add: ob_rows_ok_def ob_row_ok_def sample_event_def unique_by_def orders_ok_def notif_outbox_def)
  show "\<exists>new. map ob_key (events notif_outbox (ow_world (notif_run_worker L sample_config [BatchTick rev, RecoveryTick, BatchDone]
      (notif_worker_Start sample_config ?w)))) = (''e1'', event_Type_string TypeNotificationPush, ''body'') # new"
    using conjunct1 [OF notif_worker_safe [OF ok refl, of L sample_config]]
    by (simp add: ob_key_def sample_event_def notif_outbox_def)
qed

abbreviation small_batches :: WorkerConfig where
  "small_batches \<equiv> sample_config\<lparr>BatchSize := 1\<rparr>"

definition two_events :: "auth_db world" where
  "two_events = sample_outbox_world [sample_event ''processing'' (Some 500), (sample_event ''pending'' None)\<lparr>oe_EventID := ''e2''\<rparr>]"

theorem auth_worker_delivers_witness:
  "map oe_Status (events auth_outbox (ow_world (run_worker auth_outbox auth_app_ProcessEvent small_batches
      (RecoveryTick # [BatchTick rev, RecoveryTick, BatchTick rev]) (worker_Start small_batches two_events)))) =
     [''processed'', ''processed'']"
proof -
  let ?w' = "ow_world (run_worker auth_outbox auth_app_ProcessEvent small_batches
      (RecoveryTick # [BatchTick rev, RecoveryTick, BatchTick rev]) (worker_Start small_batches two_events))"
  have "fault_free two_events" by (simp add: two_events_def fault_free_def)
  moreover have "ob_rows_ok auth_routed (sent two_events) (events auth_outbox two_events)"
    by (simp add: two_events_def ob_rows_ok_def ob_row_ok_def sample_event_def unique_by_def)
  moreover have "\<forall>r \<in> set (events auth_outbox two_events). oe_Status r = ''processing'' \<longrightarrow> ob_stale (clock two_events) r"
    by (simp add: two_events_def ob_stale_def sample_event_def)
  moreover have "ticks_only [BatchTick rev, RecoveryTick, BatchTick rev]" by (simp add: ticks_only_def)
  moreover have "length (events auth_outbox two_events) \<le> batch_ticks [BatchTick rev, RecoveryTick, BatchTick rev] * nat (BatchSize small_batches)"
    by (simp add: two_events_def)
  ultimately have d: "map ob_key (events auth_outbox ?w') = map ob_key (events auth_outbox two_events)"
    "\<forall>r \<in> set (events auth_outbox ?w'). oe_Status r = ''processed''"
    using auth_worker_delivers [of two_events small_batches "[BatchTick rev, RecoveryTick, BatchTick rev]"] by simp_all
  have "length (events auth_outbox ?w') = 2"
    using arg_cong [OF d(1), of length] by (simp add: two_events_def)
  moreover have "map oe_Status rs = replicate (length rs) ''processed''" if "\<forall>r \<in> set rs. oe_Status r = ''processed''" for rs
    using that by (induction rs) simp_all
  ultimately have "map oe_Status (events auth_outbox ?w') = replicate 2 ''processed''" using d(2) by metis
  also have "replicate 2 ''processed'' = [''processed'', ''processed'']" by (simp add: numeral_2_eq_2)
  finally show ?thesis .
qed

end
