(* ===== verification/Gin.thy ===== *)
theory Gin
  imports Http
begin

text \<open>
  What every request passes before the routes: \<^verbatim>\<open>pkg/middleware/gin.go\<close> with the recording of
  \<^verbatim>\<open>pkg/otel/http_metrics.go\<close>, the servers' \<^verbatim>\<open>NewServer\<close>, and the documentation service
  (\<^verbatim>\<open>internal/docs\<close>). The rest of a chain is a handler that finishes with a status or panics, with
  the status it had written by then, if any; it returns when it did so. The reports of the
  middlewares (spans, metrics, log lines) are kept in order.
\<close>

section \<open>The outer middlewares\<close>

record gin_request =
  rq_method :: string
  rq_path :: string
  rq_full_path :: string
  rq_request_id :: string

datatype outcome_of_rest = Finished nat int | Panics "nat option" string int

datatype http_report =
    SpanStart string
  | SpanStatusCode nat
  | SpanError
  | SpanEnd
  | HistogramRecord "(string \<times> string) list" int
  | CounterAdd "(string \<times> string) list" int
  | LogRequest string string nat string
  | LogPanic string string

text \<open>\<^verbatim>\<open>RecoveryWithWriter\<close> hands a panic to the function, whose status counts unless one was written.\<close>

definition GinSlogRecovery :: "gin_request \<Rightarrow> outcome_of_rest \<Rightarrow> nat \<times> int \<times> http_report list" where
  "GinSlogRecovery rq rest =
     (case rest of
        Finished status t \<Rightarrow> (status, t, [])
      | Panics written err t \<Rightarrow>
          ((case written of Some status \<Rightarrow> status | None \<Rightarrow> 500), t, [LogPanic err (rq_path rq)]))"

definition HTTPMetrics_Record :: "string \<Rightarrow> string \<Rightarrow> nat \<Rightarrow> int \<Rightarrow> http_report list" where
  "HTTPMetrics_Record method route status duration =
     (let attrs = [(''http.method'', method), (''http.route'', route), (''http.status_code'', nat_to_string status)]
      in [HistogramRecord attrs (sgn duration * (\<bar>duration\<bar> div 1000000)), CounterAdd attrs 1])"

definition GinSlogLogger :: "bool \<Rightarrow> gin_request \<Rightarrow> int \<Rightarrow> nat \<times> int \<times> http_report list \<Rightarrow> nat \<times> http_report list" where
  "GinSlogLogger metrics_nil rq start inner =
     (case inner of (status, t, reports) \<Rightarrow>
        if rq_path rq \<in> {''/live'', ''/ready''} then (status, reports)
        else (status, reports @
               (if metrics_nil then [] else HTTPMetrics_Record (rq_method rq) (rq_full_path rq) status (t - start)) @
               [LogRequest (rq_method rq) (rq_path rq) status (rq_request_id rq)]))"

definition OtelMiddleware :: "gin_request \<Rightarrow> nat \<times> http_report list \<Rightarrow> nat \<times> http_report list" where
  "OtelMiddleware rq inner =
     (case inner of (status, reports) \<Rightarrow>
        (status, [SpanStart (rq_method rq @ '' '' @ rq_full_path rq)] @ reports @ [SpanStatusCode status] @
           (if 500 \<le> status then [SpanError] else []) @ [SpanEnd]))"

text \<open>The order in which all four servers install them.\<close>

definition serve_request :: "gin_request \<Rightarrow> int \<Rightarrow> outcome_of_rest \<Rightarrow> nat \<times> http_report list" where
  "serve_request rq start rest = OtelMiddleware rq (GinSlogLogger False rq start (GinSlogRecovery rq rest))"

section \<open>Servers\<close>

record stdhttp_Server =
  srv_Addr :: string
  srv_ReadTimeout :: int
  srv_WriteTimeout :: int
  srv_IdleTimeout :: int
  srv_ReadHeaderTimeout :: int

definition auth_NewServer :: "string \<Rightarrow> stdhttp_Server" where
  "auth_NewServer addr = \<lparr>srv_Addr = addr, srv_ReadTimeout = 30000000000, srv_WriteTimeout = 30000000000,
     srv_IdleTimeout = 120000000000, srv_ReadHeaderTimeout = 10000000000\<rparr>"

definition wallet_NewServer :: "string \<Rightarrow> stdhttp_Server" where
  "wallet_NewServer addr = \<lparr>srv_Addr = addr, srv_ReadTimeout = 30000000000, srv_WriteTimeout = 30000000000,
     srv_IdleTimeout = 120000000000, srv_ReadHeaderTimeout = 10000000000\<rparr>"

definition notification_NewServer :: "string \<Rightarrow> stdhttp_Server" where
  "notification_NewServer addr = \<lparr>srv_Addr = addr, srv_ReadTimeout = 30000000000, srv_WriteTimeout = 30000000000,
     srv_IdleTimeout = 120000000000, srv_ReadHeaderTimeout = 10000000000\<rparr>"

definition docs_NewServer :: "string \<Rightarrow> stdhttp_Server" where
  "docs_NewServer addr = \<lparr>srv_Addr = addr, srv_ReadTimeout = 30000000000, srv_WriteTimeout = 30000000000,
     srv_IdleTimeout = 120000000000, srv_ReadHeaderTimeout = 10000000000\<rparr>"

text \<open>
  \<^verbatim>\<open>net/http\<close>: a positive write timeout is the time, from the end of the request's header, after which
  writes of the response fail. A stream's messages, with the times they are written at, that
  reach the client:
\<close>

definition written_in_time :: "stdhttp_Server \<Rightarrow> int \<Rightarrow> (int \<times> string) list \<Rightarrow> string list" where
  "written_in_time srv header_read msgs =
     map snd (filter (\<lambda>(t, m). srv_WriteTimeout srv \<le> 0 \<or> t < header_read + srv_WriteTimeout srv) msgs)"

section \<open>The documentation service\<close>

datatype json = JString string | JNumber int | JBool bool | JNull | JArray "json list" | JObject "(string \<times> json) list"

text \<open>
  \<^verbatim>\<open>json.Unmarshal\<close> into a map: an error, a nil map for the document \<^verbatim>\<open>null\<close>, or the members.
  Storing into a nil map panics.
\<close>

type_synonym json_object = "string \<rightharpoonup> json"

record Swagger =
  sw_Host :: string
  sw_Schemes :: string

record RoutesConfig =
  rc_Auth :: Swagger
  rc_Wallet :: Swagger
  rc_Notification :: Swagger

datatype docs_answer = EmptyAnswer nat | HtmlAnswer nat string | JsonAnswer nat json_object | DocsPanic

definition patchAndServe :: "(string \<Rightarrow> go_error + json_object option) \<Rightarrow> string \<Rightarrow> string \<Rightarrow> string list \<Rightarrow> docs_answer" where
  "patchAndServe unmarshal spec host schemes =
     (case unmarshal spec of
        Inl err \<Rightarrow> EmptyAnswer 200
      | Inr None \<Rightarrow> DocsPanic
      | Inr (Some doc) \<Rightarrow> JsonAnswer 200 (doc(''host'' \<mapsto> JString host, ''schemes'' \<mapsto> JArray (map JString schemes))))"

record docs_files =
  df_Html :: string
  df_AuthSpec :: string
  df_WalletSpec :: string
  df_NotificationSpec :: string

definition docs_config :: docs_answer where
  "docs_config =
     (let service = (\<lambda>name url. JObject [(''name'', JString name), (''url'', JString url)])
      in JsonAnswer 200 [''services'' \<mapsto> JArray [service ''Auth'' ''/docs/auth'', service ''Wallet'' ''/docs/wallet'',
                                               service ''Notification'' ''/docs/notification'']])"

definition docs_LiveHandler :: docs_answer where
  "docs_LiveHandler = EmptyAnswer 200"

definition docs_ReadyHandler :: docs_answer where
  "docs_ReadyHandler = EmptyAnswer 200"

definition docs_serve ::
  "(string \<Rightarrow> go_error + json_object option) \<Rightarrow> docs_files \<Rightarrow> RoutesConfig \<Rightarrow> string \<Rightarrow> docs_answer" where
  "docs_serve unmarshal files routes path =
     (let patched = (\<lambda>spec sw. patchAndServe unmarshal spec (sw_Host sw) (split_on (CHR '','') (sw_Schemes sw))) in
      if path = ''/live'' then docs_LiveHandler
      else if path = ''/ready'' then docs_ReadyHandler
      else if path = ''/api-list'' then HtmlAnswer 200 (df_Html files)
      else if path = ''/auth'' then patched (df_AuthSpec files) (rc_Auth routes)
      else if path = ''/wallet'' then patched (df_WalletSpec files) (rc_Wallet routes)
      else if path = ''/notification'' then patched (df_NotificationSpec files) (rc_Notification routes)
      else if path = ''/config'' then docs_config
      else EmptyAnswer 404)"

section \<open>Theorems\<close>

definition spans :: "http_report list \<Rightarrow> http_report list" where
  "spans rs = filter (\<lambda>r. case r of SpanStart _ \<Rightarrow> True | SpanStatusCode _ \<Rightarrow> True | SpanError \<Rightarrow> True | SpanEnd \<Rightarrow> True | _ \<Rightarrow> False) rs"

definition counted :: "http_report list \<Rightarrow> http_report list" where
  "counted rs = filter (\<lambda>r. case r of CounterAdd _ _ \<Rightarrow> True | _ \<Rightarrow> False) rs"

definition logged :: "http_report list \<Rightarrow> http_report list" where
  "logged rs = filter (\<lambda>r. case r of LogRequest _ _ _ _ \<Rightarrow> True | _ \<Rightarrow> False) rs"

text \<open>
  Every request is answered and reported once. A panic below becomes the status 500 unless a
  status had already been written; the trace has one span, closed at the end, that carries
  the status the client gets and an error mark exactly for statuses from 500 on; and except
  for the two probes, the request is counted once and logged once, under that same status.
\<close>

theorem request_reported_once:
  assumes "serve_request rq start rest = (status, reports)"
  shows "status = (case rest of Finished s t \<Rightarrow> s | Panics written e t \<Rightarrow> (case written of Some s \<Rightarrow> s | None \<Rightarrow> 500)) \<and>
    spans reports = [SpanStart (rq_method rq @ '' '' @ rq_full_path rq), SpanStatusCode status] @
      (if 500 \<le> status then [SpanError] else []) @ [SpanEnd] \<and>
    last reports = SpanEnd \<and>
    (if rq_path rq \<in> {''/live'', ''/ready''} then counted reports = [] \<and> logged reports = []
     else counted reports = [CounterAdd [(''http.method'', rq_method rq), (''http.route'', rq_full_path rq),
                                         (''http.status_code'', nat_to_string status)] 1] \<and>
          logged reports = [LogRequest (rq_method rq) (rq_path rq) status (rq_request_id rq)])"
  using assms
  by (cases rest)
     (auto simp: serve_request_def OtelMiddleware_def GinSlogLogger_def GinSlogRecovery_def HTTPMetrics_Record_def
       spans_def counted_def logged_def Let_def)

text \<open>
  The served API document is the embedded one with host and schemes replaced: every
  other member is as it was, the host is the configured one, the schemes are the pieces of
  the configured list; a document that does not parse is answered with 200 and no body.
\<close>

theorem docs_patched:
  assumes "(path, spec, sw) \<in> {(''/auth'', df_AuthSpec files, rc_Auth routes), (''/wallet'', df_WalletSpec files, rc_Wallet routes),
      (''/notification'', df_NotificationSpec files, rc_Notification routes)}"
  shows "case docs_serve unmarshal files routes path of
      JsonAnswer status doc \<Rightarrow> status = 200 \<and> doc ''host'' = Some (JString (sw_Host sw)) \<and>
        (\<exists>schemes. doc ''schemes'' = Some (JArray (map JString schemes)) \<and>
           sw_Schemes sw = hd schemes @ concat (map (Cons (CHR '','')) (tl schemes)) \<and> (\<forall>s \<in> set schemes. CHR '','' \<notin> set s)) \<and>
        (\<exists>orig. unmarshal spec = Inr (Some orig) \<and> (\<forall>k. k \<noteq> ''host'' \<and> k \<noteq> ''schemes'' \<longrightarrow> doc k = orig k))
    | EmptyAnswer status \<Rightarrow> status = 200 \<and> (\<exists>e. unmarshal spec = Inl e)
    | HtmlAnswer _ _ \<Rightarrow> False
    | DocsPanic \<Rightarrow> unmarshal spec = Inr None"
proof -
  have serve: "docs_serve unmarshal files routes path = patchAndServe unmarshal spec (sw_Host sw) (split_on (CHR '','') (sw_Schemes sw))"
    using assms by (auto simp: docs_serve_def Let_def)
  have "sw_Schemes sw = hd (split_on (CHR '','') (sw_Schemes sw)) @ concat (map (Cons (CHR '','')) (tl (split_on (CHR '','') (sw_Schemes sw))))"
    by (cases "split_on (CHR '','') (sw_Schemes sw)") (auto dest: split_on_join)
  then show ?thesis
    using split_on_pieces unfolding serve
    by (auto simp: patchAndServe_def split: sum.splits option.splits intro!: exI [of _ "split_on (CHR '','') (sw_Schemes sw)"])
qed

text \<open>
  Event streams are cut off: whatever the notification service writes to a stream thirty
  seconds after the request or later does not reach the client.
\<close>

theorem streams_cut_off:
  "written_in_time (notification_NewServer addr) t0 (xs @ ys) = written_in_time (notification_NewServer addr) t0 xs"
  if "\<forall>(t, m) \<in> set ys. t0 + 30000000000 \<le> t"
  using that by (auto simp: written_in_time_def notification_NewServer_def filter_empty_conv)

section \<open>Witnesses\<close>

theorem request_reported_once_witness:
  "\<exists>status reports. serve_request \<lparr>rq_method = ''POST'', rq_path = ''/transfer'', rq_full_path = ''/transfer'', rq_request_id = ''r''\<rparr> 0
     (Panics None ''boom'' 7) = (status, reports) \<and> status = 500 \<and>
     logged reports = [LogRequest ''POST'' ''/transfer'' 500 ''r'']"
proof -
  let ?rq = "\<lparr>rq_method = ''POST'', rq_path = ''/transfer'', rq_full_path = ''/transfer'', rq_request_id = ''r''\<rparr>"
  obtain status reports where r: "serve_request ?rq 0 (Panics None ''boom'' 7) = (status, reports)" by fastforce
  from request_reported_once [OF r] have "status = 500" "logged reports = [LogRequest ''POST'' ''/transfer'' status ''r'']" by simp_all
  then show ?thesis using r by blast
qed

theorem docs_patched_witness:
  "docs_serve (\<lambda>_. Inr (Some [''host'' \<mapsto> JString ''localhost'', ''swagger'' \<mapsto> JString ''2.0'']))
     \<lparr>df_Html = [], df_AuthSpec = ''a'', df_WalletSpec = ''w'', df_NotificationSpec = ''n''\<rparr>
     \<lparr>rc_Auth = \<lparr>sw_Host = ''h1'', sw_Schemes = ''https''\<rparr>, rc_Wallet = \<lparr>sw_Host = ''h2'', sw_Schemes = ''http,https''\<rparr>,
      rc_Notification = \<lparr>sw_Host = ''h3'', sw_Schemes = ''http''\<rparr>\<rparr> ''/wallet'' \<noteq> DocsPanic"
proof -
  let ?u = "\<lambda>_ :: string. (Inr (Some [''host'' \<mapsto> JString ''localhost'', ''swagger'' \<mapsto> JString ''2.0''])) :: go_error + json_object option"
  let ?f = "\<lparr>df_Html = [], df_AuthSpec = ''a'', df_WalletSpec = ''w'', df_NotificationSpec = ''n''\<rparr>"
  let ?r = "\<lparr>rc_Auth = \<lparr>sw_Host = ''h1'', sw_Schemes = ''https''\<rparr>, rc_Wallet = \<lparr>sw_Host = ''h2'', sw_Schemes = ''http,https''\<rparr>,
      rc_Notification = \<lparr>sw_Host = ''h3'', sw_Schemes = ''http''\<rparr>\<rparr>"
  show ?thesis
    using docs_patched [of "''/wallet''" "''w''" "\<lparr>sw_Host = ''h2'', sw_Schemes = ''http,https''\<rparr>" ?f ?r ?u]
    by (auto split: docs_answer.splits)
qed

theorem streams_cut_off_witness:
  "written_in_time (notification_NewServer '':5002'') 0 ([(5, ''a'')] @ [(30000000000, ''b'')]) = [''a'']"
  using streams_cut_off [of "[(30000000000, ''b'')]" 0 "'':5002''" "[(5, ''a'')]"]
  by (simp add: written_in_time_def notification_NewServer_def)

end
