(* ===== verification/Connection.thy ===== *)
theory Connection
  imports Publisher
begin

text \<open>
  The connection of \<^verbatim>\<open>pkg/rabbitmq/connection.go\<close>: dialling, the goroutine that dials again
  when the connection is lost, and \<^verbatim>\<open>Close\<close>. The client library is outside the repository:
  its connections are numbered in the order they are dialled, each is open or has been shut
  down, with the error that ended it or without one after an orderly \<^verbatim>\<open>Close\<close>. Dialling is a
  call that leaves the process. A connection may be lost between any two steps.
\<close>

section \<open>Connections of the client library\<close>

datatype link = Open | Shut "go_error option"

type_synonym links = "link list"

text \<open>
  \<^verbatim>\<open>NotifyClose\<close> on a connection that is already shut does not wait: what the receiver gets
  then is a parameter \<open>late\<close> of the model, a function of the reason. Otherwise it waits, and gets
  the error, or nil after an orderly close.
\<close>

type_synonym late_notice = "go_error option \<Rightarrow> go_error option"

definition amqp_Dial :: "string \<Rightarrow> (links, nat) wprog" where
  "amqp_Dial url =
     call outside fail (\<lambda>_ w. (Inr (length (db w)), w\<lparr>db := db w @ [Open]\<rparr>))"

definition amqp_Close :: "nat \<Rightarrow> (links, unit) wprog" where
  "amqp_Close i w =
     (if db w ! i = Open then call outside fail ret (w\<lparr>db := (db w)[i := Shut None]\<rparr>)
      else (Inl (AmqpError 504 ''channel/connection is not open''), w))"

section \<open>The methods\<close>

record Connection =
  con_url :: string
  con_conn :: nat
  con_closed :: bool

definition connect :: "Connection \<Rightarrow> (links, Connection) wprog" where
  "connect c =
     call (amqp_Dial (con_url c)) (\<lambda>err. fail (WrapError ''rabbitmq: dial: '' err))
       (\<lambda>conn. ret (c\<lparr>con_conn := conn\<rparr>))"

definition Connection_Close :: "Connection \<Rightarrow> (links, unit) wprog" where
  "Connection_Close c =
     call (amqp_Close (con_conn c)) (\<lambda>err. fail (WrapError ''rabbitmq: close connection: '' err)) ret"

text \<open>
  The places of \<^verbatim>\<open>watchReconnect\<close>: the head of the outer loop, holding the current connection
  before and after \<^verbatim>\<open>NotifyClose\<close>, having received a reason, the head of the inner loop,
  dialling after the sleep, and returned.
\<close>

datatype watch =
    OuterLoop
  | Holding nat
  | Waiting nat
  | Received "go_error option"
  | InnerLoop
  | Sleeping
  | WatchOver

record rmq =
  rmq_c :: Connection
  rmq_watch :: watch
  rmq_w :: "links world"

definition NewConnection :: "string \<Rightarrow> (links, Connection \<times> watch) wprog" where
  "NewConnection url =
     call (connect \<lparr>con_url = url, con_conn = 0, con_closed = False\<rparr>) fail (\<lambda>c. ret (c, OuterLoop))"

fun watchReconnect :: "late_notice \<Rightarrow> rmq \<Rightarrow> rmq option" where
  "watchReconnect late s =
     (case rmq_watch s of
        OuterLoop \<Rightarrow> Some (s\<lparr>rmq_watch := (if con_closed (rmq_c s) then WatchOver else Holding (con_conn (rmq_c s)))\<rparr>)
      | Holding i \<Rightarrow>
          (case db (rmq_w s) ! i of
             Open \<Rightarrow> Some (s\<lparr>rmq_watch := Waiting i\<rparr>)
           | Shut reason \<Rightarrow> Some (s\<lparr>rmq_watch := Received (late reason)\<rparr>))
      | Waiting i \<Rightarrow>
          (case db (rmq_w s) ! i of
             Open \<Rightarrow> None
           | Shut reason \<Rightarrow> Some (s\<lparr>rmq_watch := Received reason\<rparr>))
      | Received reason \<Rightarrow>
          Some (s\<lparr>rmq_watch := (if reason = None \<or> con_closed (rmq_c s) then WatchOver else InnerLoop)\<rparr>)
      | InnerLoop \<Rightarrow> Some (s\<lparr>rmq_watch := (if con_closed (rmq_c s) then WatchOver else Sleeping)\<rparr>)
      | Sleeping \<Rightarrow>
          (case connect (rmq_c s) (rmq_w s) of
             (Inl err, w) \<Rightarrow> Some (s\<lparr>rmq_watch := InnerLoop, rmq_w := w\<rparr>)
           | (Inr c, w) \<Rightarrow> Some (s\<lparr>rmq_watch := OuterLoop, rmq_c := c, rmq_w := w\<rparr>))
      | WatchOver \<Rightarrow> None)"

declare watchReconnect.simps [simp del]

section \<open>Interleavings\<close>

text \<open>
  The watcher takes a step, an open connection is lost, or the owner calls \<^verbatim>\<open>Close\<close>.
\<close>

inductive rmq_step :: "late_notice \<Rightarrow> rmq \<Rightarrow> rmq \<Rightarrow> bool" for late :: late_notice where
  rmq_watch: "watchReconnect late s = Some s' \<Longrightarrow> rmq_step late s s'"
| rmq_lost: "i < length (db (rmq_w s)) \<Longrightarrow> db (rmq_w s) ! i = Open \<Longrightarrow>
    rmq_step late s (s\<lparr>rmq_w := (rmq_w s)\<lparr>db := (db (rmq_w s))[i := Shut (Some e)]\<rparr>\<rparr>)"
| rmq_close: "Connection_Close (rmq_c s) (rmq_w s) = (r, w') \<Longrightarrow> rmq_step late s (s\<lparr>rmq_w := w'\<rparr>)"

abbreviation rmq_steps :: "late_notice \<Rightarrow> rmq \<Rightarrow> rmq \<Rightarrow> bool" where
  "rmq_steps late \<equiv> (rmq_step late)\<^sup>*\<^sup>*"

text \<open>The states a successful \<^verbatim>\<open>NewConnection\<close> starts in.\<close>

definition rmq_start :: "string \<Rightarrow> links world \<Rightarrow> rmq \<Rightarrow> bool" where
  "rmq_start url w0 s \<longleftrightarrow> db w0 = [] \<and> NewConnection url w0 = (Inr (rmq_c s, rmq_watch s), rmq_w s)"

section \<open>The invariant\<close>

text \<open>
  The flag is never set. Only the newest connection can be open, and it is the current one.
  While the watcher holds a connection it is the current one; past its notice the current
  connection is shut.
\<close>

definition rmq_inv :: "string \<Rightarrow> rmq \<Rightarrow> bool" where
  "rmq_inv url s \<longleftrightarrow> con_url (rmq_c s) = url \<and> \<not> con_closed (rmq_c s) \<and>
     length (db (rmq_w s)) = Suc (con_conn (rmq_c s)) \<and>
     (\<forall>i < con_conn (rmq_c s). db (rmq_w s) ! i \<noteq> Open) \<and>
     (case rmq_watch s of
        OuterLoop \<Rightarrow> True
      | Holding i \<Rightarrow> i = con_conn (rmq_c s)
      | Waiting i \<Rightarrow> i = con_conn (rmq_c s)
      | _ \<Rightarrow> db (rmq_w s) ! con_conn (rmq_c s) \<noteq> Open)"

lemma connect_cases:
  assumes "connect c w = (r, w')"
  shows "(\<exists>e. r = Inl e \<and> db w' = db w) \<or>
         (r = Inr (c\<lparr>con_conn := length (db w)\<rparr>) \<and> db w' = db w @ [Open])"
  using assms by (auto simp: connect_def amqp_Dial_def call_def outside_def split: option.splits)

lemma rmq_start_inv: "rmq_start url w0 s \<Longrightarrow> rmq_inv url s"
  by (cases s) (auto simp: rmq_start_def NewConnection_def rmq_inv_def elim!: call_cases dest!: connect_cases)

lemma Connection_Close_links:
  assumes "Connection_Close c w = (r, w')"
  shows "db w' = db w \<or> db w' = (db w)[con_conn c := Shut None]"
  using assms
  by (auto simp: Connection_Close_def amqp_Close_def call_def outside_def split: if_splits option.splits)

lemma shut_not_open: "ls[i := Shut r] ! j = Open \<Longrightarrow> ls ! j = Open"
  by (cases "i < length ls") (auto simp: nth_list_update list_update_beyond split: if_splits)

lemma rmq_inv_shut:
  "rmq_inv url s \<Longrightarrow> rmq_inv url (s\<lparr>rmq_w := (rmq_w s)\<lparr>db := (db (rmq_w s))[i := Shut r]\<rparr>\<rparr>)"
  by (auto simp: rmq_inv_def dest!: shut_not_open split: watch.splits)

lemma rmq_inv_world: "db w = db (rmq_w s) \<Longrightarrow> rmq_inv url (s\<lparr>rmq_w := w\<rparr>) = rmq_inv url s"
  by (auto simp: rmq_inv_def split: watch.splits)

lemma watch_inv:
  assumes "watchReconnect late s = Some s'" "rmq_inv url s"
  shows "rmq_inv url s'"
proof (cases "rmq_watch s")
  case Sleeping
  obtain r w where c: "connect (rmq_c s) (rmq_w s) = (r, w)" by fastforce
  show ?thesis
    using assms Sleeping c connect_cases [OF c]
    by (cases r) (auto simp: watchReconnect.simps rmq_inv_def nth_append less_Suc_eq)
qed (use assms in \<open>auto simp: watchReconnect.simps rmq_inv_def split: link.splits if_splits\<close>)

lemma rmq_step_inv:
  assumes "rmq_step late s s'" "rmq_inv url s"
  shows "rmq_inv url s'"
  using assms
proof (induction rule: rmq_step.induct)
  case (rmq_watch s s')
  then show ?case by (rule watch_inv)
next
  case (rmq_lost i s e)
  then show ?case by (simp add: rmq_inv_shut)
next
  case (rmq_close s r w')
  then show ?case
    using Connection_Close_links [OF rmq_close(1)] rmq_inv_shut [OF rmq_close(2)]
      rmq_inv_world [of w' s url]
      rmq_inv_world [of w' "s\<lparr>rmq_w := (rmq_w s)\<lparr>db := (db (rmq_w s))[con_conn (rmq_c s) := Shut None]\<rparr>\<rparr>" url]
    by auto
qed

lemma rmq_steps_inv: "rmq_steps late s s' \<Longrightarrow> rmq_inv url s \<Longrightarrow> rmq_inv url s'"
  by (induction rule: rtranclp_induct) (auto intro: rmq_step_inv)

text \<open>Once the watcher has returned, the current connection stays and stays shut.\<close>

definition rmq_down :: "nat \<Rightarrow> rmq \<Rightarrow> bool" where
  "rmq_down i s \<longleftrightarrow> rmq_watch s = WatchOver \<and> con_conn (rmq_c s) = i \<and> i < length (db (rmq_w s)) \<and> db (rmq_w s) ! i \<noteq> Open"

lemma rmq_down_stable: "rmq_step late s s' \<Longrightarrow> rmq_down i s \<Longrightarrow> rmq_down i s'"
proof (induction rule: rmq_step.induct)
  case (rmq_watch s s')
  then show ?case by (simp add: rmq_down_def watchReconnect.simps)
next
  case (rmq_lost j s e)
  then show ?case by (cases "i = j") (auto simp: rmq_down_def)
next
  case (rmq_close s r w')
  then show ?case using Connection_Close_links [OF rmq_close(1)] by (auto simp: rmq_down_def)
qed

lemma rmq_down_forever: "rmq_steps late s s' \<Longrightarrow> rmq_down i s \<Longrightarrow> rmq_down i s'"
  by (induction rule: rtranclp_induct) (auto intro: rmq_down_stable)

lemma rmq_downD:
  "rmq_down i s \<Longrightarrow> con_conn (rmq_c s) = i \<and> db (rmq_w s) ! con_conn (rmq_c s) \<noteq> Open"
  by (simp add: rmq_down_def)

lemma rmq_inv_down: "rmq_inv url s \<Longrightarrow> rmq_watch s = WatchOver \<Longrightarrow> rmq_down (con_conn (rmq_c s)) s"
  by (simp add: rmq_inv_def rmq_down_def)

section \<open>The watcher on its own\<close>

abbreviation watcher :: "late_notice \<Rightarrow> rmq \<Rightarrow> rmq \<Rightarrow> bool" where
  "watcher late \<equiv> (\<lambda>s s'. watchReconnect late s = Some s')\<^sup>*\<^sup>*"

lemma watcher_steps: "watcher late s s' \<Longrightarrow> rmq_steps late s s'"
  by (induction rule: rtranclp_induct) (auto intro: rtranclp.rtrancl_into_rtrancl rmq_step.rmq_watch)

lemma watcher_step: "watchReconnect late s = Some s1 \<Longrightarrow> watcher late s1 s' \<Longrightarrow> watcher late s s'"
  by (rule converse_rtranclp_into_rtranclp)

definition watcher_repairs :: "late_notice \<Rightarrow> rmq \<Rightarrow> bool" where
  "watcher_repairs late s \<longleftrightarrow> (\<exists>s'. watcher late s s' \<and> rmq_watch s' = Waiting (con_conn (rmq_c s')) \<and>
     con_conn (rmq_c s') = length (db (rmq_w s)) \<and> db (rmq_w s') = db (rmq_w s) @ [Open])"

lemma watcher_dial_ok:
  assumes "rmq_watch s = InnerLoop" "\<not> con_closed (rmq_c s)" "fault (rmq_w s) (calls (rmq_w s)) = None"
  shows "watcher_repairs late s"
proof -
  let ?w = "(rmq_w s)\<lparr>calls := Suc (calls (rmq_w s)), db := db (rmq_w s) @ [Open]\<rparr>"
  let ?n = "length (db (rmq_w s))"
  let ?s2 = "s\<lparr>rmq_watch := OuterLoop, rmq_c := (rmq_c s)\<lparr>con_conn := ?n\<rparr>, rmq_w := ?w\<rparr>"
  have a: "watchReconnect late s = Some (s\<lparr>rmq_watch := Sleeping\<rparr>)"
    using assms by (simp add: watchReconnect.simps)
  have b: "watchReconnect late (s\<lparr>rmq_watch := Sleeping\<rparr>) = Some ?s2"
    using assms by (simp add: watchReconnect.simps connect_def amqp_Dial_def call_def outside_def)
  have c: "watchReconnect late ?s2 = Some (?s2\<lparr>rmq_watch := Holding ?n\<rparr>)"
    using assms by (simp add: watchReconnect.simps)
  have d: "watchReconnect late (?s2\<lparr>rmq_watch := Holding ?n\<rparr>) = Some (?s2\<lparr>rmq_watch := Waiting ?n\<rparr>)"
    by (simp add: watchReconnect.simps)
  have "watcher late s (?s2\<lparr>rmq_watch := Waiting ?n\<rparr>)"
    by (rule watcher_step [OF a], rule watcher_step [OF b], rule watcher_step [OF c], rule watcher_step [OF d]) simp
  then show ?thesis unfolding watcher_repairs_def by (intro exI conjI) (assumption | simp)+
qed

lemma watcher_dial_fails:
  assumes "rmq_watch s = InnerLoop" "\<not> con_closed (rmq_c s)" "fault (rmq_w s) (calls (rmq_w s)) = Some e"
    and "watcher_repairs late (s\<lparr>rmq_w := (rmq_w s)\<lparr>calls := Suc (calls (rmq_w s))\<rparr>\<rparr>)"
  shows "watcher_repairs late s"
proof -
  let ?s1 = "s\<lparr>rmq_w := (rmq_w s)\<lparr>calls := Suc (calls (rmq_w s))\<rparr>\<rparr>"
  have a: "watchReconnect late s = Some (s\<lparr>rmq_watch := Sleeping\<rparr>)"
    using assms by (simp add: watchReconnect.simps)
  have b: "watchReconnect late (s\<lparr>rmq_watch := Sleeping\<rparr>) = Some ?s1"
    using assms by (cases s) (simp add: watchReconnect.simps connect_def amqp_Dial_def call_def outside_def)
  show ?thesis
    using assms(4) watcher_step [OF a watcher_step [OF b]] unfolding watcher_repairs_def by auto
qed

lemma watcher_dials:
  assumes "rmq_watch s = InnerLoop" "\<not> con_closed (rmq_c s)"
    and "\<forall>j < k. fault (rmq_w s) (calls (rmq_w s) + j) \<noteq> None" "fault (rmq_w s) (calls (rmq_w s) + k) = None"
  shows "watcher_repairs late s"
  using assms
proof (induction k arbitrary: s)
  case 0
  then show ?case by (intro watcher_dial_ok) simp_all
next
  case (Suc k)
  obtain e where e: "fault (rmq_w s) (calls (rmq_w s)) = Some e" using Suc.prems(3) by force
  have "\<forall>j < k. fault (rmq_w s) (Suc (calls (rmq_w s)) + j) \<noteq> None"
    using Suc.prems(3) by (metis Suc_less_eq add_Suc add_Suc_right)
  then show ?case using Suc.prems e by (intro watcher_dial_fails [OF _ _ e] Suc.IH) simp_all
qed

lemma watcher_repairsE:
  assumes "watcher_repairs late s"
  obtains s' where "watcher late s s'" "rmq_watch s' = Waiting (con_conn (rmq_c s'))"
    "con_conn (rmq_c s') = length (db (rmq_w s))" "db (rmq_w s') = db (rmq_w s) @ [Open]"
  using assms unfolding watcher_repairs_def by blast

section \<open>Theorems\<close>

text \<open>
  C25. The connection does not leak. Whatever is lost, dialled and closed, at most one
  connection of the client library is open, and it is the one the publishers and subscribers
  get. When the watcher has returned, that connection is shut and nothing ever replaces it.
\<close>

theorem connection_single_link:
  assumes "rmq_start url w0 s0" "rmq_steps late s0 s"
  shows "(\<forall>i < length (db (rmq_w s)). db (rmq_w s) ! i = Open \<longrightarrow> i = con_conn (rmq_c s)) \<and>
    (\<forall>s'. rmq_watch s = WatchOver \<and> rmq_steps late s s' \<longrightarrow>
       con_conn (rmq_c s') = con_conn (rmq_c s) \<and> db (rmq_w s') ! con_conn (rmq_c s') \<noteq> Open)"
proof -
  have inv: "rmq_inv url s" using rmq_steps_inv [OF assms(2) rmq_start_inv [OF assms(1)]] .
  have "\<forall>i < length (db (rmq_w s)). db (rmq_w s) ! i = Open \<longrightarrow> i = con_conn (rmq_c s)"
    using inv by (auto simp: rmq_inv_def less_Suc_eq)
  then show ?thesis using rmq_downD [OF rmq_down_forever [OF _ rmq_inv_down [OF inv]]] by blast
qed


text \<open>
  \<^verbatim>\<open>Close\<close> does not stop the watcher. It never sets the flag the loops test: when it is
  called while the connection is down it returns an error, and the next successful dial
  leaves an open connection behind that nobody closes.
\<close>

theorem close_leaves_watcher:
  assumes "rmq_start url w0 s0" "rmq_steps late s0 s" "rmq_watch s = InnerLoop"
    and "Connection_Close (rmq_c s) (rmq_w s) = (r, w')" "fault w' (calls w') = None"
  shows "(\<exists>e. r = Inl e) \<and>
    (\<exists>s'. watcher late (s\<lparr>rmq_w := w'\<rparr>) s' \<and> db (rmq_w s') ! con_conn (rmq_c s') = Open)"
proof -
  have inv: "rmq_inv url s" using rmq_steps_inv [OF assms(2) rmq_start_inv [OF assms(1)]] .
  then have c: "r = Inl (WrapError ''rabbitmq: close connection: '' (AmqpError 504 ''channel/connection is not open''))" "w' = rmq_w s"
    using assms(3,4) by (auto simp: rmq_inv_def Connection_Close_def amqp_Close_def call_def)
  have "watcher_repairs late s" using assms(3,5) inv c(2) by (intro watcher_dial_ok) (simp_all add: rmq_inv_def)
  then show ?thesis
  proof (rule watcher_repairsE)
    fix s' assume "watcher late s s'" "con_conn (rmq_c s') = length (db (rmq_w s))" "db (rmq_w s') = db (rmq_w s) @ [Open]"
    then show ?thesis using c by (intro conjI exI [of _ s']) auto
  qed
qed

text \<open>
  A loss at the wrong moment ends reconnection. The client library tells a receiver that
  registers on a connection that is already shut nothing but nil; so when the new connection
  is lost before the watcher registers, the watcher takes that for an orderly close and
  returns: the service stays without a connection.
\<close>

theorem early_loss_not_repaired:
  assumes "rmq_start url w0 s0" "late (Some e) = None"
  shows "\<exists>s. rmq_steps late s0 s \<and> rmq_watch s = WatchOver \<and>
    (\<forall>s'. rmq_steps late s s' \<longrightarrow> db (rmq_w s') ! con_conn (rmq_c s') \<noteq> Open)"
proof -
  have s0: "rmq_watch s0 = OuterLoop" "con_conn (rmq_c s0) = 0" "db (rmq_w s0) = [Open]" "\<not> con_closed (rmq_c s0)"
    using assms(1) by (cases s0, auto simp: rmq_start_def NewConnection_def elim!: call_cases dest!: connect_cases)+
  let ?s1 = "s0\<lparr>rmq_watch := Holding 0\<rparr>"
  let ?s2 = "?s1\<lparr>rmq_w := (rmq_w s0)\<lparr>db := [Shut (Some e)]\<rparr>\<rparr>"
  let ?s4 = "?s2\<lparr>rmq_watch := WatchOver\<rparr>"
  have "rmq_step late s0 ?s1" using s0 by (intro rmq_step.rmq_watch) (simp add: watchReconnect.simps)
  moreover have "rmq_step late ?s1 ?s2" using rmq_step.rmq_lost [of 0 ?s1 late e] s0 by simp
  moreover have "rmq_steps late ?s2 ?s4"
  proof (rule watcher_steps)
    have a: "watchReconnect late ?s2 = Some (?s2\<lparr>rmq_watch := Received None\<rparr>)"
      and b: "watchReconnect late (?s2\<lparr>rmq_watch := Received None\<rparr>) = Some ?s4"
      using assms(2) by (simp_all add: watchReconnect.simps)
    show "watcher late ?s2 ?s4" by (rule watcher_step [OF a], rule watcher_step [OF b]) simp
  qed
  ultimately have r: "rmq_steps late s0 ?s4" by (meson converse_rtranclp_into_rtranclp)
  have "rmq_down 0 ?s4" using s0 by (simp add: rmq_down_def)
  then have "\<forall>s'. rmq_steps late ?s4 s' \<longrightarrow> db (rmq_w s') ! con_conn (rmq_c s') \<noteq> Open"
    using rmq_downD [OF rmq_down_forever] by blast
  then show ?thesis using r by (intro exI [of _ ?s4]) simp
qed

section \<open>Witnesses\<close>

text \<open>A connection whose first dial succeeds, whose second fails and whose further ones succeed.\<close>

definition sample_links_world :: "links world" where
  "sample_links_world = (quiet_world [])\<lparr>fault := (\<lambda>n. if n = 1 then Some ErrClosed else None)\<rparr>"

definition sample_rmq :: "watch \<Rightarrow> links \<Rightarrow> rmq" where
  "sample_rmq wt ls = \<lparr>rmq_c = \<lparr>con_url = ''amqp://mq'', con_conn = 0, con_closed = False\<rparr>, rmq_watch = wt,
     rmq_w = sample_links_world\<lparr>calls := 1, db := ls\<rparr>\<rparr>"

lemma sample_rmq_start: "rmq_start ''amqp://mq'' sample_links_world (sample_rmq OuterLoop [Open])"
  by (simp add: rmq_start_def NewConnection_def connect_def amqp_Dial_def call_def outside_def sample_rmq_def
      sample_links_world_def quiet_world_def)

lemma sample_rmq_lost: "rmq_steps late (sample_rmq OuterLoop [Open]) (sample_rmq (Waiting 0) [Shut (Some ErrClosed)])"
proof -
  have "rmq_step late (sample_rmq OuterLoop [Open]) (sample_rmq (Holding 0) [Open])"
    "rmq_step late (sample_rmq (Holding 0) [Open]) (sample_rmq (Waiting 0) [Open])"
    by (rule rmq_step.rmq_watch, simp add: watchReconnect.simps sample_rmq_def)+
  moreover have "rmq_step late (sample_rmq (Waiting 0) [Open]) (sample_rmq (Waiting 0) [Shut (Some ErrClosed)])"
    using rmq_step.rmq_lost [of 0 "sample_rmq (Waiting 0) [Open]" late ErrClosed] by (simp add: sample_rmq_def)
  ultimately show ?thesis by (meson converse_rtranclp_into_rtranclp r_into_rtranclp)
qed

lemma sample_rmq_inner:
  "watcher late (sample_rmq (Waiting 0) [Shut (Some ErrClosed)]) (sample_rmq InnerLoop [Shut (Some ErrClosed)])"
proof -
  have a: "watchReconnect late (sample_rmq (Waiting 0) [Shut (Some ErrClosed)]) =
      Some (sample_rmq (Received (Some ErrClosed)) [Shut (Some ErrClosed)])"
    and b: "watchReconnect late (sample_rmq (Received (Some ErrClosed)) [Shut (Some ErrClosed)]) =
      Some (sample_rmq InnerLoop [Shut (Some ErrClosed)])"
    by (simp_all add: watchReconnect.simps sample_rmq_def)
  show ?thesis by (rule watcher_step [OF a], rule watcher_step [OF b]) simp
qed

theorem connection_single_link_witness:
  "rmq_steps (\<lambda>_. None) (sample_rmq OuterLoop [Open]) (sample_rmq (Waiting 0) [Shut (Some ErrClosed)]) \<and>
   {i. i < length (db (rmq_w (sample_rmq (Waiting 0) [Shut (Some ErrClosed)]))) \<and>
       db (rmq_w (sample_rmq (Waiting 0) [Shut (Some ErrClosed)])) ! i = Open} \<subseteq> {con_conn (rmq_c (sample_rmq (Waiting 0) [Shut (Some ErrClosed)]))}"
  using conjunct1 [OF connection_single_link [OF sample_rmq_start sample_rmq_lost [of "\<lambda>_. None"]]] sample_rmq_lost by blast


theorem close_leaves_watcher_witness:
  "\<exists>s'. watcher (\<lambda>_. None) ((sample_rmq InnerLoop [Shut (Some ErrClosed)])\<lparr>rmq_w :=
       (rmq_w (sample_rmq InnerLoop [Shut (Some ErrClosed)]))\<lparr>calls := 2\<rparr>\<rparr>) s' \<and> db (rmq_w s') ! con_conn (rmq_c s') = Open"
proof -
  let ?s = "sample_rmq InnerLoop [Shut (Some ErrClosed)]"
  let ?s2 = "?s\<lparr>rmq_w := (rmq_w ?s)\<lparr>calls := 2\<rparr>\<rparr>"
  have a: "watchReconnect (\<lambda>_. None) ?s = Some (sample_rmq Sleeping [Shut (Some ErrClosed)])"
    by (simp add: watchReconnect.simps sample_rmq_def)
  have b: "watchReconnect (\<lambda>_. None) (sample_rmq Sleeping [Shut (Some ErrClosed)]) = Some ?s2"
    by (simp add: watchReconnect.simps sample_rmq_def connect_def amqp_Dial_def call_def outside_def
        sample_links_world_def quiet_world_def)
  have "watcher (\<lambda>_. None) (sample_rmq (Waiting 0) [Shut (Some ErrClosed)]) ?s2"
    using rtranclp_trans [OF sample_rmq_inner watcher_step [OF a watcher_step [OF b rtranclp.rtrancl_refl]]] .
  then have st: "rmq_steps (\<lambda>_. None) (sample_rmq OuterLoop [Open]) ?s2"
    using rtranclp_trans [OF sample_rmq_lost watcher_steps] by blast
  have k: "Connection_Close (rmq_c ?s2) (rmq_w ?s2) =
      (Inl (WrapError ''rabbitmq: close connection: '' (AmqpError 504 ''channel/connection is not open'')), rmq_w ?s2)"
    by (simp add: Connection_Close_def amqp_Close_def call_def sample_rmq_def)
  show ?thesis
    using close_leaves_watcher [OF sample_rmq_start st _ k]
    by (simp add: sample_rmq_def sample_links_world_def quiet_world_def)
qed

theorem early_loss_not_repaired_witness:
  "\<exists>s. rmq_steps (\<lambda>_. None) (sample_rmq OuterLoop [Open]) s \<and> rmq_watch s = WatchOver \<and>
    (\<forall>s'. rmq_steps (\<lambda>_. None) s s' \<longrightarrow> db (rmq_w s') ! con_conn (rmq_c s') \<noteq> Open)"
  using early_loss_not_repaired [OF sample_rmq_start, of "\<lambda>_. None" ErrClosed] by simp

end
