(* ===== verification/Consumers.thy ===== *)
theory Consumers
  imports Subscriber Connection "HOL-Library.Multiset"
begin

text \<open>
  The goroutines of a consumer (\<^verbatim>\<open>runWorker\<close> of \<^verbatim>\<open>pkg/rabbitmq/worker.go\<close>) as they share one
  channel of deliveries, and what a lost connection does to them. A worker's \<^verbatim>\<open>select\<close> takes any
  case that is ready; handling a delivery, from the handler's call to the settlement, is one step.
\<close>

section \<open>The worker loop\<close>

datatype worker = Selecting | Handling Delivery | Gone

datatype select_case = CtxDone | Msgs

record 'd consumers =
  co_msgs :: "Delivery list"
  co_shut :: bool
  co_cancelled :: bool
  co_workers :: "worker list"
  co_arrived :: "Delivery list"
  co_settled :: "(Delivery \<times> settlement) list"
  co_world :: "'d world"

definition runWorker ::
  "workerConfig \<Rightarrow> queueNames \<Rightarrow> 'd handler \<Rightarrow> select_case \<Rightarrow> nat \<Rightarrow> 'd consumers \<Rightarrow> 'd consumers option" where
  "runWorker cfg n handler ready i s =
     (case co_workers s ! i of
        Selecting \<Rightarrow>
          (case ready of
             CtxDone \<Rightarrow> if co_cancelled s then Some (s\<lparr>co_workers := (co_workers s)[i := Gone]\<rparr>) else None
           | Msgs \<Rightarrow>
               (case co_msgs s of
                  [] \<Rightarrow> if co_shut s then Some (s\<lparr>co_workers := (co_workers s)[i := Gone]\<rparr>) else None
                | msg # rest \<Rightarrow> Some (s\<lparr>co_msgs := rest, co_workers := (co_workers s)[i := Handling msg]\<rparr>)))
      | Handling msg \<Rightarrow>
          (case processMessage cfg n handler msg (co_world s) of
             (r, w') \<Rightarrow> Some (s\<lparr>co_workers := (co_workers s)[i := Selecting],
                               co_settled := co_settled s @ [(msg, r)], co_world := w'\<rparr>))
      | Gone \<Rightarrow> None)"

definition consumers_start :: "consumerGroup \<Rightarrow> 'd world \<Rightarrow> 'd consumers" where
  "consumers_start cg w = \<lparr>co_msgs = [], co_shut = False, co_cancelled = False,
     co_workers = replicate (nat (cg_workers cg)) Selecting, co_arrived = [], co_settled = [], co_world = w\<rparr>"

inductive worker_step :: "workerConfig \<Rightarrow> queueNames \<Rightarrow> 'd handler \<Rightarrow> 'd consumers \<Rightarrow> 'd consumers \<Rightarrow> bool"
  for cfg :: workerConfig and n :: queueNames and handler :: "'d handler" where
  worker_run: "i < length (co_workers s) \<Longrightarrow> runWorker cfg n handler ready i s = Some s' \<Longrightarrow> worker_step cfg n handler s s'"

text \<open>Besides, a delivery arrives while the channel is open, the channel is closed, or the context cancelled.\<close>

inductive consumers_step :: "workerConfig \<Rightarrow> queueNames \<Rightarrow> 'd handler \<Rightarrow> 'd consumers \<Rightarrow> 'd consumers \<Rightarrow> bool"
  for cfg :: workerConfig and n :: queueNames and handler :: "'d handler" where
  co_work: "worker_step cfg n handler s s' \<Longrightarrow> consumers_step cfg n handler s s'"
| co_arrive: "\<not> co_shut s \<Longrightarrow> consumers_step cfg n handler s (s\<lparr>co_msgs := co_msgs s @ [msg], co_arrived := co_arrived s @ [msg]\<rparr>)"
| co_close: "consumers_step cfg n handler s (s\<lparr>co_shut := True\<rparr>)"
| co_cancel: "consumers_step cfg n handler s (s\<lparr>co_cancelled := True\<rparr>)"

abbreviation worker_steps :: "workerConfig \<Rightarrow> queueNames \<Rightarrow> 'd handler \<Rightarrow> 'd consumers \<Rightarrow> 'd consumers \<Rightarrow> bool" where
  "worker_steps cfg n handler \<equiv> (worker_step cfg n handler)\<^sup>*\<^sup>*"

abbreviation consumers_steps :: "workerConfig \<Rightarrow> queueNames \<Rightarrow> 'd handler \<Rightarrow> 'd consumers \<Rightarrow> 'd consumers \<Rightarrow> bool" where
  "consumers_steps cfg n handler \<equiv> (consumers_step cfg n handler)\<^sup>*\<^sup>*"

lemma runWorker_cases:
  assumes "runWorker cfg n handler ready i s = Some s'"
  obtains (leave) "co_workers s ! i = Selecting" "co_cancelled s \<or> co_msgs s = [] \<and> co_shut s"
      "s' = s\<lparr>co_workers := (co_workers s)[i := Gone]\<rparr>"
    | (take_msg) msg rest where "co_workers s ! i = Selecting" "co_msgs s = msg # rest"
      "s' = s\<lparr>co_msgs := rest, co_workers := (co_workers s)[i := Handling msg]\<rparr>"
    | (settle) msg r w' where "co_workers s ! i = Handling msg" "processMessage cfg n handler msg (co_world s) = (r, w')"
      "s' = s\<lparr>co_workers := (co_workers s)[i := Selecting], co_settled := co_settled s @ [(msg, r)], co_world := w'\<rparr>"
  using assms
  by (auto simp: runWorker_def split: worker.splits select_case.splits list.splits if_splits prod.splits)

section \<open>Every delivery is settled once\<close>

fun in_hand :: "worker \<Rightarrow> Delivery multiset" where
  "in_hand (Handling msg) = {#msg#}"
| "in_hand _ = {#}"

definition in_hands :: "worker list \<Rightarrow> Delivery multiset" where
  "in_hands ws = sum_list (map in_hand ws)"

text \<open>The reference: one worker that handles the deliveries one after the other.\<close>

fun settle_all :: "workerConfig \<Rightarrow> queueNames \<Rightarrow> 'd handler \<Rightarrow> Delivery list \<Rightarrow> 'd world \<Rightarrow> settlement list \<times> 'd world" where
  "settle_all cfg n handler [] w = ([], w)"
| "settle_all cfg n handler (msg # msgs) w =
     (case processMessage cfg n handler msg w of (r, w1) \<Rightarrow>
        (case settle_all cfg n handler msgs w1 of (rs, w2) \<Rightarrow> (r # rs, w2)))"

lemma settle_all_snoc:
  "settle_all cfg n handler (ms @ [m]) w =
     (case settle_all cfg n handler ms w of (rs, w1) \<Rightarrow>
        (case processMessage cfg n handler m w1 of (r, w2) \<Rightarrow> (rs @ [r], w2)))"
  by (induction ms arbitrary: w) (simp_all split: prod.splits)

lemma in_hands_update:
  "i < length ws \<Longrightarrow> in_hands (ws[i := x]) + in_hand (ws ! i) = in_hands ws + in_hand x"
  by (induction ws arbitrary: i) (auto simp: in_hands_def nth_Cons add.assoc split: nat.splits)

definition consumers_inv ::
  "workerConfig \<Rightarrow> queueNames \<Rightarrow> 'd handler \<Rightarrow> 'd world \<Rightarrow> 'd consumers \<Rightarrow> bool" where
  "consumers_inv cfg n handler w s \<longleftrightarrow>
     mset (co_arrived s) = mset (map fst (co_settled s)) + in_hands (co_workers s) + mset (co_msgs s) \<and>
     settle_all cfg n handler (map fst (co_settled s)) w = (map snd (co_settled s), co_world s)"

lemma worker_step_inv:
  assumes "worker_step cfg n handler s s'" "consumers_inv cfg n handler w s"
  shows "consumers_inv cfg n handler w s'"
proof -
  obtain i ready where i: "i < length (co_workers s)" "runWorker cfg n handler ready i s = Some s'"
    using assms(1) by (cases rule: worker_step.cases)
  note u = in_hands_update [OF i(1)]
  from i(2) show ?thesis
  proof (cases rule: runWorker_cases)
    case leave
    then show ?thesis using assms(2) u [of Gone] by (simp add: consumers_inv_def)
  next
    case (take_msg msg rest)
    then show ?thesis using assms(2) u [of "Handling msg"] by (simp add: consumers_inv_def)
  next
    case (settle msg r w')
    then show ?thesis using assms(2) u [of Selecting] by (auto simp: consumers_inv_def settle_all_snoc)
  qed
qed

lemma consumers_step_inv:
  "consumers_step cfg n handler s s' \<Longrightarrow> consumers_inv cfg n handler w s \<Longrightarrow> consumers_inv cfg n handler w s'"
proof (induction rule: consumers_step.induct)
  case (co_work s s')
  then show ?case by (rule worker_step_inv)
qed (simp_all add: consumers_inv_def)

lemma consumers_start_inv: "consumers_inv cfg n handler w (consumers_start cg w)"
proof -
  have "in_hands (replicate k Selecting) = {#}" for k by (induction k) (simp_all add: in_hands_def)
  then show ?thesis by (simp add: consumers_inv_def consumers_start_def)
qed

lemma consumers_steps_inv:
  "consumers_steps cfg n handler (consumers_start cg w) s \<Longrightarrow> consumers_inv cfg n handler w s"
  by (induction rule: rtranclp_induct) (auto intro: consumers_step_inv consumers_start_inv)

section \<open>Stopping\<close>

fun worker_work :: "worker \<Rightarrow> nat" where
  "worker_work Selecting = 1"
| "worker_work (Handling msg) = 2"
| "worker_work Gone = 0"

definition consumers_work :: "'d consumers \<Rightarrow> nat" where
  "consumers_work s = 3 * length (co_msgs s) + sum_list (map worker_work (co_workers s))"

lemma worker_work_update:
  "i < length ws \<Longrightarrow> sum_list (map worker_work (ws[i := x])) + worker_work (ws ! i) = sum_list (map worker_work ws) + worker_work x"
  by (induction ws arbitrary: i) (auto simp: nth_Cons split: nat.splits)

lemma worker_step_work: "worker_step cfg n handler s s' \<Longrightarrow> consumers_work s' < consumers_work s"
proof (induction rule: worker_step.induct)
  case (worker_run i s ready s')
  note u = worker_work_update [OF worker_run(1)]
  from worker_run(2) show ?case
  proof (cases rule: runWorker_cases)
    case leave
    then show ?thesis using u [of Gone] by (simp add: consumers_work_def)
  next
    case (take_msg msg rest)
    then show ?thesis using u [of "Handling msg"] by (simp add: consumers_work_def)
  next
    case (settle msg r w')
    then show ?thesis using u [of Selecting] by (simp add: consumers_work_def)
  qed
qed

lemma worker_step_frame:
  "worker_step cfg n handler s s' \<Longrightarrow> co_cancelled s' = co_cancelled s \<and> co_shut s' = co_shut s \<and>
     co_arrived s' = co_arrived s \<and> length (co_workers s') = length (co_workers s)"
  by (induction rule: worker_step.induct) (erule runWorker_cases, simp_all)

definition all_gone :: "'d consumers \<Rightarrow> bool" where
  "all_gone s \<longleftrightarrow> (\<forall>x \<in> set (co_workers s). x = Gone)"

lemma worker_progress:
  assumes "co_cancelled s \<or> co_shut s" "\<not> all_gone s"
  shows "\<exists>s'. worker_step cfg n handler s s'"
proof -
  obtain i where i: "i < length (co_workers s)" "co_workers s ! i \<noteq> Gone"
    using assms(2) by (auto simp: all_gone_def in_set_conv_nth)
  have "\<exists>ready s'. runWorker cfg n handler ready i s = Some s'"
  proof (cases "co_workers s ! i")
    case Selecting
    then have "runWorker cfg n handler CtxDone i s \<noteq> None \<or> runWorker cfg n handler Msgs i s \<noteq> None"
      using assms(1) by (auto simp: runWorker_def split: list.splits)
    then show ?thesis by blast
  next
    case (Handling msg)
    then show ?thesis by (auto simp: runWorker_def split: prod.splits)
  qed (use i in simp)
  then show ?thesis using worker_run [OF i(1)] by blast
qed

lemma workers_finish:
  assumes "co_cancelled s \<or> co_shut s"
  shows "\<exists>s'. worker_steps cfg n handler s s' \<and> all_gone s'"
  using assms
proof (induction s rule: measure_induct_rule [of consumers_work])
  case (less s)
  show ?case
  proof (cases "all_gone s")
    case False
    then obtain s1 where s1: "worker_step cfg n handler s s1" using worker_progress [OF less.prems] by blast
    then have "co_cancelled s1 \<or> co_shut s1" using less.prems worker_step_frame by metis
    then show ?thesis using less.IH [OF worker_step_work [OF s1]] s1 by (meson converse_rtranclp_into_rtranclp)
  qed auto
qed

lemma no_infinite_work: "\<not> (\<forall>i. worker_step cfg n handler (f i) (f (Suc i)))"
proof
  assume "\<forall>i. worker_step cfg n handler (f i) (f (Suc i))"
  then have "\<forall>i. (f (Suc i), f i) \<in> measure consumers_work" using worker_step_work by simp blast
  then show False using wf_measure [of consumers_work] by (meson wf_iff_no_infinite_down_chain)
qed

section \<open>Consumers over a connection that is replaced\<close>

text \<open>
  The channel of a consumer belongs to the connection that was current when \<^verbatim>\<open>Subscribe\<close> was
  called. Deliveries arrive over it while that connection is open; when the connection is gone
  the client library closes the channel of deliveries.
\<close>

record 'd service =
  sv_rmq :: rmq
  sv_link :: nat
  sv_co :: "'d consumers"

inductive service_step ::
  "late_notice \<Rightarrow> workerConfig \<Rightarrow> queueNames \<Rightarrow> 'd handler \<Rightarrow> 'd service \<Rightarrow> 'd service \<Rightarrow> bool"
  for late :: late_notice and cfg :: workerConfig and n :: queueNames and handler :: "'d handler" where
  sv_connection: "rmq_step late (sv_rmq s) r \<Longrightarrow> service_step late cfg n handler s (s\<lparr>sv_rmq := r\<rparr>)"
| sv_worker: "worker_step cfg n handler (sv_co s) c \<Longrightarrow> service_step late cfg n handler s (s\<lparr>sv_co := c\<rparr>)"
| sv_arrive: "db (rmq_w (sv_rmq s)) ! sv_link s = Open \<Longrightarrow> \<not> co_shut (sv_co s) \<Longrightarrow>
    service_step late cfg n handler s
      (s\<lparr>sv_co := (sv_co s)\<lparr>co_msgs := co_msgs (sv_co s) @ [msg], co_arrived := co_arrived (sv_co s) @ [msg]\<rparr>\<rparr>)"
| sv_close: "db (rmq_w (sv_rmq s)) ! sv_link s \<noteq> Open \<Longrightarrow>
    service_step late cfg n handler s (s\<lparr>sv_co := (sv_co s)\<lparr>co_shut := True\<rparr>\<rparr>)"
| sv_cancel: "service_step late cfg n handler s (s\<lparr>sv_co := (sv_co s)\<lparr>co_cancelled := True\<rparr>\<rparr>)"

abbreviation service_steps ::
  "late_notice \<Rightarrow> workerConfig \<Rightarrow> queueNames \<Rightarrow> 'd handler \<Rightarrow> 'd service \<Rightarrow> 'd service \<Rightarrow> bool" where
  "service_steps late cfg n handler \<equiv> (service_step late cfg n handler)\<^sup>*\<^sup>*"

definition link_gone :: "nat \<Rightarrow> rmq \<Rightarrow> bool" where
  "link_gone i r \<longleftrightarrow> i < length (db (rmq_w r)) \<and> db (rmq_w r) ! i \<noteq> Open"

lemma link_gone_stays:
  assumes "rmq_step late r r'" "link_gone i r"
  shows "link_gone i r'"
  using assms
proof (induction rule: rmq_step.induct)
  case (rmq_watch s s')
  obtain x w where x: "connect (rmq_c s) (rmq_w s) = (x, w)" by fastforce
  show ?case
    using rmq_watch connect_cases [OF x] x
    by (auto simp: watchReconnect.simps link_gone_def nth_append split: watch.splits link.splits if_splits sum.splits)
next
  case (rmq_lost j s e)
  then show ?case by (auto simp: link_gone_def dest!: shut_not_open)
next
  case (rmq_close s x w')
  then show ?case using Connection_Close_links [OF rmq_close(1)] by (auto simp: link_gone_def dest!: shut_not_open)
qed

lemma link_gone_service:
  assumes "service_step late cfg n handler s s'" "link_gone (sv_link s) (sv_rmq s)"
  shows "link_gone (sv_link s') (sv_rmq s') \<and> co_arrived (sv_co s') = co_arrived (sv_co s)"
  using assms
proof (induction rule: service_step.induct)
  case (sv_connection s r)
  then show ?case by (simp add: link_gone_stays)
next
  case (sv_worker s c)
  then show ?case using worker_step_frame [OF sv_worker(1)] by simp
qed (simp_all add: link_gone_def)

lemma link_gone_services:
  "service_steps late cfg n handler s s' \<Longrightarrow> link_gone (sv_link s) (sv_rmq s) \<Longrightarrow>
   link_gone (sv_link s') (sv_rmq s') \<and> co_arrived (sv_co s') = co_arrived (sv_co s)"
  by (induction rule: rtranclp_induct) (auto dest: link_gone_service)

lemma service_workers:
  "worker_steps cfg n handler (sv_co s) c \<Longrightarrow> service_steps late cfg n handler s (s\<lparr>sv_co := c\<rparr>)"
proof (induction rule: rtranclp_induct)
  case base
  then show ?case by (cases s) simp
next
  case (step c1 c2)
  then have "service_step late cfg n handler (s\<lparr>sv_co := c1\<rparr>) (s\<lparr>sv_co := c1\<rparr>\<lparr>sv_co := c2\<rparr>)"
    by (intro service_step.sv_worker) simp
  then show ?case using step(3) by simp
qed

lemma service_connection:
  "rmq_steps late (sv_rmq s) r \<Longrightarrow> service_steps late cfg n handler s (s\<lparr>sv_rmq := r\<rparr>)"
proof (induction rule: rtranclp_induct)
  case base
  then show ?case by (cases s) simp
next
  case (step r1 r2)
  then have "service_step late cfg n handler (s\<lparr>sv_rmq := r1\<rparr>) (s\<lparr>sv_rmq := r1\<rparr>\<lparr>sv_rmq := r2\<rparr>)"
    by (intro service_step.sv_connection) simp
  then show ?case using step(3) by simp
qed

section \<open>Theorems\<close>


text \<open>
  Cancelling stops the workers, and so does the end of the channel. The workers alone
  cannot run for ever; once the context is cancelled or the channel closed they can all
  return, whatever they were doing, which is what the wait in \<^verbatim>\<open>close\<close> waits for; and there is
  at least one worker, whatever the configuration says.
\<close>

theorem workers_stop:
  assumes "startWorkers names cfg w0 = (Inr cg, w)" "consumers_steps cfg n handler (consumers_start cg w) s"
  shows "0 < length (co_workers s) \<and> \<not> (\<forall>i. worker_step cfg n handler (f i) (f (Suc i))) \<and>
    (co_cancelled s \<or> co_shut s \<longrightarrow>
       (\<exists>s'. worker_steps cfg n handler s s' \<and> all_gone s') \<and>
       (\<forall>s'. worker_steps cfg n handler s s' \<and> (\<forall>s''. \<not> worker_step cfg n handler s' s'') \<longrightarrow> all_gone s'))"
proof -
  have "0 < nat (cg_workers cg)"
    using assms(1) by (auto simp: startWorkers_def Let_def elim!: call_cases split: if_splits)
  then have start: "0 < length (co_workers (consumers_start cg w))" by (simp add: consumers_start_def)
  have "length (co_workers s) = length (co_workers (consumers_start cg w))"
    using assms(2)
  proof (induction rule: rtranclp_induct)
    case (step s1 s2)
    from step(2) show ?case using step(3) by (cases rule: consumers_step.cases) (auto dest: worker_step_frame)
  qed simp
  moreover have "worker_steps cfg n handler s s' \<Longrightarrow> (co_cancelled s' \<longleftrightarrow> co_cancelled s) \<and> (co_shut s' \<longleftrightarrow> co_shut s)" for s'
    by (induction rule: rtranclp_induct) (auto dest: worker_step_frame)
  ultimately show ?thesis
    using start no_infinite_work [of cfg n handler f] workers_finish [of s cfg n handler] worker_progress by metis
qed

text \<open>
  C40. A connection that is replaced does not bring its consumers back. When the connection of
  a consumer is gone no delivery ever reaches its workers again, although the watcher gives the
  service a new connection: the workers return and nothing subscribes again.
\<close>

theorem reconnect_does_not_resume_consuming:
  assumes "rmq_start url w0 r0" "rmq_steps late r0 (sv_rmq s)"
    and "rmq_watch (sv_rmq s) = Waiting (sv_link s)" "db (rmq_w (sv_rmq s)) ! sv_link s = Shut (Some e)"
    and "\<forall>j < k. fault (rmq_w (sv_rmq s)) (calls (rmq_w (sv_rmq s)) + j) \<noteq> None"
    and "fault (rmq_w (sv_rmq s)) (calls (rmq_w (sv_rmq s)) + k) = None"
  shows "(\<forall>s'. service_steps late cfg n handler s s' \<longrightarrow> co_arrived (sv_co s') = co_arrived (sv_co s)) \<and>
    (\<exists>s'. service_steps late cfg n handler s s' \<and> all_gone (sv_co s') \<and>
       db (rmq_w (sv_rmq s')) ! con_conn (rmq_c (sv_rmq s')) = Open)"
proof -
  have inv: "rmq_inv url (sv_rmq s)" using rmq_steps_inv [OF assms(2) rmq_start_inv [OF assms(1)]] .
  then have gone: "link_gone (sv_link s) (sv_rmq s)" using assms(3,4) by (simp add: link_gone_def rmq_inv_def)
  let ?r1 = "(sv_rmq s)\<lparr>rmq_watch := Received (Some e)\<rparr>"
  let ?r2 = "(sv_rmq s)\<lparr>rmq_watch := InnerLoop\<rparr>"
  have a: "watchReconnect late (sv_rmq s) = Some ?r1" and b: "watchReconnect late ?r1 = Some ?r2"
    using assms(3,4) inv by (simp_all add: watchReconnect.simps rmq_inv_def)
  have "watcher_repairs late ?r2" using inv assms(5,6) by (intro watcher_dials [of _ k]) (simp_all add: rmq_inv_def)
  then obtain r where "watcher late ?r2 r" and r: "con_conn (rmq_c r) = length (db (rmq_w ?r2))" "db (rmq_w r) = db (rmq_w ?r2) @ [Open]"
    by (rule watcher_repairsE)
  then have "rmq_steps late (sv_rmq s) r" using watcher_steps watcher_step [OF a watcher_step [OF b]] by blast
  then have s1: "service_steps late cfg n handler s (s\<lparr>sv_rmq := r\<rparr>)" by (rule service_connection)
  let ?s1 = "s\<lparr>sv_rmq := r\<rparr>"
  let ?s2 = "?s1\<lparr>sv_co := (sv_co s)\<lparr>co_shut := True\<rparr>\<rparr>"
  have "link_gone (sv_link s) r" using link_gone_services [OF s1 gone] by simp
  then have s2: "service_step late cfg n handler ?s1 ?s2"
    using service_step.sv_close [of ?s1 late cfg n handler] by (simp add: link_gone_def)
  obtain c where "worker_steps cfg n handler (sv_co ?s2) c" and c: "all_gone c"
    using workers_finish [of "sv_co ?s2" cfg n handler] by auto
  then have "service_steps late cfg n handler ?s2 (?s2\<lparr>sv_co := c\<rparr>)" using service_workers by blast
  then have "service_steps late cfg n handler s (?s2\<lparr>sv_co := c\<rparr>)"
    using rtranclp_trans [OF rtranclp.rtrancl_into_rtrancl [OF s1 s2]] by blast
  moreover have "all_gone (sv_co (?s2\<lparr>sv_co := c\<rparr>))"
    "db (rmq_w (sv_rmq (?s2\<lparr>sv_co := c\<rparr>))) ! con_conn (rmq_c (sv_rmq (?s2\<lparr>sv_co := c\<rparr>))) = Open" using c r by simp_all
  moreover have "\<forall>s'. service_steps late cfg n handler s s' \<longrightarrow> co_arrived (sv_co s') = co_arrived (sv_co s)"
    using link_gone_services [OF _ gone] by blast
  ultimately show ?thesis by blast
qed

section \<open>Witnesses\<close>

definition sample_worker_cfg :: workerConfig where
  "sample_worker_cfg = \<lparr>maxRetry = 3, workers = 0, prefetchCount = 0, handlerTimeout = 0\<rparr>"

definition sample_group :: consumerGroup where
  "sample_group = \<lparr>cg_queue = ''notification.queue'', cg_tag = nat_to_string 0, cg_workers = 1, cg_prefetch = 10, cg_timeout = 30000000000\<rparr>"

definition sample_consumers_world :: "unit world" where
  "sample_consumers_world = (quiet_world ())\<lparr>calls := 3, uuids := 1\<rparr>"

abbreviation accept_all :: "unit handler" where
  "accept_all \<equiv> \<lambda>_ w. (HandlerNil, w)"

definition consumed_delivery :: Delivery where
  "consumed_delivery = \<lparr>del_MessageId = ''m'', del_Body = ''b'', del_Headers = None, del_Timestamp = 5\<rparr>"

lemma sample_startWorkers:
  "startWorkers (buildNames ''notification'' ''notification'') sample_worker_cfg (quiet_world ()) =
     (Inr sample_group, sample_consumers_world)"
  by (simp add: startWorkers_def buildNames_def sample_worker_cfg_def sample_group_def sample_consumers_world_def
      conn_channel_def call_def outside_def uuid_NewString_def quiet_world_def)

definition sample_consumers :: "worker \<Rightarrow> Delivery list \<Rightarrow> (Delivery \<times> settlement) list \<Rightarrow> bool \<Rightarrow> unit consumers" where
  "sample_consumers wk ms st c = \<lparr>co_msgs = ms, co_shut = False, co_cancelled = c, co_workers = [wk],
     co_arrived = [consumed_delivery], co_settled = st, co_world = sample_consumers_world\<rparr>"

lemma sample_consumers_run:
  "consumers_steps sample_worker_cfg n accept_all (consumers_start sample_group sample_consumers_world)
     (sample_consumers Selecting [] [(consumed_delivery, Ack)] True)"
proof -
  let ?step = "consumers_step sample_worker_cfg n accept_all"
  have "?step (consumers_start sample_group sample_consumers_world) (sample_consumers Selecting [consumed_delivery] [] False)"
    using consumers_step.co_arrive [of "consumers_start sample_group sample_consumers_world" sample_worker_cfg n accept_all consumed_delivery]
    by (simp add: consumers_start_def sample_consumers_def sample_group_def)
  moreover have "?step (sample_consumers Selecting [consumed_delivery] [] False) (sample_consumers (Handling consumed_delivery) [] [] False)"
    by (intro consumers_step.co_work worker_run [of 0 _ _ _ _ Msgs]) (simp_all add: sample_consumers_def runWorker_def)
  moreover have "?step (sample_consumers (Handling consumed_delivery) [] [] False) (sample_consumers Selecting [] [(consumed_delivery, Ack)] False)"
    by (intro consumers_step.co_work worker_run [of 0 _ _ _ _ Msgs])
      (simp_all add: sample_consumers_def runWorker_def processMessage_def)
  moreover have "?step (sample_consumers Selecting [] [(consumed_delivery, Ack)] False) (sample_consumers Selecting [] [(consumed_delivery, Ack)] True)"
    using consumers_step.co_cancel [of sample_worker_cfg n accept_all "sample_consumers Selecting [] [(consumed_delivery, Ack)] False"]
    by (simp add: sample_consumers_def)
  ultimately show ?thesis by (meson converse_rtranclp_into_rtranclp rtranclp.rtrancl_refl)
qed


theorem workers_stop_witness:
  "\<exists>s'. worker_steps sample_worker_cfg (buildNames ''n'' ''n'') accept_all
     (sample_consumers Selecting [] [(consumed_delivery, Ack)] True) s' \<and> all_gone s'"
proof -
  have c: "co_cancelled (sample_consumers Selecting [] [(consumed_delivery, Ack)] True)" by (simp add: sample_consumers_def)
  show ?thesis using workers_stop [OF sample_startWorkers sample_consumers_run [of "buildNames ''n'' ''n''"]] c by blast
qed

theorem reconnect_does_not_resume_consuming_witness:
  "\<exists>s'. service_steps (\<lambda>_. None) sample_worker_cfg (buildNames ''n'' ''n'') accept_all
     \<lparr>sv_rmq = sample_rmq (Waiting 0) [Shut (Some ErrClosed)], sv_link = 0, sv_co = sample_consumers Selecting [] [] False\<rparr> s' \<and>
     all_gone (sv_co s') \<and> db (rmq_w (sv_rmq s')) ! con_conn (rmq_c (sv_rmq s')) = Open"
  using reconnect_does_not_resume_consuming [OF sample_rmq_start, of "\<lambda>_. None"
      "\<lparr>sv_rmq = sample_rmq (Waiting 0) [Shut (Some ErrClosed)], sv_link = 0, sv_co = sample_consumers Selecting [] [] False\<rparr>"
      ErrClosed 1 sample_worker_cfg "buildNames ''n'' ''n''" accept_all] sample_rmq_lost [of "\<lambda>_. None"]
  by (simp add: sample_rmq_def sample_links_world_def)

end
