(* ===== verification/GrpcTls.thy ===== *)
theory GrpcTls
  imports World
begin

text \<open>
  \<^verbatim>\<open>pkg/grpc/server.go\<close> and \<^verbatim>\<open>pkg/grpc/client.go\<close>: the options a gRPC server and a client are
  created with, and the loading of their TLS credentials. Files, PEM and X.509 decoding are
  the argument \<open>tls_lib\<close>. The server value of the library is the list of options it was built
  from, a client connection its address and options.
\<close>

section \<open>Files and certificates\<close>

record x509_Certificate =
  NotBefore :: int
  NotAfter :: int

record tls_lib =
  os_Stat :: "string \<Rightarrow> go_error option"
  os_IsNotExist :: "go_error \<Rightarrow> bool"
  LoadX509KeyPair :: "string \<Rightarrow> string \<Rightarrow> go_error + string list"
  ParseCertificate :: "string \<Rightarrow> go_error + x509_Certificate"
  os_ReadFile :: "string \<Rightarrow> go_error + string"
  AppendCertsFromPEM :: "string \<Rightarrow> bool"

datatype tls_Config =
    ServerTLS (tls_Certificates: "string list") (tls_MinVersion: string)
  | ClientTLS (tls_ServerName: string) (tls_InsecureSkipVerify: bool) (tls_RootCAs: "string option")

section \<open>The server\<close>

record grpc_Config =
  gc_Port :: int
  gc_NetworkType :: string
  gc_ShutDownCtxTimeout :: int
  gc_TLSEnabled :: bool
  gc_TLSCertPath :: string
  gc_TLSKeyPath :: string

datatype ServerOption =
    ChainUnaryInterceptor
  | ChainStreamInterceptor
  | Creds tls_Config
  | KeepaliveParams int int int int
  | KeepaliveEnforcementPolicy int bool

record RPCServer =
  rpc_Config :: "grpc_Config option"
  rpc_Server :: "ServerOption list option"

abbreviation second :: int where
  "second \<equiv> 1000000000"

abbreviation minute :: int where
  "minute \<equiv> 60 * second"

definition tls_failure :: "string \<Rightarrow> string \<Rightarrow> go_error option \<Rightarrow> go_error" where
  "tls_failure op msg err = Rich (WithKind KindInternal (WithMessage msg (WithWrapper err (New op))))"

definition file_missing :: "tls_lib \<Rightarrow> string \<Rightarrow> bool" where
  "file_missing L path = (case os_Stat L path of None \<Rightarrow> False | Some err \<Rightarrow> os_IsNotExist L err)"

definition loadServerTLSCredentials :: "tls_lib \<Rightarrow> grpc_Config \<Rightarrow> ('d, tls_Config) wprog" where
  "loadServerTLSCredentials L cfg =
     (let op = ''grpc.loadServerTLSCredentials'' in
      if gc_TLSCertPath cfg = [] \<or> gc_TLSKeyPath cfg = []
      then fail (Rich (WithKind KindInternal (WithMessage ''TLS enabled but certificate or key path not provided'' (New op))))
      else if file_missing L (gc_TLSCertPath cfg)
      then fail (tls_failure op ''certificate file not found'' (os_Stat L (gc_TLSCertPath cfg)))
      else if file_missing L (gc_TLSKeyPath cfg)
      then fail (tls_failure op ''key file not found'' (os_Stat L (gc_TLSKeyPath cfg)))
      else case LoadX509KeyPair L (gc_TLSCertPath cfg) (gc_TLSKeyPath cfg) of
        Inl err \<Rightarrow> fail (tls_failure op ''failed to load key pair'' (Some err))
      | Inr [] \<Rightarrow> fail (Rich (WithKind KindInternal (WithMessage ''certificate chain is empty'' (New op))))
      | Inr (leaf # chain) \<Rightarrow>
          (case ParseCertificate L leaf of
             Inl err \<Rightarrow> fail (tls_failure op ''failed to parse certificate'' (Some err))
           | Inr cert \<Rightarrow>
               call time_Now fail (\<lambda>now.
               if now < NotBefore cert
               then fail (Rich (WithKind KindInternal (WithMessage ''certificate not yet valid'' (New op))))
               else if NotAfter cert < now
               then fail (Rich (WithKind KindInternal (WithMessage ''certificate has expired'' (New op))))
               else ret (ServerTLS (leaf # chain) ''TLS12''))))"

definition grpc_New :: "tls_lib \<Rightarrow> grpc_Config \<Rightarrow> ('d, RPCServer) wprog" where
  "grpc_New L cfg =
     (let interceptors = [ChainUnaryInterceptor, ChainStreamInterceptor];
          keepalive = [KeepaliveParams (15 * minute) (30 * minute) (5 * minute) (1 * minute),
                       KeepaliveEnforcementPolicy (20 * second) True];
          done = (\<lambda>opts. ret \<lparr>rpc_Config = Some cfg, rpc_Server = Some opts\<rparr>) in
      if gc_TLSEnabled cfg
      then call (loadServerTLSCredentials L cfg)
             (\<lambda>err. fail (tls_failure ''grpc.New'' ''failed to load TLS credentials'' (Some err)))
             (\<lambda>creeds. done (interceptors @ [Creds creeds] @ keepalive))
      else done (interceptors @ keepalive))"

text \<open>
  \<^verbatim>\<open>Serve\<close> and \<^verbatim>\<open>Stop\<close> of \<^verbatim>\<open>internal/auth/delivery/grpc/server.go\<close>. \<^verbatim>\<open>net.Listen\<close> refuses a network it
  does not know; a method of a nil server panics, which is \<open>None\<close>.
\<close>

definition grpc_Serve :: "RPCServer \<Rightarrow> ('d, unit) wprog" where
  "grpc_Serve s =
     (let network = (case rpc_Config s of None \<Rightarrow> [] | Some cfg \<Rightarrow> gc_NetworkType cfg) in
      if network \<notin> {''tcp'', ''tcp4'', ''tcp6'', ''unix'', ''unixpacket''}
      then fail (ErrorString (''listen '' @ network @ '': unknown network '' @ network))
      else call outside fail (\<lambda>listener. call outside fail ret))"

definition RPCServer_Stop :: "RPCServer \<Rightarrow> unit option" where
  "RPCServer_Stop s = (case rpc_Server s of None \<Rightarrow> None | Some server \<Rightarrow> Some ())"

section \<open>The client\<close>

record grpc_Client =
  cl_Host :: string
  cl_Port :: int
  cl_TLSEnabled :: bool
  cl_TLSCertPath :: string
  cl_InsecureSkipVerify :: bool

datatype DialOption =
    WithChainUnaryInterceptor
  | WithChainStreamInterceptor
  | WithTLS tls_Config
  | WithInsecure
  | WithKeepaliveParams int int bool

definition loadTLSCredentials :: "tls_lib \<Rightarrow> grpc_Client \<Rightarrow> ('d, tls_Config) wprog" where
  "loadTLSCredentials L cfg =
     (let op = ''grpc.loadTLSCredentials'' in
      if cl_TLSCertPath cfg = [] then ret (ClientTLS (cl_Host cfg) (cl_InsecureSkipVerify cfg) None)
      else case os_ReadFile L (cl_TLSCertPath cfg) of
        Inl err \<Rightarrow> fail (tls_failure op ''failed to read CA certificate'' (Some err))
      | Inr caCert \<Rightarrow>
          if \<not> AppendCertsFromPEM L caCert
          then fail (Rich (WithKind KindInternal (WithMessage ''failed to add CA certificate to pool'' (New op))))
          else ret (ClientTLS (cl_Host cfg) (cl_InsecureSkipVerify cfg) (Some caCert)))"

definition grpc_NewClient :: "tls_lib \<Rightarrow> grpc_Client \<Rightarrow> ('d, string \<times> DialOption list) wprog" where
  "grpc_NewClient L cfg =
     (let op = ''grpc.NewConnection'';
          address = cl_Host cfg @ '':'' @ int_to_string (cl_Port cfg);
          interceptors = [WithChainUnaryInterceptor, WithChainStreamInterceptor];
          dial = (\<lambda>creds. call outside
            (\<lambda>err. fail (tls_failure op ''failed to create gRPC client'' (Some err)))
            (\<lambda>_. ret (address, interceptors @ [creds] @ [WithKeepaliveParams (10 * second) (2 * second) True]))) in
      if cl_TLSEnabled cfg
      then call (loadTLSCredentials L cfg)
             (\<lambda>err. fail (tls_failure op ''failed to load TLS credentials'' (Some err)))
             (\<lambda>creeds. dial (WithTLS creeds))
      else dial WithInsecure)"

section \<open>What the credentials are\<close>

lemma tls_failure_kind: "is_kind KindInternal (tls_failure op msg err)"
  by (simp add: tls_failure_def)

lemma server_tls_Inr:
  assumes "loadServerTLSCredentials L cfg w = (Inr c, w')"
  shows "\<exists>leaf chain cert. LoadX509KeyPair L (gc_TLSCertPath cfg) (gc_TLSKeyPath cfg) = Inr (leaf # chain) \<and>
    ParseCertificate L leaf = Inr cert \<and> NotBefore cert \<le> clock w \<and> clock w \<le> NotAfter cert \<and>
    c = ServerTLS (leaf # chain) ''TLS12'' \<and> w' = w"
  using assms
  by (auto simp: loadServerTLSCredentials_def Let_def time_Now_def call_def
      split: if_splits sum.splits list.splits)

lemma server_tls_ok:
  assumes "gc_TLSCertPath cfg \<noteq> []" "gc_TLSKeyPath cfg \<noteq> []"
    and "\<not> file_missing L (gc_TLSCertPath cfg)" "\<not> file_missing L (gc_TLSKeyPath cfg)"
    and "LoadX509KeyPair L (gc_TLSCertPath cfg) (gc_TLSKeyPath cfg) = Inr (leaf # chain)"
    and "ParseCertificate L leaf = Inr cert" "NotBefore cert \<le> clock w" "clock w \<le> NotAfter cert"
  shows "loadServerTLSCredentials L cfg w = (Inr (ServerTLS (leaf # chain) ''TLS12''), w)"
  using assms by (simp add: loadServerTLSCredentials_def Let_def time_Now_def call_def)

section \<open>Theorems\<close>

text \<open>
  A server that is asked for TLS never runs without it. It is created only with a
  certificate that is valid at that moment and with TLS 1.2 at least, otherwise creation fails
  with an internal error; and without the setting it has no credentials. It is created
  whenever the files are there and hold such a certificate.
\<close>

theorem grpc_server_tls:
  "(grpc_New L cfg w = (Inr s, w') \<longrightarrow>
      (\<exists>opts. rpc_Server s = Some opts \<and> ChainUnaryInterceptor \<in> set opts \<and> ChainStreamInterceptor \<in> set opts \<and>
        (if gc_TLSEnabled cfg
         then \<exists>leaf chain cert. Creds (ServerTLS (leaf # chain) ''TLS12'') \<in> set opts \<and> ParseCertificate L leaf = Inr cert \<and>
           NotBefore cert \<le> clock w \<and> clock w \<le> NotAfter cert
         else \<forall>c. Creds c \<notin> set opts))) \<and>
   (grpc_New L cfg w = (Inl e, w') \<longrightarrow> gc_TLSEnabled cfg \<and> is_kind KindInternal e) \<and>
   (gc_TLSCertPath cfg \<noteq> [] \<and> gc_TLSKeyPath cfg \<noteq> [] \<and>
    \<not> file_missing L (gc_TLSCertPath cfg) \<and> \<not> file_missing L (gc_TLSKeyPath cfg) \<and>
    LoadX509KeyPair L (gc_TLSCertPath cfg) (gc_TLSKeyPath cfg) = Inr (leaf # chain) \<and>
    ParseCertificate L leaf = Inr cert \<and> NotBefore cert \<le> clock w \<and> clock w \<le> NotAfter cert \<longrightarrow>
    (\<exists>s. grpc_New L cfg w = (Inr s, w)))"
proof (intro conjI impI)
  assume "grpc_New L cfg w = (Inr s, w')"
  then show "\<exists>opts. rpc_Server s = Some opts \<and> ChainUnaryInterceptor \<in> set opts \<and> ChainStreamInterceptor \<in> set opts \<and>
        (if gc_TLSEnabled cfg
         then \<exists>leaf chain cert. Creds (ServerTLS (leaf # chain) ''TLS12'') \<in> set opts \<and> ParseCertificate L leaf = Inr cert \<and>
           NotBefore cert \<le> clock w \<and> clock w \<le> NotAfter cert
         else \<forall>c. Creds c \<notin> set opts)"
    by (auto simp: grpc_New_def Let_def split: if_splits elim!: call_cases dest!: server_tls_Inr)
next
  assume "grpc_New L cfg w = (Inl e, w')"
  then show "gc_TLSEnabled cfg" "is_kind KindInternal e"
    by (auto simp: grpc_New_def Let_def tls_failure_kind split: if_splits elim!: call_cases)
next
  assume "gc_TLSCertPath cfg \<noteq> [] \<and> gc_TLSKeyPath cfg \<noteq> [] \<and>
    \<not> file_missing L (gc_TLSCertPath cfg) \<and> \<not> file_missing L (gc_TLSKeyPath cfg) \<and>
    LoadX509KeyPair L (gc_TLSCertPath cfg) (gc_TLSKeyPath cfg) = Inr (leaf # chain) \<and>
    ParseCertificate L leaf = Inr cert \<and> NotBefore cert \<le> clock w \<and> clock w \<le> NotAfter cert"
  then show "\<exists>s. grpc_New L cfg w = (Inr s, w)"
    by (simp add: grpc_New_def Let_def call_def server_tls_ok)
qed

text \<open>
  A client with TLS names the host it dials as the server it expects and trusts the
  configured authority; it dials without TLS only when TLS is off.
\<close>

theorem grpc_client_credentials:
  assumes "grpc_NewClient L cfg w = (Inr (addr, opts), w')"
  shows "(WithInsecure \<in> set opts \<longleftrightarrow> \<not> cl_TLSEnabled cfg) \<and>
    (\<forall>c. WithTLS c \<in> set opts \<longrightarrow> tls_ServerName c = cl_Host cfg \<and> tls_InsecureSkipVerify c = cl_InsecureSkipVerify cfg \<and>
       (cl_TLSCertPath cfg \<noteq> [] \<longrightarrow> (\<exists>pem. os_ReadFile L (cl_TLSCertPath cfg) = Inr pem \<and> tls_RootCAs c = Some pem)))"
  using assms
  by (auto simp: grpc_NewClient_def loadTLSCredentials_def Let_def split: if_splits sum.splits elim!: call_cases)

text \<open>
  Every client of this repository pings twice as often as its servers permit.
\<close>

theorem client_pings_too_often:
  assumes "grpc_NewClient L ccfg w = (Inr (addr, copts), w')" "grpc_New L scfg v = (Inr s, v')" "rpc_Server s = Some sopts"
  shows "\<exists>t u p m q. WithKeepaliveParams t u p \<in> set copts \<and> KeepaliveEnforcementPolicy m q \<in> set sopts \<and> 2 * t = m"
proof -
  have "WithKeepaliveParams (10 * second) (2 * second) True \<in> set copts"
    using assms(1) by (auto simp: grpc_NewClient_def Let_def split: if_splits elim!: call_cases)
  moreover have "KeepaliveEnforcementPolicy (20 * second) True \<in> set sopts"
    using assms(2,3) by (auto simp: grpc_New_def Let_def split: if_splits elim!: call_cases)
  ultimately show ?thesis by fastforce
qed

section \<open>Witnesses\<close>

definition sample_tls :: tls_lib where
  "sample_tls = \<lparr>os_Stat = (\<lambda>_. None), os_IsNotExist = (\<lambda>_. True), LoadX509KeyPair = (\<lambda>_ _. Inr [''leaf'']),
     ParseCertificate = (\<lambda>_. Inr \<lparr>NotBefore = 500, NotAfter = 2000\<rparr>), os_ReadFile = (\<lambda>_. Inr ''pem''),
     AppendCertsFromPEM = (\<lambda>_. True)\<rparr>"

definition sample_grpc_config :: grpc_Config where
  "sample_grpc_config = \<lparr>gc_Port = 9000, gc_NetworkType = ''tcp'', gc_ShutDownCtxTimeout = 5, gc_TLSEnabled = True,
     gc_TLSCertPath = ''crt'', gc_TLSKeyPath = ''key''\<rparr>"

theorem grpc_server_tls_witness:
  "\<exists>s opts. grpc_New sample_tls sample_grpc_config (quiet_world ()) = (Inr s, quiet_world ()) \<and> rpc_Server s = Some opts \<and>
     (\<exists>chain. Creds (ServerTLS chain ''TLS12'') \<in> set opts)"
proof -
  have "\<exists>s. grpc_New sample_tls sample_grpc_config (quiet_world ()) = (Inr s, quiet_world ())"
    using grpc_server_tls [of sample_tls sample_grpc_config "quiet_world ()" undefined "quiet_world ()" undefined "''leaf''" "[]"
        "\<lparr>NotBefore = 500, NotAfter = 2000\<rparr>"]
    by (simp add: sample_tls_def sample_grpc_config_def file_missing_def)
  then obtain s where s: "grpc_New sample_tls sample_grpc_config (quiet_world ()) = (Inr s, quiet_world ())" ..
  show ?thesis
    using grpc_server_tls [of sample_tls sample_grpc_config "quiet_world ()" s "quiet_world ()"] s
    by (auto simp: sample_grpc_config_def)
qed

theorem grpc_client_credentials_witness:
  "\<exists>addr opts w'. grpc_NewClient sample_tls \<lparr>cl_Host = ''auth'', cl_Port = 9000, cl_TLSEnabled = False, cl_TLSCertPath = [],
     cl_InsecureSkipVerify = False\<rparr> (quiet_world ()) = (Inr (addr, opts), w') \<and> WithInsecure \<in> set opts"
proof -
  let ?cfg = "\<lparr>cl_Host = ''auth'', cl_Port = 9000, cl_TLSEnabled = False, cl_TLSCertPath = [], cl_InsecureSkipVerify = False\<rparr>"
  obtain addr opts w' where c: "grpc_NewClient sample_tls ?cfg (quiet_world ()) = (Inr (addr, opts), w')"
    by (simp add: grpc_NewClient_def Let_def call_def outside_def)
  show ?thesis using grpc_client_credentials [OF c] c by auto
qed

theorem client_pings_too_often_witness:
  "\<exists>addr copts w' s v' sopts t u p m q. grpc_NewClient sample_tls \<lparr>cl_Host = ''auth'', cl_Port = 9000, cl_TLSEnabled = False,
     cl_TLSCertPath = [], cl_InsecureSkipVerify = False\<rparr> (quiet_world ()) = (Inr (addr, copts), w') \<and>
     grpc_New sample_tls (sample_grpc_config\<lparr>gc_TLSEnabled := False\<rparr>) (quiet_world ()) = (Inr s, v') \<and> rpc_Server s = Some sopts \<and>
     WithKeepaliveParams t u p \<in> set copts \<and> KeepaliveEnforcementPolicy m q \<in> set sopts \<and> 2 * t = m"
proof -
  let ?cfg = "\<lparr>cl_Host = ''auth'', cl_Port = 9000, cl_TLSEnabled = False, cl_TLSCertPath = [], cl_InsecureSkipVerify = False\<rparr>"
  obtain addr copts w' where c: "grpc_NewClient sample_tls ?cfg (quiet_world ()) = (Inr (addr, copts), w')"
    by (simp add: grpc_NewClient_def Let_def call_def outside_def)
  obtain s sopts where s: "grpc_New sample_tls (sample_grpc_config\<lparr>gc_TLSEnabled := False\<rparr>) (quiet_world ()) = (Inr s, quiet_world ())"
    "rpc_Server s = Some sopts"
    by (simp add: grpc_New_def Let_def)
  show ?thesis using client_pings_too_often [OF c s] c s by blast
qed

end
