(* ===== verification/Setup.thy ===== *)
theory Setup
  imports Consumers GrpcTls AuthOutbox Notification
begin

text \<open>
  \<^verbatim>\<open>Setup\<close> of the auth, wallet and notification services, with the constructors of
  \<^verbatim>\<open>pkg/rabbitmq\<close> and of the metric instruments it calls. \<^verbatim>\<open>Setup\<close> works on the broker: the
  connections of the client library and the accepted declarations. \<^verbatim>\<open>mainLogger.Fatal\<close> ends the
  process; that is the error result here, with the message and the error it logs. Loggers
  are left out, as are the constructors that only store their arguments.
\<close>

section \<open>Working on a part of the state\<close>

definition rehome :: "'e \<Rightarrow> 'd world \<Rightarrow> 'e world" where
  "rehome d w = \<lparr>db = d, clock = clock w, fault = fault w, calls = calls w, uuid_src = uuid_src w, uuids = uuids w,
     rand_src = rand_src w, open_tx = open_tx w, sent = sent w\<rparr>"

definition zoom :: "('d \<Rightarrow> 'e) \<Rightarrow> ('e \<Rightarrow> 'd \<Rightarrow> 'd) \<Rightarrow> ('e, 'a) wprog \<Rightarrow> ('d, 'a) wprog" where
  "zoom get put m w = (case m (rehome (get (db w)) w) of (r, v) \<Rightarrow> (r, rehome (put (db v) (db w)) v))"

lemma rehome_simps [simp]:
  "db (rehome d w) = d" "fault (rehome d w) = fault w" "calls (rehome d w) = calls w" "clock (rehome d w) = clock w"
  by (simp_all add: rehome_def)

lemma rehome_rehome [simp]: "rehome d (rehome e w) = rehome d w"
  by (simp add: rehome_def)

lemma rehome_id [simp]: "rehome (db w) w = w"
  by (simp add: rehome_def)

lemma zoom_Inr:
  assumes "zoom get put m w = (Inr x, w')"
  obtains v where "m (rehome (get (db w)) w) = (Inr x, v)" "w' = rehome (put (db v) (db w)) v"
  using assms by (auto simp: zoom_def split: prod.splits)

record broker =
  br_links :: links
  br_decls :: "amqp_decl list"

definition on_links :: "(links, 'a) wprog \<Rightarrow> (broker, 'a) wprog" where
  "on_links = zoom br_links (\<lambda>l b. b\<lparr>br_links := l\<rparr>)"

definition on_decls :: "(amqp_decl list, 'a) wprog \<Rightarrow> (broker, 'a) wprog" where
  "on_decls = zoom br_decls (\<lambda>d b. b\<lparr>br_decls := d\<rparr>)"

section \<open>Constructors\<close>

definition NewTopology :: "('d, unit) wprog" where
  "NewTopology = call conn_channel (\<lambda>err. fail (WrapError ''rabbitmq: open topology channel: '' err)) ret"

definition newBasePublisher :: "string \<Rightarrow> ('d, basePublisher) wprog" where
  "newBasePublisher ev = call conn_channel fail (\<lambda>_. ret \<lparr>closed = False, eventName = ev\<rparr>)"

definition NewDirectPublisher :: "string \<Rightarrow> ('d, basePublisher) wprog" where
  "NewDirectPublisher ev = call (newBasePublisher ev) (\<lambda>err. fail (WrapError ''rabbitmq: new direct publisher: '' err)) ret"

definition NewFanoutPublisher :: "string \<Rightarrow> ('d, basePublisher) wprog" where
  "NewFanoutPublisher ev = call (newBasePublisher ev) (\<lambda>err. fail (WrapError ''rabbitmq: new fanout publisher: '' err)) ret"

definition NewTopicPublisher :: "string \<Rightarrow> ('d, basePublisher) wprog" where
  "NewTopicPublisher ev = call (newBasePublisher ev) (\<lambda>err. fail (WrapError ''rabbitmq: new topic publisher: '' err)) ret"

definition NewDirectSubscriber :: "SubscriberConfig \<Rightarrow> ('d, baseSubscriber) wprog" where
  "NewDirectSubscriber cfg = call (newBaseSubscriber cfg) (\<lambda>err. fail (WrapError ''rabbitmq: new direct subscriber: '' err)) ret"

definition NewFanoutSubscriber :: "SubscriberConfig \<Rightarrow> ('d, baseSubscriber) wprog" where
  "NewFanoutSubscriber cfg = call (newBaseSubscriber cfg) (\<lambda>err. fail (WrapError ''rabbitmq: new fanout subscriber: '' err)) ret"

definition NewTopicSubscriber :: "SubscriberConfig \<Rightarrow> ('d, baseSubscriber) wprog" where
  "NewTopicSubscriber cfg = call (newBaseSubscriber cfg) (\<lambda>err. fail (WrapError ''rabbitmq: new topic subscriber: '' err)) ret"

text \<open>Two instruments each: a histogram of durations and a counter.\<close>

definition AddHttpMetrics :: "bool \<Rightarrow> ('d, unit) wprog" where
  "AddHttpMetrics provider_nil =
     (if provider_nil then fail (ErrorString ''metric provider is nil'')
      else call outside fail (\<lambda>_. call outside fail ret))"

definition NewGRPCMetrics :: "('d, unit) wprog" where
  "NewGRPCMetrics = call outside fail (\<lambda>_. call outside fail ret)"

section \<open>Applications\<close>

record broker_Config =
  bc_URL :: string
  bc_RetryTTL :: int
  bc_Workers :: int
  bc_MaxRetry :: int
  bc_PrefetchCount :: int
  bc_HandlerTimeout :: int

definition subscriber_config :: "broker_Config \<Rightarrow> SubscriberConfig" where
  "subscriber_config c = \<lparr>sc_MaxRetry = bc_MaxRetry c, sc_Workers = bc_Workers c,
     sc_PrefetchCount = bc_PrefetchCount c, sc_HandlerTimeout = bc_HandlerTimeout c\<rparr>"

definition user_topology :: "int \<Rightarrow> TopicTopologyConfig" where
  "user_topology ttl = \<lparr>tt_EventName = ''user'', tt_RetryTTL = ttl,
     tt_Bindings = [\<lparr>tb_Queue = ''wallet-service'', tb_RoutingKey = ''user.created''\<rparr>]\<rparr>"

definition fatal :: "string \<Rightarrow> go_error \<Rightarrow> ('d, 'a) wprog" where
  "fatal msg err = fail (WrapError msg err)"

record auth_Application =
  aa_connection :: Connection
  aa_userPublisher :: basePublisher
  aa_notificationPublisher :: basePublisher
  aa_devicePublisher :: basePublisher
  aa_grpcServer :: RPCServer

definition auth_Setup :: "tls_lib \<Rightarrow> broker_Config \<Rightarrow> grpc_Config \<Rightarrow> (broker, auth_Application) wprog" where
  "auth_Setup L publisher grpc =
     call (on_links (NewConnection (bc_URL publisher))) (fatal ''rabbitmq connection failed'') (\<lambda>(rbConn, watcher).
     call NewTopology (fatal ''rabbitmq topic topology failed'') (\<lambda>_.
     call (on_decls (DeclareTopic (user_topology (bc_RetryTTL publisher)))) (fatal ''rabbitmq user topic failed'') (\<lambda>_.
     call NewTopology (fatal ''rabbitmq direct topology failed'') (\<lambda>_.
     call (on_decls (DeclareDirect \<lparr>dt_EventName = ''auth'', dt_RetryTTL = bc_RetryTTL publisher\<rparr>))
       (fatal ''rabbitmq auth event failed'') (\<lambda>_.
     call (NewTopicPublisher ''user'') (fatal ''rabbitmq user publisher failed'') (\<lambda>userPublisher.
     call (NewDirectPublisher ''notification'') (fatal ''rabbitmq notification publisher failed'') (\<lambda>notificationPublisher.
     call (NewTopicPublisher ''device'') (fatal ''rabbitmq device publisher failed'') (\<lambda>devicePublisher.
     call (AddHttpMetrics False) (fatal ''failed to create http metrics'') (\<lambda>_.
     call NewGRPCMetrics (fatal ''failed to create grpc metrics'') (\<lambda>_.
     let app = (\<lambda>server. ret \<lparr>aa_connection = rbConn, aa_userPublisher = userPublisher,
           aa_notificationPublisher = notificationPublisher, aa_devicePublisher = devicePublisher, aa_grpcServer = server\<rparr>)
     in call (grpc_New L grpc) (\<lambda>err. app \<lparr>rpc_Config = None, rpc_Server = None\<rparr>) app))))))))))"

record wallet_Application =
  wa_connection :: Connection
  wa_userSubscriber :: baseSubscriber

definition wallet_Setup :: "broker_Config \<Rightarrow> (broker, wallet_Application) wprog" where
  "wallet_Setup subscriber =
     call (AddHttpMetrics False) (fatal ''failed to create http metrics'') (\<lambda>_.
     call (on_links (NewConnection (bc_URL subscriber))) (fatal ''rabbitmq connection filed'') (\<lambda>(rbConn, watcher).
     call NewTopology (fatal ''rabbitmq topology filed'') (\<lambda>_.
     call (on_decls (DeclareTopic (user_topology (bc_RetryTTL subscriber)))) (fatal ''rabbitmq topology declared user topic failed'') (\<lambda>_.
     call (NewTopicSubscriber (subscriber_config subscriber)) (fatal ''rabbitmq subscriber topic failed'') (\<lambda>userSubscriber.
     ret \<lparr>wa_connection = rbConn, wa_userSubscriber = userSubscriber\<rparr>)))))"

text \<open>
  In the notification service the error of \<^verbatim>\<open>NewDirectSubscriber\<close> is overwritten by the next call
  before it is looked at; the subscriber is then a nil pointer (\<open>None\<close>).
\<close>

record notification_Application =
  na_connection :: Connection
  na_notificationSubscriber :: "baseSubscriber option"
  na_notificationPublisher :: basePublisher
  na_authClient :: "string \<times> DialOption list"

definition notification_Setup :: "tls_lib \<Rightarrow> broker_Config \<Rightarrow> grpc_Client \<Rightarrow> (broker, notification_Application) wprog" where
  "notification_Setup L subscriber client =
     call (on_links (NewConnection (bc_URL subscriber))) (fatal ''rabbitmq connection failed'') (\<lambda>(rbConn, watcher).
     call NewTopology (fatal ''rabbitmq topology failed'') (\<lambda>_.
     call (on_decls (DeclareDirect \<lparr>dt_EventName = ''notification'', dt_RetryTTL = bc_RetryTTL subscriber\<rparr>))
       (fatal ''rabbitmq notification event failed'') (\<lambda>_.
     call (AddHttpMetrics False) (fatal ''failed to create http metrics'') (\<lambda>_.
     let rest = (\<lambda>notificationSubscriber.
           call (NewDirectPublisher ''notification'') (fatal ''rabbitmq notification publisher failed'') (\<lambda>notificationPublisher.
           call NewGRPCMetrics (fatal ''failed to create grpc metrics'') (\<lambda>_.
           call (grpc_NewClient L client) (fatal ''failed to connect auth grpc server'') (\<lambda>authClient.
           ret \<lparr>na_connection = rbConn, na_notificationSubscriber = notificationSubscriber,
                na_notificationPublisher = notificationPublisher, na_authClient = authClient\<rparr>))))
     in call (NewDirectSubscriber (subscriber_config subscriber)) (\<lambda>err. rest None) (\<lambda>s. rest (Some s))))))"

text \<open>
  The goroutine of \<^verbatim>\<open>Start\<close> that subscribes: a method call on a nil subscriber is a panic, which
  nothing recovers (\<open>None\<close>); the error of a failed subscription is only logged.
\<close>

definition docs_Setup :: "int \<Rightarrow> ('d, string) wprog" where
  "docs_Setup httpPort =
     call (AddHttpMetrics False) (fatal ''failed to create http metrics'') (\<lambda>_. ret (CHR '':'' # int_to_string httpPort))"

definition notification_subscribe :: "notification_Application \<Rightarrow> 'd world \<Rightarrow> 'd world option" where
  "notification_subscribe app w =
     (case na_notificationSubscriber app of
        None \<Rightarrow> None
      | Some s \<Rightarrow> Some (snd (DirectSubscriber_Subscribe ''notification'' s w)))"

section \<open>What Setup leaves behind\<close>

named_theorems setup_effects

lemma outside_effect [setup_effects]: "outside w = (r, w') \<Longrightarrow> db w' = db w"
  by (rule outside_db)

lemma NewTopology_effect [setup_effects]: "NewTopology w = (r, w') \<Longrightarrow> db w' = db w"
  by (auto simp: NewTopology_def conn_channel_def elim!: call_cases dest!: outside_db)

lemma newBasePublisher_effect:
  "newBasePublisher ev w = (r, w') \<Longrightarrow> db w' = db w \<and> (\<forall>p. r = Inr p \<longrightarrow> p = open_base ev)"
  by (auto simp: newBasePublisher_def conn_channel_def elim!: call_cases dest!: outside_db)

lemma NewPublishers_effect [setup_effects]:
  "NewDirectPublisher ev w = (r, w') \<Longrightarrow> db w' = db w \<and> (\<forall>p. r = Inr p \<longrightarrow> p = open_base ev)"
  "NewTopicPublisher ev w = (r, w') \<Longrightarrow> db w' = db w \<and> (\<forall>p. r = Inr p \<longrightarrow> p = open_base ev)"
  by (auto simp: NewDirectPublisher_def NewTopicPublisher_def elim!: call_cases dest!: newBasePublisher_effect)

lemma newBaseSubscriber_effect:
  "newBaseSubscriber cfg w = (r, w') \<Longrightarrow>
   db w' = db w \<and> (\<forall>s. r = Inr s \<longrightarrow> s = \<lparr>bs_closed = False, bs_consumers = [], bs_cfg = toWorkerConfig cfg\<rparr>)"
  by (auto simp: newBaseSubscriber_def conn_channel_def elim!: call_cases dest!: outside_db)

lemma NewSubscribers_effect [setup_effects]:
  "NewTopicSubscriber cfg w = (r, w') \<Longrightarrow>
   db w' = db w \<and> (\<forall>s. r = Inr s \<longrightarrow> s = \<lparr>bs_closed = False, bs_consumers = [], bs_cfg = toWorkerConfig cfg\<rparr>)"
  "NewDirectSubscriber cfg w = (r, w') \<Longrightarrow>
   db w' = db w \<and> (\<forall>s. r = Inr s \<longrightarrow> s = \<lparr>bs_closed = False, bs_consumers = [], bs_cfg = toWorkerConfig cfg\<rparr>)"
  by (auto simp: NewTopicSubscriber_def NewDirectSubscriber_def elim!: call_cases dest!: newBaseSubscriber_effect)

lemma metrics_effect [setup_effects]:
  "AddHttpMetrics b w = (r, w') \<Longrightarrow> db w' = db w" "NewGRPCMetrics w = (r, w') \<Longrightarrow> db w' = db w"
  by (auto simp: AddHttpMetrics_def NewGRPCMetrics_def split: if_splits elim!: call_cases dest!: outside_db)

lemma grpc_New_effect: "grpc_New L cfg w = (r, w') \<Longrightarrow> w' = w \<and> fst (grpc_New L cfg w) = r"
  by (auto simp: grpc_New_def loadServerTLSCredentials_def Let_def time_Now_def
      split: if_splits sum.splits list.splits elim!: call_cases)

lemma NewConnection_effect:
  assumes "on_links (NewConnection url) w = (Inr (c, wt), w')"
  shows "c = \<lparr>con_url = url, con_conn = length (br_links (db w)), con_closed = False\<rparr> \<and>
    db w' = (db w)\<lparr>br_links := br_links (db w) @ [Open]\<rparr>"
  using assms unfolding on_links_def
  by (auto simp: NewConnection_def elim!: zoom_Inr call_cases dest!: connect_cases)

lemma user_topology_effect:
  assumes "on_decls (DeclareTopic (user_topology ttl)) w = (Inr u, w')"
  shows "db w' = (db w)\<lparr>br_decls := br_decls (db w) @ topic_decls ''user'' ttl ''wallet-service'' ''user.created''\<rparr>"
  using assms unfolding on_decls_def by (auto elim!: zoom_Inr dest!: DeclareTopic_Inr simp: user_topology_def)

lemma DeclareDirect_effect:
  assumes "on_decls (DeclareDirect cfg) w = (Inr u, w')"
  shows "db w' = (db w)\<lparr>br_decls := br_decls (db w) @ direct_decls (dt_EventName cfg) (dt_RetryTTL cfg)\<rparr>"
  using assms unfolding on_decls_def by (auto elim!: zoom_Inr dest!: DeclareDirect_Inr)

text \<open>What a program's success implies, one call after the other.\<close>

definition yields :: "('d, 'a) wprog \<Rightarrow> 'd world \<Rightarrow> ('a \<Rightarrow> 'd world \<Rightarrow> bool) \<Rightarrow> bool" where
  "yields m w Q \<longleftrightarrow> (\<forall>x w'. m w = (Inr x, w') \<longrightarrow> Q x w')"

lemma yieldsD: "yields m w Q \<Longrightarrow> m w = (Inr x, w') \<Longrightarrow> Q x w'"
  by (simp add: yields_def)

lemma yields_fatal: "(\<And>x v. m w = (Inr x, v) \<Longrightarrow> yields (k x) v Q) \<Longrightarrow> yields (call m (fatal msg) k) w Q"
  by (auto simp: yields_def fatal_def elim!: call_cases)

lemma yields_call:
  "(\<And>e v. m w = (Inl e, v) \<Longrightarrow> yields (h e) v Q) \<Longrightarrow> (\<And>x v. m w = (Inr x, v) \<Longrightarrow> yields (k x) v Q) \<Longrightarrow>
   yields (call m h k) w Q"
  by (auto simp: yields_def elim!: call_cases)

lemma yields_case: "(\<And>a b. x = (a, b) \<Longrightarrow> yields (k a b) w Q) \<Longrightarrow> yields (case x of (a, b) \<Rightarrow> k a b) w Q"
  by (cases x) simp

lemma yields_ret: "Q x w \<Longrightarrow> yields (ret x) w Q"
  by (simp add: yields_def)

lemmas yields_intros = yields_fatal yields_case yields_ret

lemma auth_Setup_effect:
  "yields (auth_Setup L pub grpc) w (\<lambda>app w'.
    db w' = \<lparr>br_links = br_links (db w) @ [Open],
      br_decls = br_decls (db w) @ topic_decls ''user'' (bc_RetryTTL pub) ''wallet-service'' ''user.created'' @ direct_decls ''auth'' (bc_RetryTTL pub)\<rparr> \<and>
    aa_connection app = \<lparr>con_url = bc_URL pub, con_conn = length (br_links (db w)), con_closed = False\<rparr> \<and>
    aa_userPublisher app = open_base ''user'' \<and> aa_notificationPublisher app = open_base ''notification'' \<and>
    aa_devicePublisher app = open_base ''device'' \<and>
    (case fst (grpc_New L grpc w') of Inl e \<Rightarrow> aa_grpcServer app = \<lparr>rpc_Config = None, rpc_Server = None\<rparr> | Inr s \<Rightarrow> aa_grpcServer app = s))"
  unfolding auth_Setup_def Let_def
  by (intro yields_intros yields_call)
    (auto dest!: NewConnection_effect user_topology_effect DeclareDirect_effect setup_effects grpc_New_effect)

section \<open>Theorems\<close>

text \<open>
  What the auth service's \<^verbatim>\<open>Setup\<close> builds. On a fresh broker a successful \<^verbatim>\<open>Setup\<close> leaves one
  open connection, the application's; the outbox processor over its publishers is the one the
  delivery theorems are about; the exchange and the bound queue for user events are declared.
  The exchanges of the events \<^verbatim>\<open>notification\<close> and \<^verbatim>\<open>device\<close>, for which it builds publishers, are
  not declared; and without the path of a certificate \<^verbatim>\<open>Setup\<close> succeeds all the same, with an
  empty gRPC server: it refuses to serve, and stopping it panics.
\<close>

theorem auth_Setup_result:
  assumes "auth_Setup L pub grpc w = (Inr app, w')" "db w = \<lparr>br_links = [], br_decls = []\<rparr>"
  shows "br_links (db w') = [Open] \<and> con_conn (aa_connection app) = 0 \<and>
    auth_ProcessEvent (TopicPublisher_Publish (aa_userPublisher app)) (DirectPublisher_Publish (aa_notificationPublisher app)) =
      (auth_app_ProcessEvent :: OutboxEvent \<Rightarrow> ('d, unit) wprog) \<and>
    exchange_kind (br_decls (db w')) ''user.exchange'' = Some ''topic'' \<and>
    QueueBind ''wallet-service.queue'' ''user.created'' ''user.exchange'' \<in> set (br_decls (db w')) \<and>
    exchange_kind (br_decls (db w')) (eventName (aa_notificationPublisher app) @ ''.exchange'') = None \<and>
    exchange_kind (br_decls (db w')) (eventName (aa_devicePublisher app) @ ''.exchange'') = None \<and>
    (gc_TLSEnabled grpc \<and> gc_TLSCertPath grpc = [] \<longrightarrow>
       (\<exists>e. grpc_Serve (aa_grpcServer app) (v :: 'd world) = (Inl e, v)) \<and> RPCServer_Stop (aa_grpcServer app) = None)"
proof -
  have "\<exists>e. fst (grpc_New L grpc w') = Inl e" if "gc_TLSEnabled grpc" "gc_TLSCertPath grpc = []"
    using that by (simp add: grpc_New_def loadServerTLSCredentials_def Let_def)
  then show ?thesis
    using yieldsD [OF auth_Setup_effect assms(1)] assms(2)
    by (auto simp: auth_app_ProcessEvent_def topic_decls_def direct_decls_def buildNames_def Let_def grpc_Serve_def RPCServer_Stop_def)
qed

text \<open>
  The notification service swallows the error of its subscriber. When only the opening of
  the subscriber's channel fails, \<^verbatim>\<open>Setup\<close> succeeds with a nil subscriber, and the goroutine
  that subscribes panics, which ends the process.
\<close>

theorem notification_Setup_swallows_error:
  fixes L :: tls_lib
  assumes "\<not> cl_TLSEnabled client"
  shows "\<exists>(w :: broker world) app w'. (\<forall>n. fault w n \<noteq> None \<longleftrightarrow> n = 12) \<and>
    notification_Setup L sub client w = (Inr app, w') \<and> notification_subscribe app w' = None"
proof -
  let ?w = "(quiet_world \<lparr>br_links = [], br_decls = []\<rparr>)\<lparr>fault := (\<lambda>n. if n = 12 then Some ErrClosed else None)\<rparr>"
  have "\<exists>app w'. notification_Setup L sub client ?w = (Inr app, w') \<and> na_notificationSubscriber app = None"
    using assms
    by (simp add: notification_Setup_def on_links_def on_decls_def zoom_def rehome_def NewConnection_def connect_def amqp_Dial_def
        NewTopology_def conn_channel_def DeclareDirect_def declare_defs amqp_declare_def sql_def bind_queue_def
        AddHttpMetrics_def NewDirectSubscriber_def newBaseSubscriber_def NewDirectPublisher_def newBasePublisher_def
        NewGRPCMetrics_def grpc_NewClient_def call_def outside_def Let_def quiet_world_def)
  then show ?thesis by (intro exI [of _ ?w]) (auto simp: notification_subscribe_def)
qed

section \<open>Witnesses\<close>

definition sample_broker_config :: broker_Config where
  "sample_broker_config = \<lparr>bc_URL = ''amqp://mq'', bc_RetryTTL = 5000000000, bc_Workers = 2, bc_MaxRetry = 3,
     bc_PrefetchCount = 10, bc_HandlerTimeout = 0\<rparr>"

lemmas setup_eval = on_links_def on_decls_def zoom_def rehome_def NewConnection_def connect_def amqp_Dial_def
  NewTopology_def conn_channel_def DeclareDirect_def DeclareTopic_def topic_queue_def user_topology_def declare_defs amqp_declare_def sql_def
  bind_queue_def AddHttpMetrics_def NewDirectPublisher_def NewTopicPublisher_def newBasePublisher_def NewGRPCMetrics_def
  grpc_New_def loadServerTLSCredentials_def call_def outside_def Let_def quiet_world_def

theorem auth_Setup_result_witness:
  "\<exists>app w'. auth_Setup sample_tls sample_broker_config (sample_grpc_config\<lparr>gc_TLSCertPath := []\<rparr>)
      (quiet_world \<lparr>br_links = [], br_decls = []\<rparr>) = (Inr app, w') \<and>
    br_links (db w') = [Open] \<and> exchange_kind (br_decls (db w')) ''notification.exchange'' = None \<and>
    RPCServer_Stop (aa_grpcServer app) = None"
proof -
  let ?w = "quiet_world \<lparr>br_links = [], br_decls = []\<rparr>"
  let ?g = "sample_grpc_config\<lparr>gc_TLSCertPath := []\<rparr>"
  have "\<exists>app w'. auth_Setup sample_tls sample_broker_config ?g ?w = (Inr app, w')"
    by (simp add: auth_Setup_def setup_eval sample_grpc_config_def)
  then obtain app w' where a: "auth_Setup sample_tls sample_broker_config ?g ?w = (Inr app, w')" by blast
  have "eventName (aa_notificationPublisher app) = ''notification''" using yieldsD [OF auth_Setup_effect a] by simp
  then show ?thesis
    using auth_Setup_result [OF a] a by (auto simp: sample_grpc_config_def)
qed

theorem notification_Setup_swallows_error_witness:
  "\<exists>(w :: broker world) app w'. notification_Setup sample_tls sample_broker_config \<lparr>cl_Host = ''auth'', cl_Port = 9000,
     cl_TLSEnabled = False, cl_TLSCertPath = [], cl_InsecureSkipVerify = False\<rparr> w = (Inr app, w') \<and> notification_subscribe app w' = None"
proof -
  have "\<not> cl_TLSEnabled \<lparr>cl_Host = ''auth'', cl_Port = 9000, cl_TLSEnabled = False, cl_TLSCertPath = [], cl_InsecureSkipVerify = False\<rparr>"
    by simp
  from notification_Setup_swallows_error [OF this, of sample_tls sample_broker_config] show ?thesis by blast
qed

end
