(* ===== verification/Lifecycle.thy ===== *)
theory Lifecycle
  imports Main
begin

text \<open>
  How the four services start and stop: \<^verbatim>\<open>Start\<close> of \<^verbatim>\<open>internal/auth/app.go\<close>,
  \<^verbatim>\<open>internal/wallet/app.go\<close>, \<^verbatim>\<open>internal/notification/app.go\<close> and \<^verbatim>\<open>internal/docs/app.go\<close>, with \<^verbatim>\<open>Run\<close>
  and \<^verbatim>\<open>Stop\<close> of their servers. A service is its main goroutine, which executes a list of
  statements (the deferred ones last), and the goroutines its wait group counts. A
  goroutine returns when what it waits for has happened: its server was shut down or could not
  listen, its context was cancelled. Log lines are left out; stopping the HTTP server and
  closing publishers and subscribers return after a timeout at the latest. \<^verbatim>\<open>Setup\<close> is taken to
  have built the gRPC server; what happens when it has not is in \<open>Setup\<close>.
\<close>

section \<open>Statements and goroutines\<close>

datatype ctx = AppCtx | WorkerCtx

datatype goroutine =
    HttpRun
  | GrpcServe
  | OutboxWorker ctx
  | HubListener ctx
  | HubHeartbeat ctx
  | SubscribeCall

datatype stmt =
    Go goroutine
  | RecvSignal
  | HttpStop
  | GrpcStop
  | GrpcDrain
  | CloseClient string
  | HubClose
  | Cancel ctx
  | WgWait

record proc =
  pr_done :: "stmt list"
  pr_body :: "stmt list"
  pr_wg :: "goroutine list"
  pr_signal :: bool
  pr_rpcs :: nat

definition launch :: "stmt list \<Rightarrow> proc" where
  "launch prog = \<lparr>pr_done = [], pr_body = prog, pr_wg = [], pr_signal = False, pr_rpcs = 0\<rparr>"

text \<open>What a goroutine waits for; \<open>broken\<close> says which servers fail to listen.\<close>

definition may_return :: "(goroutine \<Rightarrow> bool) \<Rightarrow> stmt list \<Rightarrow> goroutine \<Rightarrow> bool" where
  "may_return broken executed g =
     (case g of
        HttpRun \<Rightarrow> HttpStop \<in> set executed \<or> broken HttpRun
      | GrpcServe \<Rightarrow> GrpcStop \<in> set executed \<or> broken GrpcServe
      | OutboxWorker c \<Rightarrow> Cancel c \<in> set executed
      | HubListener c \<Rightarrow> Cancel c \<in> set executed
      | HubHeartbeat c \<Rightarrow> Cancel c \<in> set executed
      | SubscribeCall \<Rightarrow> True)"

definition ready :: "stmt \<Rightarrow> proc \<Rightarrow> bool" where
  "ready st p =
     (case st of
        RecvSignal \<Rightarrow> pr_signal p
      | GrpcDrain \<Rightarrow> pr_rpcs p = 0
      | WgWait \<Rightarrow> pr_wg p = []
      | _ \<Rightarrow> True)"

definition exec_stmt :: "stmt \<Rightarrow> proc \<Rightarrow> proc" where
  "exec_stmt st p =
     p\<lparr>pr_done := pr_done p @ [st], pr_wg := (case st of Go g \<Rightarrow> pr_wg p @ [g] | _ \<Rightarrow> pr_wg p)\<rparr>"

text \<open>Steps of the process itself, and with them the signal and incoming calls.\<close>

inductive own_step :: "(goroutine \<Rightarrow> bool) \<Rightarrow> proc \<Rightarrow> proc \<Rightarrow> bool" for broken :: "goroutine \<Rightarrow> bool" where
  own_main: "pr_body p = st # rest \<Longrightarrow> ready st p \<Longrightarrow> own_step broken p ((exec_stmt st p)\<lparr>pr_body := rest\<rparr>)"
| own_return: "pr_wg p = xs @ g # ys \<Longrightarrow> may_return broken (pr_done p) g \<Longrightarrow> own_step broken p (p\<lparr>pr_wg := xs @ ys\<rparr>)"
| own_rpc_done: "pr_rpcs p = Suc n \<Longrightarrow> own_step broken p (p\<lparr>pr_rpcs := n\<rparr>)"

inductive proc_step :: "(goroutine \<Rightarrow> bool) \<Rightarrow> proc \<Rightarrow> proc \<Rightarrow> bool" for broken :: "goroutine \<Rightarrow> bool" where
  proc_own: "own_step broken p p' \<Longrightarrow> proc_step broken p p'"
| proc_signal: "proc_step broken p (p\<lparr>pr_signal := True\<rparr>)"
| proc_rpc: "GrpcServe \<in> set (pr_wg p) \<Longrightarrow> GrpcStop \<notin> set (pr_done p) \<Longrightarrow> proc_step broken p (p\<lparr>pr_rpcs := Suc (pr_rpcs p)\<rparr>)"

abbreviation own_steps :: "(goroutine \<Rightarrow> bool) \<Rightarrow> proc \<Rightarrow> proc \<Rightarrow> bool" where
  "own_steps broken \<equiv> (own_step broken)\<^sup>*\<^sup>*"

abbreviation proc_steps :: "(goroutine \<Rightarrow> bool) \<Rightarrow> proc \<Rightarrow> proc \<Rightarrow> bool" where
  "proc_steps broken \<equiv> (proc_step broken)\<^sup>*\<^sup>*"

section \<open>The services\<close>

definition auth_Start :: "stmt list" where
  "auth_Start =
     [Go HttpRun, Go GrpcServe, Go (OutboxWorker WorkerCtx),
      RecvSignal,
      HttpStop, GrpcStop, GrpcDrain,
      CloseClient ''userPublisher'', CloseClient ''notificationPublisher'', CloseClient ''devicePublisher'',
      Cancel WorkerCtx,
      WgWait,
      Cancel WorkerCtx]"

definition wallet_Start :: "stmt list" where
  "wallet_Start = [Go SubscribeCall, Go HttpRun, RecvSignal, HttpStop, CloseClient ''userSubscriber'', WgWait]"

definition notification_Start :: "stmt list" where
  "notification_Start =
     [Go (HubListener AppCtx), Go (HubHeartbeat AppCtx), Go SubscribeCall, Go HttpRun, Go (OutboxWorker WorkerCtx),
      RecvSignal,
      HttpStop, CloseClient ''notificationPublisher'', CloseClient ''notificationSubscriber'', HubClose,
      Cancel WorkerCtx,
      WgWait,
      Cancel WorkerCtx, Cancel AppCtx]"

definition docs_Start :: "stmt list" where
  "docs_Start = [Go HttpRun, RecvSignal, HttpStop, WgWait]"

section \<open>When a program stops\<close>

text \<open>
  A check on a program's text: whatever it starts before its wait is released before its
  wait, and it waits once.
\<close>

definition before_wait :: "stmt list \<Rightarrow> stmt list" where
  "before_wait prog = takeWhile (\<lambda>st. st \<noteq> WgWait) prog"

definition graceful :: "stmt list \<Rightarrow> bool" where
  "graceful prog \<longleftrightarrow>
     (\<forall>st \<in> set (before_wait prog). case st of Go g \<Rightarrow> may_return (\<lambda>_. False) (before_wait prog) g | _ \<Rightarrow> True) \<and>
     WgWait \<notin> set (drop (Suc (length (before_wait prog))) prog)"

lemma may_return_mono: "may_return b xs g \<Longrightarrow> set xs \<subseteq> set ys \<Longrightarrow> (\<And>x. b x \<Longrightarrow> c x) \<Longrightarrow> may_return c ys g"
  by (auto simp: may_return_def split: goroutine.splits)

lemma before_wait_at: "WgWait \<notin> set xs \<Longrightarrow> before_wait (xs @ WgWait # ys) = xs"
  by (simp add: before_wait_def takeWhile_append)

lemma before_wait_prefix: "WgWait \<notin> set xs \<Longrightarrow> set xs \<subseteq> set (before_wait (xs @ ys))"
  by (auto simp: before_wait_def takeWhile_append)

lemma graceful_released:
  assumes "graceful (xs @ WgWait # ys)" "Go g \<in> set xs"
  shows "may_return broken xs g"
proof -
  have "WgWait \<notin> set xs"
  proof
    assume "WgWait \<in> set xs"
    then obtain us vs where "xs = us @ WgWait # vs" "WgWait \<notin> set us" by (metis split_list_first)
    then show False using assms(1) by (simp add: graceful_def before_wait_at)
  qed
  then have "may_return (\<lambda>_. False) xs g"
    using assms by (fastforce simp: graceful_def before_wait_at)
  then show ?thesis by (rule may_return_mono) auto
qed

text \<open>The history of a process: done and to do make up the program, and it waits for what it started.\<close>

definition proc_inv :: "stmt list \<Rightarrow> proc \<Rightarrow> bool" where
  "proc_inv prog p \<longleftrightarrow> prog = pr_done p @ pr_body p \<and> (\<forall>g \<in> set (pr_wg p). Go g \<in> set (pr_done p))"

lemma own_step_inv: "own_step broken p p' \<Longrightarrow> proc_inv prog p \<Longrightarrow> proc_inv prog p' \<and> pr_signal p' = pr_signal p"
  by (induction rule: own_step.induct) (auto simp: proc_inv_def exec_stmt_def split: stmt.splits)

lemma proc_step_inv: "proc_step broken p p' \<Longrightarrow> proc_inv prog p \<Longrightarrow> proc_inv prog p'"
  by (induction rule: proc_step.induct) (auto dest: own_step_inv simp: proc_inv_def)

lemma launch_inv: "proc_inv prog (launch prog)"
  by (simp add: proc_inv_def launch_def)

lemma proc_steps_inv: "proc_steps broken (launch prog) p \<Longrightarrow> proc_inv prog p"
  by (induction rule: rtranclp_induct) (auto intro: proc_step_inv launch_inv)

definition proc_work :: "proc \<Rightarrow> nat" where
  "proc_work p = 2 * length (pr_body p) + length (pr_wg p) + pr_rpcs p"

lemma own_step_work: "own_step broken p p' \<Longrightarrow> proc_work p' < proc_work p"
  by (induction rule: own_step.induct) (auto simp: proc_work_def exec_stmt_def split: stmt.splits)

lemma no_infinite_shutdown: "\<not> (\<forall>i. own_step broken (f i) (f (Suc i)))"
proof
  assume "\<forall>i. own_step broken (f i) (f (Suc i))"
  then have "\<forall>i. (f (Suc i), f i) \<in> measure proc_work" using own_step_work by simp blast
  then show False using wf_measure [of proc_work] by (meson wf_iff_no_infinite_down_chain)
qed

lemma own_halts: "\<exists>p'. own_steps broken p p' \<and> (\<forall>p''. \<not> own_step broken p' p'')"
proof (induction p rule: measure_induct_rule [of proc_work])
  case (less p)
  then show ?case using own_step_work by (meson converse_rtranclp_into_rtranclp rtranclp.rtrancl_refl)
qed

lemma own_progress:
  assumes "graceful prog" "proc_inv prog p" "pr_signal p" "pr_body p \<noteq> []"
  shows "\<exists>p'. own_step broken p p'"
proof -
  obtain st rest where b: "pr_body p = st # rest" using assms(4) by (cases "pr_body p") auto
  show ?thesis
  proof (cases "ready st p")
    case True
    then show ?thesis using own_main [OF b] by blast
  next
    case False
    then consider "st = GrpcDrain" "pr_rpcs p \<noteq> 0" | g gs where "st = WgWait" "pr_wg p = [] @ g # gs"
      using assms(3) by (cases st) (auto simp: ready_def neq_Nil_conv)
    then show ?thesis
    proof cases
      case 1
      then show ?thesis using own_rpc_done [of p] by (metis not0_implies_Suc)
    next
      case (2 g gs)
      then have "may_return broken (pr_done p) g"
        using assms(1,2) b by (intro graceful_released [of _ rest]) (auto simp: proc_inv_def)
      then show ?thesis using own_return [OF 2(2)] by blast
    qed
  qed
qed

lemma own_completes:
  assumes "graceful prog" "proc_inv prog p" "pr_signal p"
  shows "\<exists>p'. own_steps broken p p' \<and> pr_body p' = []"
  using assms(2,3)
proof (induction p rule: measure_induct_rule [of proc_work])
  case (less p)
  show ?case
  proof (cases "pr_body p = []")
    case False
    then obtain p1 where p1: "own_step broken p p1" using own_progress [OF assms(1) less.prems] by blast
    then have "proc_inv prog p1" "pr_signal p1" using own_step_inv less.prems by blast+
    then show ?thesis using less.IH [OF own_step_work [OF p1]] p1 by (meson converse_rtranclp_into_rtranclp)
  qed auto
qed

text \<open>The opposite: a goroutine whose context is cancelled only after the wait keeps the process for ever.\<close>

definition held_up :: "stmt list \<Rightarrow> goroutine \<Rightarrow> proc \<Rightarrow> bool" where
  "held_up prog g p \<longleftrightarrow> prog = pr_done p @ pr_body p \<and> WgWait \<notin> set (pr_done p) \<and> (Go g \<in> set (pr_done p) \<longrightarrow> g \<in> set (pr_wg p))"

lemma held_up_step:
  assumes "own_step broken p p'" "held_up prog g p"
    and "Go g \<in> set (before_wait prog)" "\<not> may_return broken (before_wait prog) g"
  shows "held_up prog g p'"
  using assms(1,2)
proof (induction rule: own_step.induct)
  case (own_main p st rest)
  have "st \<noteq> WgWait"
  proof
    assume "st = WgWait"
    then show False
      using own_main assms(3) by (auto simp: held_up_def ready_def before_wait_at)
  qed
  then show ?case using own_main by (auto simp: held_up_def exec_stmt_def split: stmt.splits)
next
  case (own_return p xs h ys)
  have "set (pr_done p) \<subseteq> set (before_wait prog)"
    using own_return(3) before_wait_prefix [of "pr_done p" "pr_body p"] by (simp add: held_up_def)
  then have "h \<noteq> g" using own_return(2) may_return_mono [of broken "pr_done p" g "before_wait prog" broken] assms(4) by blast
  then show ?case using own_return by (auto simp: held_up_def)
qed (simp add: held_up_def)

lemma held_up_steps:
  assumes "proc_steps broken (launch prog) p"
    and "Go g \<in> set (before_wait prog)" "\<not> may_return broken (before_wait prog) g"
  shows "held_up prog g p"
  using assms(1)
proof (induction rule: rtranclp_induct)
  case base
  then show ?case by (simp add: held_up_def launch_def)
next
  case (step p1 p2)
  from step(2,3) show ?case
    by (cases rule: proc_step.cases) (auto simp: held_up_def dest: held_up_step [OF _ _ assms(2,3)])
qed

lemma held_up_not_finished: "held_up prog g p \<Longrightarrow> WgWait \<in> set prog \<Longrightarrow> pr_body p \<noteq> []"
  by (auto simp: held_up_def)

section \<open>Theorems\<close>


text \<open>
  The notification service never stops. Its \<^verbatim>\<open>Start\<close> waits for the hub's listener and
  heartbeat, which wait for a context that is cancelled only by a deferred call, after the
  wait: \<^verbatim>\<open>Start\<close> does not return, whatever signals arrive, and the process comes to a state in
  which it waits for ever.
\<close>

theorem notification_never_stops:
  assumes "proc_steps broken (launch notification_Start) p"
  shows "pr_body p \<noteq> [] \<and> Cancel AppCtx \<notin> set (pr_done p) \<and>
    (\<exists>p'. own_steps broken p p' \<and> pr_body p' \<noteq> [] \<and> (\<forall>p''. \<not> own_step broken p' p''))"
proof -
  have held: "held_up notification_Start (HubListener AppCtx) q" if "proc_steps broken (launch notification_Start) q" for q
    by (rule held_up_steps [OF that]) (simp_all add: before_wait_def notification_Start_def may_return_def)
  have w: "WgWait \<in> set notification_Start" "Cancel AppCtx \<notin> set (before_wait notification_Start)"
    by (simp_all add: notification_Start_def before_wait_def)
  have "set (pr_done p) \<subseteq> set (before_wait notification_Start)"
    using before_wait_prefix [of "pr_done p" "pr_body p"] held [OF assms] by (simp add: held_up_def)
  then have "pr_body p \<noteq> []" "Cancel AppCtx \<notin> set (pr_done p)"
    using held_up_not_finished [OF held [OF assms] w(1)] w(2) by auto
  moreover obtain p' where p': "own_steps broken p p'" "\<forall>p''. \<not> own_step broken p' p''" using own_halts by blast
  moreover have "proc_steps broken p p'"
    using p'(1) by (induction rule: rtranclp_induct) (auto intro: rtranclp.rtrancl_into_rtrancl proc_own)
  then have "pr_body p' \<noteq> []" using held_up_not_finished [OF held w(1)] assms by (meson rtranclp_trans)
  ultimately show ?thesis by blast
qed

text \<open>
  The auth service closes its publishers while its outbox worker still runs: there is a state
  in which all three are closed and the worker's context is not cancelled.
\<close>

theorem publishers_closed_under_worker:
  "\<exists>p. proc_steps broken (launch auth_Start) p \<and> CloseClient ''devicePublisher'' \<in> set (pr_done p) \<and>
     OutboxWorker WorkerCtx \<in> set (pr_wg p) \<and> Cancel WorkerCtx \<notin> set (pr_done p)"
proof -
  have run: "proc_steps broken p ((p\<lparr>pr_done := pr_done p @ sts, pr_body := rest\<rparr>))"
    if "pr_body p = sts @ rest" "\<forall>st \<in> set sts. (\<forall>g. st \<noteq> Go g) \<and> st \<noteq> WgWait" "pr_signal p" "pr_rpcs p = 0" for p sts rest
    using that
  proof (induction sts arbitrary: p)
    case Nil
    then show ?case by (cases p) simp
  next
    case (Cons st sts)
    have "ready st p" "exec_stmt st p = p\<lparr>pr_done := pr_done p @ [st]\<rparr>"
      using Cons.prems by (cases st; simp add: ready_def exec_stmt_def)+
    then have "proc_step broken p (p\<lparr>pr_done := pr_done p @ [st], pr_body := sts @ rest\<rparr>)"
      using own_main [of p st "sts @ rest" broken] Cons.prems(1) by (simp add: proc_own)
    moreover have "proc_steps broken (p\<lparr>pr_done := pr_done p @ [st], pr_body := sts @ rest\<rparr>)
        (p\<lparr>pr_done := pr_done p @ st # sts, pr_body := rest\<rparr>)"
      using Cons.IH [of "p\<lparr>pr_done := pr_done p @ [st], pr_body := sts @ rest\<rparr>"] Cons.prems by simp
    ultimately show ?case by (rule converse_rtranclp_into_rtranclp)
  qed
  let ?gs = "[HttpRun, GrpcServe, OutboxWorker WorkerCtx]"
  let ?p = "\<lambda>k sg. \<lparr>pr_done = take k auth_Start, pr_body = drop k auth_Start, pr_wg = take k ?gs, pr_signal = sg, pr_rpcs = 0\<rparr>"
  have "proc_step broken (launch auth_Start) (?p 1 False)"
    using own_main [of "launch auth_Start" "Go HttpRun" "drop 1 auth_Start" broken]
    by (simp add: proc_own launch_def auth_Start_def ready_def exec_stmt_def)
  moreover have "proc_step broken (?p 1 False) (?p 2 False)"
    using own_main [of "?p 1 False" "Go GrpcServe" "drop 2 auth_Start" broken]
    by (simp add: proc_own auth_Start_def ready_def exec_stmt_def)
  moreover have "proc_step broken (?p 2 False) (?p 3 False)"
    using own_main [of "?p 2 False" "Go (OutboxWorker WorkerCtx)" "drop 3 auth_Start" broken]
    by (simp add: proc_own auth_Start_def ready_def exec_stmt_def)
  moreover have "proc_step broken (?p 3 False) (?p 3 True)" using proc_signal [of broken "?p 3 False"] by simp
  moreover have "proc_steps broken (?p 3 True) ((?p 3 True)\<lparr>pr_done := take 10 auth_Start, pr_body := drop 10 auth_Start\<rparr>)"
    using run [of "?p 3 True" "take 7 (drop 3 auth_Start)" "drop 10 auth_Start"] by (simp add: auth_Start_def)
  ultimately have "proc_steps broken (launch auth_Start) ((?p 3 True)\<lparr>pr_done := take 10 auth_Start, pr_body := drop 10 auth_Start\<rparr>)"
    by (meson converse_rtranclp_into_rtranclp)
  then show ?thesis by (intro exI conjI) (assumption | simp add: auth_Start_def)+
qed

section \<open>Witnesses\<close>

definition signalled :: "stmt list \<Rightarrow> proc" where
  "signalled prog = (launch prog)\<lparr>pr_signal := True\<rparr>"

lemma signalled_reached: "proc_steps broken (launch prog) (signalled prog)"
  using proc_signal [of broken "launch prog"] by (simp add: signalled_def r_into_rtranclp)


theorem notification_never_stops_witness:
  "\<exists>p'. own_steps (\<lambda>_. False) (signalled notification_Start) p' \<and> pr_body p' \<noteq> [] \<and>
     (\<forall>p''. \<not> own_step (\<lambda>_. False) p' p'')"
  using notification_never_stops [OF signalled_reached] by blast

end
