(* ===== verification/EnvConfig.thy ===== *)
theory EnvConfig
  imports World
begin

text \<open>
  Reading the configuration (\<^verbatim>\<open>cmd/*/commands/root.go\<close>, the same code in each of the four
  services): the file of the environment is loaded first, then the environment variables
  with the service's prefix, whose names a transformation turns into configuration keys. The
  configuration library is outside the repository; a loaded configuration is the map from
  dotted keys to values, later loads replacing earlier values.
\<close>

section \<open>Functions of the strings package\<close>

function ReplaceAll :: "string \<Rightarrow> string \<Rightarrow> string \<Rightarrow> string" where
  "ReplaceAll s old new =
     (if s = [] \<or> old = [] then s
      else if has_prefix old s then new @ ReplaceAll (drop (length old) s) old new
      else hd s # ReplaceAll (tl s) old new)"
  by pat_completeness auto
termination
  by (relation "measure (\<lambda>(s, old, new). length s)") auto

declare ReplaceAll.simps [simp del]

definition to_lower :: "char \<Rightarrow> char" where
  "to_lower c = (if 65 \<le> (of_char c :: nat) \<and> (of_char c :: nat) \<le> 90 then char_of ((of_char c :: nat) + 32) else c)"

definition to_upper :: "char \<Rightarrow> char" where
  "to_upper c = (if 97 \<le> (of_char c :: nat) \<and> (of_char c :: nat) \<le> 122 then char_of ((of_char c :: nat) - 32) else c)"

section \<open>The transformation\<close>

datatype env_value = One string | Many "string list"

definition TransformFunc :: "string \<Rightarrow> string \<Rightarrow> string \<Rightarrow> string \<times> env_value" where
  "TransformFunc prefix k v =
     (let k = TrimPrefix k prefix;
          k = ReplaceAll k ''_'' ''.'';
          k = ReplaceAll k ''..'' ''_'';
          k = map to_lower k in
      if CHR '' '' \<in> set v then (k, Many (split_on (CHR '' '') v)) else (k, One v))"

text \<open>
  \<^verbatim>\<open>ReadAuthConfig\<close> and its siblings, over the working directory, the variable \<^verbatim>\<open>ENV\<close>, the loaded
  file and the other variables. \<^verbatim>\<open>Fatal\<close> is the error result.
\<close>

record os_env =
  os_Getwd :: "go_error + string"
  os_ENV :: string
  os_vars :: "(string \<times> string) list"
  config_file :: "string \<Rightarrow> go_error + (string \<times> env_value) list"
  env_error :: "go_error option"
  koanf_Load :: "(string \<times> env_value) list \<Rightarrow> (string \<rightharpoonup> env_value) \<Rightarrow> (string \<rightharpoonup> env_value)"
  unmarshal_error :: "(string \<rightharpoonup> env_value) \<Rightarrow> go_error option"

text \<open>
  The configuration library documents that a later load overrides what was there. A loaded key
  has its value unless the same load also sets it otherwise, or sets a key above or below it.
\<close>

definition key_related :: "string \<Rightarrow> string \<Rightarrow> bool" where
  "key_related k k' \<longleftrightarrow> k = k' \<or> has_prefix (k @ ''.'') k' \<or> has_prefix (k' @ ''.'') k"

definition koanf_ok :: "((string \<times> 'v) list \<Rightarrow> (string \<rightharpoonup> 'v) \<Rightarrow> (string \<rightharpoonup> 'v)) \<Rightarrow> bool" where
  "koanf_ok ld \<longleftrightarrow> (\<forall>kvs m k v. (k, v) \<in> set kvs \<and> (\<forall>(k', v') \<in> set kvs. key_related k k' \<longrightarrow> (k', v') = (k, v)) \<longrightarrow>
     ld kvs m k = Some v)"

definition configPath :: "string \<Rightarrow> os_env \<Rightarrow> string \<Rightarrow> string" where
  "configPath service e dir =
     (let environment = (if os_ENV e = [] then ''development'' else os_ENV e)
      in dir @ ''/deployment/'' @ service @ ''/'' @ environment @ ''/config.yaml'')"

definition ReadConfig :: "string \<Rightarrow> string \<Rightarrow> os_env \<Rightarrow> go_error + (string \<rightharpoonup> env_value)" where
  "ReadConfig service prefix e =
     (case os_Getwd e of
        Inl err \<Rightarrow> Inl (WrapError ''unable to get working directory'' err)
      | Inr dir \<Rightarrow>
          (case config_file e (configPath service e dir) of
             Inl err \<Rightarrow> Inl (WrapError ''unable to load config'' err)
           | Inr kvs \<Rightarrow>
               (case env_error e of
                  Some err \<Rightarrow> Inl (WrapError ''unable to read config'' err)
                | None \<Rightarrow>
                    (let vars = map (\<lambda>(k, v). TransformFunc prefix k v) (filter (\<lambda>(k, v). has_prefix prefix k) (os_vars e));
                         cfg = koanf_Load e vars (koanf_Load e kvs (\<lambda>_. None)) in
                     case unmarshal_error e cfg of
                       Some err \<Rightarrow> Inl (WrapError ''unable to unmarshal config'' err)
                     | None \<Rightarrow> Inr cfg))))"

definition ReadAuthConfig :: "os_env \<Rightarrow> go_error + (string \<rightharpoonup> env_value)" where
  "ReadAuthConfig = ReadConfig ''auth'' ''AUTH_''"

definition ReadWalletConfig :: "os_env \<Rightarrow> go_error + (string \<rightharpoonup> env_value)" where
  "ReadWalletConfig = ReadConfig ''wallet'' ''WALLET_''"

definition ReadNotificationConfig :: "os_env \<Rightarrow> go_error + (string \<rightharpoonup> env_value)" where
  "ReadNotificationConfig = ReadConfig ''notification'' ''NOTIFICATION_''"

definition ReadDocsConfig :: "os_env \<Rightarrow> go_error + (string \<rightharpoonup> env_value)" where
  "ReadDocsConfig = ReadConfig ''docs'' ''DOCS_''"

section \<open>The name of a key\<close>

text \<open>
  The convention the services' \<^verbatim>\<open>.env.example\<close> follows: a dot of the key is one underscore of
  the name, an underscore of the key two, letters are in upper case.
\<close>

fun name_char :: "char \<Rightarrow> string" where
  "name_char c = (if c = CHR ''.'' then ''_'' else if c = CHR ''_'' then ''__'' else [to_upper c])"

definition env_name :: "string \<Rightarrow> string \<Rightarrow> string" where
  "env_name prefix key = prefix @ concat (map name_char key)"

definition special :: "char \<Rightarrow> bool" where
  "special c \<longleftrightarrow> c = CHR ''.'' \<or> c = CHR ''_''"

text \<open>A key without capitals in which dots and underscores do not touch.\<close>

fun plain_key :: "string \<Rightarrow> bool" where
  "plain_key [] = True"
| "plain_key [c] = (to_lower c = c)"
| "plain_key (c # d # cs) = (to_lower c = c \<and> \<not> (special c \<and> special d) \<and> plain_key (d # cs))"

lemma ReplaceAll_Nil [simp]: "ReplaceAll [] old new = []"
  by (simp add: ReplaceAll.simps)

lemma ReplaceAll_hit: "old \<noteq> [] \<Longrightarrow> ReplaceAll (old @ s) old new = new @ ReplaceAll s old new"
  by (subst ReplaceAll.simps) (simp add: has_prefix_append)

lemma ReplaceAll_miss: "\<not> has_prefix old (c # s) \<Longrightarrow> ReplaceAll (c # s) old new = (if old = [] then c # s else c # ReplaceAll s old new)"
  by (subst ReplaceAll.simps) simp

lemma ReplaceAll_char: "ReplaceAll s [a] [b] = map (\<lambda>c. if c = a then b else c) s"
proof (induction s)
  case (Cons c s)
  then show ?case using ReplaceAll_hit [of "[a]" s "[b]"] ReplaceAll_miss [of "[a]" c s "[b]"] by auto
qed simp

lemma to_lower_upper: "to_lower c = c \<Longrightarrow> to_lower (to_upper c) = c"
  by (auto simp: to_lower_def to_upper_def split: if_splits)

lemma to_upper_special:
  "to_upper c = CHR ''.'' \<longleftrightarrow> c = CHR ''.''" "to_upper c = CHR ''_'' \<longleftrightarrow> c = CHR ''_''"
  "CHR ''.'' = to_upper c \<longleftrightarrow> c = CHR ''.''"
  by (auto simp: to_upper_def split: if_splits dest!: arg_cong [where f = "of_char :: char \<Rightarrow> nat"])

text \<open>After the first replacement a dot of the key is one dot and an underscore two.\<close>

fun dotted :: "char \<Rightarrow> string" where
  "dotted c = (if c = CHR ''.'' then ''.'' else if c = CHR ''_'' then ''..'' else [to_upper c])"

lemma first_replacement: "ReplaceAll (concat (map name_char key)) ''_'' ''.'' = concat (map dotted key)"
  unfolding ReplaceAll_char by (induction key) (simp_all add: to_upper_special)

lemma second_replacement: "plain_key key \<Longrightarrow> ReplaceAll (concat (map dotted key)) ''..'' ''_'' = map to_upper key"
proof (induction key rule: plain_key.induct)
  case (2 c)
  then show ?case
    using ReplaceAll_hit [of "''..''" "[]" "''_''"] by (auto simp: ReplaceAll_miss to_upper_special to_upper_def)
next
  case (3 c d cs)
  define rest where "rest = concat (map dotted (d # cs))"
  have IH: "ReplaceAll rest ''..'' ''_'' = map to_upper (d # cs)" using 3 by (simp only: rest_def plain_key.simps)
  have key: "concat (map dotted (c # d # cs)) = dotted c @ rest" by (simp only: rest_def list.map concat.simps)
  consider "c = CHR ''_''" | "c = CHR ''.''" | "\<not> special c" by (auto simp: special_def)
  then show ?case
  proof cases
    case 1
    then show ?thesis unfolding key using ReplaceAll_hit [of "''..''" rest "''_''"] IH by (simp add: to_upper_def)
  next
    case 2
    then have "\<not> special d" using 3 by (simp add: special_def)
    then have "\<not> has_prefix ''..'' (CHR ''.'' # rest)" by (simp add: rest_def special_def to_upper_special)
    from ReplaceAll_miss [OF this] show ?thesis unfolding key using 2 IH by (simp add: to_upper_def)
  next
    case 3
    then have "\<not> has_prefix ''..'' (to_upper c # rest)" by (simp add: special_def to_upper_special)
    from ReplaceAll_miss [OF this] show ?thesis unfolding key using 3 IH by (simp add: special_def)
  qed
qed simp

lemma plain_key_lower: "plain_key key \<Longrightarrow> map (to_lower \<circ> to_upper) key = key"
  by (induction key rule: plain_key.induct) (simp_all add: to_lower_upper)

lemma transform_key: "plain_key key \<Longrightarrow> fst (TransformFunc prefix (env_name prefix key) v) = key"
  by (simp add: TransformFunc_def Let_def env_name_def first_replacement second_replacement plain_key_lower)

section \<open>Theorems\<close>

text \<open>
  Every configuration key can be set from the environment. For a key without capitals in
  which dots and underscores do not touch, the variable named by the convention (prefix, one
  underscore for a dot, two for an underscore) is turned back into exactly that key, its
  value is the variable's, split at spaces when it has any; and when no other variable names
  the key, the loaded configuration has that value, whatever the file says.
\<close>

theorem env_name_roundtrip:
  assumes "plain_key key" "koanf_ok (koanf_Load e)"
  shows "TransformFunc prefix (env_name prefix key) v =
      (key, if CHR '' '' \<in> set v then Many (split_on (CHR '' '') v) else One v) \<and>
    (ReadConfig service prefix e = Inr cfg \<and> (env_name prefix key, v) \<in> set (os_vars e) \<and>
     (\<forall>(k, v') \<in> set (os_vars e). has_prefix prefix k \<and> key_related key (fst (TransformFunc prefix k v')) \<longrightarrow>
        (k, v') = (env_name prefix key, v)) \<longrightarrow>
     cfg key = Some (snd (TransformFunc prefix (env_name prefix key) v)))"
proof (intro conjI impI)
  show t: "TransformFunc prefix (env_name prefix key) v =
      (key, if CHR '' '' \<in> set v then Many (split_on (CHR '' '') v) else One v)"
    using transform_key [OF assms(1), of prefix v] by (auto simp: TransformFunc_def Let_def split: if_splits)
  assume h: "ReadConfig service prefix e = Inr cfg \<and> (env_name prefix key, v) \<in> set (os_vars e) \<and>
     (\<forall>(k, v') \<in> set (os_vars e). has_prefix prefix k \<and> key_related key (fst (TransformFunc prefix k v')) \<longrightarrow>
        (k, v') = (env_name prefix key, v))"
  define vars where "vars = map (\<lambda>(k, v). TransformFunc prefix k v) (filter (\<lambda>(k, v). has_prefix prefix k) (os_vars e))"
  define x where "x = snd (TransformFunc prefix (env_name prefix key) v)"
  obtain kvs where cfg: "cfg = koanf_Load e vars (koanf_Load e kvs (\<lambda>_. None))"
    using h by (auto simp: ReadConfig_def vars_def Let_def split: sum.splits option.splits)
  have eq: "TransformFunc prefix (env_name prefix key) v = (key, x)" unfolding x_def using t by simp
  have "has_prefix prefix (env_name prefix key)" by (simp add: env_name_def)
  then have "(key, x) \<in> set vars" using h eq unfolding vars_def by force
  moreover have "\<forall>(k', v') \<in> set vars. key_related key k' \<longrightarrow> (k', v') = (key, x)"
  proof (intro ballI, clarify)
    fix k' x' assume "(k', x') \<in> set vars" "key_related key k'"
    then obtain k v' where "(k, v') \<in> set (os_vars e)" "has_prefix prefix k" "TransformFunc prefix k v' = (k', x')"
      by (auto simp: vars_def)
    then show "k' = key \<and> x' = x" using h eq \<open>key_related key k'\<close> by fastforce
  qed
  ultimately show "cfg key = Some x" using assms(2) unfolding cfg koanf_ok_def by blast
qed

text \<open>
  The variables \<^verbatim>\<open>.env.example\<close> lists for the push provider do not reach it: the sender reads the
  keys under \<^verbatim>\<open>sender.one_signal\<close>, the variables are turned into keys under \<^verbatim>\<open>one_signal\<close>.
\<close>

theorem one_signal_variables_miss:
  "fst (TransformFunc ''NOTIFICATION_'' ''NOTIFICATION_ONE__SIGNAL_APP__ID'' v) = ''one_signal.app_id'' \<and>
   fst (TransformFunc ''NOTIFICATION_'' ''NOTIFICATION_SENDER_ONE__SIGNAL_APP__ID'' v) = ''sender.one_signal.app_id''"
proof -
  have "plain_key ''one_signal.app_id''" "plain_key ''sender.one_signal.app_id''"
    by (simp_all add: to_lower_def special_def)
  moreover have "env_name ''NOTIFICATION_'' ''one_signal.app_id'' = ''NOTIFICATION_ONE__SIGNAL_APP__ID''"
    "env_name ''NOTIFICATION_'' ''sender.one_signal.app_id'' = ''NOTIFICATION_SENDER_ONE__SIGNAL_APP__ID''"
    by code_simp+
  ultimately show ?thesis using transform_key by metis
qed

definition sample_os_env :: os_env where
  "sample_os_env = \<lparr>os_Getwd = Inr ''/srv'', os_ENV = ''production'', os_vars = [(''AUTH_SERVICE_JWT__SECRET'', ''secret'')],
     config_file = (\<lambda>_. Inr [(''service.jwt_secret'', One ''changeme'')]), env_error = None,
     koanf_Load = (\<lambda>kvs m. m ++ map_of (rev kvs)), unmarshal_error = (\<lambda>_. None)\<rparr>"

lemma last_load_wins: "koanf_ok (\<lambda>kvs m. m ++ map_of (rev kvs))"
proof -
  have "map_of (rev kvs) k = Some v"
    if "(k, v) \<in> set kvs" "\<forall>(k', v') \<in> set kvs. key_related k k' \<longrightarrow> (k', v') = (k, v)" for kvs and k :: string and v :: 'b
  proof -
    have "k \<in> fst ` set (rev kvs)" using that(1) by force
    then obtain x where x: "map_of (rev kvs) k = Some x" by (metis map_of_eq_None_iff not_None_eq)
    then have "(k, x) \<in> set kvs" using map_of_SomeD by fastforce
    then show ?thesis using x that(2) by (auto simp: key_related_def)
  qed
  then show ?thesis unfolding koanf_ok_def by (intro allI impI, elim conjE) (rule map_add_find_right)
qed

theorem env_name_roundtrip_witness:
  "TransformFunc ''AUTH_'' ''AUTH_SERVICE_JWT__SECRET'' ''secret'' = (''service.jwt_secret'', One ''secret'') \<and>
   (\<exists>cfg. ReadAuthConfig sample_os_env = Inr cfg \<and> cfg ''service.jwt_secret'' = Some (One ''secret''))"
proof -
  have k: "plain_key ''service.jwt_secret''" by (simp add: to_lower_def special_def)
  have n: "env_name ''AUTH_'' ''service.jwt_secret'' = ''AUTH_SERVICE_JWT__SECRET''" by code_simp
  have v: "CHR '' '' \<notin> set ''secret''" by simp
  have "koanf_ok (koanf_Load sample_os_env)" using last_load_wins by (simp add: sample_os_env_def)
  note r = env_name_roundtrip [OF k this, of "''AUTH_''" "''secret''", unfolded n]
  have t: "TransformFunc ''AUTH_'' ''AUTH_SERVICE_JWT__SECRET'' ''secret'' = (''service.jwt_secret'', One ''secret'')"
    using conjunct1 [OF r] by (simp only: v if_False)
  obtain cfg where c: "ReadConfig ''auth'' ''AUTH_'' sample_os_env = Inr cfg"
    by (simp add: ReadConfig_def sample_os_env_def Let_def)
  have "(''AUTH_SERVICE_JWT__SECRET'', ''secret'') \<in> set (os_vars sample_os_env) \<and>
      (\<forall>(k, v') \<in> set (os_vars sample_os_env). has_prefix ''AUTH_'' k \<and> key_related ''service.jwt_secret'' (fst (TransformFunc ''AUTH_'' k v')) \<longrightarrow>
         (k, v') = (''AUTH_SERVICE_JWT__SECRET'', ''secret''))"
    by (simp add: sample_os_env_def)
  then have "cfg ''service.jwt_secret'' = Some (snd (TransformFunc ''AUTH_'' ''AUTH_SERVICE_JWT__SECRET'' ''secret''))"
    using conjunct2 [OF r] c by blast
  then show ?thesis using c t by (simp add: ReadAuthConfig_def)
qed

end
