(* ===== verification/Commands.thy ===== *)
theory Commands
  imports Setup Lifecycle EnvConfig
begin

text \<open>
  The commands of the four services (\<^verbatim>\<open>cmd/*/commands/serve.go\<close> and \<^verbatim>\<open>migrate.go\<close>) with the
  constructors they call: \<^verbatim>\<open>pkg/otel\<close>, \<^verbatim>\<open>pkg/database\<close>, \<^verbatim>\<open>pkg/redis\<close>. The libraries behind them are
  calls that leave the process. The state is the list of what has been opened and closed, in
  order. \<^verbatim>\<open>Fatal\<close> exits the process at once: the error result, without the deferred calls.
\<close>

datatype act =
    TracerSet
  | TracerShutdown
  | MeterSet
  | DbOpen
  | DbClose
  | MigrationsRun string string
  | RedisOpen
  | RedisClose
  | Served

type_synonym 'a command = "(act list, 'a) wprog"

definition note_act :: "act \<Rightarrow> unit command" where
  "note_act a w = (Inr (), w\<lparr>db := db w @ [a]\<rparr>)"

section \<open>Constructors\<close>

definition newTraceProvider :: "unit command" where
  "newTraceProvider = call outside (\<lambda>err. fail (WrapError ''failed to create resource: '' err)) ret"

definition InitTracer :: "unit command" where
  "InitTracer =
     call outside (\<lambda>err. fail (WrapError ''failed to create grpc connection: '' err)) (\<lambda>_.
     call outside (\<lambda>err. fail (WrapError ''failed to create trace exporter: '' err)) (\<lambda>_.
     call newTraceProvider fail (\<lambda>_.
     note_act TracerSet)))"

definition InitMetrics :: "unit command" where
  "InitMetrics =
     call outside (\<lambda>err. fail (WrapError ''failed to create grpc connection: '' err)) (\<lambda>_.
     call outside (\<lambda>err. fail (WrapError ''failed to create metric exporter: '' err)) (\<lambda>_.
     call outside (\<lambda>err. fail (WrapError ''failed to create resource: '' err)) (\<lambda>_.
     note_act MeterSet)))"

record MySQL =
  my_Host :: string
  my_Port :: int
  my_Username :: string
  my_Password :: string
  my_Database :: string

definition dsn :: "MySQL \<Rightarrow> string" where
  "dsn cfg = my_Username cfg @ '':'' @ my_Password cfg @ ''@('' @ my_Host cfg @ '':'' @ int_to_string (my_Port cfg) @ '')/'' @
     my_Database cfg @ ''?parseTime=true''"

definition database_Connect :: "MySQL \<Rightarrow> string command" where
  "database_Connect cfg = call outside fail (\<lambda>_. call (note_act DbOpen) fail (\<lambda>_. ret (dsn cfg)))"

definition database_Close :: "unit command" where
  "database_Close = call (note_act DbClose) fail (\<lambda>_. outside)"

definition database_SetLogger :: "unit command" where
  "database_SetLogger = outside"

record redis_Config =
  rd_Host :: string
  rd_Port :: int
  rd_Password :: string
  rd_DB :: int

definition redis_New :: "redis_Config \<Rightarrow> string command" where
  "redis_New config =
     (let addr = rd_Host config @ '':'' @ int_to_string (rd_Port config) in
      call outside (\<lambda>err. fail (WrapError ''failed to connect to redis: '' err)) (\<lambda>_.
      call (note_act RedisOpen) fail (\<lambda>_. ret addr)))"

definition redis_Close :: "bool \<Rightarrow> unit command" where
  "redis_Close client_nil =
     (if client_nil then ret ()
      else call (note_act RedisClose) fail (\<lambda>_.
           call outside (\<lambda>err. fail (WrapError ''failed to close redis: '' err)) ret))"

section \<open>Migrations\<close>

text \<open>
  The three services have copies of one file that differ in the configuration they read, in the
  table of the schema's version and in the directory of the migrations. The error of
  \<^verbatim>\<open>mysql.WithInstance\<close> is overwritten by that of the next call.
\<close>

record migration_set =
  mg_table :: string
  mg_source :: string

definition auth_migrations :: migration_set where
  "auth_migrations = \<lparr>mg_table = ''auth_schema_migrations'', mg_source = ''file://internal/auth/repository/migrations''\<rparr>"

definition wallet_migrations :: migration_set where
  "wallet_migrations = \<lparr>mg_table = ''wallet_schema_migrations'', mg_source = ''file://internal/wallet/repository/migrations''\<rparr>"

definition notification_migrations :: migration_set where
  "notification_migrations = \<lparr>mg_table = ''notification_schema_migrations'', mg_source = ''file://internal/notification/repository/migrations''\<rparr>"

definition migrateDatabase :: "MySQL \<Rightarrow> unit command" where
  "migrateDatabase cfg =
     call database_SetLogger (fatal ''failed to set logger'') (\<lambda>_.
     call (database_Connect cfg) (fatal ''database connection failed'') (\<lambda>_.
     let new = call outside (fatal ''failed to migrate'') (\<lambda>_. ret ())
     in call outside (\<lambda>err. new) (\<lambda>driver. new)))"

abbreviation migrated :: "migration_set \<Rightarrow> act" where
  "migrated M \<equiv> MigrationsRun (mg_table M) (mg_source M)"

definition migrate_run :: "migration_set \<Rightarrow> (go_error \<Rightarrow> bool) \<Rightarrow> string \<Rightarrow> unit command" where
  "migrate_run M is_ErrNoChange what =
     call outside (\<lambda>err. if is_ErrNoChange err then ret () else fatal what err) (\<lambda>_. note_act (migrated M))"

definition migrateUpCmd :: "migration_set \<Rightarrow> unit command \<Rightarrow> (go_error \<Rightarrow> bool) \<Rightarrow> unit command" where
  "migrateUpCmd M database is_ErrNoChange =
     call database fail (\<lambda>_. migrate_run M is_ErrNoChange ''migration up failed'')"

definition migrateDownCmd :: "migration_set \<Rightarrow> unit command \<Rightarrow> (go_error \<Rightarrow> bool) \<Rightarrow> unit command" where
  "migrateDownCmd M database is_ErrNoChange =
     call database fail (\<lambda>_. migrate_run M is_ErrNoChange ''migration down failed'')"

definition auth_migrateDatabase :: "MySQL \<Rightarrow> unit command" where
  "auth_migrateDatabase = migrateDatabase"

definition wallet_migrateDatabase :: "MySQL \<Rightarrow> unit command" where
  "wallet_migrateDatabase = migrateDatabase"

definition notification_migrateDatabase :: "MySQL \<Rightarrow> unit command" where
  "notification_migrateDatabase = migrateDatabase"

definition auth_migrateUpCmd :: "(go_error \<Rightarrow> bool) \<Rightarrow> MySQL \<Rightarrow> unit command" where
  "auth_migrateUpCmd is_ErrNoChange cfg = migrateUpCmd auth_migrations (auth_migrateDatabase cfg) is_ErrNoChange"

definition auth_migrateDownCmd :: "(go_error \<Rightarrow> bool) \<Rightarrow> MySQL \<Rightarrow> unit command" where
  "auth_migrateDownCmd is_ErrNoChange cfg = migrateDownCmd auth_migrations (auth_migrateDatabase cfg) is_ErrNoChange"

definition wallet_migrateUpCmd :: "(go_error \<Rightarrow> bool) \<Rightarrow> MySQL \<Rightarrow> unit command" where
  "wallet_migrateUpCmd is_ErrNoChange cfg = migrateUpCmd wallet_migrations (wallet_migrateDatabase cfg) is_ErrNoChange"

definition wallet_migrateDownCmd :: "(go_error \<Rightarrow> bool) \<Rightarrow> MySQL \<Rightarrow> unit command" where
  "wallet_migrateDownCmd is_ErrNoChange cfg = migrateDownCmd wallet_migrations (wallet_migrateDatabase cfg) is_ErrNoChange"

definition notification_migrateUpCmd :: "(go_error \<Rightarrow> bool) \<Rightarrow> MySQL \<Rightarrow> unit command" where
  "notification_migrateUpCmd is_ErrNoChange cfg = migrateUpCmd notification_migrations (notification_migrateDatabase cfg) is_ErrNoChange"

definition notification_migrateDownCmd :: "(go_error \<Rightarrow> bool) \<Rightarrow> MySQL \<Rightarrow> unit command" where
  "notification_migrateDownCmd is_ErrNoChange cfg = migrateDownCmd notification_migrations (notification_migrateDatabase cfg) is_ErrNoChange"

section \<open>Serving\<close>

text \<open>
  The parts before and after the application's own \<^verbatim>\<open>Setup\<close> and \<^verbatim>\<open>Start\<close>, which are the argument
  \<open>app\<close>. The deferred calls run when \<open>app\<close> returns, the latest first; their errors are logged.
\<close>

definition deferred :: "unit command \<Rightarrow> unit command \<Rightarrow> unit command" where
  "deferred d m = call m fail (\<lambda>_. call d (\<lambda>_. ret ()) (\<lambda>_. ret ()))"

definition shutdown_tracer :: "unit command" where
  "shutdown_tracer = call (note_act TracerShutdown) fail (\<lambda>_. outside)"

definition serve_with :: "unit command \<Rightarrow> unit command" where
  "serve_with inner =
     call InitTracer (fatal ''failed to init tracer'') (\<lambda>_.
     deferred shutdown_tracer (
     call InitMetrics (fatal ''failed to init metrics'') (\<lambda>_. inner)))"

definition serve_database :: "unit command \<Rightarrow> bool \<Rightarrow> MySQL \<Rightarrow> unit command \<Rightarrow> unit command" where
  "serve_database migrate migrateUp cfg inner =
     call database_SetLogger (fatal ''failed to set logger'') (\<lambda>_.
     call (if migrateUp then migrate else ret ()) fail (\<lambda>_.
     call (database_Connect cfg) (fatal ''database connection failed'') (\<lambda>_.
     deferred database_Close inner)))"

definition auth_command_serve :: "(go_error \<Rightarrow> bool) \<Rightarrow> bool \<Rightarrow> MySQL \<Rightarrow> unit command \<Rightarrow> unit command" where
  "auth_command_serve is_ErrNoChange migrateUp cfg app = serve_with (serve_database (auth_migrateUpCmd is_ErrNoChange cfg) migrateUp cfg app)"

definition wallet_command_serve :: "(go_error \<Rightarrow> bool) \<Rightarrow> bool \<Rightarrow> MySQL \<Rightarrow> unit command \<Rightarrow> unit command" where
  "wallet_command_serve is_ErrNoChange migrateUp cfg app = serve_with (serve_database (wallet_migrateUpCmd is_ErrNoChange cfg) migrateUp cfg app)"

definition notification_command_serve :: "(go_error \<Rightarrow> bool) \<Rightarrow> bool \<Rightarrow> MySQL \<Rightarrow> redis_Config \<Rightarrow> unit command \<Rightarrow> unit command" where
  "notification_command_serve is_ErrNoChange migrateUp cfg rcfg app =
     serve_with (serve_database (notification_migrateUpCmd is_ErrNoChange cfg) migrateUp cfg (
       call (redis_New rcfg) (fatal ''failed to connect to redis'') (\<lambda>_. app)))"

definition docs_command_serve :: "unit command \<Rightarrow> unit command" where
  "docs_command_serve app = serve_with app"

section \<open>What a command leaves open\<close>

lemma note_act_effect: "note_act a w = (r, w') \<Longrightarrow> r = Inr () \<and> db w' = db w @ [a]"
  by (auto simp: note_act_def)

lemma InitTracer_effect: "InitTracer w = (Inr x, w') \<Longrightarrow> db w' = db w @ [TracerSet]"
  unfolding InitTracer_def newTraceProvider_def by (auto elim!: call_cases dest!: outside_db note_act_effect)

lemma InitMetrics_effect: "InitMetrics w = (Inr x, w') \<Longrightarrow> db w' = db w @ [MeterSet]"
  unfolding InitMetrics_def by (auto elim!: call_cases dest!: outside_db note_act_effect)

lemma Connect_effect: "database_Connect cfg w = (Inr x, w') \<Longrightarrow> db w' = db w @ [DbOpen]"
  unfolding database_Connect_def by (auto elim!: call_cases dest!: outside_db note_act_effect)

lemma redis_New_effect: "redis_New cfg w = (Inr x, w') \<Longrightarrow> db w' = db w @ [RedisOpen]"
  unfolding redis_New_def Let_def by (auto elim!: call_cases dest!: outside_db note_act_effect)

lemma deferred_effect:
  assumes "deferred d m w = (Inr x, w')"
  shows "\<exists>y v r. m w = (Inr y, v) \<and> d v = (r, w')"
  using assms unfolding deferred_def by (auto elim!: call_cases)

lemma deferred_fails: "deferred d m w = (Inl e, w') \<Longrightarrow> m w = (Inl e, w')"
  unfolding deferred_def by (cases "m w") (auto simp: call_def split: sum.splits prod.splits)

lemma closing_effect:
  "database_Close w = (r, w') \<Longrightarrow> db w' = db w @ [DbClose]" "shutdown_tracer w = (r, w') \<Longrightarrow> db w' = db w @ [TracerShutdown]"
  unfolding database_Close_def shutdown_tracer_def by (auto elim!: call_cases dest!: outside_db note_act_effect)

lemma migrateUp_effect:
  assumes "migrateUpCmd M (migrateDatabase cfg) is_ErrNoChange w = (Inr x, w')"
  shows "\<exists>ms. db w' = db w @ DbOpen # ms \<and> ms \<in> {[], [migrated M]}"
  using assms unfolding migrateUpCmd_def migrateDatabase_def migrate_run_def database_SetLogger_def Let_def fatal_def
  by (auto elim!: call_cases dest!: outside_db note_act_effect Connect_effect split: if_splits)

definition serving :: "migration_set \<Rightarrow> bool \<Rightarrow> act list \<Rightarrow> act list \<Rightarrow> bool" where
  "serving M migrateUp inner acts \<longleftrightarrow>
     (\<exists>ms. (if migrateUp then ms \<in> {[DbOpen], [DbOpen, migrated M]} else ms = []) \<and>
        acts = [TracerSet, MeterSet] @ ms @ [DbOpen] @ inner @ [DbClose, TracerShutdown])"

lemma serve_database_effect:
  assumes "serve_database (migrateUpCmd M (migrateDatabase cfg) nc) migrateUp cfg inner w = (Inr x, w')"
    and "\<And>v r v'. inner v = (Inr r, v') \<Longrightarrow> db v' = db v @ acts"
  shows "\<exists>ms. (if migrateUp then ms \<in> {[DbOpen], [DbOpen, migrated M]} else ms = []) \<and>
    db w' = db w @ ms @ [DbOpen] @ acts @ [DbClose]"
proof -
  let ?ms = "\<lambda>ms. if migrateUp then ms \<in> {[DbOpen], [DbOpen, migrated M]} else ms = []"
  have close: "yields (deferred database_Close inner) v (\<lambda>x w'. db w' = db v @ acts @ [DbClose])" for v
    unfolding yields_def by (auto dest!: deferred_effect assms(2) closing_effect)
  have mig: "yields (if migrateUp then migrateUpCmd M (migrateDatabase cfg) nc else ret ()) v (\<lambda>x w'. \<exists>ms. ?ms ms \<and> db w' = db v @ ms)" for v
    by (auto simp: yields_def dest!: migrateUp_effect)
  have "yields (serve_database (migrateUpCmd M (migrateDatabase cfg) nc) migrateUp cfg inner) w (\<lambda>x w'. \<exists>ms. ?ms ms \<and> db w' = db w @ ms @ [DbOpen] @ acts @ [DbClose])"
    unfolding serve_database_def database_SetLogger_def
  proof (intro yields_fatal yields_call)
    fix x v y v1 z v2
    assume a: "outside w = (Inr x, v)" "(if migrateUp then migrateUpCmd M (migrateDatabase cfg) nc else ret ()) v = (Inr y, v1)" "database_Connect cfg v1 = (Inr z, v2)"
    then obtain ms where ms: "?ms ms" "db v1 = db v @ ms" using yieldsD [OF mig] by blast
    have "db v2 = db w @ ms @ [DbOpen]" using ms(2) outside_db [OF a(1)] Connect_effect [OF a(3)] by simp
    then have "yields (deferred database_Close inner) v2 (\<lambda>x w'. db w' = db w @ ms @ [DbOpen] @ acts @ [DbClose])"
      using close [of v2] by simp
    then show "yields (deferred database_Close inner) v2 (\<lambda>x w'. \<exists>ms. ?ms ms \<and> db w' = db w @ ms @ [DbOpen] @ acts @ [DbClose])"
      using ms(1) unfolding yields_def by blast
  qed (simp add: yields_def)
  from yieldsD [OF this assms(1)] show ?thesis .
qed

lemma serve_with_effect:
  assumes "serve_with inner w = (Inr x, w')" "\<And>v r v'. inner v = (Inr r, v') \<Longrightarrow> \<exists>as. db v' = db v @ as \<and> P as"
  shows "\<exists>as. db w' = db w @ [TracerSet, MeterSet] @ as @ [TracerShutdown] \<and> P as"
  using assms(1) unfolding serve_with_def
  by (auto elim!: call_cases dest!: InitTracer_effect InitMetrics_effect deferred_effect assms(2) closing_effect simp: fatal_def)

lemma keeps_note [keep_rules]: "(\<And>as. P as \<Longrightarrow> P (as @ [a])) \<Longrightarrow> keeps_db P (note_act a)"
  by (simp add: keeps_def note_act_def)

lemma keeps_fatal [keep_rules]: "keeps P (fatal msg e)"
  by (simp add: fatal_def keeps_fail)

abbreviation no_shutdown :: "act list \<Rightarrow> bool" where
  "no_shutdown as \<equiv> TracerShutdown \<notin> set as"

lemma keeps_commands [keep_rules]:
  "keeps_db no_shutdown InitTracer" "keeps_db no_shutdown InitMetrics" "keeps_db no_shutdown (database_Connect cfg)"
  "keeps_db no_shutdown database_Close" "keeps_db no_shutdown (redis_New rcfg)" "keeps_db no_shutdown database_SetLogger"
  unfolding InitTracer_def newTraceProvider_def InitMetrics_def database_Connect_def database_Close_def redis_New_def Let_def database_SetLogger_def
  by (rule keep_rules | simp)+

lemma keeps_serve_database:
  "keeps_db no_shutdown inner \<Longrightarrow> keeps_db no_shutdown (serve_database (migrateUpCmd M (migrateDatabase cfg) nc) migrateUp cfg inner)"
  unfolding serve_database_def migrateUpCmd_def migrateDatabase_def migrate_run_def deferred_def Let_def
  by (rule keep_rules | simp)+

lemma serve_with_fails:
  assumes "serve_with inner w = (Inl e, w')" "keeps_db no_shutdown inner" "no_shutdown (db w)"
  shows "no_shutdown (db w')"
proof -
  have k: "keeps_db no_shutdown (call InitMetrics (fatal msg) (\<lambda>_. inner))" for msg
    by (rule keep_rules assms(2) | simp)+
  show ?thesis
    using assms(1) unfolding serve_with_def
  proof (cases rule: call_cases)
    case (err e1 s')
    then show ?thesis
      using keepsD' [OF keeps_commands(1), of w] assms(3) by (auto simp: fatal_def)
  next
    case (ok x s')
    have s': "no_shutdown (db s')" using keepsD' [OF keeps_commands(1) _ ok(1)] assms(3) by simp
    from ok(2) have "call InitMetrics (fatal ''failed to init metrics'') (\<lambda>_. inner) s' = (Inl e, w')"
      by (rule deferred_fails)
    from keepsD' [OF k _ this] show ?thesis using s' by simp
  qed
qed

section \<open>Theorems\<close>

text \<open>
  What serving leaves behind. When the notification service's \<^verbatim>\<open>serve\<close> returns, the
  connection to the database that the application used has been closed and then the tracer shut
  down, in this order and after everything else; the connection of the migrations, the Redis
  client and the meter provider are left open. When it ends through \<^verbatim>\<open>Fatal\<close>, the deferred calls
  do not run: the tracer is never shut down, so the spans that tell why are not flushed.
\<close>

theorem serve_resources:
  assumes "\<And>v r v'. app v = (Inr r, v') \<Longrightarrow> db v' = db v @ [Served]" "keeps_db no_shutdown app" "db w = []"
  shows "(notification_command_serve nc migrateUp cfg rcfg app w = (Inr x, w') \<longrightarrow> serving notification_migrations migrateUp [RedisOpen, Served] (db w')) \<and>
    (notification_command_serve nc migrateUp cfg rcfg app w = (Inl e, w') \<longrightarrow> TracerShutdown \<notin> set (db w'))"
proof -
  let ?inner = "call (redis_New rcfg) (fatal ''failed to connect to redis'') (\<lambda>_. app)"
  have i: "db v' = db v @ [RedisOpen, Served]" if "?inner v = (Inr r, v')" for v r v'
    using that by (auto elim!: call_cases dest!: redis_New_effect assms(1) simp: fatal_def)
  have k: "keeps_db no_shutdown ?inner" by (rule keep_rules assms(2) | simp)+
  have "serving notification_migrations migrateUp [RedisOpen, Served] (db w')" if "notification_command_serve nc migrateUp cfg rcfg app w = (Inr x, w')"
  proof -
    let ?P = "\<lambda>as. \<exists>ms. (if migrateUp then ms \<in> {[DbOpen], [DbOpen, migrated notification_migrations]} else ms = []) \<and>
        as = ms @ [DbOpen] @ [RedisOpen, Served] @ [DbClose]"
    have inner: "\<exists>as. db v' = db v @ as \<and> ?P as" if "serve_database (notification_migrateUpCmd nc cfg) migrateUp cfg ?inner v = (Inr r, v')" for v r v'
    proof -
      have "\<exists>ms. (if migrateUp then ms \<in> {[DbOpen], [DbOpen, migrated notification_migrations]} else ms = []) \<and>
          db v' = db v @ ms @ [DbOpen] @ [RedisOpen, Served] @ [DbClose]"
        using that [unfolded notification_migrateUpCmd_def notification_migrateDatabase_def] by (rule serve_database_effect) (rule i)
      then show ?thesis by blast
    qed
    note sw = that [unfolded notification_command_serve_def]
    have "\<exists>as. db w' = db w @ [TracerSet, MeterSet] @ as @ [TracerShutdown] \<and> ?P as"
      using sw by (rule serve_with_effect) (rule inner)
    then obtain as ms where e: "db w' = db w @ [TracerSet, MeterSet] @ as @ [TracerShutdown]"
      "as = ms @ [DbOpen] @ [RedisOpen, Served] @ [DbClose]" and m: "if migrateUp then ms \<in> {[DbOpen], [DbOpen, migrated notification_migrations]} else ms = []"
      by (elim exE conjE)
    have "db w' = [TracerSet, MeterSet] @ ms @ [DbOpen] @ [RedisOpen, Served] @ [DbClose, TracerShutdown]"
      unfolding e assms(3) by (simp only: append_assoc append_Nil append_Cons)
    with m show ?thesis unfolding serving_def by (intro exI conjI)
  qed
  moreover have "TracerShutdown \<notin> set (db w')" if "notification_command_serve nc migrateUp cfg rcfg app w = (Inl e, w')"
    using serve_with_fails [OF that [unfolded notification_command_serve_def notification_migrateUpCmd_def notification_migrateDatabase_def] keeps_serve_database [OF k]] assms(3) by simp
  ultimately show ?thesis by blast
qed

theorem serve_resources_witness:
  "serving notification_migrations True [RedisOpen, Served] (db (snd (notification_command_serve (\<lambda>_. False) True
     \<lparr>my_Host = ''h'', my_Port = 1, my_Username = ''u'', my_Password = ''p'', my_Database = ''d''\<rparr>
     \<lparr>rd_Host = ''r'', rd_Port = 2, rd_Password = [], rd_DB = 0\<rparr> (note_act Served) (quiet_world []))))"
proof -
  let ?m = "\<lparr>my_Host = ''h'', my_Port = 1, my_Username = ''u'', my_Password = ''p'', my_Database = ''d''\<rparr>"
  let ?r = "\<lparr>rd_Host = ''r'', rd_Port = 2, rd_Password = [], rd_DB = 0\<rparr>"
  have "\<exists>w'. notification_command_serve (\<lambda>_. False) True ?m ?r (note_act Served) (quiet_world []) = (Inr (), w')"
    by (simp add: notification_command_serve_def notification_migrateUpCmd_def notification_migrateDatabase_def serve_with_def serve_database_def deferred_def migrateUpCmd_def migrateDatabase_def
        migrate_run_def InitTracer_def newTraceProvider_def InitMetrics_def database_SetLogger_def database_Connect_def
        redis_New_def database_Close_def shutdown_tracer_def note_act_def call_def outside_def Let_def quiet_world_def)
  then obtain w' where w': "notification_command_serve (\<lambda>_. False) True ?m ?r (note_act Served) (quiet_world []) = (Inr (), w')" ..
  have k: "keeps_db no_shutdown (note_act Served)" by (rule keep_rules | simp)+
  have s: "\<And>v r v'. note_act Served v = (Inr r, v') \<Longrightarrow> db v' = db v @ [Served]" using note_act_effect by blast
  show ?thesis
    using serve_resources [OF s k, where w = "quiet_world []" and w' = w' and nc = "\<lambda>_. False" and migrateUp = True and cfg = ?m and rcfg = ?r] w'
    by simp
qed

end
