(* ===== verification/TransferLocks.thy ===== *)
theory TransferLocks
  imports WalletProps
begin

text \<open>
  Transfers that run at the same time. \<open>Wallet\<close> runs \<^verbatim>\<open>Transfer\<close> as if it were alone; here every
  statement of its transaction is a step of its own, and the transactions share the row locks of
  the database: \<^verbatim>\<open>SELECT ... FOR UPDATE\<close> and \<^verbatim>\<open>UPDATE\<close> by primary key lock the row they find until the
  transaction ends, and wait while another one has it; when there is no row they lock the gap,
  which keeps the row from being inserted. Statements work on the committed rows and the
  transaction's own changes, which become visible with the commit. The booking of an entry refers
  to a row that is already locked. \<^verbatim>\<open>RunInTx\<close> does not roll back when its function fails: the
  transaction keeps its locks until the context of the request ends.
\<close>

section \<open>Statements and transactions\<close>

datatype stm = AddBalance int int | Book CreateTransactionRequest

fun exec_stm :: "int \<Rightarrow> stm \<Rightarrow> wallet_db \<Rightarrow> go_error + wallet_db" where
  "exec_stm n (AddBalance delta i) d = (case add_balance delta i n d of Inl e \<Rightarrow> Inl e | Inr (_, d') \<Rightarrow> Inr d')"
| "exec_stm n (Book r) d = (case insert_transaction r n d of Inl e \<Rightarrow> Inl e | Inr (_, d') \<Rightarrow> Inr d')"

text \<open>What a transaction sees: the committed tables with its own statements on top.\<close>

fun replay :: "(int \<times> stm) list \<Rightarrow> wallet_db \<Rightarrow> go_error + wallet_db" where
  "replay [] d = Inr d"
| "replay ((n, st) # log) d = (case exec_stm n st d of Inl e \<Rightarrow> Inl e | Inr d' \<Rightarrow> replay log d')"

record transfer_tx =
  tt_req :: TransferRequest
  tt_op :: string
  tt_ref1 :: string
  tt_ref2 :: string

datatype phase = Begun | GotBalance | Debited | BookedOut | Credited | BookedIn | Committed | Failed | Closed

record transfers =
  lk_db :: wallet_db
  lk_locks :: "int \<Rightarrow> nat option"
  lk_gaps :: "int \<Rightarrow> nat set"
  lk_phase :: "nat \<Rightarrow> phase"
  lk_log :: "nat \<Rightarrow> (int \<times> stm) list"
  lk_order :: "nat list"

definition lock_row :: "nat \<Rightarrow> int \<Rightarrow> (transfers \<Rightarrow> transfers) \<Rightarrow> transfers \<Rightarrow> transfers option" where
  "lock_row t i k s =
     (if balance_of (lk_db s) i = None then Some (k (s\<lparr>lk_gaps := (lk_gaps s)(i := insert t (lk_gaps s i))\<rparr>))
      else if lk_locks s i = None \<or> lk_locks s i = Some t then Some (k (s\<lparr>lk_locks := (lk_locks s)(i := Some t)\<rparr>))
      else None)"

definition enter :: "nat \<Rightarrow> phase \<Rightarrow> transfers \<Rightarrow> transfers" where
  "enter t ph s = s\<lparr>lk_phase := (lk_phase s)(t := ph)\<rparr>"

definition release :: "nat \<Rightarrow> transfers \<Rightarrow> transfers" where
  "release t s = s\<lparr>lk_locks := (\<lambda>i. if lk_locks s i = Some t then None else lk_locks s i),
     lk_gaps := (\<lambda>i. lk_gaps s i - {t}), lk_log := (lk_log s)(t := [])\<rparr>"

definition run_stm :: "int \<Rightarrow> nat \<Rightarrow> stm \<Rightarrow> phase \<Rightarrow> transfers \<Rightarrow> transfers" where
  "run_stm n t st ph s =
     (case replay (lk_log s t @ [(n, st)]) (lk_db s) of
        Inl err \<Rightarrow> enter t Failed s
      | Inr _ \<Rightarrow> enter t ph (s\<lparr>lk_log := (lk_log s)(t := lk_log s t @ [(n, st)])\<rparr>))"

text \<open>
  The next statement of transaction \<open>t\<close> at time \<open>n\<close>, in the order of \<^const>\<open>transfer_body\<close>; the
  result is \<open>None\<close> while it waits for a lock.
\<close>

definition transfer_step :: "(nat \<Rightarrow> transfer_tx) \<Rightarrow> int \<Rightarrow> nat \<Rightarrow> transfers \<Rightarrow> transfers option" where
  "transfer_step X n t s =
     (let req = tt_req (X t) in
      case lk_phase s t of
        Begun \<Rightarrow>
          lock_row t (SourceId req) (\<lambda>s.
            case select_balance (SourceId req) (lk_db s) of
              Inl err \<Rightarrow> enter t Failed s
            | Inr sourceBalance \<Rightarrow> enter t (if sourceBalance < Amount req then Failed else GotBalance) s) s
      | GotBalance \<Rightarrow> lock_row t (SourceId req) (run_stm n t (AddBalance (- Amount req) (SourceId req)) Debited) s
      | Debited \<Rightarrow> Some (run_stm n t (Book (debit_entry req (tt_op (X t)) (tt_ref1 (X t)))) BookedOut s)
      | BookedOut \<Rightarrow> lock_row t (DestId req) (run_stm n t (AddBalance (Amount req) (DestId req)) Credited) s
      | Credited \<Rightarrow> Some (run_stm n t (Book (credit_entry req (tt_op (X t)) (tt_ref2 (X t)))) BookedIn s)
      | BookedIn \<Rightarrow>
          (case replay (lk_log s t) (lk_db s) of
             Inl err \<Rightarrow> Some (enter t Failed s)
           | Inr d \<Rightarrow> Some (enter t Committed (release t (s\<lparr>lk_db := d, lk_order := lk_order s @ [t]\<rparr>))))
      | _ \<Rightarrow> None)"

text \<open>
  Besides, a driver call of an open transaction fails, a transaction is rolled back (the context
  of its request has ended, or it is the victim of a deadlock), and a wallet is created.
\<close>

inductive lk_step :: "(nat \<Rightarrow> transfer_tx) \<Rightarrow> transfers \<Rightarrow> transfers \<Rightarrow> bool" for X :: "nat \<Rightarrow> transfer_tx" where
  lk_run: "transfer_step X n t s = Some s' \<Longrightarrow> lk_step X s s'"
| lk_fail: "lk_phase s t \<notin> {Committed, Closed} \<Longrightarrow> lk_step X s (enter t Failed s)"
| lk_close: "lk_phase s t \<notin> {Committed, Closed} \<Longrightarrow> lk_step X s (enter t Closed (release t s))"
| lk_create: "insert_wallet req n (lk_db s) = Inr (k, d) \<Longrightarrow> cwr_Balance req = 0 \<Longrightarrow> lk_gaps s (wallets_next (lk_db s)) = {} \<Longrightarrow>
    lk_step X s (s\<lparr>lk_db := d\<rparr>)"

abbreviation lk_steps :: "(nat \<Rightarrow> transfer_tx) \<Rightarrow> transfers \<Rightarrow> transfers \<Rightarrow> bool" where
  "lk_steps X \<equiv> (lk_step X)\<^sup>*\<^sup>*"

definition lk_start :: "wallet_db \<Rightarrow> transfers" where
  "lk_start d = \<lparr>lk_db = d, lk_locks = (\<lambda>_. None), lk_gaps = (\<lambda>_. {}), lk_phase = (\<lambda>_. Begun), lk_log = (\<lambda>_. []), lk_order = []\<rparr>"

text \<open>
  The specification: requests served one after the other, each against what its predecessors
  left, while empty accounts may be opened in between.
\<close>

definition opened :: "(int \<Rightarrow> int option) \<Rightarrow> (int \<Rightarrow> int option) \<Rightarrow> bool" where
  "opened a b \<longleftrightarrow> (\<forall>i. case a i of Some x \<Rightarrow> b i = Some x | None \<Rightarrow> b i \<in> {None, Some 0})"

fun serial :: "TransferRequest list \<Rightarrow> (int \<Rightarrow> int option) \<Rightarrow> (int \<Rightarrow> int option) \<Rightarrow> bool" where
  "serial [] a b \<longleftrightarrow> opened a b"
| "serial (r # rs) a b \<longleftrightarrow> (\<exists>a'. opened a a' \<and> (\<exists>x. a' (SourceId r) = Some x \<and> Amount r \<le> x) \<and> a' (DestId r) \<noteq> None \<and>
     serial rs (move (SourceId r) (DestId r) (Amount r) a') b)"

section \<open>Serial runs\<close>

lemma opened_refl [simp]: "opened a a"
  by (simp add: opened_def split: option.splits)

lemma opened_trans: "opened a b \<Longrightarrow> opened b c \<Longrightarrow> opened a c"
  unfolding opened_def by (force split: option.splits)

lemma serial_opened: "serial rs a b \<Longrightarrow> opened b c \<Longrightarrow> serial rs a c"
  by (induction rs arbitrary: a) (auto intro: opened_trans)

lemma serial_snoc:
  "serial rs a b \<Longrightarrow> b (SourceId r) = Some x \<Longrightarrow> Amount r \<le> x \<Longrightarrow> b (DestId r) \<noteq> None \<Longrightarrow>
   serial (rs @ [r]) a (move (SourceId r) (DestId r) (Amount r) b)"
  by (induction rs arbitrary: a) auto

lemma opened_nonneg: "opened a b \<Longrightarrow> \<forall>i x. a i = Some x \<longrightarrow> 0 \<le> x \<Longrightarrow> b i = Some y \<Longrightarrow> 0 \<le> (y :: int)"
  unfolding opened_def by (drule spec [of _ i]) (auto split: option.splits)

lemma move_nonneg:
  assumes "\<forall>i x. a i = Some x \<longrightarrow> 0 \<le> x" "a s = Some x" "m \<le> x" "0 \<le> m" "move s t m a i = Some y"
  shows "0 \<le> y"
proof -
  obtain z where z: "a i = Some z" "y = z - (if i = s then m else 0) + (if i = t then m else 0)"
    using assms(5) by (auto simp: move_def)
  then have "0 \<le> z" using assms(1) by blast
  then show ?thesis using z assms(2-4) by auto
qed

lemma serial_nonneg:
  assumes "serial rs a b" "\<forall>r \<in> set rs. 0 \<le> Amount r" "\<forall>i x. a i = Some x \<longrightarrow> 0 \<le> x"
  shows "\<forall>i x. b i = Some x \<longrightarrow> 0 \<le> x"
  using assms
proof (induction rs arbitrary: a)
  case Nil
  then show ?case using opened_nonneg by (metis serial.simps(1))
next
  case (Cons r rs)
  then obtain a' x where a': "opened a a'" "a' (SourceId r) = Some x" "Amount r \<le> x"
    "serial rs (move (SourceId r) (DestId r) (Amount r) a') b" by auto
  have nn: "\<forall>i y. a' i = Some y \<longrightarrow> 0 \<le> y" using opened_nonneg [OF a'(1) Cons.prems(3)] by blast
  have am: "0 \<le> Amount r" "\<forall>r \<in> set rs. 0 \<le> Amount r" using Cons.prems(2) by simp_all
  have "\<forall>i y. move (SourceId r) (DestId r) (Amount r) a' i = Some y \<longrightarrow> 0 \<le> y"
    using move_nonneg [OF nn a'(2,3) am(1)] by blast
  from Cons.IH [OF a'(4) am(2) this] show ?case .
qed

section \<open>What a transaction sees\<close>

fun stm_row :: "stm \<Rightarrow> int" where
  "stm_row (AddBalance delta i) = i"
| "stm_row (Book r) = ctr_WalletID r"

lemma exec_stm_wf: "wallet_wf d \<Longrightarrow> exec_stm n st d = Inr d' \<Longrightarrow> wallet_wf d'"
  by (cases st) (auto split: sum.splits intro: add_balance_wf insert_transaction_wf)

lemma exec_stm_balance:
  "exec_stm n st d = Inr d' \<Longrightarrow>
   balance_of d' = (\<lambda>j. map_option (\<lambda>b. b + (case st of AddBalance delta i \<Rightarrow> if j = i then delta else 0 | Book _ \<Rightarrow> 0)) (balance_of d j))"
  by (cases st) (auto split: sum.splits simp: option.map_ident dest!: add_balance_balance_of wal.record_frame)

lemma exec_stm_ok:
  assumes "wallet_wf d"
  shows "(\<exists>d'. exec_stm n st d = Inr d') \<longleftrightarrow>
    (case st of AddBalance delta i \<Rightarrow> (\<forall>b. balance_of d i = Some b \<longrightarrow> int64_range (b + delta))
     | Book r \<Rightarrow> balance_of d (ctr_WalletID r) \<noteq> None)"
proof (cases st)
  case (AddBalance delta i)
  have "(\<exists>r \<in> set (wallets d). wal_ID r = i \<and> \<not> int64_range (wal_Balance r + delta)) \<longleftrightarrow>
      (\<exists>b. balance_of d i = Some b \<and> \<not> int64_range (b + delta))"
  proof
    assume "\<exists>b. balance_of d i = Some b \<and> \<not> int64_range (b + delta)"
    then obtain b r where "balance_of d i = Some b" "\<not> int64_range (b + delta)" "r \<in> set (wallets d)" "wal_ID r = i"
      using balance_of_existsI by blast
    then show "\<exists>r \<in> set (wallets d). wal_ID r = i \<and> \<not> int64_range (wal_Balance r + delta)"
      using wf_row_balance [OF assms] by fastforce
  qed (use wf_row_balance [OF assms] in blast)
  then show ?thesis by (auto simp: AddBalance add_balance_def)
next
  case (Book r)
  then show ?thesis by (auto simp: insert_transaction_def balance_of_def find_None_iff find_Some_iff split: option.splits)
qed

lemma replay_append:
  "replay (log @ log') d = (case replay log d of Inl e \<Rightarrow> Inl e | Inr d' \<Rightarrow> replay log' d')"
  by (induction log d rule: replay.induct) (auto split: sum.splits)

lemma replay_agree:
  assumes "replay log d = Inr d'" "wallet_wf d" "wallet_wf e"
    and "\<forall>(n, st) \<in> set log. balance_of d (stm_row st) = balance_of e (stm_row st)"
  shows "\<exists>e'. replay log e = Inr e'"
  using assms
proof (induction log arbitrary: d e)
  case (Cons l log)
  obtain n st where l: "l = (n, st)" by force
  obtain d1 where d1: "exec_stm n st d = Inr d1" "replay log d1 = Inr d'"
    using Cons.prems(1) by (auto simp: l split: sum.splits)
  have "\<exists>e1. exec_stm n st e = Inr e1"
    using exec_stm_ok [OF Cons.prems(2), of n st] exec_stm_ok [OF Cons.prems(3), of n st] d1(1) Cons.prems(4)
    by (cases st) (auto simp: l)
  then obtain e1 where e1: "exec_stm n st e = Inr e1" by blast
  have "\<forall>(n, st) \<in> set log. balance_of d1 (stm_row st) = balance_of e1 (stm_row st)"
    using Cons.prems(4) unfolding exec_stm_balance [OF d1(1)] exec_stm_balance [OF e1] by (auto simp: l)
  then show ?case
    using Cons.IH [OF d1(2)] exec_stm_wf [OF Cons.prems(2) d1(1)] exec_stm_wf [OF Cons.prems(3) e1] e1 by (simp add: l)
qed simp

section \<open>The invariant\<close>

fun progress :: "phase \<Rightarrow> nat option" where
  "progress GotBalance = Some 0"
| "progress Debited = Some 1"
| "progress BookedOut = Some 2"
| "progress Credited = Some 3"
| "progress BookedIn = Some 4"
| "progress _ = None"

definition stms :: "transfer_tx \<Rightarrow> stm list" where
  "stms x = [AddBalance (- Amount (tt_req x)) (SourceId (tt_req x)), Book (debit_entry (tt_req x) (tt_op x) (tt_ref1 x)),
     AddBalance (Amount (tt_req x)) (DestId (tt_req x)), Book (credit_entry (tt_req x) (tt_op x) (tt_ref2 x))]"

lemma length_stms: "length (stms x) = 4"
  by (simp add: stms_def)

definition owns :: "transfers \<Rightarrow> nat \<Rightarrow> int \<Rightarrow> bool" where
  "owns s t i \<longleftrightarrow> (if balance_of (lk_db s) i = None then t \<in> lk_gaps s i else lk_locks s i = Some t)"

text \<open>
  A transaction that is under way has executed a prefix of its statements, which can be replayed
  on the committed tables; it owns its rows, so the balance it has read is still there.
\<close>

definition under_way :: "transfer_tx \<Rightarrow> transfers \<Rightarrow> nat \<Rightarrow> nat \<Rightarrow> bool" where
  "under_way x s t k \<longleftrightarrow> map snd (lk_log s t) = take k (stms x) \<and> (\<exists>d. replay (lk_log s t) (lk_db s) = Inr d) \<and>
     (\<exists>b. balance_of (lk_db s) (SourceId (tt_req x)) = Some b \<and> Amount (tt_req x) \<le> b) \<and>
     owns s t (SourceId (tt_req x)) \<and> (3 \<le> k \<longrightarrow> owns s t (DestId (tt_req x)))"

definition txn_ok :: "(nat \<Rightarrow> transfer_tx) \<Rightarrow> transfers \<Rightarrow> nat \<Rightarrow> bool" where
  "txn_ok X s t \<longleftrightarrow> (lk_phase s t = Begun \<longrightarrow> lk_log s t = []) \<and>
     (\<forall>k. progress (lk_phase s t) = Some k \<longrightarrow> under_way (X t) s t k)"

definition lk_inv :: "(nat \<Rightarrow> transfer_tx) \<Rightarrow> wallet_db \<Rightarrow> transfers \<Rightarrow> bool" where
  "lk_inv X d0 s \<longleftrightarrow> books (lk_db s) \<and> total_balance (lk_db s) = total_balance d0 \<and>
     serial (map (\<lambda>t. tt_req (X t)) (lk_order s)) (balance_of d0) (balance_of (lk_db s)) \<and> (\<forall>t. txn_ok X s t)"

text \<open>What a change of the state must leave to a transaction.\<close>

definition spares :: "nat \<Rightarrow> transfers \<Rightarrow> transfers \<Rightarrow> bool" where
  "spares t s s' \<longleftrightarrow> lk_phase s' t = lk_phase s t \<and> lk_log s' t = lk_log s t \<and>
     (\<forall>i. owns s t i \<longrightarrow> owns s' t i \<and> balance_of (lk_db s') i = balance_of (lk_db s) i)"

lemma progress_bound: "progress ph = Some k \<Longrightarrow> k \<le> 4"
  by (cases ph) auto

lemma rows_of_log:
  assumes "map snd log = take k (stms x)" "(n, st) \<in> set log"
  shows "stm_row st = SourceId (tt_req x) \<or> 3 \<le> k \<and> stm_row st = DestId (tt_req x)"
proof -
  have "st \<in> set (map snd log)" using assms(2) by force
  then have st: "st \<in> set (take k (stms x))" unfolding assms(1) .
  consider "k = 0" | "k = 1" | "k = 2" | "3 \<le> k" by linarith
  then show ?thesis
  proof cases
    case 4
    then show ?thesis using in_set_takeD [OF st] by (auto simp: stms_def)
  qed (use st in \<open>auto simp: stms_def numeral_2_eq_2\<close>)
qed

lemma under_way_spared:
  assumes "under_way x s t k" "spares t s s'" "wallet_wf (lk_db s)" "wallet_wf (lk_db s')"
  shows "under_way x s' t k"
proof -
  have l: "map snd (lk_log s t) = take k (stms x)" and own: "owns s t (SourceId (tt_req x))" "3 \<le> k \<longrightarrow> owns s t (DestId (tt_req x))"
    and b: "\<exists>b. balance_of (lk_db s) (SourceId (tt_req x)) = Some b \<and> Amount (tt_req x) \<le> b"
    using assms(1) by (simp_all add: under_way_def)
  obtain d where d: "replay (lk_log s t) (lk_db s) = Inr d" using assms(1) by (auto simp: under_way_def)
  have same: "owns s' t i" "balance_of (lk_db s') i = balance_of (lk_db s) i" if "owns s t i" for i
    using assms(2) that by (simp_all add: spares_def)
  have "balance_of (lk_db s) (stm_row st) = balance_of (lk_db s') (stm_row st)" if "(n, st) \<in> set (lk_log s t)" for n st
    using rows_of_log [OF l that] own same(2) by auto
  then obtain d' where "replay (lk_log s t) (lk_db s') = Inr d'"
    using replay_agree [OF d assms(3,4)] by blast
  then show ?thesis
    using assms(2) l own b same by (auto simp: under_way_def spares_def)
qed

lemma txn_ok_spared:
  "txn_ok X s t \<Longrightarrow> spares t s s' \<Longrightarrow> wallet_wf (lk_db s) \<Longrightarrow> wallet_wf (lk_db s') \<Longrightarrow> txn_ok X s' t"
  using under_way_spared [of "X t" s t _ s'] by (auto simp: txn_ok_def spares_def)

lemma spares_same_db:
  "lk_phase s' t = lk_phase s t \<Longrightarrow> lk_log s' t = lk_log s t \<Longrightarrow> lk_db s' = lk_db s \<Longrightarrow> (\<And>i. owns s t i \<Longrightarrow> owns s' t i) \<Longrightarrow>
   spares t s s'"
  by (simp add: spares_def)

section \<open>Steps\<close>

lemma owns_lock_row:
  assumes "lock_row t i k s = Some s'"
  obtains s1 where "s' = k s1" "lk_db s1 = lk_db s" "lk_phase s1 = lk_phase s" "lk_log s1 = lk_log s" "lk_order s1 = lk_order s"
    "owns s1 t i" "\<And>t' j. owns s t' j \<Longrightarrow> owns s1 t' j"
proof (cases "balance_of (lk_db s) i = None")
  case True
  show thesis
    by (rule that [of "s\<lparr>lk_gaps := (lk_gaps s)(i := insert t (lk_gaps s i))\<rparr>"])
       (use assms True in \<open>auto simp: lock_row_def owns_def\<close>)
next
  case False
  show thesis
    by (rule that [of "s\<lparr>lk_locks := (lk_locks s)(i := Some t)\<rparr>"])
       (use assms False in \<open>auto simp: lock_row_def owns_def split: if_splits\<close>)
qed

lemma enter_simps [simp]:
  "lk_db (enter t ph s) = lk_db s" "lk_locks (enter t ph s) = lk_locks s" "lk_gaps (enter t ph s) = lk_gaps s"
  "lk_log (enter t ph s) = lk_log s" "lk_order (enter t ph s) = lk_order s" "lk_phase (enter t ph s) = (lk_phase s)(t := ph)"
  "owns (enter t ph s) = owns s"
  by (simp_all add: enter_def owns_def fun_eq_iff)

lemma run_stm_frame:
  "lk_db (run_stm n t st ph s) = lk_db s" "lk_order (run_stm n t st ph s) = lk_order s" "owns (run_stm n t st ph s) = owns s"
  "t' \<noteq> t \<Longrightarrow> lk_phase (run_stm n t st ph s) t' = lk_phase s t'" "t' \<noteq> t \<Longrightarrow> lk_log (run_stm n t st ph s) t' = lk_log s t'"
  by (auto simp: run_stm_def owns_def fun_eq_iff split: sum.splits)

lemma run_stm_ok:
  assumes "under_way (X t) s t k" "k < 4" "st = stms (X t) ! k" "progress ph = Some (Suc k)"
    and "3 \<le> Suc k \<longrightarrow> owns s t (DestId (tt_req (X t)))"
  shows "txn_ok X (run_stm n t st ph s) t"
proof (cases "replay (lk_log s t @ [(n, st)]) (lk_db s)")
  case (Inl e)
  then show ?thesis by (simp add: run_stm_def txn_ok_def)
next
  case (Inr d)
  have "take (Suc k) (stms (X t)) = take k (stms (X t)) @ [st]"
    using assms(2,3) by (simp add: take_Suc_conv_app_nth length_stms)
  moreover have "ph \<noteq> Begun" using assms(4) by auto
  moreover have "owns (enter t ph (s\<lparr>lk_log := l\<rparr>)) = owns s" for l by (simp add: owns_def fun_eq_iff)
  ultimately show ?thesis
    using Inr assms(1,4,5) by (simp add: run_stm_def txn_ok_def under_way_def)
qed

lemma release_simps [simp]:
  "lk_db (release t s) = lk_db s" "lk_order (release t s) = lk_order s" "lk_phase (release t s) = lk_phase s"
  "lk_log (release t s) = (lk_log s)(t := [])"
  by (simp_all add: release_def)

lemma owns_release: "t' \<noteq> t \<Longrightarrow> owns (release t s) t' i = owns s t' i"
  by (auto simp: owns_def release_def)

lemma lk_inv_local:
  assumes "lk_inv X d0 s" "lk_db s' = lk_db s" "lk_order s' = lk_order s" "txn_ok X s' t" "\<And>t'. t' \<noteq> t \<Longrightarrow> spares t' s s'"
  shows "lk_inv X d0 s'"
proof -
  have "txn_ok X s' t'" for t'
    using assms(1,2,4) txn_ok_spared [OF _ assms(5), of X t'] by (cases "t' = t") (simp_all add: lk_inv_def)
  then show ?thesis using assms(1-3) by (simp add: lk_inv_def)
qed

lemma lk_inv_run_stm:
  assumes "lk_inv X d0 s" "progress (lk_phase s t) = Some k" "k < 4" "st = stms (X t) ! k" "progress ph = Some (Suc k)"
    and "lk_db s1 = lk_db s" "lk_phase s1 = lk_phase s" "lk_log s1 = lk_log s" "lk_order s1 = lk_order s"
      "\<And>t' j. owns s t' j \<Longrightarrow> owns s1 t' j" "Suc k = 3 \<longrightarrow> owns s1 t (DestId (tt_req (X t)))"
  shows "lk_inv X d0 (run_stm n t st ph s1)"
proof (rule lk_inv_local [OF assms(1), where t = t])
  have u: "under_way (X t) s t k" using assms(1,2) by (simp add: lk_inv_def txn_ok_def)
  then have "under_way (X t) s1 t k" using assms(6,8,10) by (simp add: under_way_def)
  moreover have "3 \<le> Suc k \<longrightarrow> owns s1 t (DestId (tt_req (X t)))"
  proof
    assume "3 \<le> Suc k"
    then consider "Suc k = 3" | "3 \<le> k" by linarith
    then show "owns s1 t (DestId (tt_req (X t)))" using u assms(10,11) by cases (simp_all add: under_way_def)
  qed
  ultimately show "txn_ok X (run_stm n t st ph s1) t" by (rule run_stm_ok [where X = X and t = t, OF _ assms(3-5)])
  show "spares t' s (run_stm n t st ph s1)" if "t' \<noteq> t" for t'
    using that assms(6-8,10) by (intro spares_same_db) (simp_all add: run_stm_frame)
qed (simp_all add: run_stm_frame assms(6,9))

text \<open>Its commit applies the four statements to what is committed by then.\<close>

lemma commit_chain:
  assumes "under_way x s t 4" "replay (lk_log s t) (lk_db s) = Inr d"
  shows "\<exists>n1 n2 n3 n4. transfer_chain (tt_req x) (tt_op x) n1 n2 n3 n4 (tt_ref1 x) (tt_ref2 x) (lk_db s) d"
proof -
  have "map snd (lk_log s t) = stms x" using assms(1) by (simp add: under_way_def length_stms)
  then obtain n1 n2 n3 n4 where l: "lk_log s t = [(n1, stms x ! 0), (n2, stms x ! 1), (n3, stms x ! 2), (n4, stms x ! 3)]"
    by (auto simp: stms_def map_eq_Cons_conv)
  obtain d1 d2 d3 where "exec_stm n1 (stms x ! 0) (lk_db s) = Inr d1" "exec_stm n2 (stms x ! 1) d1 = Inr d2"
    "exec_stm n3 (stms x ! 2) d2 = Inr d3" "exec_stm n4 (stms x ! 3) d3 = Inr d"
    using assms(2) unfolding l by (auto split: sum.splits)
  then have "transfer_chain (tt_req x) (tt_op x) n1 n2 n3 n4 (tt_ref1 x) (tt_ref2 x) (lk_db s) d"
    unfolding transfer_chain_def
    by (intro exI [of _ d1] exI [of _ d2] exI [of _ d3]) (auto simp: stms_def split: sum.splits)
  then show ?thesis by blast
qed

lemma lk_inv_commit:
  assumes "lk_inv X d0 s" "lk_phase s t = BookedIn" "replay (lk_log s t) (lk_db s) = Inr d"
  shows "lk_inv X d0 (enter t Committed (release t (s\<lparr>lk_db := d, lk_order := lk_order s @ [t]\<rparr>)))" (is "lk_inv X d0 ?s'")
proof -
  let ?r = "tt_req (X t)"
  have u: "under_way (X t) s t 4" using assms(1,2) by (simp add: lk_inv_def txn_ok_def)
  obtain n1 n2 n3 n4 where c: "transfer_chain ?r (tt_op (X t)) n1 n2 n3 n4 (tt_ref1 (X t)) (tt_ref2 (X t)) (lk_db s) d"
    using commit_chain [OF u assms(3)] by blast
  have bk: "books (lk_db s)" "total_balance (lk_db s) = total_balance d0"
    "serial (map (\<lambda>t. tt_req (X t)) (lk_order s)) (balance_of d0) (balance_of (lk_db s))"
    using assms(1) by (simp_all add: lk_inv_def)
  have new: "books d" "total_balance d = total_balance (lk_db s)"
    using bk(1) transfer_steps_wf [OF c] transfer_steps_reconciled [OF c] transfer_steps_total [OF c] by simp_all
  note mv = transfer_steps_balance [OF c] and dst = transfer_steps_dest [OF c]
  obtain b where b: "balance_of (lk_db s) (SourceId ?r) = Some b" "Amount ?r \<le> b" using u by (auto simp: under_way_def)
  have own: "lk_locks s (SourceId ?r) = Some t" "lk_locks s (DestId ?r) = Some t"
    using u b(1) dst by (auto simp: under_way_def owns_def)
  have "spares t' s ?s'" if "t' \<noteq> t" for t'
  proof -
    have "i \<noteq> SourceId ?r \<and> i \<noteq> DestId ?r" if "owns s t' i" for i
      using that \<open>t' \<noteq> t\<close> own b(1) dst by (auto simp: owns_def split: if_splits)
    then have "balance_of d i = balance_of (lk_db s) i" if "owns s t' i" for i
      using that by (auto simp: mv move_def option.map_ident)
    then show ?thesis
      using that by (auto simp: spares_def owns_def release_def split: if_splits)
  qed
  then have "txn_ok X ?s' t'" for t'
    using assms(1) txn_ok_spared [of X s t' ?s'] new(1) by (cases "t' = t") (auto simp: lk_inv_def txn_ok_def)
  moreover have "serial (map (\<lambda>t. tt_req (X t)) (lk_order s @ [t])) (balance_of d0) (balance_of d)"
    using serial_snoc [OF bk(3) b dst] unfolding mv by simp
  ultimately show ?thesis using new bk(2) by (simp add: lk_inv_def)
qed

lemma lk_inv_create:
  assumes "lk_inv X d0 s" "insert_wallet req n (lk_db s) = Inr (k, d)" "cwr_Balance req = 0" "lk_gaps s (wallets_next (lk_db s)) = {}"
  shows "lk_inv X d0 (s\<lparr>lk_db := d\<rparr>)"
proof -
  have bk: "books (lk_db s)" "total_balance (lk_db s) = total_balance d0"
    "serial (map (\<lambda>t. tt_req (X t)) (lk_order s)) (balance_of d0) (balance_of (lk_db s))"
    using assms(1) by (simp_all add: lk_inv_def)
  have fresh: "balance_of (lk_db s) (wallets_next (lk_db s)) = None"
    using bk(1) by (force simp: wallet_wf_def balance_of_def find_None_iff)
  have b: "balance_of d = (balance_of (lk_db s))(wallets_next (lk_db s) \<mapsto> 0)"
    using insert_wallet_balance [OF bk(1) [THEN conjunct1] assms(2)] assms(3) by simp
  have new: "books d" "total_balance d = total_balance (lk_db s)"
    using bk(1) insert_wallet_wf [OF _ assms(2)] insert_wallet_reconciled [OF _ _ assms(2,3)] assms(2,3)
    by (auto simp: int64_range_def insert_wallet_def total_balance_def split: if_splits)
  have "opened (balance_of (lk_db s)) (balance_of d)" using fresh by (auto simp: opened_def b split: option.splits)
  then have "serial (map (\<lambda>t. tt_req (X t)) (lk_order s)) (balance_of d0) (balance_of d)" by (rule serial_opened [OF bk(3)])
  moreover have "spares t s (s\<lparr>lk_db := d\<rparr>)" for t
    using assms(4) fresh by (auto simp: spares_def owns_def b split: if_splits)
  then have "txn_ok X (s\<lparr>lk_db := d\<rparr>) t" for t
    using assms(1) txn_ok_spared [of X s t] new(1) by (auto simp: lk_inv_def)
  ultimately show ?thesis using new bk(2) by (simp add: lk_inv_def)
qed

lemma lk_inv_select:
  assumes "lk_inv X d0 s" "lk_db s1 = lk_db s" "lk_phase s1 = lk_phase s" "lk_log s1 = lk_log s" "lk_order s1 = lk_order s"
    and "owns s1 t (SourceId (tt_req (X t)))" "\<And>t' j. owns s t' j \<Longrightarrow> owns s1 t' j" "lk_phase s t = Begun"
    and "ph = Failed \<or> ph = GotBalance \<and> (\<exists>b. balance_of (lk_db s) (SourceId (tt_req (X t))) = Some b \<and> Amount (tt_req (X t)) \<le> b)"
  shows "lk_inv X d0 (enter t ph s1)"
proof (rule lk_inv_local [OF assms(1), where t = t])
  have "lk_log s t = []" using assms(1,8) by (simp add: lk_inv_def txn_ok_def)
  then show "txn_ok X (enter t ph s1) t"
    using assms(2,4,6,9) by (auto simp: txn_ok_def under_way_def)
  show "spares t' s (enter t ph s1)" if "t' \<noteq> t" for t'
    using that assms(2-4,7) by (intro spares_same_db) simp_all
qed (simp_all add: assms(2,5))

lemma lk_inv_stop:
  assumes "lk_inv X d0 s" "ph = Failed \<or> ph = Closed"
  shows "lk_inv X d0 (enter t ph s)" "lk_inv X d0 (enter t ph (release t s))"
  by (rule lk_inv_local [OF assms(1), where t = t];
      use assms(2) in \<open>auto simp: txn_ok_def owns_release intro!: spares_same_db\<close>)+

lemma lk_inv_transfer_step:
  assumes "lk_inv X d0 s" "transfer_step X n t s = Some s'"
  shows "lk_inv X d0 s'"
proof (cases "lk_phase s t")
  case Begun
  then have "lock_row t (SourceId (tt_req (X t))) (\<lambda>s. case select_balance (SourceId (tt_req (X t))) (lk_db s) of Inl err \<Rightarrow> enter t Failed s
      | Inr sourceBalance \<Rightarrow> enter t (if sourceBalance < Amount (tt_req (X t)) then Failed else GotBalance) s) s = Some s'"
    using assms(2) by (simp add: transfer_step_def Let_def)
  then show ?thesis
  proof (cases rule: owns_lock_row)
    case (1 s1)
    show ?thesis
      unfolding 1(1) by (auto split: sum.split simp: select_balance_balance_of intro!: lk_inv_select [OF assms(1) 1(2-7) Begun] simp: 1(2))
  qed
next
  case GotBalance
  then have "lock_row t (SourceId (tt_req (X t))) (run_stm n t (AddBalance (- Amount (tt_req (X t))) (SourceId (tt_req (X t)))) Debited) s = Some s'"
    using assms(2) by (simp add: transfer_step_def Let_def)
  then show ?thesis
  proof (cases rule: owns_lock_row)
    case (1 s1)
    show ?thesis
      unfolding 1(1) by (rule lk_inv_run_stm [OF assms(1), where k = 0 and t = t]) (simp_all add: 1 GotBalance stms_def)
  qed
next
  case BookedOut
  then have "lock_row t (DestId (tt_req (X t))) (run_stm n t (AddBalance (Amount (tt_req (X t))) (DestId (tt_req (X t)))) Credited) s = Some s'"
    using assms(2) by (simp add: transfer_step_def Let_def)
  then show ?thesis
  proof (cases rule: owns_lock_row)
    case (1 s1)
    show ?thesis
      unfolding 1(1) by (rule lk_inv_run_stm [OF assms(1), where k = 2 and t = t]) (simp_all add: 1 BookedOut stms_def)
  qed
next
  case Debited
  then have s': "s' = run_stm n t (Book (debit_entry (tt_req (X t)) (tt_op (X t)) (tt_ref1 (X t)))) BookedOut s"
    using assms(2) by (simp add: transfer_step_def Let_def)
  show ?thesis
    unfolding s' by (rule lk_inv_run_stm [OF assms(1), where k = 1]) (simp_all add: Debited stms_def)
next
  case Credited
  then have s': "s' = run_stm n t (Book (credit_entry (tt_req (X t)) (tt_op (X t)) (tt_ref2 (X t)))) BookedIn s"
    using assms(2) by (simp add: transfer_step_def Let_def)
  show ?thesis
    unfolding s' by (rule lk_inv_run_stm [OF assms(1), where k = 3]) (simp_all add: Credited stms_def numeral_3_eq_3)
next
  case BookedIn
  then show ?thesis
    using assms(2) lk_inv_commit [OF assms(1) BookedIn] lk_inv_stop(1) [OF assms(1)]
    by (auto simp: transfer_step_def split: sum.splits)
qed (use assms(2) in \<open>simp_all add: transfer_step_def\<close>)

lemma lk_inv_step: "lk_step X s s' \<Longrightarrow> lk_inv X d0 s \<Longrightarrow> lk_inv X d0 s'"
  by (induction rule: lk_step.induct) (simp_all add: lk_inv_transfer_step lk_inv_stop lk_inv_create)

lemma lk_inv_steps: "lk_steps X s s' \<Longrightarrow> lk_inv X d0 s \<Longrightarrow> lk_inv X d0 s'"
  by (induction rule: rtranclp_induct) (auto intro: lk_inv_step)

lemma lk_inv_start: "books d \<Longrightarrow> lk_inv X d (lk_start d)"
  by (simp add: lk_inv_def lk_start_def txn_ok_def)

lemma order_committed:
  assumes "lk_steps X (lk_start d) s"
  shows "distinct (lk_order s) \<and> set (lk_order s) = {t. lk_phase s t = Committed}"
  using assms
proof (induction rule: rtranclp_induct)
  case (step s s')
  from step.hyps(2) step.IH show ?case
    by cases (auto simp: transfer_step_def Let_def lock_row_def run_stm_def split: phase.splits sum.splits if_splits)
qed (simp add: lk_start_def)

section \<open>Properties\<close>

text \<open>
  C5. Transfers that interleave are as good as transfers in a row: whatever the schedule of their
  statements, the failures and the rolled back transactions, the balances are those of the committed
  transfers served one after the other in the order of their commits, each of them covered by the
  balance its predecessors left; every balance is still explained by the ledger, no money appears or
  disappears, and without negative amounts no wallet gets into debt.
\<close>

theorem concurrent_transfers_serializable:
  assumes "books d" "lk_steps X (lk_start d) s"
  shows "serial (map (\<lambda>t. tt_req (X t)) (lk_order s)) (balance_of d) (balance_of (lk_db s)) \<and>
    distinct (lk_order s) \<and> set (lk_order s) = {t. lk_phase s t = Committed} \<and>
    books (lk_db s) \<and> total_balance (lk_db s) = total_balance d \<and>
    (no_overdraft d \<longrightarrow> (\<forall>t. 0 \<le> Amount (tt_req (X t))) \<longrightarrow> no_overdraft (lk_db s))"
proof -
  have i: "lk_inv X d s" using lk_inv_steps [OF assms(2)] lk_inv_start [OF assms(1)] by blast
  then have "serial (map (\<lambda>t. tt_req (X t)) (lk_order s)) (balance_of d) (balance_of (lk_db s))" by (simp add: lk_inv_def)
  from serial_nonneg [OF this] have "no_overdraft d \<longrightarrow> (\<forall>t. 0 \<le> Amount (tt_req (X t))) \<longrightarrow> no_overdraft (lk_db s)"
    by (simp add: no_overdraft_def)
  then show ?thesis using i order_committed [OF assms(2)] by (simp add: lk_inv_def)
qed

section \<open>Runs\<close>

lemmas step_simps = transfer_step_def Let_def lock_row_def run_stm_def enter_def select_balance_balance_of [THEN iffD2] stms_def

lemma debit_half:
  assumes "lk_phase s t = Begun" "lk_log s t = []" "lk_locks s (SourceId (tt_req (X t))) = None"
    and "balance_of (lk_db s) (SourceId (tt_req (X t))) = Some b" "Amount (tt_req (X t)) \<le> b"
    and "replay [(n1, stms (X t) ! 0), (n2, stms (X t) ! 1)] (lk_db s) = Inr d"
  shows "lk_steps X s (s\<lparr>lk_locks := (lk_locks s)(SourceId (tt_req (X t)) \<mapsto> t), lk_phase := (lk_phase s)(t := BookedOut),
    lk_log := (lk_log s)(t := [(n1, stms (X t) ! 0), (n2, stms (X t) ! 1)])\<rparr>)"
proof -
  let ?l = "(lk_locks s)(SourceId (tt_req (X t)) \<mapsto> t)"
  have 1: "lk_step X s (s\<lparr>lk_locks := ?l, lk_phase := (lk_phase s)(t := GotBalance)\<rparr>)" (is "lk_step X s ?s1")
    by (rule lk_run [where n = n1 and t = t]) (use assms(1-5) in \<open>simp add: step_simps\<close>)
  have 2: "lk_step X ?s1 (s\<lparr>lk_locks := ?l, lk_phase := (lk_phase s)(t := Debited), lk_log := (lk_log s)(t := [(n1, stms (X t) ! 0)])\<rparr>)"
    (is "lk_step X _ ?s2")
    by (rule lk_run [where n = n1 and t = t]) (use assms in \<open>auto simp: step_simps split: sum.splits\<close>)
  have 3: "lk_step X ?s2 (s\<lparr>lk_locks := ?l, lk_phase := (lk_phase s)(t := BookedOut),
      lk_log := (lk_log s)(t := [(n1, stms (X t) ! 0), (n2, stms (X t) ! 1)])\<rparr>)"
    by (rule lk_run [where n = n2 and t = t]) (use assms in \<open>auto simp: step_simps split: sum.splits\<close>)
  from 1 2 3 show ?thesis by (meson r_into_rtranclp rtranclp_trans)
qed

lemma credit_half:
  assumes "lk_phase s t = BookedOut" "lk_locks s (DestId (tt_req (X t))) \<in> {None, Some t}"
    and "balance_of (lk_db s) (DestId (tt_req (X t))) \<noteq> None"
    and "replay (lk_log s t @ [(n3, stms (X t) ! 2), (n4, stms (X t) ! 3)]) (lk_db s) = Inr d"
  shows "\<exists>s'. lk_steps X s s' \<and> lk_db s' = d \<and> lk_order s' = lk_order s @ [t]"
proof -
  let ?l = "(lk_locks s)(DestId (tt_req (X t)) \<mapsto> t)" and ?g = "lk_log s t @ [(n3, stms (X t) ! 2)]"
  have 1: "lk_step X s (s\<lparr>lk_locks := ?l, lk_phase := (lk_phase s)(t := Credited), lk_log := (lk_log s)(t := ?g)\<rparr>)" (is "lk_step X s ?s1")
    by (rule lk_run [where n = n3 and t = t]) (use assms in \<open>auto simp: step_simps replay_append split: sum.splits\<close>)
  have 2: "lk_step X ?s1 (s\<lparr>lk_locks := ?l, lk_phase := (lk_phase s)(t := BookedIn), lk_log := (lk_log s)(t := ?g @ [(n4, stms (X t) ! 3)])\<rparr>)"
    (is "lk_step X _ ?s2")
    by (rule lk_run [where n = n4 and t = t]) (use assms(4) in \<open>auto simp: step_simps replay_append split: sum.splits\<close>)
  have 3: "lk_step X ?s2 (enter t Committed (release t (?s2\<lparr>lk_db := d, lk_order := lk_order s @ [t]\<rparr>)))" (is "lk_step X _ ?s3")
    by (rule lk_run [where n = n4 and t = t]) (use assms(4) in \<open>simp add: transfer_step_def\<close>)
  have "lk_steps X s ?s3" using 1 2 3 by (meson r_into_rtranclp rtranclp_trans)
  then show ?thesis by (rule exI [where x = ?s3, OF conjI]) simp
qed

lemma chain_schedule:
  assumes "transfer_chain (tt_req x) (tt_op x) n1 n2 n3 n4 (tt_ref1 x) (tt_ref2 x) d d'"
    and "balance_of d (SourceId (tt_req x)) = Some b" "Amount (tt_req x) \<le> b"
  shows "\<exists>s. lk_steps (\<lambda>_. x) (lk_start d) s \<and> lk_db s = d' \<and> lk_order s = [0]"
proof -
  let ?h = "[(n1, stms x ! 0), (n2, stms x ! 1)]"
  obtain d2 where d2: "replay ?h d = Inr d2" and r: "replay (?h @ [(n3, stms x ! 2), (n4, stms x ! 3)]) d = Inr d'"
    using assms(1) unfolding transfer_chain_def by (elim exE conjE) (simp add: stms_def)
  let ?s = "(lk_start d)\<lparr>lk_locks := [SourceId (tt_req x) \<mapsto> 0], lk_phase := (\<lambda>_. Begun)(0 := BookedOut), lk_log := (\<lambda>_. [])(0 := ?h)\<rparr>"
  have "lk_steps (\<lambda>_. x) (lk_start d) ?s"
    using debit_half [of "lk_start d" 0 "\<lambda>_. x" b n1 n2 d2] assms(2,3) d2 by (simp add: lk_start_def)
  moreover have "\<exists>s. lk_steps (\<lambda>_. x) ?s s \<and> lk_db s = d' \<and> lk_order s = lk_order ?s @ [0]"
    by (rule credit_half [of ?s 0 "\<lambda>_. x" n3 n4 d'])
       (use transfer_steps_dest [OF assms(1)] r in \<open>simp_all add: lk_start_def\<close>)
  ultimately show ?thesis by (elim exE conjE) (rule exI, rule conjI, erule (1) rtranclp_trans, simp add: lk_start_def)
qed

text \<open>
  C20. The sequential service is one of the schedules: whatever \<^verbatim>\<open>Transfer\<close> does to the tables when it succeeds,
  one transaction that runs alone through its six steps does too.
\<close>

theorem Transfer_is_a_schedule:
  assumes "Transfer userId req w = (Inr (resp, c), w')"
  shows "\<exists>x s. tt_req x = req \<and> tt_op x = tr_OperationID resp \<and>
    lk_steps (\<lambda>_. x) (lk_start (db w)) s \<and> lk_db s = db w' \<and> lk_order s = [0]"
proof -
  obtain b ref1 ref2 where "balance_of (db w) (SourceId req) = Some b" "Amount req \<le> b"
    "transfer_steps req (tr_OperationID resp) (clock w) ref1 ref2 (db w) (db w')"
    using Transfer_Inr [OF assms] by blast
  then show ?thesis
    using chain_schedule [of "\<lparr>tt_req = req, tt_op = tr_OperationID resp, tt_ref1 = ref1, tt_ref2 = ref2\<rparr>" "clock w" "clock w" "clock w" "clock w"]
    by (intro exI [of _ "\<lparr>tt_req = req, tt_op = tr_OperationID resp, tt_ref1 = ref1, tt_ref2 = ref2\<rparr>"]) simp
qed

section \<open>Locks that are kept\<close>

lemma exec_replay_dom: "replay log d = Inr d' \<Longrightarrow> (balance_of d' i = None) = (balance_of d i = None)"
  by (induction log d rule: replay.induct) (auto split: sum.splits dest: exec_stm_balance)

lemma lock_kept:
  assumes "lk_step X s s'" "lk_locks s i = Some t" "balance_of (lk_db s) i \<noteq> None"
  shows "balance_of (lk_db s') i \<noteq> None \<and> (lk_locks s' i = Some t \<or> lk_phase s' t \<in> {Committed, Closed})"
  using assms(1)
proof cases
  case (lk_run n u)
  then show ?thesis
    using assms(2,3)
    by (auto simp: transfer_step_def Let_def lock_row_def run_stm_def release_def
        split: phase.splits sum.splits if_splits dest!: exec_replay_dom [where i = i])
next
  case (lk_create req n k d)
  then have "balance_of d i \<noteq> None"
    using assms(3) by (auto simp: insert_wallet_def balance_of_def find_snoc split: if_splits option.splits)
  then show ?thesis using lk_create assms(2) by simp
qed (use assms(2,3) in \<open>auto simp: release_def\<close>)

lemma phase_kept:
  assumes "lk_step X s s'"
  shows "lk_phase s' t = lk_phase s t \<or> lk_phase s' t \<in> {Failed, Closed} \<and> lk_phase s t \<notin> {Committed, Closed} \<or> (\<exists>n. transfer_step X n t s = Some s')"
  using assms
proof cases
  case (lk_run n u)
  then have "t \<noteq> u \<Longrightarrow> lk_phase s' t = lk_phase s t"
    by (auto simp: transfer_step_def Let_def lock_row_def run_stm_def split: phase.splits sum.splits if_splits)
  with lk_run show ?thesis by blast
qed auto

text \<open>
  C36. A refused transfer keeps its wallet locked: when the balance is too low, the transaction fails with the row
  lock in its hands and nobody rolls it back; until the request's context ends, every other transfer from
  that wallet waits at its first statement.
\<close>

theorem refused_transfer_blocks_wallet:
  assumes "balance_of d (SourceId (tt_req (X t))) = Some b" "b < Amount (tt_req (X t))"
  shows "\<exists>s. lk_steps X (lk_start d) s \<and> lk_phase s = (\<lambda>_. Begun)(t := Failed) \<and>
    (\<forall>s' u n. lk_steps X s s' \<and> lk_phase s' t \<noteq> Closed \<and> u \<noteq> t \<and> lk_phase s' u = Begun \<and>
       SourceId (tt_req (X u)) = SourceId (tt_req (X t)) \<longrightarrow> transfer_step X n u s' = None)"
proof -
  let ?i = "SourceId (tt_req (X t))"
  let ?s = "(lk_start d)\<lparr>lk_locks := [?i \<mapsto> t], lk_phase := (\<lambda>_. Begun)(t := Failed)\<rparr>"
  have step: "lk_steps X (lk_start d) ?s"
    by (rule r_into_rtranclp, rule lk_run [where n = 0 and t = t]) (use assms in \<open>simp add: step_simps lk_start_def\<close>)
  have kept: "lk_phase s' t = Closed \<or> lk_phase s' t = Failed \<and> lk_locks s' ?i = Some t \<and> balance_of (lk_db s') ?i \<noteq> None"
    if "lk_steps X ?s s'" for s'
    using that
  proof (induction rule: rtranclp_induct)
    case (step s1 s2)
    then show ?case
      using phase_kept [OF step.hyps(2), of t] lock_kept [OF step.hyps(2), of ?i t] by (auto simp: transfer_step_def Let_def)
  qed (use assms(1) in \<open>simp add: lk_start_def\<close>)
  have "transfer_step X n u s' = None"
    if "lk_steps X ?s s'" "lk_phase s' t \<noteq> Closed" "u \<noteq> t" "lk_phase s' u = Begun" "SourceId (tt_req (X u)) = ?i" for s' u n
    using kept [OF that(1)] that(2-5) by (simp add: transfer_step_def Let_def lock_row_def)
  then show ?thesis using step by (intro exI [of _ ?s]) auto
qed

lemma failed_kept: "lk_step X s s' \<Longrightarrow> lk_phase s t \<in> {Failed, Closed} \<Longrightarrow> lk_phase s' t \<in> {Failed, Closed}"
  by (drule phase_kept [where t = t]) (auto simp: transfer_step_def Let_def)

lemma debit_replays:
  assumes "wallet_wf d" "balance_of d (SourceId (tt_req x)) = Some c" "int64_range (c - Amount (tt_req x))"
  shows "\<exists>d'. replay [(0, stms x ! 0), (0, stms x ! 1)] d = Inr d'"
proof -
  obtain d1 where d1: "exec_stm 0 (stms x ! 0) d = Inr d1"
    using exec_stm_ok [of d 0 "stms x ! 0"] assms by (auto simp: stms_def)
  then have "balance_of d1 (SourceId (tt_req x)) \<noteq> None" using assms(2) exec_stm_balance [OF d1] by simp
  then obtain d2 where "exec_stm 0 (stms x ! 1) d1 = Inr d2"
    using exec_stm_ok [of d1 0 "stms x ! 1"] exec_stm_wf [OF assms(1) d1] by (auto simp: stms_def)
  then show ?thesis using d1 by simp
qed

text \<open>Two transactions that each hold the wallet the other one waits for.\<close>

definition crossed :: "int \<Rightarrow> int \<Rightarrow> nat \<Rightarrow> nat \<Rightarrow> transfers \<Rightarrow> bool" where
  "crossed i j t u s \<longleftrightarrow> lk_phase s t = BookedOut \<and> lk_phase s u = BookedOut \<and> lk_locks s i = Some t \<and> lk_locks s j = Some u \<and>
     balance_of (lk_db s) i \<noteq> None \<and> balance_of (lk_db s) j \<noteq> None"

lemma crossed_waits:
  "crossed i j t u s \<Longrightarrow> t \<noteq> u \<Longrightarrow> DestId (tt_req (X t)) = j \<Longrightarrow> DestId (tt_req (X u)) = i \<Longrightarrow>
   transfer_step X n t s = None \<and> transfer_step X n u s = None"
  by (simp add: crossed_def transfer_step_def Let_def lock_row_def)

lemma crossed_kept:
  assumes "lk_steps X s s'" "crossed i j t u s" "t \<noteq> u" "DestId (tt_req (X t)) = j" "DestId (tt_req (X u)) = i"
  shows "lk_phase s' t \<in> {Failed, Closed} \<or> lk_phase s' u \<in> {Failed, Closed} \<or> crossed i j t u s'"
  using assms(1)
proof (induction rule: rtranclp_induct)
  case (step s1 s2)
  from step.IH show ?case
  proof (elim disjE)
    assume c: "crossed i j t u s1"
    have "lk_phase s2 v = BookedOut \<or> lk_phase s2 v \<in> {Failed, Closed}" if "v \<in> {t, u}" for v
      using phase_kept [OF step.hyps(2), of v] crossed_waits [OF c assms(3-5)] c that by (auto simp: crossed_def)
    then have "lk_phase s2 t = BookedOut \<or> lk_phase s2 t \<in> {Failed, Closed}" "lk_phase s2 u = BookedOut \<or> lk_phase s2 u \<in> {Failed, Closed}"
      by blast+
    then show ?thesis
      using lock_kept [OF step.hyps(2), of i t] lock_kept [OF step.hyps(2), of j u] c by (auto simp: crossed_def)
  qed (use failed_kept [OF step.hyps(2)] in blast)+
qed (simp add: assms(2))

text \<open>
  C35. Two transfers in opposite directions can deadlock: no order of the locks is agreed on, so each may hold its
  own source and wait for the other's, and neither ever moves on until one of them fails or is rolled back.
\<close>

theorem opposite_transfers_deadlock:
  assumes "books d" "t \<noteq> u"
    and "SourceId (tt_req (X u)) = DestId (tt_req (X t))" "DestId (tt_req (X u)) = SourceId (tt_req (X t))"
      "SourceId (tt_req (X t)) \<noteq> DestId (tt_req (X t))"
    and "balance_of d (SourceId (tt_req (X t))) = Some a" "Amount (tt_req (X t)) \<le> a" "int64_range (a - Amount (tt_req (X t)))"
    and "balance_of d (SourceId (tt_req (X u))) = Some b" "Amount (tt_req (X u)) \<le> b" "int64_range (b - Amount (tt_req (X u)))"
  shows "\<exists>s. lk_steps X (lk_start d) s \<and> lk_phase s t = BookedOut \<and> lk_phase s u = BookedOut \<and>
    (\<forall>s' n. lk_steps X s s' \<and> lk_phase s' t \<notin> {Failed, Closed} \<and> lk_phase s' u \<notin> {Failed, Closed} \<longrightarrow>
       transfer_step X n t s' = None \<and> transfer_step X n u s' = None)"
proof -
  let ?i = "SourceId (tt_req (X t))" and ?j = "SourceId (tt_req (X u))"
  obtain d1 d2 where r: "replay [(0, stms (X t) ! 0), (0, stms (X t) ! 1)] d = Inr d1" "replay [(0, stms (X u) ! 0), (0, stms (X u) ! 1)] d = Inr d2"
    using debit_replays [OF _ assms(6,8)] debit_replays [OF _ assms(9,11)] assms(1) by blast
  define s1 where "s1 = (lk_start d)\<lparr>lk_locks := [?i \<mapsto> t], lk_phase := (\<lambda>_. Begun)(t := BookedOut),
    lk_log := (\<lambda>_. [])(t := [(0, stms (X t) ! 0), (0, stms (X t) ! 1)])\<rparr>"
  define s where "s = s1\<lparr>lk_locks := (lk_locks s1)(?j \<mapsto> u), lk_phase := (lk_phase s1)(u := BookedOut),
    lk_log := (lk_log s1)(u := [(0, stms (X u) ! 0), (0, stms (X u) ! 1)])\<rparr>"
  have "lk_steps X (lk_start d) s1"
    using debit_half [of "lk_start d" t X a 0 0 d1] assms(6,7) r(1) by (simp add: s1_def lk_start_def)
  moreover have "lk_steps X s1 s"
    unfolding s_def by (rule debit_half [of s1 u X b 0 0 d2]) (use assms r(2) in \<open>auto simp: s1_def lk_start_def\<close>)
  ultimately have run: "lk_steps X (lk_start d) s" by (rule rtranclp_trans)
  have x: "crossed ?i ?j t u s" using assms by (simp add: crossed_def s_def s1_def lk_start_def)
  have "transfer_step X n t s' = None \<and> transfer_step X n u s' = None"
    if "lk_steps X s s' \<and> lk_phase s' t \<notin> {Failed, Closed} \<and> lk_phase s' u \<notin> {Failed, Closed}" for s' n
  proof (rule crossed_waits [OF _ assms(2) assms(3) [symmetric] assms(4)])
    show "crossed ?i ?j t u s'"
      using crossed_kept [OF conjunct1 [OF that] x assms(2) assms(3) [symmetric] assms(4)] that by blast
  qed
  moreover have "lk_phase s t = BookedOut \<and> lk_phase s u = BookedOut" using x by (simp add: crossed_def)
  ultimately show ?thesis by (intro exI [of _ s] conjI run allI impI) simp_all
qed

text \<open>The properties at work on the sample tables.\<close>

definition sample_pair :: "nat \<Rightarrow> transfer_tx" where
  "sample_pair t = \<lparr>tt_req = (if t = 0 then \<lparr>SourceId = 1, DestId = 2, Amount = 30\<rparr> else \<lparr>SourceId = 2, DestId = 1, Amount = 3\<rparr>),
     tt_op = ''op'', tt_ref1 = ''r1'', tt_ref2 = ''r2''\<rparr>"

theorem concurrent_transfers_serializable_witness:
  "books sample_db \<and> (\<exists>X s. lk_steps X (lk_start sample_db) s \<and> lk_phase s 0 = Committed \<and> books (lk_db s) \<and> total_balance (lk_db s) = 105)"
proof -
  let ?x = "sample_pair 0"
  have b: "books sample_db" by (simp add: sample_db_wf sample_db_reconciled)
  obtain d where "transfer_steps (tt_req ?x) (tt_op ?x) 0 (tt_ref1 ?x) (tt_ref2 ?x) sample_db d"
    using transfer_steps_exist [of sample_db "tt_req ?x" 100 5 "tt_op ?x" 0 "tt_ref1 ?x" "tt_ref2 ?x"] sample_db_wf by (auto simp: sample_pair_def sample_balance int64_range_def)
  then obtain s where s: "lk_steps (\<lambda>_. ?x) (lk_start sample_db) s" "lk_order s = [0]"
    using chain_schedule [of ?x 0 0 0 0 sample_db d 100] by (auto simp: sample_pair_def sample_balance)
  have "total_balance sample_db = 105" by (simp add: total_balance_def sample_simps)
  then show ?thesis
    using concurrent_transfers_serializable [OF b s(1)] s b by (intro conjI exI [of _ "\<lambda>_. ?x"] exI [of _ s]) auto
qed

theorem Transfer_is_a_schedule_witness:
  "\<exists>x s. SourceId (tt_req x) = 1 \<and> lk_steps (\<lambda>_. x) (lk_start sample_db) s \<and> lk_order s = [0]"
proof -
  let ?req = "\<lparr>SourceId = 1, DestId = 2, Amount = 30\<rparr> :: TransferRequest"
  obtain resp w' where "Transfer 0 ?req (quiet_world sample_db) = (Inr (resp, 200), w')"
    using Transfer_runs [of "quiet_world sample_db" ?req 100 5 0] sample_db_wf by (auto simp: fault_free_def sample_balance int64_range_def)
  from Transfer_is_a_schedule [OF this] show ?thesis by (elim exE conjE) (intro exI conjI, simp_all)
qed

theorem refused_transfer_blocks_wallet_witness:
  "\<exists>s. lk_steps (\<lambda>_. sample_pair 0\<lparr>tt_req := \<lparr>SourceId = 1, DestId = 2, Amount = 300\<rparr>\<rparr>) (lk_start sample_db) s \<and>
     lk_phase s 0 = Failed \<and> transfer_step (\<lambda>_. sample_pair 0\<lparr>tt_req := \<lparr>SourceId = 1, DestId = 2, Amount = 300\<rparr>\<rparr>) 0 1 s = None"
proof -
  let ?X = "\<lambda>_ :: nat. sample_pair 0\<lparr>tt_req := \<lparr>SourceId = 1, DestId = 2, Amount = 300\<rparr>\<rparr>"
  obtain s where s: "lk_steps ?X (lk_start sample_db) s" "lk_phase s = (\<lambda>_. Begun)(0 := Failed)"
    "\<And>s' u n. lk_steps ?X s s' \<and> lk_phase s' 0 \<noteq> Closed \<and> u \<noteq> 0 \<and> lk_phase s' u = Begun \<and>
       SourceId (tt_req (?X u)) = SourceId (tt_req (?X 0)) \<Longrightarrow> transfer_step ?X n u s' = None"
    using refused_transfer_blocks_wallet [of sample_db ?X 0 100] by (auto simp: sample_balance)
  then show ?thesis by (intro exI [of _ s]) simp
qed

theorem opposite_transfers_deadlock_witness:
  "\<exists>s. lk_steps sample_pair (lk_start sample_db) s \<and> transfer_step sample_pair 0 0 s = None \<and> transfer_step sample_pair 0 1 s = None"
proof -
  obtain s where s: "lk_steps sample_pair (lk_start sample_db) s" "lk_phase s 0 = BookedOut" "lk_phase s 1 = BookedOut"
    "\<And>s' n. lk_steps sample_pair s s' \<and> lk_phase s' 0 \<notin> {Failed, Closed} \<and> lk_phase s' 1 \<notin> {Failed, Closed} \<Longrightarrow>
       transfer_step sample_pair n 0 s' = None \<and> transfer_step sample_pair n 1 s' = None"
    using opposite_transfers_deadlock [of sample_db 0 1 sample_pair 100 5] sample_db_wf sample_db_reconciled
    by (auto simp: sample_pair_def sample_balance int64_range_def)
  from s(4) [of s 0] s(1-3) show ?thesis by (intro exI [of _ s]) simp
qed

end
