(* ===== verification/System.thy ===== *)
theory System
  imports LoginAlert AuthHttp WalletSubscriber WalletHttp
begin

text \<open>
  The auth service, the broker and the wallet service as one system. Requests of both services,
  the goroutines that requests start, the outbox worker's ticks and deliveries to the wallet's
  consumer are its steps, in any order; each runs in a world with the service's tables and with
  any clock, identifiers and failing calls. The broker may deliver a published message at any
  time, again and again, or never; a goroutine may never run, which is what a crash leaves.
\<close>

section \<open>The system\<close>

record system =
  sy_auth :: auth_db
  sy_sent :: "publication list"
  sy_go :: "unit auth_prog list"
  sy_wallet :: wallet_db

definition auth_now :: "auth_db world \<Rightarrow> system \<Rightarrow> system" where
  "auth_now w s = s\<lparr>sy_auth := db w, sy_sent := sent w\<rparr>"

definition auth_at :: "system \<Rightarrow> auth_db world \<Rightarrow> bool" where
  "auth_at s w \<longleftrightarrow> db w = sy_auth s \<and> sent w = sy_sent s"

fun batch_world :: "'d world run \<Rightarrow> 'd world" where
  "batch_world (Returned w) = w"
| "batch_world (Blocked w) = w"
| "batch_world (Panicked w) = w"

inductive sy_step :: "auth_http \<Rightarrow> (string \<Rightarrow> go_error + TransferRequest) \<Rightarrow> system \<Rightarrow> system \<Rightarrow> bool"
  for H :: auth_http and bind_Transfer :: "string \<Rightarrow> go_error + TransferRequest" where
  sy_auth_request: "auth_at s w \<Longrightarrow> auth_serve H rt req w = ((resp, g), w') \<Longrightarrow>
    sy_step H bind_Transfer s ((auth_now w' s)\<lparr>sy_go := sy_go s @ (case g of None \<Rightarrow> [] | Some g' \<Rightarrow> [g'])\<rparr>)"
| sy_goroutine: "auth_at s w \<Longrightarrow> g \<in> set (sy_go s) \<Longrightarrow> sy_step H bind_Transfer s (auth_now (snd (g w)) s)"
| sy_batch: "auth_at s w \<Longrightarrow> (\<And>es. mset (order es) = mset es) \<Longrightarrow>
    sy_step H bind_Transfer s (auth_now (batch_world (ProcessBatch auth_outbox auth_app_ProcessEvent order config w)) s)"
| sy_recovery: "auth_at s w \<Longrightarrow> sy_step H bind_Transfer s (auth_now (recovery_tick auth_outbox w) s)"
| sy_wallet_request: "db w = sy_wallet s \<Longrightarrow>
    sy_step H bind_Transfer s (s\<lparr>sy_wallet := db (snd (wallet_serve bind_Transfer rt req w))\<rparr>)"
| sy_delivery: "db w = sy_wallet s \<Longrightarrow> p \<in> set (sy_sent s) \<Longrightarrow> msg_Body m = pub_body p \<Longrightarrow>
    sy_step H bind_Transfer s (s\<lparr>sy_wallet := db (snd (wallet_Handle (env_proto (ah_env H)) m w))\<rparr>)"

abbreviation sy_steps :: "auth_http \<Rightarrow> (string \<Rightarrow> go_error + TransferRequest) \<Rightarrow> system \<Rightarrow> system \<Rightarrow> bool" where
  "sy_steps H bind_Transfer \<equiv> (sy_step H bind_Transfer)\<^sup>*\<^sup>*"

definition empty_wallet_db :: wallet_db where
  "empty_wallet_db = \<lparr>wallets = [], wallets_next = 1, wallet_transactions = [], wallet_transactions_next = 1,
     wallet_processed_messages = []\<rparr>"

text \<open>The system after the migrations.\<close>

definition sy_start :: system where
  "sy_start = \<lparr>sy_auth = empty_auth_db, sy_sent = [], sy_go = [], sy_wallet = empty_wallet_db\<rparr>"

section \<open>What a message announces\<close>

definition announced :: "proto_lib \<Rightarrow> string \<Rightarrow> int \<Rightarrow> bool" where
  "announced L b u \<longleftrightarrow> (\<exists>ev ru. proto_Unmarshal L b = Inr ev \<and> ev_EventType ev = event_Type_string TypeAuthRegisterNewUser \<and>
     UnmarshalTo_RegisterNewUser L (ev_Payload ev) = Inr ru \<and> u = uint64 (rnu_Id ru))"

definition user_ids :: "auth_db \<Rightarrow> int set" where
  "user_ids d = (\<lambda>u. uint64 (usr_ID u)) ` set (users d)"

definition honest :: "proto_lib \<Rightarrow> auth_db \<Rightarrow> string \<Rightarrow> bool" where
  "honest L d b \<longleftrightarrow> (\<forall>u. announced L b u \<longrightarrow> u \<in> user_ids d)"

text \<open>Every message of the outbox, and every one published, announces users that exist.\<close>

definition truthful :: "proto_lib \<Rightarrow> auth_db world \<Rightarrow> bool" where
  "truthful L w \<longleftrightarrow> (\<forall>r \<in> set (events auth_outbox w). honest L (db w) (oe_Payload r)) \<and> (\<forall>p \<in> set (sent w). honest L (db w) (pub_body p))"

lemma honest_mono: "honest L d b \<Longrightarrow> set (users d) \<subseteq> set (users d') \<Longrightarrow> honest L d' b"
  by (auto simp: honest_def user_ids_def)

lemma honest_login:
  assumes "proto_ok L" "event_New L (PbNewSessionLoggedIn n) TypeAuthNewSessionLoggedIn = Inr env" "proto_Marshal L env = Inr b"
  shows "honest L d b"
  using envelope_roundtrip [OF assms] by (simp add: honest_def announced_def)

lemma honest_registration:
  assumes "proto_ok L" "event_New L (PbRegisterNewUser ru) TypeAuthRegisterNewUser = Inr env" "proto_Marshal L env = Inr b"
    and "uint64 (rnu_Id ru) \<in> user_ids d"
  shows "honest L d b"
  using envelope_roundtrip [OF assms(1-3)] assms(4) by (auto simp: honest_def announced_def UnmarshalTo_RegisterNewUser_def)

section \<open>Requests publish nothing\<close>

named_theorems quiet_rules

lemma quiet_basic [quiet_rules]:
  "keeps (\<lambda>w. sent w = ps) outside" "keeps (\<lambda>w. sent w = ps) uuid_NewString" "keeps (\<lambda>w. sent w = ps) rand_Read"
  "keeps (\<lambda>w. sent w = ps) (sql f)" "keeps (\<lambda>w. sent w = ps) (sql_query q)" "keeps (\<lambda>w. sent w = ps) (sql_now h)"
  "keeps (\<lambda>w. sent w = ps) (bcrypt_hash E pw)" "keeps (\<lambda>w. sent w = ps) (GenerateAccessToken J a sid k n)"
  by (auto simp: keeps_def outside_def uuid_NewString_def rand_Read_def sql_def sql_query_def sql_now_def call_def bcrypt_hash_def
      GenerateAccessToken_world split: option.splits sum.splits prod.splits)

lemma quiet_tx [quiet_rules]:
  assumes "keeps (\<lambda>w. sent w = ps) body"
  shows "keeps (\<lambda>w. sent w = ps) (in_tx f g body)" "keeps (\<lambda>w. sent w = ps) (run_in_tx body)"
proof -
  have "keeps (\<lambda>w. sent w = ps) begin_tx" "keeps (\<lambda>w. sent w = ps) (commit_tx d)" "keeps (\<lambda>w. sent w = ps) (rollback_tx d e)"
    "keeps (\<lambda>w. sent w = ps) (abandon_tx d e)" for d e
    by (auto simp: keeps_def begin_tx_def commit_tx_def rollback_tx_def abandon_tx_def call_def outside_def split: option.splits)
  note rules = keep_rules this assms
  show "keeps (\<lambda>w. sent w = ps) (in_tx f g body)" unfolding in_tx_def by (intro rules)
  show "keeps (\<lambda>w. sent w = ps) (run_in_tx body)" unfolding run_in_tx_def by (intro rules)
qed

lemma quiet_upsert [quiet_rules]: "keeps (\<lambda>w. sent w = ps) (UpsertSession dc uid h e p)"
  unfolding UpsertSession_def upsert_device_step_def create_session_def overwrite_session_def upsert_failed_def Let_def
  by (intro keep_rules quiet_rules)

lemma quiet_outbox [quiet_rules]:
  "keeps (\<lambda>w. sent w = ps) (outbox_entry t body u)" "keeps (\<lambda>w. sent w = ps) (auth_InsertOutboxEvent ev)"
  "keeps (\<lambda>w. sent w = ps) generateRefreshToken"
  unfolding outbox_entry_def auth_InsertOutboxEvent_def generateRefreshToken_def by (intro keep_rules quiet_rules)+

lemma quiet_services [quiet_rules]:
  "keeps (\<lambda>w. sent w = ps) (Register E dc rq)" "keeps (\<lambda>w. sent w = ps) (Login E dc lq)" "keeps (\<lambda>w. sent w = ps) (RefreshToken E dc fq)"
  "keeps (\<lambda>w. sent w = ps) (LogoutSession uid sid)" "keeps (\<lambda>w. sent w = ps) (LogoutAllSessions uid ex)"
  "keeps (\<lambda>w. sent w = ps) (UpdatePushToken uid sid tok)" "keeps (\<lambda>w. sent w = ps) (svc_GetUserSessions uid)"
  "keeps (\<lambda>w. sent w = ps) auth_IsReady"
  unfolding Register_def register_tx_def CreateUserByEmailAndPassword_def Login_def login_tx_def GetUserByEmail_def RefreshToken_def
    RotateRefreshToken_def rotate_body_def LogoutSession_def RevokeSession_def revoke_body_def UpdatePushToken_def repo_UpdatePushToken_def
    LogoutAllSessions_def RevokeAllSessions_def revoke_all_body_def exec_args_def svc_GetUserSessions_def GetUserSessions_def auth_IsReady_def
    auth_Ping_def auth_RunInTx_eq Let_def
  by (intro keep_rules quiet_rules)+

section \<open>Requests announce only users that exist\<close>

abbreviation tables :: "User list \<Rightarrow> outbox_tab \<Rightarrow> auth_db \<Rightarrow> bool" where
  "tables us ob d \<equiv> users d = us \<and> auth_outbox_events d = ob"

lemma tables_upsert: "keeps_db (tables us ob) (UpsertSession dc uid h e p)"
  unfolding UpsertSession_def upsert_device_step_def create_session_def overwrite_session_def Let_def
  by (intro keep_rules keeps_sql_now;
      auto simp: upsert_device_def update_session_def insert_session_def archive_sessions_def Let_def split: if_splits)

lemma tables_requests:
  "keeps_db (tables us ob) (RefreshToken E dc fq)" "keeps_db (tables us ob) (LogoutSession uid sid)"
  "keeps_db (tables us ob) (UpdatePushToken uid sid tok)" "keeps_db (tables us ob) (svc_GetUserSessions uid)"
  "keeps_db (tables us ob) auth_IsReady"
  unfolding RefreshToken_def RotateRefreshToken_def rotate_body_def LogoutSession_def RevokeSession_def revoke_body_def UpdatePushToken_def
    repo_UpdatePushToken_def svc_GetUserSessions_def GetUserSessions_def auth_IsReady_def auth_Ping_def Let_def
  by (intro keep_rules keeps_sql_now keeps_sql;
      auto simp: update_session_def archive_sessions_def delete_sessions_def set_push_token_def Let_def split: if_splits)+

lemma login_tx_rows:
  assumes "login_tx E dc req user w = (Inr (at, rt, dev, sid, ev), w')"
  shows "users (db w') = users (db w) \<and>
    (\<exists>r env n. ob_rows (auth_outbox_events (db w')) = ob_rows (auth_outbox_events (db w)) @ [r] \<and> oe_Payload r = oe_Payload ev \<and>
       event_New (env_proto E) (PbNewSessionLoggedIn n) TypeAuthNewSessionLoggedIn = Inr env \<and> proto_Marshal (env_proto E) env = Inr (oe_Payload ev))"
proof -
  let ?F = "tables (users (db w)) (auth_outbox_events (db w))"
  let ?upsert = "\<lambda>n. call (UpsertSession dc (usr_ID user) (hashRefreshToken E rt) (n + seconds (RefreshTokenDuration E)) (lq_PushToken req))
    (\<lambda>_. ret ([], [])) ret :: (string \<times> string) auth_prog"
  obtain w2 w3 w5 w6 body where 1: "generateRefreshToken w = (Inr rt, w2)" and 2: "?upsert (clock w2) w2 = (Inr (dev, sid), w3)"
    and 4: "encode_event E (PbNewSessionLoggedIn \<lparr>nsl_Id = sid, nsl_UserId = usr_ID user\<rparr>) TypeAuthNewSessionLoggedIn w3 = (Inr body, w5)"
    and 5: "outbox_entry TypeAuthNewSessionLoggedIn body (usr_ID user) w5 = (Inr ev, w6)"
    and 6: "auth_InsertOutboxEvent ev w6 = (Inr (), w')"
    using assms unfolding login_tx_def login_failed_def
    by (elim call_fail_Inr) (clarsimp simp: time_Now_def elim!: call_fail_Inr dest!: GenerateAccessToken_Inr)
  have "?F (db w2)" using keepsD' [OF keeps_generateRefreshToken _ 1, of ?F] by simp
  moreover have "keeps_db ?F (?upsert n)" for n by (intro keep_rules tables_upsert)
  ultimately have f: "?F (db w3)" using keepsD' [of "db_inv ?F" "?upsert (clock w2)", OF _ _ 2] by blast
  obtain r t where r: "ob_key r = ob_key ev" "ob_rows t = ob_rows (auth_outbox_events (db w6)) @ [r]" "db w' = (db w6)\<lparr>auth_outbox_events := t\<rparr>"
    using InsertOutbox_Inr [OF 6] by auto
  obtain env where w5: "w5 = w3" and env: "event_New (env_proto E) (PbNewSessionLoggedIn \<lparr>nsl_Id = sid, nsl_UserId = usr_ID user\<rparr>)
      TypeAuthNewSessionLoggedIn = Inr env" "proto_Marshal (env_proto E) env = Inr body"
    using encode_event_Inr [OF 4] by auto
  have o: "db w6 = db w3" "oe_Payload ev = body" using outbox_entry_Inr [OF 5] w5 by (auto simp: ob_key_def)
  have "users (db w') = users (db w)" "ob_rows (auth_outbox_events (db w')) = ob_rows (auth_outbox_events (db w)) @ [r]" "oe_Payload r = oe_Payload ev"
    using r f o(1) by (simp_all add: ob_key_def)
  then show ?thesis using env o(2) by auto
qed

lemma tx_neutral_login_tx: "tx_neutral (login_tx E dc req user)"
  unfolding login_tx_def outbox_entry_def auth_InsertOutboxEvent_def by (intro tx_rules)

lemma Login_tables:
  assumes "Login E dc req w = (r, w')"
  shows "case r of Inl e \<Rightarrow> db w' = db w
    | Inr (resp, g) \<Rightarrow> users (db w') = users (db w) \<and>
        (\<exists>r ev env n. ob_rows (auth_outbox_events (db w')) = ob_rows (auth_outbox_events (db w)) @ [r] \<and> oe_Payload r = oe_Payload ev \<and>
           g = ProcessSingleEvent auth_outbox (env_ProcessEvent E) (OutboxLockTimeout E) ev \<and>
           event_New (env_proto E) (PbNewSessionLoggedIn n) TypeAuthNewSessionLoggedIn = Inr env \<and> proto_Marshal (env_proto E) env = Inr (oe_Payload ev))"
proof (cases r)
  case (Inl e)
  have "db w' = db w"
    using assms Inl unfolding Login_def auth_RunInTx_eq
    by (auto simp: login_failed_def split: if_splits option.splits prod.splits elim!: call_cases
        dest!: run_in_tx_Inl [OF _ tx_neutral_login_tx] keepsD' [OF keeps_GetUserByEmail refl])
  then show ?thesis using Inl by simp
next
  case (Inr x)
  obtain resp g where x: "x = (resp, g)" by force
  obtain user w1 where u: "GetUserByEmail (lq_Email req) w = (Inr user, w1)"
    and k: "call (auth_RunInTx (login_tx E dc req user)) (login_failed ErrLoginFailed)
        (\<lambda>(accessToken, refreshToken, deviceID, sessionID, outboxEvent).
      ret (\<lparr>res_Code = 200,
            res_Data = \<lparr>lr_AccessToken = accessToken, lr_RefreshToken = refreshToken, lr_DeviceID = deviceID,
                        lr_SessionID = sessionID, lr_User = user\<rparr>\<rparr>,
           ProcessSingleEvent auth_outbox (env_ProcessEvent E) (OutboxLockTimeout E) outboxEvent)) w1 = (Inr x, w')"
    using assms Inr unfolding Login_def
    by (auto split: if_splits option.splits elim!: call_cases simp: login_failed_def)
  obtain at rt dev sid ev where t: "run_in_tx (login_tx E dc req user) w1 = (Inr (at, rt, dev, sid, ev), w')"
    and g: "g = ProcessSingleEvent auth_outbox (env_ProcessEvent E) (OutboxLockTimeout E) ev"
    using k unfolding auth_RunInTx_eq login_failed_def x by (auto elim!: call_fail_Inr)
  obtain w2 where l: "login_tx E dc req user (after_begin w1) = (Inr (at, rt, dev, sid, ev), w2)" "db w' = db w2"
    using t by (auto dest!: run_in_tx_Inr)
  have "db (after_begin w1) = db w" using keepsD' [OF keeps_GetUserByEmail _ u, of "\<lambda>d. d = db w"] by simp
  then show ?thesis using login_tx_rows [OF l(1)] l(2) g unfolding Inr x by auto
qed

lemma truthfulI:
  assumes "truthful L w" "ob_rows (auth_outbox_events (db w')) = ob_rows (auth_outbox_events (db w)) @ new" "sent w' = sent w"
    and "set (users (db w)) \<subseteq> set (users (db w'))" "\<And>r. r \<in> set new \<Longrightarrow> honest L (db w') (oe_Payload r)"
  shows "truthful L w'"
  using assms honest_mono [OF _ assms(4)] by (auto simp: truthful_def auth_outbox_def)

text \<open>What a request does to the announcements, and the goroutine it may start.\<close>

definition announces_truly :: "proto_lib \<Rightarrow> auth_db world \<Rightarrow> unit auth_prog option \<Rightarrow> auth_db world \<Rightarrow> bool" where
  "announces_truly L w g w' \<longleftrightarrow> truthful L w' \<and> set (users (db w)) \<subseteq> set (users (db w')) \<and>
     (case g of None \<Rightarrow> True
      | Some g' \<Rightarrow> \<exists>lt ev. g' = ProcessSingleEvent auth_outbox auth_app_ProcessEvent lt ev \<and> honest L (db w') (oe_Payload ev))"

lemma announces_nothing:
  "truthful L w \<Longrightarrow> tables (users (db w)) (auth_outbox_events (db w)) (db w') \<Longrightarrow> sent w' = sent w \<Longrightarrow> announces_truly L w None w'"
  using truthfulI [of L w w' "[]"] by (simp add: announces_truly_def)

lemma quietD: "keeps (\<lambda>w. sent w = sent v) m \<Longrightarrow> m v = (r, v') \<Longrightarrow> sent v' = sent v"
  using keepsD' [of "\<lambda>w. sent w = sent v" m v r v'] by simp

lemma Register_announces:
  assumes "truthful L w" "Register E dc rq w = (Inr (resp, g), w')" "proto_ok L" "L = env_proto E" "env_ProcessEvent E = auth_app_ProcessEvent"
  shows "announces_truly L w (Some g) w'"
proof -
  obtain ev where reg: "registered E (rq_Email rq) (rr_RefreshToken (res_Data resp)) (rr_SessionID (res_Data resp)) (clock w) (db w) (db w') ev"
    and g: "g = ProcessSingleEvent auth_outbox auth_app_ProcessEvent (OutboxLockTimeout E) ev"
    using Register_Inr [OF assms(2)] assms(5) by auto
  then obtain u r env where u: "users (db w') = users (db w) @ [u]"
    and r: "ob_rows (auth_outbox_events (db w')) = ob_rows (auth_outbox_events (db w)) @ [r]" "ob_key r = ob_key ev"
    and enc: "event_New L (PbRegisterNewUser \<lparr>rnu_Id = usr_ID u, rnu_Email = rq_Email rq\<rparr>) TypeAuthRegisterNewUser = Inr env"
      "proto_Marshal L env = Inr (oe_Payload r)"
    unfolding registered_def assms(4) by blast
  have h: "honest L (db w') (oe_Payload r)"
    by (rule honest_registration [OF assms(3) enc]) (simp add: user_ids_def u)
  then have "honest L (db w') (oe_Payload ev)" using r(2) by (simp add: ob_key_def)
  moreover have "truthful L w'"
    using truthfulI [OF assms(1) r(1) quietD [OF quiet_services(1) assms(2)]] h u by auto
  ultimately show ?thesis using g u by (auto simp: announces_truly_def)
qed

lemma Login_announces:
  assumes "truthful L w" "Login E dc rq w = (Inr (resp, g), w')" "proto_ok L" "L = env_proto E" "env_ProcessEvent E = auth_app_ProcessEvent"
  shows "announces_truly L w (Some g) w'"
proof -
  obtain r ev env n where u: "users (db w') = users (db w)"
    and r: "ob_rows (auth_outbox_events (db w')) = ob_rows (auth_outbox_events (db w)) @ [r]" "oe_Payload r = oe_Payload ev"
    and g: "g = ProcessSingleEvent auth_outbox auth_app_ProcessEvent (OutboxLockTimeout E) ev"
    and enc: "event_New L (PbNewSessionLoggedIn n) TypeAuthNewSessionLoggedIn = Inr env" "proto_Marshal L env = Inr (oe_Payload ev)"
    using Login_tables [OF assms(2)] assms(4,5) by auto
  have h: "honest L (db w') (oe_Payload ev)" by (rule honest_login [OF assms(3) enc])
  then have "truthful L w'"
    using truthfulI [OF assms(1) r(1) quietD [OF quiet_services(2) assms(2)]] u r(2) by auto
  then show ?thesis using g u h by (auto simp: announces_truly_def)
qed

lemma chain_tables:
  assumes "run_chain (route_chain H rt) c w = (r, w')"
  shows "db w' = db w \<and> sent w' = sent w"
proof -
  have dev: "db w' = db w \<and> sent w' = sent w" if "run_chain device_chain c w = (r, w')" for c w r w'
    using that by (auto simp: device_chain_def IdentityMiddleware_def DeviceContextMiddleware_def PlatformMiddleware_def
      AppVersionMiddleware_def DeviceNameMiddleware_def Let_def call_def uuid_NewString_def split: if_splits)
  show ?thesis
    using assms by (cases rt) (auto elim!: call_cases dest!: AuthMiddleware_frame dev)
qed

lemma auth_serve_announces:
  assumes "truthful L w" "auth_serve H rt req w = ((resp, g), w')" "proto_ok L" "L = env_proto (ah_env H)"
    "env_ProcessEvent (ah_env H) = auth_app_ProcessEvent"
  shows "announces_truly L w g w'"
proof (cases "run_chain (route_chain H rt) (new_context (ah_fallback H) req) w")
  case (Pair r w1)
  note f = chain_tables [OF Pair]
  have t1: "truthful L w1" using truthfulI [OF assms(1), of w1 "[]"] f by simp
  have lift: "announces_truly L w g v" if "announces_truly L w1 g v" for g v using that f by (simp add: announces_truly_def)
  have same: "announces_truly L w1 None v" if "m w1 = (x, v)" "\<And>us ob. keeps_db (tables us ob) m" "\<And>ps. keeps (\<lambda>w. sent w = ps) m"
    for m :: "'x auth_prog" and x v
    using announces_nothing [OF t1, of v] quietD [OF that(3) that(1)] keepsD' [OF that(2) _ that(1)] by blast
  have all: "announces_truly L w1 None v" if "LogoutAllSessions uid ex w1 = (x, v)" for uid ex x v
    using LogoutAllSessions_fails [of uid ex w1] that announces_nothing [OF t1, of v] quietD [OF quiet_services(5) that] by auto
  have failed: "announces_truly L w1 None v" if "Register E dc rq w1 = (Inl e, v)" for E dc rq e v
    using Register_Inl [OF that] announces_nothing [OF t1, of v] quietD [OF quiet_services(1) that] by auto
  have failed': "announces_truly L w1 None v" if "Login E dc rq w1 = (Inl e, v)" for E dc rq e v
    using Login_tables [OF that] announces_nothing [OF t1, of v] quietD [OF quiet_services(2) that] by auto
  note ok = Register_announces [OF t1 _ assms(3-5)] Login_announces [OF t1 _ assms(3-5)]
  have none: "announces_truly L v None v" if "truthful L v" for v using announces_nothing [OF that] by simp
  show ?thesis
  proof (rule lift, cases r)
    case (Inl x)
    then show "announces_truly L w1 g w'" using assms(2) Pair none [OF t1] by (auto simp: auth_serve_def split: prod.splits)
  next
    case (Inr c)
    then have "route_handler H rt c w1 = ((resp, g), w')" using assms(2) Pair by (simp add: auth_serve_def)
    then show "announces_truly L w1 g w'"
      using t1 by (cases rt) (auto simp: LiveHandler_def ReadyHandler_def RegisterHandler_def LoginHandler_def RefreshTokenHandler_def
          VerifyTokenHandler_def GetSessionsHandler_def LogoutSessionHandler_def LogoutAllSessionsHandler_def
          RevokeSessionHandler_def UpdatePushTokenHandler_def error_answer_def Let_def split: prod.splits sum.splits if_splits
          intro: none failed failed' ok all same [OF _ tables_requests(1) quiet_services(3)] same [OF _ tables_requests(2) quiet_services(4)]
            same [OF _ tables_requests(3) quiet_services(6)] same [OF _ tables_requests(4) quiet_services(7)]
            same [OF _ tables_requests(5) quiet_services(8)])
  qed
qed

section \<open>Goroutines and the worker publish what the outbox holds\<close>

lemma truthful_calls [simp]: "truthful L (w\<lparr>calls := n\<rparr>) = truthful L w"
  by (simp add: truthful_def)

lemma keepsI: "(\<And>w r w'. P w \<Longrightarrow> m w = (r, w') \<Longrightarrow> P w') \<Longrightarrow> keeps P m"
  unfolding keeps_def using surjective_pairing by blast

abbreviation truthful_of :: "proto_lib \<Rightarrow> User list \<Rightarrow> auth_db world \<Rightarrow> bool" where
  "truthful_of L us w \<equiv> truthful L w \<and> users (db w) = us"

lemma truthful_update:
  assumes "\<And>n r. ob_key (f n r) = ob_key r"
  shows "keeps (truthful_of L us) (ob_update auth_outbox p f)"
proof -
  have pay: "oe_Payload (f n r) = oe_Payload r" for n r using assms [of n r] by (simp add: ob_key_def)
  have "truthful_of L us w'" if t: "truthful_of L us w" and u: "ob_update auth_outbox p f w = (r, w')" for w r w'
  proof (cases r)
    case (Inl e)
    then show ?thesis using auth_store.ob_update_Inl [of p f w e w'] u t by simp
  next
    case (Inr n)
    then have "events auth_outbox w' = update_where (p (clock w)) (f (clock w)) (events auth_outbox w)" "sent w' = sent w"
      using auth_store.ob_update_Inr [of p f w n w'] u by simp_all
    moreover have "users (db w') = users (db w)"
      using u unfolding Inr by (auto simp: ob_update_def auth_outbox_def Let_def dest!: sql_now_Inr_cases)
    ultimately show ?thesis
      using t by (auto simp: truthful_def honest_def user_ids_def set_update_where pay split: if_splits)
  qed
  then show ?thesis by (rule keepsI)
qed

lemma truthful_outside: "keeps (truthful_of L us) outside"
  by (simp add: keeps_def outside_def)

lemma auth_publish_cases:
  assumes "auth_app_ProcessEvent e w = (r, w')"
  shows "db w' = db w \<and> (sent w' = sent w \<or> (\<exists>p. sent w' = sent w @ [p] \<and> pub_body p = oe_Payload e))"
  using assms unfolding auth_app_ProcessEvent_def auth_pub.process_cases
  by (cases r) (auto simp: same_but_io_def split: if_splits
      dest: topic_pub.pub_ok direct_pub.pub_ok topic_pub.pub_error direct_pub.pub_error topic_pub.pub_frame direct_pub.pub_frame)

lemma truthful_publish:
  assumes "\<And>d. users d = us \<Longrightarrow> honest L d (oe_Payload e)"
  shows "keeps (truthful_of L us) (auth_app_ProcessEvent e)"
proof -
  have "truthful_of L us w'" if "truthful_of L us w" "auth_app_ProcessEvent e w = (r, w')" for w r w'
    using auth_publish_cases [OF that(2)] that(1) assms by (auto simp: truthful_def)
  then show ?thesis by (rule keepsI)
qed

lemma truthful_marks:
  "keeps (truthful_of L us) (ClaimSingleEvent auth_outbox i lt)" "keeps (truthful_of L us) (MarkOutboxEventProcessed auth_outbox i)"
  "keeps (truthful_of L us) (MarkOutboxEventFailed auth_outbox i)" "keeps (truthful_of L us) (RecoverStaleEvents auth_outbox)"
  "keeps (truthful_of L us) (MarkEventsProcessed auth_outbox ids)" "keeps (truthful_of L us) (MarkEventsFailed auth_outbox ids)"
  unfolding ClaimSingleEvent_def MarkOutboxEventProcessed_def MarkOutboxEventFailed_def RecoverStaleEvents_def RecoverStaleOutboxEvents_def
    MarkEventsProcessed_def MarkOutboxEventsProcessed_def MarkEventsFailed_def MarkOutboxEventsFailed_def
  by (intro keep_rules truthful_update truthful_outside; simp)+

lemma truthful_single:
  assumes "\<And>d. users d = us \<Longrightarrow> honest L d (oe_Payload e)"
  shows "keeps (truthful_of L us) (ProcessSingleEvent auth_outbox auth_app_ProcessEvent lt e)"
  unfolding ProcessSingleEvent_def Let_def by (intro keep_rules truthful_marks truthful_publish assms)

lemma truthful_goroutines:
  assumes "run_goroutines auth_app_ProcessEvent es w = (pf, w')" "truthful_of L us w"
    and "\<And>e d. e \<in> set es \<Longrightarrow> users d = us \<Longrightarrow> honest L d (oe_Payload e)"
  shows "truthful_of L us w'"
  using assms
proof (induction es arbitrary: w pf)
  case (Cons e es)
  obtain r w1 where p: "auth_app_ProcessEvent e w = (r, w1)" by (cases "auth_app_ProcessEvent e w")
  have "truthful_of L us w1" using keepsD' [OF truthful_publish Cons.prems(2) p] Cons.prems(3) by simp
  moreover have "\<exists>pf'. run_goroutines auth_app_ProcessEvent es w1 = (pf', w')"
    using Cons.prems(1) p by (auto split: sum.splits prod.splits)
  ultimately show ?case using Cons.IH Cons.prems(3) by (metis list.set_intros(2))
qed simp

lemma keeps_snapshot:
  assumes "\<And>e. keeps_db P (h e)" "\<And>d. P d \<Longrightarrow> keeps_db P (k d)"
  shows "keeps_db P (call begin_tx h k)"
proof (rule keepsI)
  fix w r w'
  assume P: "db_inv P w" and c: "call begin_tx h k w = (r, w')"
  from c show "db_inv P w'"
  proof (cases rule: call_cases)
    case (err e w1)
    then have "db_inv P w1" using P by (auto dest!: begin_tx_Inl)
    then show ?thesis using keepsD' [OF assms(1) _ err(2)] by blast
  next
    case (ok d w1)
    then have "db_inv P w1" "P d" using P by (auto dest!: begin_tx_Inr)
    then show ?thesis using keepsD' [OF assms(2) _ ok(2)] by blast
  qed
qed

lemma keeps_ends:
  "P d \<Longrightarrow> keeps_db P (rollback_tx d e)" "P d \<Longrightarrow> keeps_db P (rollback_ret d x)" "P d \<Longrightarrow> keeps_db P (commit_tx d)"
  by (auto simp: keeps_def rollback_tx_def rollback_ret_def commit_tx_def call_def outside_def split: option.splits)

lemma claim_users: "keeps_db (\<lambda>d. users d = us) (svc_ClaimOutboxEvents auth_outbox n lt)"
  unfolding svc_ClaimOutboxEvents_def ClaimOutboxEvents_def ob_update_def Let_def
  by (intro keep_rules keeps_snapshot keeps_ends keeps_sql_now) (auto simp: auth_outbox_def)

lemma truthful_claim:
  assumes "svc_ClaimOutboxEvents auth_outbox n lt w = (r, w')" "truthful_of L us w"
  shows "truthful_of L us w' \<and> (\<forall>es. r = Inr es \<longrightarrow> (\<forall>e \<in> set es. \<forall>d. users d = us \<longrightarrow> honest L d (oe_Payload e)))"
proof -
  obtain r' where post: "auth_store.claim_post lt w r' w'" "case r of Inl _ \<Rightarrow> isl r' | Inr es \<Rightarrow> r' = Inr es"
    using auth_store.svc_Claim_post [OF assms(1)] by blast
  have u: "users (db w') = us" using keepsD' [OF claim_users _ assms(1), of us] assms(2) by simp
  have same: "honest L d b" if "honest L (db w) b" "users d = us" for d b using that assms(2) by (simp add: honest_def user_ids_def)
  have pay: "oe_Payload (ob_selected x) = oe_Payload x" "oe_Payload (ob_lock t x) = oe_Payload x" for t x by (simp_all add: ob_selected_def ob_lock_def)
  have h: "honest L (db w) (oe_Payload x)" if "x \<in> set (events auth_outbox w)" for x using assms(2) that by (simp add: truthful_def)
  have "\<forall>x \<in> set (events auth_outbox w'). \<exists>y \<in> set (events auth_outbox w). oe_Payload x = oe_Payload y"
    using post(1) pay(2) by (cases r') (force simp: auth_store.claim_post_def set_update_where)+
  moreover have "sent w' = sent w" using post(1) by (simp add: auth_store.claim_post_def)
  ultimately have "truthful L w'"
    using assms(2) h same [OF _ u] unfolding truthful_def by metis
  moreover have "honest L d (oe_Payload e)" if s: "r = Inr es" "e \<in> set es" "users d = us" for es e d
  proof -
    obtain x where "x \<in> set (events auth_outbox w)" "e = ob_selected x"
      using post s(1,2) by (auto simp: auth_store.claim_post_def)
    then show ?thesis using same [OF h s(3)] pay(1) by simp
  qed
  ultimately show ?thesis using u by blast
qed

lemma truthful_batch:
  assumes "truthful_of L us w" "\<And>es. mset (order es) = mset es"
  shows "truthful_of L us (batch_world (ProcessBatch auth_outbox auth_app_ProcessEvent order config w))"
proof -
  obtain r w1 where c: "svc_ClaimOutboxEvents auth_outbox (BatchSize config) (LockTimeout config) w = (r, w1)"
    by (cases "svc_ClaimOutboxEvents auth_outbox (BatchSize config) (LockTimeout config) w")
  note t = truthful_claim [OF c assms(1)]
  show ?thesis
  proof (cases r)
    case (Inr es)
    obtain ps fs w2 where g: "run_goroutines auth_app_ProcessEvent (order es) w1 = ((ps, fs), w2)"
      by (metis surj_pair)
    have "set (order es) = set es" using assms(2) by (metis set_mset_mset)
    then have "truthful_of L us w2" using truthful_goroutines [OF g, of L us] t Inr by simp
    then have "truthful_of L us (snd (call (MarkEventsProcessed auth_outbox ps) (\<lambda>_. MarkEventsFailed auth_outbox fs)
        (\<lambda>_. MarkEventsFailed auth_outbox fs) w2))"
      by (rule keepsD [rotated]) (intro keep_rules truthful_marks)
    then show ?thesis using c t Inr g by (simp add: ProcessBatch_def)
  qed (use c t in \<open>simp add: ProcessBatch_def\<close>)
qed

lemma truthful_recovery: "truthful_of L us w \<Longrightarrow> truthful_of L us (recovery_tick auth_outbox w)"
  unfolding recovery_tick_def by (rule keepsD [OF truthful_marks(4)])

section \<open>The wallet's tables\<close>

definition wallets_ok :: "int \<Rightarrow> int set \<Rightarrow> wallet_db \<Rightarrow> bool" where
  "wallets_ok t U d \<longleftrightarrow> books d \<and> total_balance d = t \<and> (\<forall>r \<in> set (wallets d). wal_UserID r \<in> U \<and> wal_Currency r = DefaultCurrency)"

lemma wallets_ok_mono: "wallets_ok t U d \<Longrightarrow> U \<subseteq> V \<Longrightarrow> wallets_ok t V d"
  by (auto simp: wallets_ok_def)

lemma wallets_ok_InitWallet:
  assumes "u \<in> U"
  shows "keeps_db (wallets_ok t U) (InitWallet u)"
proof -
  have "wallets_ok t U d'" if "wallets_ok t U d" "insert_wallet req n d = Inr (k, d')" "cwr_Balance req = 0" "cwr_UserID req = u"
    "cwr_Currency req = DefaultCurrency" for req n d k d'
  proof -
    have "books d'" using that(1-3) insert_wallet_wf [OF _ that(2)] insert_wallet_reconciled [OF _ _ that(2,3)]
      by (simp add: wallets_ok_def int64_range_def)
    moreover have "wallets d' = wallets d @ [\<lparr>wal_ID = wallets_next d, wal_UUID = cwr_UUID req, wal_UserID = u, wal_Balance = 0,
        wal_Currency = DefaultCurrency, wal_CreatedAt = n, wal_UpdatedAt = n\<rparr>]"
      using that(2-5) by (auto simp: insert_wallet_def split: if_splits)
    ultimately show ?thesis using that(1) assms by (auto simp: wallets_ok_def total_balance_def)
  qed
  then show ?thesis
    unfolding InitWallet_def CreateWallet_def by (intro keep_rules keeps_sql_now) auto
qed

lemma wallets_ok_messages [simp]: "wallets_ok t U (d\<lparr>wallet_processed_messages := rs\<rparr>) = wallets_ok t U d"
  by (simp add: wallets_ok_def total_balance_def)

lemma wallets_ok_Handle:
  assumes "\<And>u. announced L (msg_Body msg) u \<Longrightarrow> u \<in> U"
  shows "keeps_db (wallets_ok t U) (wallet_Handle L msg)"
proof -
  have ev: "keeps_db (wallets_ok t U) (wallet_handleEvent L ev)" if "proto_Unmarshal L (msg_Body msg) = Inr ev" for ev
  proof (cases "UnmarshalTo_RegisterNewUser L (ev_Payload ev)")
    case (Inr ru)
    then show ?thesis
      using assms [of "uint64 (rnu_Id ru)"] that unfolding wallet_handleEvent_def wallet_handleRegisterNewUser_def
      by (auto simp: announced_def intro!: keep_rules wallets_ok_InitWallet)
  qed (auto simp: wallet_handleEvent_def wallet_handleRegisterNewUser_def intro!: keep_rules)
  show ?thesis
    unfolding wallet_Handle_def inbox_defs
    by (cases "proto_Unmarshal L (msg_Body msg)") (simp; intro keep_rules keeps_pm_stmt ev; simp)+
qed

lemma chain_owners:
  assumes "transfer_chain req opId n1 n2 n3 n4 ref1 ref2 d d'"
  shows "map (\<lambda>r. (wal_UserID r, wal_Currency r)) (wallets d') = map (\<lambda>r. (wal_UserID r, wal_Currency r)) (wallets d)"
proof -
  have a: "map (\<lambda>r. (wal_UserID r, wal_Currency r)) (wallets d') = map (\<lambda>r. (wal_UserID r, wal_Currency r)) (wallets d)"
    if "add_balance delta i n d = Inr (u, d')" for delta i n d u d'
    using that by (auto simp: add_balance_def map_update_where split: if_splits)
  have b: "wallets d' = wallets d" if "insert_transaction r n d = Inr (k, d')" for r n d k d'
    using that by (auto simp: insert_transaction_def split: if_splits option.splits)
  show ?thesis using assms unfolding transfer_chain_def by (elim exE conjE) (simp add: a b)
qed

lemma wallets_ok_serve:
  assumes "wallets_ok t U (db w)"
  shows "wallets_ok t U (db (snd (wallet_serve bind_Transfer rt req w)))"
proof -
  have "wallets_ok t U (db w')" if x: "Transfer 0 rq w = (r, w')" for rq r w'
  proof (cases r)
    case (Inr y)
    obtain resp c where y: "y = (resp, c)" by force
    obtain opId n ref1 ref2 where ch: "transfer_steps rq opId n ref1 ref2 (db w) (db w')"
      using Transfer_Inr [of 0 rq w resp c w'] x unfolding Inr y by blast
    have b: "books (db w)" "total_balance (db w) = t" using assms by (simp_all add: wallets_ok_def)
    then have "books (db w')" "total_balance (db w') = t"
      using transfer_steps_wf [OF ch] transfer_steps_reconciled [OF ch] transfer_steps_total [OF ch] by simp_all
    moreover have "(\<lambda>r. (wal_UserID r, wal_Currency r)) ` set (wallets (db w')) = (\<lambda>r. (wal_UserID r, wal_Currency r)) ` set (wallets (db w))"
      using arg_cong [OF chain_owners [OF ch], of set] by simp
    ultimately show ?thesis using assms by (auto simp: wallets_ok_def image_iff set_eq_iff) (metis (no_types, lifting) image_eqI prod.inject)+
  qed (use x assms Transfer_Inl in fastforce)
  then show ?thesis
    using assms by (cases rt) (auto simp: wallet_serve_def new_context_def wallet_LiveHandler_def wallet_ReadyHandler_def TransferHandler_def
        wallet_IsReady_def wallet_Ping_def Let_def call_def outside_def split: prod.splits sum.splits option.splits)
qed

section \<open>The system stays consistent\<close>

definition sy_ok :: "proto_lib \<Rightarrow> int \<Rightarrow> system \<Rightarrow> bool" where
  "sy_ok L t s \<longleftrightarrow> (\<forall>w. auth_at s w \<longrightarrow> truthful L w) \<and>
     (\<forall>g \<in> set (sy_go s). \<exists>lt ev. g = ProcessSingleEvent auth_outbox auth_app_ProcessEvent lt ev \<and> honest L (sy_auth s) (oe_Payload ev)) \<and>
     wallets_ok t (user_ids (sy_auth s)) (sy_wallet s)"

lemma truthful_cong: "db v = db w \<Longrightarrow> sent v = sent w \<Longrightarrow> truthful L v = truthful L w"
  by (simp add: truthful_def)

lemma honest_cong: "users d = users d' \<Longrightarrow> honest L d b = honest L d' b"
  by (simp add: honest_def user_ids_def)

text \<open>A step of the auth side that adds no user.\<close>

lemma sy_ok_auth:
  assumes "sy_ok L t s" "truthful_of L (users (sy_auth s)) w'"
  shows "sy_ok L t (auth_now w' s)"
proof -
  have u: "users (db w') = users (sy_auth s)" using assms(2) by simp
  then have "user_ids (db w') = user_ids (sy_auth s)" by (simp add: user_ids_def)
  moreover have "truthful L w" if "auth_at (auth_now w' s) w" for w
    using that assms(2) truthful_cong [of w w' L] by (simp add: auth_at_def auth_now_def)
  ultimately show ?thesis
    using assms(1) honest_cong [OF u] by (simp add: sy_ok_def auth_now_def)
qed

lemma sy_ok_request:
  assumes "sy_ok L t s" "auth_at s w" "announces_truly L w g w'"
  shows "sy_ok L t ((auth_now w' s)\<lparr>sy_go := sy_go s @ (case g of None \<Rightarrow> [] | Some g' \<Rightarrow> [g'])\<rparr>)" (is "sy_ok L t ?s'")
proof -
  have sub: "set (users (sy_auth s)) \<subseteq> set (users (db w'))" using assms(2,3) by (simp add: announces_truly_def auth_at_def)
  have "truthful L v" if "auth_at ?s' v" for v
    using that assms(3) truthful_cong [of v w' L] by (simp add: auth_at_def auth_now_def announces_truly_def)
  moreover have "user_ids (sy_auth s) \<subseteq> user_ids (db w')" using sub unfolding user_ids_def by (rule image_mono)
  then have "wallets_ok t (user_ids (db w')) (sy_wallet s)"
    by (rule wallets_ok_mono [rotated]) (use assms(1) in \<open>simp add: sy_ok_def\<close>)
  moreover have "\<exists>lt ev. g' = ProcessSingleEvent auth_outbox auth_app_ProcessEvent lt ev \<and> honest L (db w') (oe_Payload ev)"
    if "g' \<in> set (sy_go ?s')" for g'
    using that assms(1,3) honest_mono [OF _ sub] unfolding sy_ok_def announces_truly_def
    by (cases g) (fastforce simp: auth_now_def)+
  ultimately show ?thesis by (simp add: sy_ok_def auth_now_def)
qed

lemma sy_ok_wallet: "sy_ok L t s \<Longrightarrow> wallets_ok t (user_ids (sy_auth s)) d \<Longrightarrow> sy_ok L t (s\<lparr>sy_wallet := d\<rparr>)"
  by (simp add: sy_ok_def auth_at_def)

lemma sy_ok_step:
  assumes "sy_step H bind_Transfer s s'" "sy_ok L t s" "proto_ok L" "L = env_proto (ah_env H)" "env_ProcessEvent (ah_env H) = auth_app_ProcessEvent"
  shows "sy_ok L t s'"
proof -
  have tr: "truthful_of L (users (sy_auth s)) w" if "auth_at s w" for w
    using assms(2) that by (simp add: sy_ok_def auth_at_def)
  from assms(1) show ?thesis
  proof cases
    case (sy_auth_request w rt req resp g w')
    then show ?thesis
      using sy_ok_request [OF assms(2) sy_auth_request(2) auth_serve_announces [OF _ sy_auth_request(3) assms(3-5)]] tr by simp
  next
    case (sy_goroutine w g)
    obtain lt ev where g: "g = ProcessSingleEvent auth_outbox auth_app_ProcessEvent lt ev" "honest L (sy_auth s) (oe_Payload ev)"
      using assms(2) sy_goroutine(3) by (auto simp: sy_ok_def)
    have "keeps (truthful_of L (users (sy_auth s))) g"
      unfolding g(1) by (rule truthful_single) (use g(2) honest_cong in blast)
    from sy_ok_auth [OF assms(2) keepsD [OF this tr [OF sy_goroutine(2)]]] show ?thesis unfolding sy_goroutine(1) .
  next
    case (sy_batch w order config)
    then show ?thesis using sy_ok_auth [OF assms(2) truthful_batch [OF tr]] by simp
  next
    case (sy_recovery w)
    then show ?thesis using sy_ok_auth [OF assms(2) truthful_recovery [OF tr]] by simp
  next
    case (sy_wallet_request w rt req)
    have "wallets_ok t (user_ids (sy_auth s)) (db w)" using assms(2) sy_wallet_request(2) by (simp add: sy_ok_def)
    from sy_ok_wallet [OF assms(2) wallets_ok_serve [OF this]] show ?thesis unfolding sy_wallet_request(1) .
  next
    case (sy_delivery w p m)
    have "truthful L (undefined\<lparr>db := sy_auth s, sent := sy_sent s\<rparr>)" using tr by (simp add: auth_at_def)
    then have "honest L (sy_auth s) (msg_Body m)" using sy_delivery(3,4) by (simp add: truthful_def)
    then have k: "keeps_db (wallets_ok t (user_ids (sy_auth s))) (wallet_Handle L m)"
      by (intro wallets_ok_Handle) (simp add: honest_def)
    have "wallets_ok t (user_ids (sy_auth s)) (db w)" using assms(2) sy_delivery(2) by (simp add: sy_ok_def)
    from sy_ok_wallet [OF assms(2) keepsD [OF k this]] show ?thesis unfolding sy_delivery(1) assms(4) .
  qed
qed

text \<open>
  C6. Auth, broker and wallet stay consistent with each other. From the tables of the migrations,
  whatever requests arrive at either service, in whatever order goroutines, batches, recoveries
  and deliveries run, however often a message is delivered and whichever calls fail: every wallet
  belongs to a registered user, no user has two, every balance is explained by the ledger, and
  the balances sum up to zero, since no operation brings money into the system.
\<close>

theorem system_consistent:
  assumes "sy_steps H bind_Transfer sy_start s" "proto_ok (env_proto (ah_env H))" "env_ProcessEvent (ah_env H) = auth_app_ProcessEvent"
  shows "(\<forall>r \<in> set (wallets (sy_wallet s)). \<exists>u \<in> set (users (sy_auth s)). wal_UserID r = uint64 (usr_ID u)) \<and>
    distinct (map wal_UserID (wallets (sy_wallet s))) \<and> reconciled (sy_wallet s) \<and> total_balance (sy_wallet s) = 0"
proof -
  have start: "sy_ok (env_proto (ah_env H)) 0 sy_start"
    by (simp add: sy_ok_def sy_start_def truthful_def auth_at_def auth_outbox_def empty_auth_db_def empty_wallet_db_def wallets_ok_def
        wallet_wf_def reconciled_def balance_of_def total_balance_def)
  have "sy_ok (env_proto (ah_env H)) 0 s"
    using assms(1) by (induction rule: rtranclp_induct) (use start sy_ok_step assms(2,3) in blast)+
  then have w: "wallets_ok 0 (user_ids (sy_auth s)) (sy_wallet s)" by (simp add: sy_ok_def)
  then have "distinct (map (\<lambda>r. (wal_UserID r, wal_Currency r)) (wallets (sy_wallet s)))"
    by (simp add: wallets_ok_def wallet_wf_def unique_by_def)
  then have "distinct (map wal_UserID (wallets (sy_wallet s)))"
    using w by (auto simp: distinct_map inj_on_def wallets_ok_def)
  then show ?thesis using w by (auto simp: wallets_ok_def user_ids_def)
qed

text \<open>A run: a user registers, the goroutine publishes, the message is delivered.\<close>

abbreviation first_user :: RegisterNewUser where
  "first_user \<equiv> \<lparr>rnu_Id = 1, rnu_Email = ''new@b.c''\<rparr>"

abbreviation first_codec :: proto_lib where
  "first_codec \<equiv> sample_proto (PbRegisterNewUser first_user) TypeAuthRegisterNewUser"

definition system_http :: auth_http where
  "system_http = (sample_http first_codec)\<lparr>ah_env := (sample_env first_codec)\<lparr>env_ProcessEvent := auth_app_ProcessEvent\<rparr>,
     bind_Register := (\<lambda>_. Inr sample_register_req)\<rparr>"

definition ios_request :: http_request where
  "ios_request = sample_request\<lparr>hr_header := (\<lambda>h. if h = ''X-Platform'' then ''ios'' else ''installation'')\<rparr>"

lemma first_registration:
  "\<exists>resp g w'. auth_serve system_http PostRegister ios_request (quiet_world empty_auth_db) = ((resp, Some g), w') \<and>
     (\<exists>ev email tok sid n v. registered (ah_env system_http) email tok sid n empty_auth_db (db w') ev \<and> email = ''new@b.c'' \<and>
        g = ProcessSingleEvent auth_outbox auth_app_ProcessEvent 30000000000 ev) \<and> sent w' = []"
proof -
  define w1 where "w1 = (quiet_world empty_auth_db)\<lparr>uuids := 1\<rparr>"
  have "\<exists>c. run_chain device_chain (new_context False ios_request) (quiet_world empty_auth_db) = (Inr c :: auth_data http_response + gin_context, w1) \<and>
    GetPlatform c = ''ios''"
    by (simp add: device_chain_def IdentityMiddleware_def DeviceContextMiddleware_def PlatformMiddleware_def AppVersionMiddleware_def
        DeviceNameMiddleware_def call_def uuid_NewString_def new_context_def ios_request_def GetPlatform_def quiet_world_def Let_def w1_def)
  then obtain c where c: "run_chain device_chain (new_context False ios_request) (quiet_world empty_auth_db) = (Inr c :: auth_data http_response + gin_context, w1)"
    "GetPlatform c = ''ios''" by blast
  have b: "bind_Register system_http = (\<lambda>_. Inr sample_register_req)" "ah_fallback system_http = False"
    by (simp_all add: system_http_def sample_http_def)
  let ?E = "ah_env system_http" and ?dc = "getDeviceContext system_http c"
  have ready: "register_ready ?E ?dc sample_register_req (base64_EncodeToString (rand_src w1 (5 + calls w1))) w1"
    using c(2) by (simp add: register_ready_def register_validation_def empty_auth_db_def platforms_def int64_range_def
        sample_env_def system_http_def event_New_def sample_proto_def getDeviceContext_def Let_def w1_def)
  have wf: "fault_free w1" "auth_wf (db w1)" "db w1 = empty_auth_db" "sent w1 = []"
    using empty_auth_db_wf by (simp_all add: w1_def fault_free_def quiet_world_def)
  obtain resp g w' where r: "Register ?E ?dc sample_register_req w1 = (Inr (resp, g), w')"
    using Register_runs [OF wf(1,2) ready] by blast
  have "auth_serve system_http PostRegister ios_request (quiet_world empty_auth_db) =
      (((res_Code resp, DataBody (RegisterData (res_Data resp))), Some g), w')"
    using c(1) r by (simp add: auth_serve_def RegisterHandler_def b)
  moreover have "sent w' = []" using quietD [OF quiet_services(1) r] wf(4) by simp
  moreover have "\<exists>ev. registered ?E ''new@b.c'' (rr_RefreshToken (res_Data resp)) (rr_SessionID (res_Data resp)) (clock w1) empty_auth_db (db w') ev \<and>
      g = ProcessSingleEvent auth_outbox auth_app_ProcessEvent 30000000000 ev"
    using Register_Inr [OF r] wf(3) by (auto simp: system_http_def sample_env_def)
  ultimately show ?thesis by blast
qed

theorem system_consistent_witness:
  "\<exists>s. sy_steps system_http (\<lambda>_. Inl (ErrorString ''EOF'')) sy_start s \<and> map wal_Balance (wallets_of_user (sy_wallet s) 1) = [0] \<and>
     total_balance (sy_wallet s) = 0"
proof -
  let ?bind = "\<lambda>_. Inl (ErrorString ''EOF'') :: go_error + TransferRequest" and ?w0 = "quiet_world empty_wallet_db"
  have L: "env_proto (ah_env system_http) = first_codec" "env_ProcessEvent (ah_env system_http) = auth_app_ProcessEvent"
    by (simp_all add: system_http_def sample_env_def)
  obtain resp g w' ev tok sid n where serve: "auth_serve system_http PostRegister ios_request (quiet_world empty_auth_db) = ((resp, Some g), w')"
    and reg: "registered (ah_env system_http) ''new@b.c'' tok sid n empty_auth_db (db w') ev" and sent: "sent w' = []"
    and g: "g = ProcessSingleEvent auth_outbox auth_app_ProcessEvent 30000000000 ev"
    using first_registration by auto
  obtain r env where r: "r \<in> set (ob_rows (auth_outbox_events (db w')))" "oe_Status r = ''pending''" "ob_key r = ob_key ev"
      "oe_EventType r = event_Type_string TypeAuthRegisterNewUser"
    and enc: "event_New first_codec (PbRegisterNewUser first_user) TypeAuthRegisterNewUser = Inr env" "proto_Marshal first_codec env = Inr (oe_Payload r)"
    using registered_event [OF reg] unfolding L by (auto simp: empty_auth_db_def)
  have ev: "oe_EventType ev = event_Type_string TypeAuthRegisterNewUser" "oe_Payload ev = oe_Payload r"
    using r(3,4) by (simp_all add: ob_key_def)
  let ?v = "quiet_world (db w')"
  have "r \<in> set (events auth_outbox ?v)" "fault_free ?v" "sent ?v = []" using r(1) by (simp_all add: auth_outbox_def fault_free_def quiet_world_def)
  then obtain w2 p where pub: "g ?v = (Inr (), w2)" "sent w2 = [p]" "pub_body p = oe_Payload r"
    using ProcessSingleEvent_publishes(1) [of ?v r ev 30000000000] r(2,3) ev unfolding g by auto
  define m where "m = \<lparr>msg_ID = ''m'', msg_Body = oe_Payload r, msg_Headers = None, msg_Timestamp = 0\<rparr>"
  have "\<exists>w3. wallet_Handle first_codec m ?w0 = (Inr (), w3) \<and> fault_free w3 \<and>
      map wal_Balance (wallets_of_user (db w3) (uint64 (rnu_Id first_user))) = [0] \<and> wallet_status (db w3) (msg_ID m) = Some ''completed''"
    by (rule wallet_Handle_creates [OF _ _ sample_proto_ok enc(1)])
       (use enc(2) in \<open>simp_all add: m_def fault_free_def quiet_world_def wallet_status_def pm_status_of_def wallets_of_user_def empty_wallet_db_def\<close>)
  then obtain w3 where w3: "wallet_Handle first_codec m ?w0 = (Inr (), w3)" "map wal_Balance (wallets_of_user (db w3) 1) = [0]"
    by (auto simp: uint64_def)
  define s1 where "s1 = (auth_now w' sy_start)\<lparr>sy_go := [g]\<rparr>"
  define s2 where "s2 = auth_now w2 s1"
  have "sy_step system_http ?bind sy_start s1"
    using sy_auth_request [OF _ serve, of sy_start ?bind] by (simp add: s1_def auth_at_def sy_start_def quiet_world_def)
  moreover have "sy_step system_http ?bind s1 s2"
    using sy_goroutine [of s1 ?v g system_http ?bind] pub(1) sent by (simp add: s1_def s2_def auth_at_def auth_now_def quiet_world_def)
  moreover have "sy_step system_http ?bind s2 (s2\<lparr>sy_wallet := db w3\<rparr>)"
    using sy_delivery [of ?w0 s2 p m system_http ?bind] pub(2,3) w3(1) L(1) by (simp add: s2_def s1_def auth_now_def sy_start_def m_def)
  ultimately have run: "sy_steps system_http ?bind sy_start (s2\<lparr>sy_wallet := db w3\<rparr>)" by (meson r_into_rtranclp rtranclp_trans)
  have "proto_ok (env_proto (ah_env system_http))" using sample_proto_ok L(1) by simp
  from system_consistent [OF run this L(2)] show ?thesis using run w3(2) by (intro exI [of _ "s2\<lparr>sy_wallet := db w3\<rparr>"]) simp
qed

end
