(* ===== verification/Logging.thy ===== *)
theory Logging
  imports Main
begin

text \<open>
  Log lines: \<^verbatim>\<open>pkg/logger\<close> over the standard library's \<^verbatim>\<open>slog\<close>, the adapter of the database
  driver, \<^verbatim>\<open>Run\<close> and \<^verbatim>\<open>Stop\<close> of the HTTP servers, which are the only places where their errors go,
  and \<^verbatim>\<open>pkg/grpcresponse\<close>. A call may panic (\<open>None\<close>); \<^verbatim>\<open>Fatal\<close> ends the process.
\<close>

section \<open>Loggers\<close>

datatype Level = LevelDebug | LevelInfo | LevelWarn | LevelError

fun level_value :: "Level \<Rightarrow> int" where
  "level_value LevelDebug = -4"
| "level_value LevelInfo = 0"
| "level_value LevelWarn = 4"
| "level_value LevelError = 8"

text \<open>Arguments of a call. A time in the format of RFC 3339 is a value of its own.\<close>

datatype any_value = AnyString string | AnyTime int | RFC3339 int | AnyOther string

text \<open>Keys and values alternate; what is not a key is logged under \<^verbatim>\<open>!BADKEY\<close>.\<close>

fun attrs_of :: "any_value list \<Rightarrow> (string \<times> any_value) list" where
  "attrs_of [] = []"
| "attrs_of [AnyString k] = [(''!BADKEY'', AnyString k)]"
| "attrs_of (AnyString k # v # rest) = (k, v) # attrs_of rest"
| "attrs_of (v # rest) = (''!BADKEY'', v) # attrs_of rest"

record Logger =
  lg_level :: Level
  lg_attrs :: "(string \<times> any_value) list"

definition logger_New :: Logger where
  "logger_New = \<lparr>lg_level = LevelInfo, lg_attrs = []\<rparr>"

definition logger_With :: "Logger \<Rightarrow> any_value list \<Rightarrow> Logger" where
  "logger_With l args = l\<lparr>lg_attrs := lg_attrs l @ attrs_of args\<rparr>"

text \<open>\<^verbatim>\<open>ReplaceAttr\<close> of the handler's options: the value of an attribute \<^verbatim>\<open>time\<close> has to be a time.\<close>

definition ReplaceAttr :: "string \<times> any_value \<Rightarrow> (string \<times> any_value) option" where
  "ReplaceAttr a =
     (if fst a = ''time'' then (case snd a of AnyTime t \<Rightarrow> Some (''timestamp'', RFC3339 t) | _ \<Rightarrow> None) else Some a)"

fun replace_all :: "(string \<times> any_value) list \<Rightarrow> (string \<times> any_value) list option" where
  "replace_all [] = Some []"
| "replace_all (a # as) =
     (case ReplaceAttr a of None \<Rightarrow> None
      | Some b \<Rightarrow> (case replace_all as of None \<Rightarrow> None | Some bs \<Rightarrow> Some (b # bs)))"

record log_state =
  lo_lines :: "(string \<times> any_value) list list"
  lo_clock :: int
  lo_exit :: "int option"

fun level_name :: "Level \<Rightarrow> string" where
  "level_name LevelDebug = ''DEBUG''"
| "level_name LevelInfo = ''INFO''"
| "level_name LevelWarn = ''WARN''"
| "level_name LevelError = ''ERROR''"

definition log_call :: "Level \<Rightarrow> Logger \<Rightarrow> string \<Rightarrow> any_value list \<Rightarrow> log_state \<Rightarrow> log_state option" where
  "log_call lv l message args s =
     (if level_value lv < level_value (lg_level l) then Some s
      else case replace_all ((''time'', AnyTime (lo_clock s)) # (''level'', AnyString (level_name lv)) #
                 (''msg'', AnyString message) # lg_attrs l @ attrs_of args) of
        None \<Rightarrow> None
      | Some line \<Rightarrow> Some (s\<lparr>lo_lines := lo_lines s @ [line]\<rparr>))"

definition logger_Info :: "Logger \<Rightarrow> string \<Rightarrow> any_value list \<Rightarrow> log_state \<Rightarrow> log_state option" where
  "logger_Info = log_call LevelInfo"

definition logger_Debug :: "Logger \<Rightarrow> string \<Rightarrow> any_value list \<Rightarrow> log_state \<Rightarrow> log_state option" where
  "logger_Debug = log_call LevelDebug"

definition logger_Warn :: "Logger \<Rightarrow> string \<Rightarrow> any_value list \<Rightarrow> log_state \<Rightarrow> log_state option" where
  "logger_Warn = log_call LevelWarn"

definition logger_Error :: "Logger \<Rightarrow> string \<Rightarrow> any_value list \<Rightarrow> log_state \<Rightarrow> log_state option" where
  "logger_Error = log_call LevelError"

definition logger_Fatal :: "Logger \<Rightarrow> string \<Rightarrow> any_value list \<Rightarrow> log_state \<Rightarrow> log_state option" where
  "logger_Fatal l message args s = map_option (\<lambda>s. s\<lparr>lo_exit := Some 1\<rparr>) (logger_Error l message args s)"

section \<open>The loggers of the services\<close>

datatype Layer = LayerMain | LayerHTTP | LayerService | LayerRepository | LayerMysql
datatype App = AppAuth | AppWallet | AppDocs | AppNotification

fun Layer_string :: "Layer \<Rightarrow> string" where
  "Layer_string LayerMain = ''main''"
| "Layer_string LayerHTTP = ''http''"
| "Layer_string LayerService = ''service''"
| "Layer_string LayerRepository = ''repository''"
| "Layer_string LayerMysql = ''mysql''"

fun App_string :: "App \<Rightarrow> string" where
  "App_string AppAuth = ''auth''"
| "App_string AppWallet = ''wallet''"
| "App_string AppDocs = ''docs''"
| "App_string AppNotification = ''notification''"

definition auth_InitLogger :: Logger where
  "auth_InitLogger = logger_With logger_New [AnyString ''app'', AnyString (App_string AppAuth)]"

definition wallet_InitLogger :: Logger where
  "wallet_InitLogger = logger_With logger_New [AnyString ''app'', AnyString (App_string AppWallet)]"

definition notification_InitLogger :: Logger where
  "notification_InitLogger = logger_With logger_New [AnyString ''app'', AnyString (App_string AppNotification)]"

definition docs_InitLogger :: Logger where
  "docs_InitLogger = logger_With logger_New [AnyString ''app'', AnyString (App_string AppDocs)]"

text \<open>The adapter the database driver logs to; \<^verbatim>\<open>Sprint\<close> of the driver's values is its argument.\<close>

definition MysqlLogger_Print :: "Logger \<Rightarrow> string \<Rightarrow> log_state \<Rightarrow> log_state option" where
  "MysqlLogger_Print l text = logger_Debug l ''mysql driver'' [AnyString ''msg'', AnyString text]"

section \<open>Servers\<close>

text \<open>What \<^verbatim>\<open>ListenAndServe\<close> and \<^verbatim>\<open>Shutdown\<close> return.\<close>

datatype serve_error = ErrServerClosed | ListenError string

definition server_Run :: "Logger \<Rightarrow> string \<Rightarrow> serve_error option \<Rightarrow> log_state \<Rightarrow> log_state option" where
  "server_Run l addr err s =
     (case logger_Info l ''http server started'' [AnyString ''addr'', AnyString addr] s of
        None \<Rightarrow> None
      | Some s' \<Rightarrow>
          (case err of
             None \<Rightarrow> Some s'
           | Some ErrServerClosed \<Rightarrow> Some s'
           | Some (ListenError e) \<Rightarrow> logger_Debug l ''http server stopped'' [AnyString ''err'', AnyOther e] s'))"

definition server_Stop :: "Logger \<Rightarrow> string \<Rightarrow> string option \<Rightarrow> log_state \<Rightarrow> (string option \<times> log_state) option" where
  "server_Stop l addr err s =
     (case err of
        Some e \<Rightarrow> Some (Some e, s)
      | None \<Rightarrow> map_option (\<lambda>s'. (None, s')) (logger_Info l ''http server stopped'' [AnyString ''addr'', AnyString addr] s))"

definition auth_server_Run :: "Logger \<Rightarrow> string \<Rightarrow> serve_error option \<Rightarrow> log_state \<Rightarrow> log_state option" where
  "auth_server_Run = server_Run"

definition wallet_server_Run :: "Logger \<Rightarrow> string \<Rightarrow> serve_error option \<Rightarrow> log_state \<Rightarrow> log_state option" where
  "wallet_server_Run = server_Run"

definition notification_server_Run :: "Logger \<Rightarrow> string \<Rightarrow> serve_error option \<Rightarrow> log_state \<Rightarrow> log_state option" where
  "notification_server_Run = server_Run"

definition docs_server_Run :: "Logger \<Rightarrow> string \<Rightarrow> serve_error option \<Rightarrow> log_state \<Rightarrow> log_state option" where
  "docs_server_Run = server_Run"

definition auth_server_Stop :: "Logger \<Rightarrow> string \<Rightarrow> string option \<Rightarrow> log_state \<Rightarrow> (string option \<times> log_state) option" where
  "auth_server_Stop = server_Stop"

definition wallet_server_Stop :: "Logger \<Rightarrow> string \<Rightarrow> string option \<Rightarrow> log_state \<Rightarrow> (string option \<times> log_state) option" where
  "wallet_server_Stop = server_Stop"

definition notification_server_Stop :: "Logger \<Rightarrow> string \<Rightarrow> string option \<Rightarrow> log_state \<Rightarrow> (string option \<times> log_state) option" where
  "notification_server_Stop = server_Stop"

definition docs_server_Stop :: "Logger \<Rightarrow> string \<Rightarrow> string option \<Rightarrow> log_state \<Rightarrow> (string option \<times> log_state) option" where
  "docs_server_Stop = server_Stop"

lemmas server_defs = auth_server_Run_def wallet_server_Run_def notification_server_Run_def docs_server_Run_def
  auth_server_Stop_def wallet_server_Stop_def notification_server_Stop_def docs_server_Stop_def

record grpc_Response =
  gr_Code :: nat
  gr_Data :: any_value

definition grpcresponse_New :: "nat \<Rightarrow> any_value \<Rightarrow> grpc_Response" where
  "grpcresponse_New code data = \<lparr>gr_Code = code, gr_Data = data\<rparr>"

section \<open>What is logged\<close>

definition service_loggers :: "Logger set" where
  "service_loggers = {logger_With l [AnyString ''layer'', AnyString (Layer_string y)] | l y.
     l \<in> {auth_InitLogger, wallet_InitLogger, notification_InitLogger, docs_InitLogger}}"

lemma replace_all_id: "''time'' \<notin> fst ` set as \<Longrightarrow> replace_all as = Some as"
  by (induction as) (auto simp: ReplaceAttr_def)

lemma log_call_line:
  assumes "level_value (lg_level l) \<le> level_value lv" "''time'' \<notin> fst ` set (lg_attrs l @ attrs_of args)"
  shows "log_call lv l message args s = Some (s\<lparr>lo_lines := lo_lines s @ [(''timestamp'', RFC3339 (lo_clock s)) #
    (''level'', AnyString (level_name lv)) # (''msg'', AnyString message) # lg_attrs l @ attrs_of args]\<rparr>)"
proof -
  let ?as = "(''level'', AnyString (level_name lv)) # (''msg'', AnyString message) # lg_attrs l @ attrs_of args"
  have "replace_all ?as = Some ?as" using assms(2) by (intro replace_all_id) auto
  then show ?thesis using assms(1) by (simp add: log_call_def ReplaceAttr_def)
qed

lemma service_loggers_info:
  assumes "l \<in> service_loggers"
  shows "lg_level l = LevelInfo" "''time'' \<notin> fst ` set (lg_attrs l)"
  using assms by (auto simp: service_loggers_def logger_With_def logger_New_def auth_InitLogger_def wallet_InitLogger_def
      notification_InitLogger_def docs_InitLogger_def)

text \<open>A line of a service: the service and the layer come before the call's own attributes.\<close>

theorem service_line:
  assumes "l = logger_With auth_InitLogger [AnyString ''layer'', AnyString (Layer_string y)]" "''time'' \<notin> fst ` set (attrs_of args)"
  shows "logger_Error l message args s = Some (s\<lparr>lo_lines := lo_lines s @ [(''timestamp'', RFC3339 (lo_clock s)) #
    (''level'', AnyString ''ERROR'') # (''msg'', AnyString message) # (''app'', AnyString ''auth'') #
    (''layer'', AnyString (Layer_string y)) # attrs_of args]\<rparr>)"
  using assms by (simp add: logger_Error_def log_call_line logger_With_def auth_InitLogger_def logger_New_def)

theorem service_line_witness:
  "logger_Error (logger_With auth_InitLogger [AnyString ''layer'', AnyString (Layer_string LayerMain)]) ''failed'' [AnyString ''error'', AnyOther ''EOF'']
     \<lparr>lo_lines = [], lo_clock = 5, lo_exit = None\<rparr> =
   Some \<lparr>lo_lines = [[(''timestamp'', RFC3339 5), (''level'', AnyString ''ERROR''), (''msg'', AnyString ''failed''),
     (''app'', AnyString ''auth''), (''layer'', AnyString ''main''), (''error'', AnyOther ''EOF'')]], lo_clock = 5, lo_exit = None\<rparr>"
  using service_line [OF refl, where y = LayerMain and args = "[AnyString ''error'', AnyOther ''EOF'']"] by simp

text \<open>
  A server that cannot listen says nothing. Its error is logged below the level of every
  service's logger: when the address is in use, the log has the line that the server has started
  and no other, as after a regular stop, and so are all messages of the database driver lost.
\<close>

theorem listen_failure_is_silent:
  assumes "l \<in> service_loggers"
  shows "server_Run l addr (Some (ListenError e)) s = server_Run l addr (Some ErrServerClosed) s \<and>
    server_Run l addr (Some (ListenError e)) s = logger_Info l ''http server started'' [AnyString ''addr'', AnyString addr] s \<and>
    MysqlLogger_Print l text s = Some s"
  using service_loggers_info [OF assms]
  by (simp add: server_Run_def MysqlLogger_Print_def logger_Info_def logger_Debug_def log_call_line)
     (simp add: log_call_def)

theorem listen_failure_is_silent_witness:
  "logger_With wallet_InitLogger [AnyString ''layer'', AnyString ''http''] \<in> service_loggers \<and>
   wallet_server_Run (logger_With wallet_InitLogger [AnyString ''layer'', AnyString ''http'']) '':8080''
     (Some (ListenError ''bind: address already in use'')) \<lparr>lo_lines = [], lo_clock = 5, lo_exit = None\<rparr> =
   wallet_server_Run (logger_With wallet_InitLogger [AnyString ''layer'', AnyString ''http'']) '':8080''
     (Some ErrServerClosed) \<lparr>lo_lines = [], lo_clock = 5, lo_exit = None\<rparr>"
proof -
  have "logger_With wallet_InitLogger [AnyString ''layer'', AnyString ''http''] \<in> service_loggers"
    unfolding service_loggers_def by (intro CollectI exI [of _ wallet_InitLogger] exI [of _ LayerHTTP]) simp
  then show ?thesis using listen_failure_is_silent by (simp add: server_defs)
qed

end
