(* ===== verification/RefreshRaces.thy ===== *)
theory RefreshRaces
  imports AuthSessions
begin

text \<open>
  Refreshes that run at the same time. \<open>AuthRepo\<close> runs \<^verbatim>\<open>RotateRefreshToken\<close> as if it were alone;
  here each of its statements is a step, and the transactions share the row locks on sessions:
  \<^verbatim>\<open>SELECT ... FOR UPDATE\<close> locks the session it finds until the transaction ends, and waits while
  another one has it. The UPDATE becomes visible with the commit; an error rolls back. Everything
  else the service does with sessions is one step that leaves locked rows alone and stores no
  token a refresh has been issued or asks for.
\<close>

section \<open>Transactions\<close>

record rotation =
  rn_dc :: DeviceContext
  rn_old :: string
  rn_new :: string
  rn_expires :: int
  rn_push :: "string option"

datatype rotation_phase = Asked | Selected string int | Renewed string int int | Located string int | Rotated | RolledBack

record rotations =
  rt_db :: auth_db
  rt_locks :: "string \<Rightarrow> nat option"
  rt_phase :: "nat \<Rightarrow> rotation_phase"
  rt_done :: "nat list"

abbreviation renewal :: "rotation \<Rightarrow> string \<Rightarrow> int \<Rightarrow> auth_db \<Rightarrow> go_error + (unit \<times> auth_db)" where
  "renewal q sid n \<equiv> update_session (rn_new q) (rn_expires q) (rn_dc q) (rn_push q) sid n"

definition unlock :: "nat \<Rightarrow> rotation_phase \<Rightarrow> rotations \<Rightarrow> rotations" where
  "unlock t ph s = s\<lparr>rt_locks := (\<lambda>sid. if rt_locks s sid = Some t then None else rt_locks s sid), rt_phase := (rt_phase s)(t := ph)\<rparr>"

definition rotation_step :: "(nat \<Rightarrow> rotation) \<Rightarrow> int \<Rightarrow> nat \<Rightarrow> rotations \<Rightarrow> rotations option" where
  "rotation_step X n t s =
     (case rt_phase s t of
        Asked \<Rightarrow>
          (case select_session_by_hash (rn_old (X t)) (rt_db s) of
             Inl err \<Rightarrow> Some (unlock t RolledBack s)
           | Inr (sessionPublicID, userID, deviceID, expiresAt) \<Rightarrow>
               if rt_locks s sessionPublicID \<noteq> None \<and> rt_locks s sessionPublicID \<noteq> Some t then None
               else if expiresAt < n then Some (unlock t RolledBack s)
               else Some (s\<lparr>rt_locks := (rt_locks s)(sessionPublicID \<mapsto> t), rt_phase := (rt_phase s)(t := Selected sessionPublicID deviceID)\<rparr>))
      | Selected sid did \<Rightarrow>
          (case renewal (X t) sid n (rt_db s) of
             Inl err \<Rightarrow> Some (unlock t RolledBack s)
           | Inr _ \<Rightarrow> Some (s\<lparr>rt_phase := (rt_phase s)(t := Renewed sid did n)\<rparr>))
      | Renewed sid did m \<Rightarrow>
          (case select_device_public_id did (rt_db s) of
             Inl err \<Rightarrow> Some (unlock t RolledBack s)
           | Inr _ \<Rightarrow> Some (s\<lparr>rt_phase := (rt_phase s)(t := Located sid m)\<rparr>))
      | Located sid m \<Rightarrow>
          (case renewal (X t) sid m (rt_db s) of
             Inl err \<Rightarrow> Some (unlock t RolledBack s)
           | Inr (_, d) \<Rightarrow> Some (unlock t Rotated (s\<lparr>rt_db := d, rt_done := rt_done s @ [t]\<rparr>)))
      | _ \<Rightarrow> None)"

definition ended :: "rotation_phase \<Rightarrow> bool" where
  "ended ph \<longleftrightarrow> ph = Rotated \<or> ph = RolledBack"

text \<open>What other requests may commit meanwhile.\<close>

definition tolerated :: "(nat \<Rightarrow> rotation) \<Rightarrow> rotations \<Rightarrow> auth_db \<Rightarrow> bool" where
  "tolerated X s d \<longleftrightarrow> unique_by ses_refresh_token_hash (device_sessions d) \<and>
     (\<forall>sid. rt_locks s sid \<noteq> None \<longrightarrow>
        filter (\<lambda>r. ses_public_id r = sid) (device_sessions d) = filter (\<lambda>r. ses_public_id r = sid) (device_sessions (rt_db s))) \<and>
     (\<forall>r \<in> set (device_sessions d). ses_refresh_token_hash r \<in> ses_refresh_token_hash ` set (device_sessions (rt_db s)) \<or>
        ses_refresh_token_hash r \<notin> range (\<lambda>t. rn_old (X t)) \<union> range (\<lambda>t. rn_new (X t)))"

inductive rt_step :: "(nat \<Rightarrow> rotation) \<Rightarrow> rotations \<Rightarrow> rotations \<Rightarrow> bool" for X :: "nat \<Rightarrow> rotation" where
  rt_run: "rotation_step X n t s = Some s' \<Longrightarrow> rt_step X s s'"
| rt_fail: "\<not> ended (rt_phase s t) \<Longrightarrow> rt_step X s (unlock t RolledBack s)"
| rt_other: "tolerated X s d \<Longrightarrow> rt_step X s (s\<lparr>rt_db := d\<rparr>)"

abbreviation rt_steps :: "(nat \<Rightarrow> rotation) \<Rightarrow> rotations \<Rightarrow> rotations \<Rightarrow> bool" where
  "rt_steps X \<equiv> (rt_step X)\<^sup>*\<^sup>*"

definition rt_start :: "auth_db \<Rightarrow> rotations" where
  "rt_start d = \<lparr>rt_db = d, rt_locks = (\<lambda>_. None), rt_phase = (\<lambda>_. Asked), rt_done = []\<rparr>"

text \<open>The tokens to be issued are new: no two are equal, and no session has one of them.\<close>

definition fresh_tokens :: "(nat \<Rightarrow> rotation) \<Rightarrow> auth_db \<Rightarrow> bool" where
  "fresh_tokens X d \<longleftrightarrow> inj (\<lambda>t. rn_new (X t)) \<and> (\<forall>r \<in> set (device_sessions d). \<forall>t. ses_refresh_token_hash r \<noteq> rn_new (X t))"

section \<open>The invariant\<close>

fun session_of :: "rotation_phase \<Rightarrow> string option" where
  "session_of (Selected sid did) = Some sid"
| "session_of (Renewed sid did m) = Some sid"
| "session_of (Located sid m) = Some sid"
| "session_of _ = None"

text \<open>A transaction under way owns the session that has its old token.\<close>

definition holds :: "(nat \<Rightarrow> rotation) \<Rightarrow> rotations \<Rightarrow> nat \<Rightarrow> bool" where
  "holds X s t \<longleftrightarrow> (\<forall>sid. session_of (rt_phase s t) = Some sid \<longrightarrow> rt_locks s sid = Some t \<and>
     (\<exists>r \<in> set (device_sessions (rt_db s)). ses_public_id r = sid \<and> ses_refresh_token_hash r = rn_old (X t)))"

text \<open>Tokens in the table, seen against the rotations that are done.\<close>

definition tokens_ok :: "(nat \<Rightarrow> rotation) \<Rightarrow> rotations \<Rightarrow> bool" where
  "tokens_ok X s \<longleftrightarrow> unique_by ses_refresh_token_hash (device_sessions (rt_db s)) \<and>
     (\<forall>r \<in> set (device_sessions (rt_db s)). (\<forall>u. ses_refresh_token_hash r = rn_new (X u) \<longrightarrow> u \<in> set (rt_done s)) \<and>
        (\<forall>t \<in> set (rt_done s). ses_refresh_token_hash r \<noteq> rn_old (X t))) \<and>
     (\<forall>t \<in> set (rt_done s). \<forall>u. rn_old (X t) = rn_new (X u) \<longrightarrow> u \<in> set (rt_done s)) \<and>
     distinct (map (\<lambda>t. rn_old (X t)) (rt_done s))"

definition rt_inv :: "(nat \<Rightarrow> rotation) \<Rightarrow> rotations \<Rightarrow> bool" where
  "rt_inv X s \<longleftrightarrow> tokens_ok X s \<and> (\<forall>t. holds X s t) \<and> (\<forall>sid t. rt_locks s sid = Some t \<longrightarrow> session_of (rt_phase s t) = Some sid) \<and>
     (\<forall>t. t \<in> set (rt_done s) \<longleftrightarrow> rt_phase s t = Rotated)"

lemma unlock_simps [simp]:
  "rt_db (unlock t ph s) = rt_db s" "rt_done (unlock t ph s) = rt_done s" "rt_phase (unlock t ph s) = (rt_phase s)(t := ph)"
  "rt_locks (unlock t ph s) = (\<lambda>sid. if rt_locks s sid = Some t then None else rt_locks s sid)"
  by (simp_all add: unlock_def)

lemma tokens_ok_cong:
  "rt_db s' = rt_db s \<Longrightarrow> rt_done s' = rt_done s \<Longrightarrow> tokens_ok X s' = tokens_ok X s"
  by (simp add: tokens_ok_def)

lemma holdsD:
  assumes "holds X s t" "session_of (rt_phase s t) = Some sid"
  shows "rt_locks s sid = Some t"
    "\<exists>r \<in> set (device_sessions (rt_db s)). ses_public_id r = sid \<and> ses_refresh_token_hash r = rn_old (X t)"
  using assms unfolding holds_def by blast+

lemma rt_invD:
  assumes "rt_inv X s"
  shows "tokens_ok X s" "holds X s t" "rt_locks s sid = Some t \<Longrightarrow> session_of (rt_phase s t) = Some sid"
    "t \<in> set (rt_done s) \<longleftrightarrow> rt_phase s t = Rotated"
  using assms unfolding rt_inv_def by blast+

text \<open>A change of one transaction's phase, with the table as it is.\<close>

lemma rt_inv_phase:
  assumes "rt_inv X s" "rt_db s' = rt_db s" "rt_done s' = rt_done s" "rt_phase s' = (rt_phase s)(t := ph)" "rt_phase s t \<noteq> Rotated" "ph \<noteq> Rotated"
    and "\<And>sid u. u \<noteq> t \<Longrightarrow> rt_locks s' sid = Some u \<longleftrightarrow> rt_locks s sid = Some u"
    and "holds X s' t" "\<And>sid. rt_locks s' sid = Some t \<Longrightarrow> session_of ph = Some sid"
  shows "rt_inv X s'"
  unfolding rt_inv_def
proof (intro conjI allI impI)
  show "tokens_ok X s'" using tokens_ok_cong [OF assms(2,3)] rt_invD(1) [OF assms(1)] by simp
  show "holds X s' u" for u
  proof (cases "u = t")
    case False
    then show ?thesis using rt_invD(2) [OF assms(1), of u] assms(7) [OF False] unfolding holds_def by (simp add: assms(2,4))
  qed (simp add: assms(8))
  show "session_of (rt_phase s' u) = Some sid" if "rt_locks s' sid = Some u" for sid u
  proof (cases "u = t")
    case False
    then show ?thesis using that rt_invD(3) [OF assms(1)] assms(7) [OF False] by (simp add: assms(4))
  qed (use that assms(4,9) in simp)
  show "u \<in> set (rt_done s') \<longleftrightarrow> rt_phase s' u = Rotated" for u
    using rt_invD(4) [OF assms(1), of u] assms(3-6) by auto
qed

lemma rt_inv_rollback: "rt_inv X s \<Longrightarrow> rt_phase s t \<noteq> Rotated \<Longrightarrow> rt_inv X (unlock t RolledBack s)"
  by (rule rt_inv_phase [where t = t and ph = RolledBack]) (auto simp: holds_def split: if_splits)

lemma rt_inv_advance:
  assumes "rt_inv X s" "session_of (rt_phase s t) = Some sid" "session_of ph = Some sid"
  shows "rt_inv X (s\<lparr>rt_phase := (rt_phase s)(t := ph)\<rparr>)"
proof (rule rt_inv_phase [OF assms(1), where t = t and ph = ph])
  show "ph \<noteq> Rotated" "rt_phase s t \<noteq> Rotated" using assms(2,3) by auto
  show "holds X (s\<lparr>rt_phase := (rt_phase s)(t := ph)\<rparr>) t"
    using rt_invD(2) [OF assms(1), of t] assms(2,3) by (simp add: holds_def)
  show "session_of ph = Some sid'" if "rt_locks (s\<lparr>rt_phase := (rt_phase s)(t := ph)\<rparr>) sid' = Some t" for sid'
    using that rt_invD(3) [OF assms(1)] assms(2,3) by simp
qed simp_all

lemma tokens_ok_other:
  assumes "tokens_ok X s" "tolerated X s d"
  shows "tokens_ok X (s\<lparr>rt_db := d\<rparr>)"
proof -
  have "(\<forall>u. ses_refresh_token_hash r = rn_new (X u) \<longrightarrow> u \<in> set (rt_done s)) \<and> (\<forall>t \<in> set (rt_done s). ses_refresh_token_hash r \<noteq> rn_old (X t))"
    if "r \<in> set (device_sessions d)" for r
  proof -
    from that assms(2) consider r' where "r' \<in> set (device_sessions (rt_db s))" "ses_refresh_token_hash r = ses_refresh_token_hash r'"
      | "ses_refresh_token_hash r \<notin> range (\<lambda>t. rn_old (X t)) \<union> range (\<lambda>t. rn_new (X t))"
      unfolding tolerated_def by blast
    then show ?thesis
    proof cases
      case 1
      then show ?thesis using assms(1) unfolding tokens_ok_def by metis
    qed auto
  qed
  then show ?thesis using assms unfolding tokens_ok_def tolerated_def by simp
qed

lemma rt_inv_other:
  assumes "rt_inv X s" "tolerated X s d"
  shows "rt_inv X (s\<lparr>rt_db := d\<rparr>)"
proof -
  have "holds X (s\<lparr>rt_db := d\<rparr>) t" for t
  proof -
    have "\<exists>r \<in> set (device_sessions d). ses_public_id r = sid \<and> ses_refresh_token_hash r = rn_old (X t)"
      if "session_of (rt_phase s t) = Some sid" for sid
    proof -
      note h = holdsD [OF rt_invD(2) [OF assms(1)] that]
      then obtain r where r: "r \<in> set (filter (\<lambda>r. ses_public_id r = sid) (device_sessions (rt_db s)))" "ses_refresh_token_hash r = rn_old (X t)"
        by auto
      moreover have "filter (\<lambda>r. ses_public_id r = sid) (device_sessions d) = filter (\<lambda>r. ses_public_id r = sid) (device_sessions (rt_db s))"
        using assms(2) h(1) by (simp add: tolerated_def)
      ultimately have "r \<in> set (filter (\<lambda>r. ses_public_id r = sid) (device_sessions d))" by (simp only:)
      then show ?thesis using r(2) by auto
    qed
    then show ?thesis using rt_invD(2) [OF assms(1), of t] by (simp add: holds_def)
  qed
  then show ?thesis using assms(1) tokens_ok_other [OF rt_invD(1) [OF assms(1)] assms(2)] by (simp add: rt_inv_def)
qed

lemma renewed_rows:
  assumes "renewal q sid m d = Inr (u, d')"
  shows "unique_by ses_refresh_token_hash (device_sessions d')"
    "r \<in> set (device_sessions d') \<Longrightarrow> r \<in> set (device_sessions d) \<and> ses_public_id r \<noteq> sid \<or> ses_refresh_token_hash r = rn_new q"
    "r \<in> set (device_sessions d) \<Longrightarrow> ses_public_id r \<noteq> sid \<Longrightarrow> r \<in> set (device_sessions d')"
proof -
  have d': "device_sessions d' = update_where (\<lambda>r. ses_public_id r = sid) (renew_session (rn_new q) (rn_expires q) (rn_dc q) (rn_push q) m) (device_sessions d)"
    and un: "unique_by ses_refresh_token_hash (device_sessions d')"
    using assms by (auto simp: update_session_def Let_def split: if_splits)
  have new: "ses_refresh_token_hash (renew_session h e dc p m r) = h" for h e dc p r
    by (simp add: renew_session_def Let_def split: option.splits)
  show "unique_by ses_refresh_token_hash (device_sessions d')" by (rule un)
  show "r \<in> set (device_sessions d') \<Longrightarrow> r \<in> set (device_sessions d) \<and> ses_public_id r \<noteq> sid \<or> ses_refresh_token_hash r = rn_new q"
    by (auto simp: d' set_update_where new split: if_splits)
  show "r \<in> set (device_sessions d) \<Longrightarrow> ses_public_id r \<noteq> sid \<Longrightarrow> r \<in> set (device_sessions d')"
    unfolding d' set_update_where by force
qed

lemma tokens_ok_commit:
  assumes "tokens_ok X s" "inj (\<lambda>t. rn_new (X t))" "t \<notin> set (rt_done s)" "renewal (X t) (ses_public_id r) m (rt_db s) = Inr (u, d)"
    and "r \<in> set (device_sessions (rt_db s))" "ses_refresh_token_hash r = rn_old (X t)"
  shows "tokens_ok X (s\<lparr>rt_db := d, rt_done := rt_done s @ [t]\<rparr>)"
proof -
  have un: "unique_by ses_refresh_token_hash (device_sessions (rt_db s))"
    and new: "\<And>r u. r \<in> set (device_sessions (rt_db s)) \<Longrightarrow> ses_refresh_token_hash r = rn_new (X u) \<Longrightarrow> u \<in> set (rt_done s)"
    and spent: "\<And>r v. r \<in> set (device_sessions (rt_db s)) \<Longrightarrow> v \<in> set (rt_done s) \<Longrightarrow> ses_refresh_token_hash r \<noteq> rn_old (X v)"
    and chain: "\<And>v u. v \<in> set (rt_done s) \<Longrightarrow> rn_old (X v) = rn_new (X u) \<Longrightarrow> u \<in> set (rt_done s)"
    and dis: "distinct (map (\<lambda>t. rn_old (X t)) (rt_done s))"
    using assms(1) unfolding tokens_ok_def by blast+
  have differ: "rn_new (X t) \<noteq> ses_refresh_token_hash r" using new [OF assms(5)] assms(3) by metis
  note gone = update_session_old_gone [OF assms(4) assms(5) un differ, unfolded assms(6)]
  have "(\<forall>u. ses_refresh_token_hash x = rn_new (X u) \<longrightarrow> u \<in> set (rt_done s) \<or> u = t) \<and>
      (\<forall>v. v \<in> set (rt_done s) \<or> v = t \<longrightarrow> ses_refresh_token_hash x \<noteq> rn_old (X v))"
    if x: "x \<in> set (device_sessions d)" for x
    using renewed_rows(2) [OF assms(4) x]
  proof
    assume o: "x \<in> set (device_sessions (rt_db s)) \<and> ses_public_id x \<noteq> ses_public_id r"
    then show ?thesis using new spent gone x by blast
  next
    assume h: "ses_refresh_token_hash x = rn_new (X t)"
    then have "ses_refresh_token_hash x \<noteq> rn_old (X v)" if "v \<in> set (rt_done s)" for v using chain [OF that] assms(3) by metis
    then show ?thesis using h gone x injD [OF assms(2)] by metis
  qed
  moreover have "\<forall>u. rn_old (X t) = rn_new (X u) \<longrightarrow> u \<in> set (rt_done s)" using new [OF assms(5)] assms(6) by simp
  moreover have "rn_old (X t) \<notin> (\<lambda>t. rn_old (X t)) ` set (rt_done s)" using spent [OF assms(5)] assms(6) by force
  ultimately show ?thesis
    using renewed_rows(1) [OF assms(4)] chain dis unfolding tokens_ok_def by auto
qed

lemma rt_inv_commit:
  assumes "rt_inv X s" "inj (\<lambda>t. rn_new (X t))" "rt_phase s t = Located sid m" "renewal (X t) sid m (rt_db s) = Inr (u, d)"
  shows "rt_inv X (unlock t Rotated (s\<lparr>rt_db := d, rt_done := rt_done s @ [t]\<rparr>))" (is "rt_inv X ?s'")
proof -
  have so: "session_of (rt_phase s t) = Some sid" using assms(3) by simp
  note h = holdsD [OF rt_invD(2) [OF assms(1)] so]
  obtain r where r: "r \<in> set (device_sessions (rt_db s))" "ses_public_id r = sid" "ses_refresh_token_hash r = rn_old (X t)" using h(2) by blast
  have "t \<notin> set (rt_done s)" using rt_invD(4) [OF assms(1)] assms(3) by simp
  from tokens_ok_commit [OF rt_invD(1) [OF assms(1)] assms(2) this assms(4) [folded r(2)] r(1,3)]
  have tok: "tokens_ok X ?s'" by (subst tokens_ok_cong [where s = "s\<lparr>rt_db := d, rt_done := rt_done s @ [t]\<rparr>"]) simp_all
  have "holds X ?s' v" for v
  proof (cases "v = t")
    case False
    have "rt_locks s sid' = Some v \<and> (\<exists>r \<in> set (device_sessions d). ses_public_id r = sid' \<and> ses_refresh_token_hash r = rn_old (X v))"
      if "session_of (rt_phase s v) = Some sid'" for sid'
    proof -
      note hv = holdsD [OF rt_invD(2) [OF assms(1)] that]
      have "sid' \<noteq> sid" using hv(1) h(1) False by auto
      then show ?thesis using hv renewed_rows(3) [OF assms(4)] by metis
    qed
    then show ?thesis using False by (simp add: holds_def)
  qed (simp add: holds_def)
  moreover have "session_of (rt_phase ?s' v) = Some sid'" if "rt_locks ?s' sid' = Some v" for sid' v
    using that rt_invD(3) [OF assms(1), of sid' v] by (auto split: if_splits)
  moreover have "v \<in> set (rt_done ?s') \<longleftrightarrow> rt_phase ?s' v = Rotated" for v
    using rt_invD(4) [OF assms(1), of v] by simp
  ultimately show ?thesis using tok by (simp add: rt_inv_def)
qed

lemma selected_row:
  "select_session_by_hash h d = Inr (sid, uid, did, ex) \<Longrightarrow>
   \<exists>r \<in> set (device_sessions d). ses_public_id r = sid \<and> ses_refresh_token_hash r = h"
  by (auto simp: select_session_by_hash_def split: option.splits dest!: find_SomeD)

lemma rt_inv_select:
  assumes "rt_inv X s" "rt_phase s t = Asked" "select_session_by_hash (rn_old (X t)) (rt_db s) = Inr (sid, uid, did, ex)"
    and "rt_locks s sid = None \<or> rt_locks s sid = Some t"
  shows "rt_inv X (s\<lparr>rt_locks := (rt_locks s)(sid \<mapsto> t), rt_phase := (rt_phase s)(t := Selected sid did)\<rparr>)" (is "rt_inv X ?s'")
proof (rule rt_inv_phase [OF assms(1), where t = t and ph = "Selected sid did"])
  show "holds X ?s' t" using selected_row [OF assms(3)] by (simp add: holds_def)
  show "session_of (Selected sid did) = Some sid'" if "rt_locks ?s' sid' = Some t" for sid'
    using that rt_invD(3) [OF assms(1), of sid' t] assms(2) by (cases "sid' = sid") simp_all
  show "(rt_locks ?s' sid' = Some u) = (rt_locks s sid' = Some u)" if "u \<noteq> t" for sid' u
    using that assms(4) by auto
qed (simp_all add: assms(2))

lemma rt_inv_run:
  assumes "rt_inv X s" "inj (\<lambda>t. rn_new (X t))" "rotation_step X n t s = Some s'"
  shows "rt_inv X s'"
proof (cases "rt_phase s t")
  case Asked
  have rb: "rt_inv X (unlock t RolledBack s)" using rt_inv_rollback [OF assms(1)] Asked by simp
  show ?thesis
  proof (cases "select_session_by_hash (rn_old (X t)) (rt_db s)")
    case (Inr x)
    obtain sid uid did ex where x: "x = (sid, uid, did, ex)" by (cases x)
    show ?thesis
      using assms(3) rb rt_inv_select [OF assms(1) Asked Inr [unfolded x]] by (auto simp: rotation_step_def Asked Inr x split: if_splits)
  qed (use assms(3) rb Asked in \<open>simp add: rotation_step_def\<close>)
next
  case (Selected sid did)
  then show ?thesis
    using assms(3) rt_inv_rollback [OF assms(1), of t] rt_inv_advance [OF assms(1), of t sid "Renewed sid did n"]
    by (auto simp: rotation_step_def split: sum.splits)
next
  case (Renewed sid did m)
  then show ?thesis
    using assms(3) rt_inv_rollback [OF assms(1), of t] rt_inv_advance [OF assms(1), of t sid "Located sid m"]
    by (auto simp: rotation_step_def split: sum.splits)
next
  case (Located sid m)
  then show ?thesis
    using assms(3) rt_inv_rollback [OF assms(1), of t] rt_inv_commit [OF assms(1,2) Located]
    by (auto simp: rotation_step_def split: sum.splits)
qed (use assms(3) in \<open>simp_all add: rotation_step_def\<close>)

lemma rt_inv_steps:
  assumes "rt_steps X s s'" "rt_inv X s" "inj (\<lambda>t. rn_new (X t))"
  shows "rt_inv X s'"
  using assms(1)
proof (induction rule: rtranclp_induct)
  case (step s1 s2)
  from step.hyps(2) show ?case
  proof cases
    case (rt_run n t)
    then show ?thesis using rt_inv_run [OF step.IH assms(3)] by blast
  next
    case (rt_fail t)
    then show ?thesis using rt_inv_rollback [OF step.IH, of t] by (simp add: ended_def)
  next
    case (rt_other d)
    then show ?thesis using rt_inv_other [OF step.IH] by simp
  qed
qed (rule assms(2))

lemma rt_inv_start: "auth_wf d \<Longrightarrow> fresh_tokens X d \<Longrightarrow> rt_inv X (rt_start d)"
  by (simp add: rt_inv_def tokens_ok_def holds_def rt_start_def fresh_tokens_def auth_wf_def sessions_ok_def)

section \<open>Properties\<close>

text \<open>
  C9. A refresh token is redeemed once, also under races. However the statements of refreshes that
  run at the same time interleave with each other, with failures and with other requests, at most one of
  those that present the same token commits, and afterwards no session has that token.
\<close>

theorem concurrent_refreshes_single_use:
  assumes "auth_wf d" "fresh_tokens X d" "rt_steps X (rt_start d) s" "rt_phase s t = Rotated"
  shows "(\<forall>u. rt_phase s u = Rotated \<and> rn_old (X u) = rn_old (X t) \<longrightarrow> u = t) \<and>
    (\<forall>r \<in> set (device_sessions (rt_db s)). ses_refresh_token_hash r \<noteq> rn_old (X t))"
proof -
  have i: "rt_inv X s" using rt_inv_steps [OF assms(3) rt_inv_start [OF assms(1,2)]] assms(2) by (simp add: fresh_tokens_def)
  have d: "u \<in> set (rt_done s) \<longleftrightarrow> rt_phase s u = Rotated" for u by (rule rt_invD(4) [OF i])
  have "inj_on (\<lambda>t. rn_old (X t)) (set (rt_done s))" "\<forall>r \<in> set (device_sessions (rt_db s)). \<forall>u \<in> set (rt_done s). ses_refresh_token_hash r \<noteq> rn_old (X u)"
    using rt_invD(1) [OF i] by (simp_all add: tokens_ok_def distinct_map)
  then show ?thesis using d assms(4) by (auto dest: inj_onD)
qed


section \<open>The sequential rotation is a schedule\<close>

lemma rotate_body_parts:
  assumes "rotate_body dc old new e p w = (Inr (dev, sid, uid), w')"
  shows "\<exists>did ex. select_session_by_hash old (db w) = Inr (sid, uid, did, ex) \<and> \<not> ex < clock w \<and>
    update_session new e dc p sid (clock w) (db w) = Inr ((), db w') \<and> select_device_public_id did (db w') = Inr dev"
  using assms unfolding rotate_body_def Let_def
  by (elim call_fail_Inr call_cases)
     (auto simp: time_Now_def split: if_splits elim!: call_fail_Inr dest!: sql_query_Inr_cases sql_now_Inr_cases)

lemma rt_run_to: "rt_steps X s s1 \<Longrightarrow> rotation_step X n t s1 = Some s2 \<Longrightarrow> rt_steps X s s2"
  by (meson rt_run rtranclp.rtrancl_into_rtrancl)

text \<open>The four statements of a transaction that is alone with its session.\<close>

lemma rotation_schedule:
  assumes "rt_steps X s0 s" "rt_phase s t = Asked" "rt_locks s sid = None"
    and "select_session_by_hash (rn_old (X t)) (rt_db s) = Inr (sid, uid, did, ex)" "\<not> ex < n"
    and "renewal (X t) sid n (rt_db s) = Inr ((), d)" "select_device_public_id did (rt_db s) = Inr dev"
  shows "\<exists>s'. rt_steps X s0 s' \<and> rt_db s' = d \<and> rt_done s' = rt_done s @ [t] \<and>
    rt_phase s' = (rt_phase s)(t := Rotated)"
proof -
  let ?s1 = "s\<lparr>rt_locks := (rt_locks s)(sid \<mapsto> t), rt_phase := (rt_phase s)(t := Selected sid did)\<rparr>"
  let ?s2 = "?s1\<lparr>rt_phase := (rt_phase ?s1)(t := Renewed sid did n)\<rparr>"
  let ?s3 = "?s2\<lparr>rt_phase := (rt_phase ?s2)(t := Located sid n)\<rparr>"
  let ?s4 = "unlock t Rotated (?s3\<lparr>rt_db := d, rt_done := rt_done ?s3 @ [t]\<rparr>)"
  have "rotation_step X n t s = Some ?s1" using assms(2-5) by (simp add: rotation_step_def)
  moreover have "rotation_step X n t ?s1 = Some ?s2" using assms(6) by (simp add: rotation_step_def)
  moreover have "rotation_step X n t ?s2 = Some ?s3" using assms(7) by (simp add: rotation_step_def)
  moreover have "rotation_step X n t ?s3 = Some ?s4" using assms(6) by (simp add: rotation_step_def)
  ultimately have "rt_steps X s0 ?s4"
    using rt_run_to [OF rt_run_to [OF rt_run_to [OF rt_run_to [OF assms(1)]]]] by blast
  then show ?thesis by (intro exI [of _ ?s4]) simp
qed

lemma renewal_devices: "update_session h e dc p sid m d = Inr (u, d') \<Longrightarrow> devices d' = devices d"
  by (auto simp: update_session_def Let_def split: if_splits)

text \<open>
  C21. The sequential \<^verbatim>\<open>RotateRefreshToken\<close> of \<open>AuthRepo\<close> is one of these schedules: whenever it
  succeeds, the transaction run on its own, statement by statement, commits the same table.
\<close>

theorem RotateRefreshToken_is_a_schedule:
  assumes "RotateRefreshToken dc old new e p w = (Inr (dev, sid, uid), w')"
  shows "\<exists>s. rt_steps (\<lambda>_. \<lparr>rn_dc = dc, rn_old = old, rn_new = new, rn_expires = e, rn_push = p\<rparr>) (rt_start (db w)) s \<and>
    rt_db s = db w' \<and> rt_done s = [0] \<and> rt_phase s 0 = Rotated"
proof -
  let ?q = "\<lparr>rn_dc = dc, rn_old = old, rn_new = new, rn_expires = e, rn_push = p\<rparr>"
  obtain w2 where w2: "rotate_body dc old new e p (after_begin w) = (Inr (dev, sid, uid), w2)" "db w' = db w2"
    using assms unfolding RotateRefreshToken_def Let_def by (auto dest!: in_tx_Inr)
  obtain did ex where b: "select_session_by_hash old (db w) = Inr (sid, uid, did, ex)" "\<not> ex < clock w"
      "update_session new e dc p sid (clock w) (db w) = Inr ((), db w')" "select_device_public_id did (db w') = Inr dev"
    using rotate_body_parts [OF w2(1)] w2(2) by auto
  have "devices (db w') = devices (db w)" by (rule renewal_devices [OF b(3)])
  then have "select_device_public_id did (db w) = Inr dev" using b(4) by (simp add: select_device_public_id_def)
  with b show ?thesis
    using rotation_schedule [of "\<lambda>_. ?q" "rt_start (db w)" "rt_start (db w)" 0 sid uid did ex "clock w" "db w'" dev]
    by (fastforce simp: rt_start_def)
qed

section \<open>Instances\<close>

text \<open>Clients that present the token of one session at the same time.\<close>

definition sample_refreshes :: "nat \<Rightarrow> rotation" where
  "sample_refreshes t = \<lparr>rn_dc = sample_dc ''ios'', rn_old = hex_EncodeToString ''old'', rn_new = replicate (7 + t) CHR ''n'',
     rn_expires = 9000, rn_push = None\<rparr>"

lemma sample_refreshes_fresh: "fresh_tokens sample_refreshes sample_auth_db"
proof -
  have "hex_EncodeToString ''old'' \<noteq> replicate (7 + t) CHR ''n''" for t
    by (rule notI, drule arg_cong [where f = length]) simp
  moreover have "inj (\<lambda>t :: nat. replicate (7 + t) CHR ''n'')"
    by (rule injI, drule arg_cong [where f = length]) simp
  ultimately show ?thesis by (simp add: fresh_tokens_def sample_refreshes_def sample_auth_simps)
qed

lemma sample_rotation:
  "\<exists>s. rt_steps sample_refreshes (rt_start sample_auth_db) s \<and> rt_phase s = (\<lambda>_. Asked)(0 := Rotated)"
  using rotation_schedule [of sample_refreshes "rt_start sample_auth_db" "rt_start sample_auth_db" 0 "''s1''" 1 1 5000 0 _ "''d1''"]
  by (fastforce simp: rt_start_def sample_refreshes_def sample_auth_simps select_session_by_hash_def select_device_public_id_def
      update_session_def update_where_def renew_session_def Let_def)

theorem concurrent_refreshes_single_use_witness:
  "\<exists>s. rt_steps sample_refreshes (rt_start sample_auth_db) s \<and> rt_phase s 0 = Rotated \<and> rt_phase s 1 \<noteq> Rotated \<and>
     select_session_by_hash (hex_EncodeToString ''old'') (rt_db s) = Inl ErrNoRows"
proof -
  obtain s where s: "rt_steps sample_refreshes (rt_start sample_auth_db) s" "rt_phase s = (\<lambda>_. Asked)(0 := Rotated)"
    using sample_rotation by blast
  then have "\<forall>r \<in> set (device_sessions (rt_db s)). ses_refresh_token_hash r \<noteq> hex_EncodeToString ''old''"
    using concurrent_refreshes_single_use [OF sample_auth_db_wf sample_refreshes_fresh s(1), of 0] by (simp add: sample_refreshes_def)
  then have "find (\<lambda>r. ses_refresh_token_hash r = hex_EncodeToString ''old'') (device_sessions (rt_db s)) = None"
    by (simp add: find_None_iff)
  then show ?thesis using s by (intro exI [of _ s]) (simp add: select_session_by_hash_def)
qed


theorem RotateRefreshToken_is_a_schedule_witness:
  "\<exists>q s. rn_old q = hex_EncodeToString ''old'' \<and> rt_steps (\<lambda>_. q) (rt_start sample_auth_db) s \<and> rt_done s = [0]"
proof -
  note r = sample_refresh_hyps
  have "\<exists>dev w'. RotateRefreshToken (sample_dc ''ios'') (ses_refresh_token_hash sample_session) [] 9000 None sample_world
      = (Inr (dev, ses_public_id sample_session, ses_user_id sample_session), w') \<and> fault_free w'"
    using r(4) by (intro RotateRefreshToken_ok [OF r(1-3)]) (simp_all add: sample_auth_simps)
  then obtain dev w' where t: "RotateRefreshToken (sample_dc ''ios'') (ses_refresh_token_hash sample_session) [] 9000 None sample_world
      = (Inr (dev, ses_public_id sample_session, ses_user_id sample_session), w')" by blast
  let ?q = "\<lparr>rn_dc = sample_dc ''ios'', rn_old = ses_refresh_token_hash sample_session, rn_new = [], rn_expires = 9000, rn_push = None\<rparr>"
  obtain s where s: "rt_steps (\<lambda>_. ?q) (rt_start sample_auth_db) s" "rt_done s = [0]"
    using RotateRefreshToken_is_a_schedule [OF t] by auto
  have "rn_old ?q = hex_EncodeToString ''old''" by (simp add: sample_session_def)
  with s show ?thesis by (intro exI [of _ ?q] exI [of _ s]) blast
qed

end
