(* ===== verification/ClaimRaces.thy ===== *)
theory ClaimRaces
  imports AuthOutbox
begin

text \<open>
  Workers and goroutines that claim outbox events at the same time, also those of several
  instances of a service. The transaction of \<^verbatim>\<open>ClaimOutboxEvents\<close> is three steps here: \<^verbatim>\<open>SELECT ... FOR
  UPDATE SKIP LOCKED\<close> locks the rows it returns and passes over those another one has locked, the
  UPDATE becomes visible with the commit. The other statements of the repository are single steps
  and wait for locked rows. The clock runs on between any two.
\<close>

section \<open>Claimers\<close>

datatype claim_phase = Waiting | Picked "OutboxEvent list" | Stamped "OutboxEvent list" int | Publishing "string list" int

record claims =
  cl_tab :: outbox_tab
  cl_rows :: "string \<Rightarrow> nat option"
  cl_phase :: "nat \<Rightarrow> claim_phase"
  cl_now :: int

definition cl_start :: "outbox_tab \<Rightarrow> int \<Rightarrow> claims" where
  "cl_start t n = \<lparr>cl_tab = t, cl_rows = (\<lambda>_. None), cl_phase = (\<lambda>_. Waiting), cl_now = n\<rparr>"

definition set_phase :: "nat \<Rightarrow> claim_phase \<Rightarrow> claims \<Rightarrow> claims" where
  "set_phase c ph s = s\<lparr>cl_phase := (cl_phase s)(c := ph)\<rparr>"

definition free_rows :: "nat \<Rightarrow> claims \<Rightarrow> claims" where
  "free_rows c s = s\<lparr>cl_rows := (\<lambda>i. if cl_rows s i = Some c then None else cl_rows s i)\<rparr>"

definition change_rows :: "(OutboxEvent \<Rightarrow> bool) \<Rightarrow> (OutboxEvent \<Rightarrow> OutboxEvent) \<Rightarrow> claims \<Rightarrow> claims" where
  "change_rows p f s = s\<lparr>cl_tab := (cl_tab s)\<lparr>ob_rows := update_where p f (ob_rows (cl_tab s))\<rparr>\<rparr>"

definition skip_locked :: "claims \<Rightarrow> outbox_tab" where
  "skip_locked s = (cl_tab s)\<lparr>ob_rows := filter (\<lambda>r. cl_rows s (oe_EventID r) = None) (ob_rows (cl_tab s))\<rparr>"

definition waits_for_row :: "(OutboxEvent \<Rightarrow> bool) \<Rightarrow> claims \<Rightarrow> bool" where
  "waits_for_row p s \<longleftrightarrow> (\<exists>r \<in> set (ob_rows (cl_tab s)). p r \<and> cl_rows s (oe_EventID r) \<noteq> None)"

text \<open>The transaction of a batch.\<close>

definition claim_step :: "WorkerConfig \<Rightarrow> nat \<Rightarrow> claims \<Rightarrow> claims option" where
  "claim_step K c s =
     (case cl_phase s c of
        Waiting \<Rightarrow>
          (case ob_select_pending (BatchSize K) (skip_locked s) of
             Inl err \<Rightarrow> Some s
           | Inr es \<Rightarrow>
               if es = [] then Some s
               else Some (set_phase c (Picked es)
                      (s\<lparr>cl_rows := (\<lambda>i. if i \<in> oe_EventID ` set es then Some c else cl_rows s i)\<rparr>)))
      | Picked es \<Rightarrow> Some (set_phase c (Stamped es (cl_now s + seconds (LockTimeout K))) s)
      | Stamped es until \<Rightarrow>
          Some (set_phase c (Publishing (map oe_EventID es) until)
            (free_rows c (change_rows (\<lambda>r. oe_EventID r \<in> set (map oe_EventID es)) (ob_lock until) s)))
      | Publishing ids until \<Rightarrow> None)"

text \<open>\<^verbatim>\<open>ClaimSingleEvent\<close>, which a goroutine calls for the event its request stored.\<close>

definition single_step :: "WorkerConfig \<Rightarrow> nat \<Rightarrow> string \<Rightarrow> claims \<Rightarrow> claims option" where
  "single_step K c i s =
     (let p = (\<lambda>r. oe_EventID r = i \<and> oe_Status r = ''pending''); until = cl_now s + seconds (LockTimeout K) in
      if cl_phase s c \<noteq> Waiting \<or> waits_for_row (\<lambda>r. oe_EventID r = i) s then None
      else if changed_rows p (ob_lock until) (ob_rows (cl_tab s)) = 0 then Some s
      else Some (set_phase c (Publishing [i] until) (change_rows p (ob_lock until) s)))"

text \<open>
  The marks that follow the publications: \<open>ok\<close> says which of the two statements it is. A claimer
  that has marked all its events claims again.
\<close>

definition mark_step :: "bool \<Rightarrow> nat \<Rightarrow> string list \<Rightarrow> claims \<Rightarrow> claims option" where
  "mark_step ok c ids s =
     (case cl_phase s c of
        Publishing own until \<Rightarrow>
          (let rest = filter (\<lambda>i. i \<notin> set ids) own in
           if \<not> set ids \<subseteq> set own \<or> waits_for_row (\<lambda>r. oe_EventID r \<in> set ids) s then None
           else Some (set_phase c (if rest = [] then Waiting else Publishing rest until)
                  (change_rows (\<lambda>r. oe_EventID r \<in> set ids) (if ok then ob_done (cl_now s) else ob_release) s)))
      | _ \<Rightarrow> None)"

definition recover_step :: "claims \<Rightarrow> claims option" where
  "recover_step s =
     (if waits_for_row (ob_stale (cl_now s)) s then None else Some (change_rows (ob_stale (cl_now s)) ob_release s))"

text \<open>
  The steps of the system. \<open>cl_fail\<close> is an error of any statement, or the end of the process: the
  transaction is rolled back, and marks that are not made are never made.
\<close>

inductive cl_step :: "(nat \<Rightarrow> WorkerConfig) \<Rightarrow> claims \<Rightarrow> claims \<Rightarrow> bool" for K :: "nat \<Rightarrow> WorkerConfig" where
  cl_claim: "claim_step (K c) c s = Some s' \<Longrightarrow> cl_step K s s'"
| cl_single: "single_step (K c) c i s = Some s' \<Longrightarrow> cl_step K s s'"
| cl_mark: "mark_step ok c ids s = Some s' \<Longrightarrow> cl_step K s s'"
| cl_recover: "recover_step s = Some s' \<Longrightarrow> cl_step K s s'"
| cl_insert: "ob_insert es (cl_tab s) = Inr (u, t) \<Longrightarrow> cl_step K s (s\<lparr>cl_tab := t\<rparr>)"
| cl_fail: "cl_step K s (set_phase c Waiting (free_rows c s))"
| cl_tick: "cl_now s \<le> n \<Longrightarrow> cl_step K s (s\<lparr>cl_now := n\<rparr>)"

abbreviation cl_steps :: "(nat \<Rightarrow> WorkerConfig) \<Rightarrow> claims \<Rightarrow> claims \<Rightarrow> bool" where
  "cl_steps K \<equiv> (cl_step K)\<^sup>*\<^sup>*"

text \<open>What a claimer has picked, and what it publishes and until when it may.\<close>

fun picked :: "claim_phase \<Rightarrow> string set" where
  "picked (Picked es) = oe_EventID ` set es"
| "picked (Stamped es until) = oe_EventID ` set es"
| "picked _ = {}"

fun owned :: "claim_phase \<Rightarrow> (string \<times> int) set" where
  "owned (Publishing ids until) = set ids \<times> {until}"
| "owned _ = {}"

text \<open>No claimer is past the end of its claim: each marks its events, or gives up, before.\<close>

definition in_time :: "claims \<Rightarrow> bool" where
  "in_time s \<longleftrightarrow> (\<forall>c. \<forall>(i, until) \<in> owned (cl_phase s c). cl_now s \<le> until)"

inductive timely :: "(nat \<Rightarrow> WorkerConfig) \<Rightarrow> claims \<Rightarrow> claims \<Rightarrow> bool" for K :: "nat \<Rightarrow> WorkerConfig" and s0 :: claims where
  timely_start: "timely K s0 s0"
| timely_step: "timely K s0 s \<Longrightarrow> cl_step K s s' \<Longrightarrow> in_time s' \<Longrightarrow> timely K s0 s'"

section \<open>The invariant\<close>

definition row_of :: "claims \<Rightarrow> string \<Rightarrow> OutboxEvent option" where
  "row_of s i = find (\<lambda>r. oe_EventID r = i) (ob_rows (cl_tab s))"

definition cl_inv :: "claims \<Rightarrow> bool" where
  "cl_inv s \<longleftrightarrow> unique_by oe_EventID (ob_rows (cl_tab s)) \<and>
     (\<forall>i c. cl_rows s i = Some c \<longleftrightarrow> i \<in> picked (cl_phase s c)) \<and>
     (\<forall>i c. i \<in> picked (cl_phase s c) \<longrightarrow> (\<exists>r. row_of s i = Some r \<and> oe_Status r = ''pending'')) \<and>
     (\<forall>i c until. (i, until) \<in> owned (cl_phase s c) \<longrightarrow>
        (\<exists>r. row_of s i = Some r \<and> oe_Status r = ''processing'' \<and> oe_LockedUntil r = Some until)) \<and>
     (\<forall>i c c'. i \<in> fst ` owned (cl_phase s c) \<and> i \<in> fst ` owned (cl_phase s c') \<longrightarrow> c = c')"

lemma cl_invD:
  assumes "cl_inv s"
  shows "unique_by oe_EventID (ob_rows (cl_tab s))" "cl_rows s i = Some c \<longleftrightarrow> i \<in> picked (cl_phase s c)"
    "i \<in> picked (cl_phase s c) \<Longrightarrow> \<exists>r. row_of s i = Some r \<and> oe_Status r = ''pending''"
    "(i, until) \<in> owned (cl_phase s c) \<Longrightarrow>
       \<exists>r. row_of s i = Some r \<and> oe_Status r = ''processing'' \<and> oe_LockedUntil r = Some until"
    "i \<in> fst ` owned (cl_phase s c) \<Longrightarrow> i \<in> fst ` owned (cl_phase s c') \<Longrightarrow> c = c'"
  using assms unfolding cl_inv_def by blast+

lemma cl_inv_start: "unique_by oe_EventID (ob_rows t) \<Longrightarrow> cl_inv (cl_start t n)"
  by (simp add: cl_inv_def cl_start_def)

lemma cl_simps [simp]:
  "cl_tab (set_phase c ph s) = cl_tab s" "cl_rows (set_phase c ph s) = cl_rows s" "cl_now (set_phase c ph s) = cl_now s"
  "cl_phase (set_phase c ph s) = (cl_phase s)(c := ph)"
  "cl_tab (free_rows c s) = cl_tab s" "cl_phase (free_rows c s) = cl_phase s" "cl_now (free_rows c s) = cl_now s"
  "cl_rows (free_rows c s) = (\<lambda>i. if cl_rows s i = Some c then None else cl_rows s i)"
  "cl_rows (change_rows p f s) = cl_rows s" "cl_phase (change_rows p f s) = cl_phase s" "cl_now (change_rows p f s) = cl_now s"
  "ob_rows (cl_tab (change_rows p f s)) = update_where p f (ob_rows (cl_tab s))"
  by (simp_all add: set_phase_def free_rows_def change_rows_def)

lemma find_update_where:
  "(\<And>r. oe_EventID (f r) = oe_EventID r) \<Longrightarrow>
   find (\<lambda>r. oe_EventID r = i) (update_where p f rs) = map_option (\<lambda>r. if p r then f r else r) (find (\<lambda>r. oe_EventID r = i) rs)"
  by (induction rs) auto

lemma statements_keep_id [simp]:
  "oe_EventID (ob_lock u r) = oe_EventID r" "oe_EventID (ob_done n r) = oe_EventID r" "oe_EventID (ob_release r) = oe_EventID r"
  by (simp_all add: ob_lock_def ob_done_def ob_release_def)

lemma row_of_simps [simp]:
  "row_of (set_phase c ph s) = row_of s" "row_of (free_rows c s) = row_of s"
  "row_of (s\<lparr>cl_rows := l\<rparr>) = row_of s" "row_of (s\<lparr>cl_now := n\<rparr>) = row_of s"
  by (simp_all add: row_of_def fun_eq_iff)

lemma row_of_change:
  "(\<And>r. oe_EventID (f r) = oe_EventID r) \<Longrightarrow> row_of (change_rows p f s) i = map_option (\<lambda>r. if p r then f r else r) (row_of s i)"
  by (simp add: row_of_def find_update_where)

lemma row_ofD: "row_of s i = Some r \<Longrightarrow> r \<in> set (ob_rows (cl_tab s)) \<and> oe_EventID r = i"
  by (auto simp: row_of_def dest!: find_SomeD)

lemma row_ofI: "cl_inv s \<Longrightarrow> r \<in> set (ob_rows (cl_tab s)) \<Longrightarrow> row_of s (oe_EventID r) = Some r"
  unfolding row_of_def by (rule unique_by_find [OF cl_invD(1)])

text \<open>Two claimers have nothing in common.\<close>

lemma cl_inv_apart:
  assumes "cl_inv s"
  shows "i \<in> picked (cl_phase s c) \<Longrightarrow> i \<notin> fst ` owned (cl_phase s c')"
    "i \<in> picked (cl_phase s c) \<Longrightarrow> i \<in> picked (cl_phase s c') \<Longrightarrow> c = c'"
proof -
  show "i \<notin> fst ` owned (cl_phase s c')" if "i \<in> picked (cl_phase s c)"
    using cl_invD(3) [OF assms that] cl_invD(4) [OF assms, of i _ c'] by fastforce
  show "i \<in> picked (cl_phase s c) \<Longrightarrow> i \<in> picked (cl_phase s c') \<Longrightarrow> c = c'"
    using cl_invD(2) [OF assms, of i] by (metis option.inject)
qed

text \<open>
  A step of one claimer: it leaves the rows and locks of the others alone, and what it picks or
  publishes afterwards is in order.
\<close>

lemma cl_inv_update:
  assumes "cl_inv s" "unique_by oe_EventID (ob_rows (cl_tab s'))" "cl_phase s' = (cl_phase s)(c := ph)"
    and rows: "\<And>i c'. c' \<noteq> c \<Longrightarrow> i \<in> picked (cl_phase s c') \<or> i \<in> fst ` owned (cl_phase s c') \<Longrightarrow> row_of s' i = row_of s i"
    and locks: "\<And>i c'. c' \<noteq> c \<Longrightarrow> cl_rows s' i = Some c' \<longleftrightarrow> cl_rows s i = Some c'" "\<And>i. cl_rows s' i = Some c \<longleftrightarrow> i \<in> picked ph"
    and pend: "\<And>i. i \<in> picked ph \<Longrightarrow> \<exists>r. row_of s' i = Some r \<and> oe_Status r = ''pending''"
    and proc: "\<And>i until. (i, until) \<in> owned ph \<Longrightarrow>
      \<exists>r. row_of s' i = Some r \<and> oe_Status r = ''processing'' \<and> oe_LockedUntil r = Some until"
    and sep: "\<And>i c'. i \<in> fst ` owned ph \<Longrightarrow> c' \<noteq> c \<Longrightarrow> i \<notin> fst ` owned (cl_phase s c')"
  shows "cl_inv s'"
  unfolding cl_inv_def
proof (intro conjI allI impI)
  show "unique_by oe_EventID (ob_rows (cl_tab s'))" by (rule assms(2))
  show "(cl_rows s' i = Some c') = (i \<in> picked (cl_phase s' c'))" for i c'
    using locks cl_invD(2) [OF assms(1), of i c'] by (cases "c' = c") (simp_all add: assms(3))
  show "\<exists>r. row_of s' i = Some r \<and> oe_Status r = ''pending''" if "i \<in> picked (cl_phase s' c')" for i c'
    using that pend cl_invD(3) [OF assms(1), of i c'] rows [of c' i] by (cases "c' = c") (simp_all add: assms(3))
  show "\<exists>r. row_of s' i = Some r \<and> oe_Status r = ''processing'' \<and> oe_LockedUntil r = Some until" if "(i, until) \<in> owned (cl_phase s' c')" for i c' until
  proof (cases "c' = c")
    case False
    then have o: "(i, until) \<in> owned (cl_phase s c')" using that by (simp add: assms(3))
    then have "i \<in> fst ` owned (cl_phase s c')" by (rule rev_image_eqI) simp
    then show ?thesis using cl_invD(4) [OF assms(1) o] rows [of c' i] False by simp
  qed (use that proc assms(3) in simp)
  show "d = d'" if "i \<in> fst ` owned (cl_phase s' d) \<and> i \<in> fst ` owned (cl_phase s' d')" for i d d'
    using that sep cl_invD(5) [OF assms(1), of i d d'] unfolding assms(3) by (metis fun_upd_apply)
qed

text \<open>A change of the table that keeps the rows somebody has picked or publishes.\<close>

lemma cl_inv_rows:
  assumes "cl_inv s" "unique_by oe_EventID (ob_rows (cl_tab s'))" "cl_rows s' = cl_rows s" "cl_phase s' = cl_phase s"
    and rows: "\<And>i c r. i \<in> picked (cl_phase s c) \<or> i \<in> fst ` owned (cl_phase s c) \<Longrightarrow> row_of s i = Some r \<Longrightarrow> row_of s' i = Some r"
  shows "cl_inv s'"
  unfolding cl_inv_def assms(3,4)
proof (intro conjI allI impI)
  show "unique_by oe_EventID (ob_rows (cl_tab s'))" by (rule assms(2))
  show "(cl_rows s i = Some c) = (i \<in> picked (cl_phase s c))" for i c by (rule cl_invD(2) [OF assms(1)])
  show "\<exists>r. row_of s' i = Some r \<and> oe_Status r = ''pending''" if "i \<in> picked (cl_phase s c)" for i c
    using cl_invD(3) [OF assms(1) that] rows that by blast
  show "\<exists>r. row_of s' i = Some r \<and> oe_Status r = ''processing'' \<and> oe_LockedUntil r = Some until" if "(i, until) \<in> owned (cl_phase s c)" for i c until
  proof -
    have "i \<in> fst ` owned (cl_phase s c)" using that by (rule rev_image_eqI) simp
    then show ?thesis using cl_invD(4) [OF assms(1) that] rows by blast
  qed
  show "c = c'" if "i \<in> fst ` owned (cl_phase s c) \<and> i \<in> fst ` owned (cl_phase s c')" for i c c'
    using that cl_invD(5) [OF assms(1), of i c c'] by simp
qed

lemma cl_inv_pick:
  assumes "cl_inv s" "cl_phase s c = Waiting" "ob_select_pending n (skip_locked s) = Inr es"
  shows "cl_inv (set_phase c (Picked es) (s\<lparr>cl_rows := (\<lambda>i. if i \<in> oe_EventID ` set es then Some c else cl_rows s i)\<rparr>))"
proof -
  have es: "\<exists>r. row_of s i = Some r \<and> oe_Status r = ''pending'' \<and> cl_rows s i = None" if i: "i \<in> oe_EventID ` set es" for i
  proof -
    obtain e where e: "e \<in> set es" "i = oe_EventID e" using i by blast
    obtain r where r: "r \<in> set (ob_rows (skip_locked s))" "e = ob_selected r" "oe_Status r = ''pending''" using ob_claimed [OF assms(3) e(1)] by blast
    have "oe_EventID e = oe_EventID r" by (simp add: r(2) ob_selected_def)
    then show ?thesis using r(1,3) e(2) row_ofI [OF assms(1), of r] by (simp add: skip_locked_def)
  qed
  show ?thesis
  proof (rule cl_inv_update [OF assms(1), where c = c and ph = "Picked es"], goal_cases)
    case (4 i c')
    then show ?case using es [of i] by auto
  next
    case (5 i)
    then show ?case using cl_invD(2) [OF assms(1), of i c] by (simp add: assms(2))
  next
    case (6 i)
    then show ?case using es [of i] by auto
  qed (use cl_invD(1) [OF assms(1)] in simp_all)
qed

lemma cl_inv_stamp:
  assumes "cl_inv s" "cl_phase s c = Picked es"
  shows "cl_inv (set_phase c (Stamped es until) s)"
proof (rule cl_inv_update [OF assms(1), where c = c and ph = "Stamped es until"], goal_cases)
  case (5 i)
  then show ?case using cl_invD(2) [OF assms(1), of i c] assms(2) by simp
next
  case (6 i)
  then show ?case using cl_invD(3) [OF assms(1), of i c] assms(2) by simp
qed (use cl_invD(1) [OF assms(1)] in simp_all)

lemma cl_inv_fail:
  assumes "cl_inv s"
  shows "cl_inv (set_phase c Waiting (free_rows c s))"
  by (rule cl_inv_update [OF assms, where c = c and ph = Waiting]) (use cl_invD(1) [OF assms] in simp_all)

lemma row_locked:
  "row_of s i = Some r \<Longrightarrow> oe_Status r = ''pending'' \<Longrightarrow> row_of (change_rows p (ob_lock u) s) i = Some r' \<Longrightarrow> p r \<Longrightarrow>
   oe_Status r' = ''processing'' \<and> oe_LockedUntil r' = Some u"
  by (auto simp: row_of_change ob_lock_def)

lemma cl_inv_commit:
  assumes "cl_inv s" "cl_phase s c = Stamped es until"
  shows "cl_inv (set_phase c (Publishing (map oe_EventID es) until)
    (free_rows c (change_rows (\<lambda>r. oe_EventID r \<in> set (map oe_EventID es)) (ob_lock until) s)))" (is "cl_inv ?s'")
proof -
  have mine: "i \<in> picked (cl_phase s c) \<longleftrightarrow> i \<in> oe_EventID ` set es" for i by (simp add: assms(2))
  have row: "row_of (change_rows (\<lambda>r. oe_EventID r \<in> oe_EventID ` set es) (ob_lock until) s) i =
      map_option (\<lambda>r. if i \<in> oe_EventID ` set es then ob_lock until r else r) (row_of s i)" for i
    by (cases "row_of s i") (auto simp: row_of_change dest: row_ofD)
  show ?thesis
  proof (rule cl_inv_update [OF assms(1), where c = c and ph = "Publishing (map oe_EventID es) until"], goal_cases)
    case (3 i c')
    then have "i \<notin> oe_EventID ` set es" using cl_inv_apart [OF assms(1), of i c c'] mine by blast
    then show ?case by (cases "row_of s i") (simp_all add: row)
  next
    case (7 i u)
    then have "i \<in> picked (cl_phase s c)" "u = until" by (auto simp: mine)
    then show ?case using cl_invD(3) [OF assms(1), of i c] mine by (auto simp: row ob_lock_def)
  next
    case (8 i c')
    then have "i \<in> picked (cl_phase s c)" by (auto simp: mine)
    then show ?case by (rule cl_inv_apart(1) [OF assms(1)])
  qed (use cl_invD(1) [OF assms(1)] in \<open>auto simp: unique_by_update_where\<close>)
qed

lemma cl_inv_claim:
  assumes "cl_inv s" "claim_step K c s = Some s'"
  shows "cl_inv s'"
  using assms(2) assms(1) cl_inv_pick [OF assms(1)] cl_inv_stamp [OF assms(1)] cl_inv_commit [OF assms(1)]
  by (auto simp: claim_step_def split: claim_phase.splits sum.splits if_splits)

lemma cl_inv_single:
  assumes "cl_inv s" "single_step K c i s = Some s'"
  shows "cl_inv s'"
proof -
  let ?p = "\<lambda>r. oe_EventID r = i \<and> oe_Status r = ''pending''" and ?u = "cl_now s + seconds (LockTimeout K)"
  have w: "cl_phase s c = Waiting" "\<not> waits_for_row (\<lambda>r. oe_EventID r = i) s" using assms(2) by (auto simp: single_step_def Let_def split: if_splits)
  show ?thesis
  proof (cases "changed_rows ?p (ob_lock ?u) (ob_rows (cl_tab s)) = 0")
    case True
    then show ?thesis using assms w by (simp add: single_step_def Let_def)
  next
    case False
    then have s': "s' = set_phase c (Publishing [i] ?u) (change_rows ?p (ob_lock ?u) s)" using assms(2) w by (simp add: single_step_def Let_def)
    have "filter (\<lambda>r. ?p r \<and> ob_lock ?u r \<noteq> r) (ob_rows (cl_tab s)) \<noteq> []" using False by (simp add: changed_rows_def)
    then obtain r where r: "r \<in> set (ob_rows (cl_tab s))" "oe_EventID r = i" "oe_Status r = ''pending''" by (auto simp: filter_empty_conv)
    have ri: "row_of s i = Some r" using row_ofI [OF assms(1) r(1)] r(2) by simp
    have free: "i \<notin> picked (cl_phase s c')" for c'
      using w(2) r(1,2) cl_invD(2) [OF assms(1), of i c'] by (auto simp: waits_for_row_def)
    have unowned: "i \<notin> fst ` owned (cl_phase s c')" for c'
      using cl_invD(4) [OF assms(1), of i _ c'] ri r(3) by fastforce
    have other: "row_of (change_rows ?p (ob_lock ?u) s) j = row_of s j" if "j \<noteq> i" for j
      using that by (cases "row_of s j") (auto simp: row_of_change dest: row_ofD)
    show ?thesis
      unfolding s'
    proof (rule cl_inv_update [OF assms(1), where c = c and ph = "Publishing [i] ?u"], goal_cases)
      case (3 j c')
      then have "j \<noteq> i" using free unowned by blast
      then show ?case using other by simp
    next
      case (5 j)
      then show ?case using cl_invD(2) [OF assms(1), of j c] by (simp add: w(1))
    next
      case (7 j u)
      then show ?case using ri r by (simp add: row_of_change ob_lock_def)
    next
      case (8 j c')
      then show ?case using unowned by simp
    qed (use cl_invD(1) [OF assms(1)] in \<open>simp_all add: unique_by_update_where\<close>)
  qed
qed

lemma cl_inv_mark:
  assumes "cl_inv s" "mark_step ok c ids s = Some s'"
  shows "cl_inv s'"
proof -
  obtain own until where ph: "cl_phase s c = Publishing own until" and sub: "set ids \<subseteq> set own"
    using assms(2) by (auto simp: mark_step_def Let_def split: claim_phase.splits if_splits)
  define f where "f = (if ok then ob_done (cl_now s) else ob_release)"
  define rest where "rest = filter (\<lambda>i. i \<notin> set ids) own"
  define ph' where "ph' = (if rest = [] then Waiting else Publishing rest until)"
  have s': "s' = set_phase c ph' (change_rows (\<lambda>r. oe_EventID r \<in> set ids) f s)"
    using assms(2) ph sub by (simp add: mark_step_def Let_def f_def ph'_def rest_def split: if_splits)
  have ph'o: "owned ph' = {i \<in> set own. i \<notin> set ids} \<times> {until}" "picked ph' = {}" by (auto simp: ph'_def rest_def filter_empty_conv)
  have fid: "oe_EventID (f r) = oe_EventID r" for r by (simp add: f_def)
  have mine: "i \<in> fst ` owned (cl_phase s c)" if "i \<in> set own" for i using that ph by simp
  have other: "row_of (change_rows (\<lambda>r. oe_EventID r \<in> set ids) f s) i = row_of s i" if "i \<notin> set ids" for i
    using that by (cases "row_of s i") (auto simp: row_of_change fid dest: row_ofD)
  show ?thesis
    unfolding s'
  proof (rule cl_inv_update [OF assms(1), where c = c and ph = ph'], goal_cases)
    case (3 i c')
    then have "i \<notin> set ids" using cl_inv_apart(1) [OF assms(1), of i c' c] cl_invD(5) [OF assms(1), of i c c'] mine sub by blast
    then show ?case using other by simp
  next
    case (5 i)
    then show ?case using cl_invD(2) [OF assms(1), of i c] by (simp add: ph ph'o)
  next
    case (7 i u)
    then show ?case using cl_invD(4) [OF assms(1), of i u c] other [of i] by (simp add: ph ph'o)
  next
    case (8 i c')
    then show ?case using cl_invD(5) [OF assms(1), of i c c'] mine [of i] by (auto simp: ph'o)
  qed (use cl_invD(1) [OF assms(1)] fid in \<open>simp_all add: unique_by_update_where ph'o\<close>)
qed

lemma cl_inv_recover:
  assumes "cl_inv s" "in_time s" "recover_step s = Some s'"
  shows "cl_inv s'"
proof -
  have s': "s' = change_rows (ob_stale (cl_now s)) ob_release s" using assms(3) by (simp add: recover_step_def split: if_splits)
  have same: "row_of s' i = row_of s i" if "i \<in> picked (cl_phase s c) \<or> i \<in> fst ` owned (cl_phase s c)" for i c
    using that
  proof
    assume "i \<in> picked (cl_phase s c)"
    then show ?thesis using cl_invD(3) [OF assms(1), of i c] by (auto simp: s' row_of_change ob_stale_def)
  next
    assume "i \<in> fst ` owned (cl_phase s c)"
    then obtain until where o: "(i, until) \<in> owned (cl_phase s c)" by auto
    then have "cl_now s \<le> until" using assms(2) by (auto simp: in_time_def)
    then show ?thesis using cl_invD(4) [OF assms(1) o] by (auto simp: s' row_of_change ob_stale_def)
  qed
  have "unique_by oe_EventID (ob_rows (cl_tab s'))" using cl_invD(1) [OF assms(1)] by (simp add: s' unique_by_update_where)
  then show ?thesis
    by (rule cl_inv_rows [OF assms(1)]) (use same in \<open>simp_all add: s'\<close>)
qed

lemma cl_inv_insert:
  assumes "cl_inv s" "ob_insert es (cl_tab s) = Inr (u, t)"
  shows "cl_inv (s\<lparr>cl_tab := t\<rparr>)"
proof -
  obtain new where t: "ob_rows t = ob_rows (cl_tab s) @ new" "unique_by oe_EventID (ob_rows t)"
    using ob_insert_rows [OF assms(2)] cl_invD(1) [OF assms(1)] by blast
  have find_append: "find p xs = Some r \<Longrightarrow> find p (xs @ ys) = Some r" for p :: "OutboxEvent \<Rightarrow> bool" and xs ys r
    by (induction xs) (auto split: if_splits)
  have same: "row_of (s\<lparr>cl_tab := t\<rparr>) i = Some r" if "row_of s i = Some r" for i r
    using that find_append by (simp add: row_of_def t(1))
  show ?thesis by (rule cl_inv_rows [OF assms(1)]) (use t(2) same in simp_all)
qed

lemma cl_inv_step:
  assumes "cl_step K s s'" "cl_inv s" "in_time s"
  shows "cl_inv s'"
  using assms(1)
proof cases
  case (cl_claim c)
  then show ?thesis using cl_inv_claim [OF assms(2)] by blast
next
  case (cl_single c i)
  then show ?thesis using cl_inv_single [OF assms(2)] by blast
next
  case (cl_mark ok c ids)
  then show ?thesis using cl_inv_mark [OF assms(2)] by blast
next
  case cl_recover
  then show ?thesis using cl_inv_recover [OF assms(2,3)] by blast
next
  case (cl_insert es u t)
  then show ?thesis using cl_inv_insert [OF assms(2)] by blast
next
  case (cl_fail c)
  then show ?thesis using cl_inv_fail [OF assms(2)] by simp
next
  case (cl_tick n)
  then show ?thesis by (intro cl_inv_rows [OF assms(2)]) (use cl_invD(1) [OF assms(2)] in simp_all)
qed

lemma timely_inv:
  assumes "timely K (cl_start t n) s" "unique_by oe_EventID (ob_rows t)"
  shows "cl_inv s \<and> in_time s"
  using assms(1)
proof induction
  case timely_start
  show ?case using cl_inv_start [OF assms(2)] by (simp add: in_time_def cl_start_def)
next
  case (timely_step s s')
  then show ?case using cl_inv_step by blast
qed

section \<open>Properties\<close>

text \<open>
  C11. Claims are exclusive. As long as every claimer finishes, or gives up, before its claim ends, no event
  is in the hands of two of them, however claims, marks, recovery, insertions and failures
  interleave; and an event somebody publishes is in the table, still claimed until the time
  the claimer was given.
\<close>

theorem claims_exclusive:
  assumes "timely K (cl_start t n) s" "unique_by oe_EventID (ob_rows t)"
    and "cl_phase s c = Publishing ids until" "i \<in> set ids"
  shows "(\<forall>c' ids' until'. cl_phase s c' = Publishing ids' until' \<and> i \<in> set ids' \<longrightarrow> c' = c) \<and>
    (\<exists>r \<in> set (ob_rows (cl_tab s)). oe_EventID r = i \<and> oe_Status r = ''processing'' \<and> oe_LockedUntil r = Some until \<and> cl_now s \<le> until)"
proof -
  have inv: "cl_inv s" "in_time s" using timely_inv [OF assms(1,2)] by blast+
  have o: "(i, until) \<in> owned (cl_phase s c)" using assms(3,4) by simp
  have "\<forall>c' ids' until'. cl_phase s c' = Publishing ids' until' \<and> i \<in> set ids' \<longrightarrow> c' = c"
    using cl_invD(5) [OF inv(1), of i c] assms(3,4) by force
  moreover have "cl_now s \<le> until" using inv(2) o by (auto simp: in_time_def)
  ultimately show ?thesis using cl_invD(4) [OF inv(1) o] by (auto dest: row_ofD)
qed

section \<open>Late claimers\<close>

lemma cl_then: "cl_steps K s s1 \<Longrightarrow> cl_step K s1 s2 \<Longrightarrow> cl_steps K s s2"
  by (rule rtranclp.rtrancl_into_rtrancl)

text \<open>The three steps of a batch that nobody disturbs.\<close>

lemma batch_claim:
  assumes "cl_steps K s0 s" "cl_phase s c = Waiting" "cl_rows s = (\<lambda>_. None)" "ob_select_pending (BatchSize (K c)) (cl_tab s) = Inr es" "es \<noteq> []"
  shows "\<exists>s'. cl_steps K s0 s' \<and> cl_rows s' = (\<lambda>_. None) \<and> cl_now s' = cl_now s \<and>
    ob_rows (cl_tab s') = update_where (\<lambda>r. oe_EventID r \<in> oe_EventID ` set es) (ob_lock (cl_now s + seconds (LockTimeout (K c)))) (ob_rows (cl_tab s)) \<and>
    cl_phase s' = (cl_phase s)(c := Publishing (map oe_EventID es) (cl_now s + seconds (LockTimeout (K c))))"
proof -
  let ?u = "cl_now s + seconds (LockTimeout (K c))"
  let ?s1 = "set_phase c (Picked es) (s\<lparr>cl_rows := (\<lambda>i. if i \<in> oe_EventID ` set es then Some c else cl_rows s i)\<rparr>)"
  let ?s2 = "set_phase c (Stamped es ?u) ?s1"
  let ?s3 = "set_phase c (Publishing (map oe_EventID es) ?u)
    (free_rows c (change_rows (\<lambda>r. oe_EventID r \<in> set (map oe_EventID es)) (ob_lock ?u) ?s2))"
  have "skip_locked s = cl_tab s" by (simp add: skip_locked_def assms(3))
  then have "claim_step (K c) c s = Some ?s1" using assms(2,4,5) by (simp add: claim_step_def)
  moreover have "claim_step (K c) c ?s1 = Some ?s2" "claim_step (K c) c ?s2 = Some ?s3" by (simp_all add: claim_step_def)
  ultimately have "cl_steps K s0 ?s3" using cl_then [OF cl_then [OF cl_then [OF assms(1)]]] cl_claim by blast
  then show ?thesis by (intro exI [of _ ?s3]) (simp add: assms(3) fun_eq_iff)
qed

lemma one_event:
  assumes "cl_steps K s0 s" "cl_phase s c = Waiting" "cl_rows s = (\<lambda>_. None)" "ob_rows (cl_tab s) = [r]" "oe_Status r = ''pending''"
    and "1 \<le> BatchSize (K c)"
  shows "\<exists>s'. cl_steps K s0 s' \<and> cl_rows s' = (\<lambda>_. None) \<and> cl_now s' = cl_now s \<and>
    ob_rows (cl_tab s') = [ob_lock (cl_now s + seconds (LockTimeout (K c))) r] \<and>
    cl_phase s' = (cl_phase s)(c := Publishing [oe_EventID r] (cl_now s + seconds (LockTimeout (K c))))"
proof -
  obtain n where "nat (BatchSize (K c)) = Suc n" using assms(6) by (cases "nat (BatchSize (K c))") auto
  then have "ob_select_pending (BatchSize (K c)) (cl_tab s) = Inr [ob_selected r]"
    using assms(4-6) by (simp add: ob_select_pending_def)
  from batch_claim [OF assms(1-3) this] show ?thesis by (simp add: assms(4) ob_selected_def)
qed

text \<open>
  C37. Without that, claims are not exclusive: the statements that mark an event do not ask whether the claim is
  still the claimer's own. A worker that is late, and whose event has been recovered and claimed
  by a second one, releases the second one's claim when it marks the event as failed; a third one
  claims it, and two of them publish the event while the time of neither is over.
\<close>

theorem late_claimer_breaks_claim:
  assumes "ob_rows t = [r]" "oe_Status r = ''pending''" "\<And>c. 1 \<le> BatchSize (K c)" "\<And>c. 0 \<le> seconds (LockTimeout (K c))"
  shows "\<exists>s u1 u2. cl_steps K (cl_start t n) s \<and> cl_phase s 1 = Publishing [oe_EventID r] u1 \<and> cl_now s \<le> u1 \<and>
    cl_phase s 2 = Publishing [oe_EventID r] u2 \<and> cl_now s \<le> u2"
proof -
  let ?i = "oe_EventID r" and ?u0 = "n + seconds (LockTimeout (K 0))"
  obtain s1 where s1: "cl_steps K (cl_start t n) s1" "cl_rows s1 = (\<lambda>_. None)" "cl_now s1 = n" "ob_rows (cl_tab s1) = [ob_lock ?u0 r]"
    "cl_phase s1 = (\<lambda>_. Waiting)(0 := Publishing [?i] ?u0)"
    using one_event [OF rtranclp.rtrancl_refl, of "cl_start t n" 0 r K] assms by (auto simp: cl_start_def)
  let ?s2 = "s1\<lparr>cl_now := ?u0 + 1\<rparr>" and ?r = "ob_release (ob_lock ?u0 r)"
  have "cl_step K s1 ?s2" by (rule cl_tick) (use s1(3) assms(4) [of 0] in simp)
  note t2 = cl_then [OF s1(1) this]
  let ?s3 = "change_rows (ob_stale (?u0 + 1)) ob_release ?s2"
  have "recover_step ?s2 = Some ?s3" by (simp add: recover_step_def waits_for_row_def s1(2))
  note t3 = cl_then [OF t2 cl_recover [OF this]]
  have r3: "ob_rows (cl_tab ?s3) = [?r]" "oe_Status ?r = ''pending''" "oe_EventID ?r = ?i"
    by (simp_all add: s1(4) ob_stale_def ob_lock_def ob_release_def)
  let ?u1 = "?u0 + 1 + seconds (LockTimeout (K 1))"
  obtain s4 where s4: "cl_steps K (cl_start t n) s4" "cl_rows s4 = (\<lambda>_. None)" "cl_now s4 = ?u0 + 1" "ob_rows (cl_tab s4) = [ob_lock ?u1 ?r]"
    "cl_phase s4 = (\<lambda>_. Waiting)(0 := Publishing [?i] ?u0, 1 := Publishing [?i] ?u1)"
    using one_event [OF t3, of 1 ?r] r3 assms(3) by (auto simp: s1(2,5))
  let ?s5 = "set_phase 0 Waiting (change_rows (\<lambda>r. oe_EventID r \<in> set [?i]) ob_release s4)"
  have "mark_step False 0 [?i] s4 = Some ?s5" by (simp add: mark_step_def waits_for_row_def s4(2,5))
  note t5 = cl_then [OF s4(1) cl_mark [OF this]]
  have r5: "ob_rows (cl_tab ?s5) = [ob_release (ob_lock ?u1 ?r)]" "oe_Status (ob_release (ob_lock ?u1 ?r)) = ''pending''"
    by (simp_all add: s4(4) ob_release_def)
  have "oe_EventID (ob_release (ob_lock ?u1 ?r)) = ?i" by simp
  with one_event [OF t5, of 2 "ob_release (ob_lock ?u1 ?r)"] r5 assms(3)
  obtain s6 where "cl_steps K (cl_start t n) s6" "cl_now s6 = ?u0 + 1"
    "cl_phase s6 1 = Publishing [?i] ?u1" "cl_phase s6 2 = Publishing [?i] (?u0 + 1 + seconds (LockTimeout (K 2)))"
    by (auto simp: s4(2,3,5))
  then show ?thesis using assms(4) [of 1] assms(4) [of 2] by (intro exI [of _ s6]) simp
qed

section \<open>The sequential claim is a schedule\<close>

context outbox_store
begin

lemma claim_selected:
  "ClaimOutboxEvents T n lt w = (Inr es, w') \<Longrightarrow> ob_select_pending n (tab T (db w)) = Inr es"
  unfolding ClaimOutboxEvents_def Let_def
  by (elim call_cases)
    (auto simp: rollback_tx_def rollback_ret_def split: if_splits elim!: call_cases dest!: begin_tx_Inr sql_query_Inr_cases)

end

text \<open>\<^verbatim>\<open>ClaimOutboxEvents\<close> of \<open>Outbox\<close>, when it claims something, does what the three steps do.\<close>

theorem ClaimOutboxEvents_is_a_schedule:
  assumes "ClaimOutboxEvents auth_outbox (BatchSize K) (LockTimeout K) w = (Inr es, w')" "es \<noteq> []"
  shows "\<exists>s. cl_steps (\<lambda>_. K) (cl_start (auth_outbox_events (db w)) (clock w)) s \<and>
    ob_rows (cl_tab s) = events auth_outbox w' \<and>
    cl_phase s 0 = Publishing (map oe_EventID es) (clock w + seconds (LockTimeout K))"
proof -
  have tab: "tab auth_outbox d = auth_outbox_events d" for d by (simp add: auth_outbox_def)
  have sel: "ob_select_pending (BatchSize K) (auth_outbox_events (db w)) = Inr es" using auth_store.claim_selected [OF assms(1)] by (simp add: tab)
  have post: "events auth_outbox w' = update_where (\<lambda>x. oe_EventID x \<in> oe_EventID ` set es)
      (ob_lock (clock w + seconds (LockTimeout K))) (events auth_outbox w)"
    using auth_store.ClaimOutboxEvents_post [OF assms(1)] by (simp add: auth_store.claim_post_def)
  show ?thesis
    using batch_claim [OF rtranclp.rtrancl_refl, of "cl_start (auth_outbox_events (db w)) (clock w)" 0 "\<lambda>_. K" es] sel assms(2)
    by (auto simp: cl_start_def tab post [unfolded tab])
qed

section \<open>Instances\<close>

abbreviation one_row :: outbox_tab where
  "one_row \<equiv> \<lparr>ob_rows = [sample_event ''pending'' None], ob_next = 2\<rparr>"

theorem claims_exclusive_witness:
  "\<exists>s until. timely (\<lambda>_. sample_config) (cl_start one_row 0) s \<and> cl_phase s 0 = Publishing [''e1''] until \<and> cl_now s \<le> until"
proof -
  let ?s = "set_phase 0 (Publishing [''e1''] 30) (change_rows (\<lambda>r. oe_EventID r = ''e1'' \<and> oe_Status r = ''pending'') (ob_lock 30) (cl_start one_row 0))"
  have "single_step sample_config 0 ''e1'' (cl_start one_row 0) = Some ?s"
    by (simp add: single_step_def cl_start_def waits_for_row_def sample_event_def changed_rows_def ob_lock_def seconds_def)
  then have "cl_step (\<lambda>_. sample_config) (cl_start one_row 0) ?s" by (rule cl_single)
  moreover have "in_time ?s" by (simp add: in_time_def cl_start_def)
  ultimately have "timely (\<lambda>_. sample_config) (cl_start one_row 0) ?s" by (rule timely_step [OF timely_start])
  moreover have ph: "cl_phase ?s 0 = Publishing [''e1''] 30" by simp
  moreover have "cl_now ?s \<le> 30"
    using claims_exclusive [OF calculation(1) _ ph, of "''e1''"] by auto
  ultimately show ?thesis by (intro exI [of _ ?s] exI [of _ 30]) blast
qed

theorem late_claimer_breaks_claim_witness:
  "\<exists>s u1 u2. cl_steps (\<lambda>_. sample_config) (cl_start one_row 0) s \<and> cl_phase s 1 = Publishing [''e1''] u1 \<and> cl_now s \<le> u1 \<and>
     cl_phase s 2 = Publishing [''e1''] u2 \<and> cl_now s \<le> u2"
  using late_claimer_breaks_claim [of one_row "sample_event ''pending'' None" "\<lambda>_. sample_config" 0]
  by (simp add: sample_event_def seconds_def)

theorem ClaimOutboxEvents_is_a_schedule_witness:
  "\<exists>s. cl_steps (\<lambda>_. sample_config) (cl_start one_row 1000) s \<and> cl_phase s 0 = Publishing [''e1''] 1030"
proof -
  let ?w = "sample_outbox_world [sample_event ''pending'' None]"
  have sel: "ob_select_pending (BatchSize sample_config) (tab auth_outbox (db ?w)) = Inr [ob_selected (sample_event ''pending'' None)]"
    by (simp add: ob_select_pending_def sample_event_def)
  have "fault_free ?w" by (simp add: fault_free_def)
  from auth_live.ClaimOutboxEvents_ok [OF this sel]
  obtain w1 where "svc_ClaimOutboxEvents auth_outbox (BatchSize sample_config) (LockTimeout sample_config) ?w
      = (Inr [ob_selected (sample_event ''pending'' None)], w1)"
    by blast
  then obtain es w' where c: "ClaimOutboxEvents auth_outbox (BatchSize sample_config) (LockTimeout sample_config) ?w = (Inr es, w')" "map oe_EventID es = [''e1'']"
    by (auto simp: svc_ClaimOutboxEvents_def ob_selected_def sample_event_def elim!: call_fail_Inr)
  then have "es \<noteq> []" by auto
  from ClaimOutboxEvents_is_a_schedule [OF c(1) this] c(2) show ?thesis
    by (auto simp: sample_outbox_world_def seconds_def)
qed

end
