(* ===== verification/Spec2Isabelle.thy ===== *)
theory Spec2Isabelle
  imports WalletSubscriber AuthRegister Retry AuthHttp WalletHttp Tickets Hub Interceptors Batch
    LoginAlert Sender WorkerLoop Gin Commands TransferLocks System Logging
    RefreshRaces ClaimRaces
begin

text \<open>
  Verification library for the mini-wallet services.

  \<^bold>\<open>The program.\<close> Go services. Auth (\<^verbatim>\<open>internal/auth\<close>) registers users, logs them in,
  rotates refresh tokens and keeps one session per user and device. Wallet
  (\<^verbatim>\<open>internal/wallet\<close>) keeps balances and a ledger, creates an empty wallet when auth announces
  a user, and moves money. Notification (\<^verbatim>\<open>internal/notification\<close>) turns a login into alerts
  for the user's other sessions, serves event streams that are opened with one-time tickets,
  and pushes alerts to a provider. A small fourth service (\<^verbatim>\<open>internal/docs\<close>) hosts the API documents. Events travel through RabbitMQ: a service stores an event in
  an outbox table inside the transaction that causes it; a goroutine started after the commit
  and a worker that polls the table publish it; consumers note message ids in a
  processed-messages table. Notification also asks auth for sessions over gRPC. The packages
  under \<^verbatim>\<open>pkg\<close> are shared.

  \<^bold>\<open>How code is modelled.\<close> A Go function that can fail is a program of type
  \<open>(error, state, result) prog\<close>: it takes the state and returns an error or a result and
  the new state. \<open>call m h k\<close> is \<^verbatim>\<open>x, err := m(); if err != nil { h }; k\<close>. The state is a \<open>world\<close>:
  the service's tables, the clock in seconds, the UUID and random sources, the number of open
  transactions, the messages handed to the broker, and \<open>fault\<close>, which decides for each call that
  leaves the process whether it fails; so a statement about every world is a statement about
  every pattern of failures, and \<open>fault_free\<close> marks the ones that need none. An SQL statement is
  one application of \<open>sql\<close> to the function on tables its text denotes, with the unique and
  foreign keys, ENUM values and BIGINT ranges of the migrations. Integers are \<open>int\<close> with the range
  of 64 bits checked where the code can leave it (\<open>int64_range\<close>, \<open>uint64\<close>). A goroutine started
  by a request is part of its result. Ticker loops, consumer loops and interleavings are
  sequences of steps or inductive relations. A batch may block or panic (\<open>run\<close>), a method of the
  hub may panic (\<open>None\<close>). \<^verbatim>\<open>Fatal\<close>, which exits the process, is an error result.

  \<^bold>\<open>Parameters.\<close> Code outside the repository is an argument, with a named hypothesis for what
  the code relies on: protobuf (\<open>proto_lib\<close>, \<open>proto_ok\<close>), JWT (\<open>jwt_lib\<close>, \<open>jwt_ok\<close>,
  \<open>jwt_unforgeable\<close>), bcrypt, SHA-256, base64 and the email pattern (fields of \<open>auth_env\<close>), the
  AMQP broker's routing (\<open>amqp_broker\<close>, \<open>routing_ok\<close>) and death headers, Redis (\<open>redis_lib\<close>,
  \<open>redis_ok\<close>), JSON binding and IP parsing (\<open>auth_http\<close>), the push provider's endpoint, and the
  mapping of errors to gRPC codes, files and certificates (\<open>tls_lib\<close>), the configuration library
  (\<open>os_env\<close>, \<open>koanf_ok\<close>), the Firebase library (\<open>firebase_lib\<close>), JSON documents, and what the AMQP
  client tells a receiver that registers late (\<open>late_notice\<close>). Every theorem with such a hypothesis has a witness in which a
  concrete function meets it (\<open>Wire\<close> for protobuf, \<open>mem_redis\<close>, \<open>sample_jwt\<close>, \<open>sample_broker\<close>).

  \<^bold>\<open>The theories,\<close> with the sources they model.

  \<^item> \<open>Prelude\<close>: programs, \<open>call\<close>, preservation rules (\<open>keeps\<close>, collection \<open>keep_rules\<close>), tables as
    lists of rows, decimal printing and parsing. \<open>World\<close>: the world, statements, the two
    transaction patterns and their laws.
  \<^item> \<open>RichError\<close> (\<^verbatim>\<open>pkg/richerror\<close>): error values; \<^verbatim>\<open>Kind()\<close> is the first known kind of the chain,
    answers stay within 400 to 599, wrapping keeps the trace.
  \<^item> \<open>Events\<close> (\<^verbatim>\<open>pkg/event\<close>, \<^verbatim>\<open>pkg/broker\<close>), \<open>Wire\<close>: envelopes and a codec for instances.
  \<^item> \<open>Publisher\<close>, \<open>Topology\<close>, \<open>Subscriber\<close>, \<open>Retry\<close> (\<^verbatim>\<open>pkg/rabbitmq\<close>): publishing with a reopened
    channel, declared exchanges and queues, delivery handling with retries and dead-letter queue,
    starting and closing consumers. On a direct topology a failing message is tried exactly
    \<^verbatim>\<open>MaxRetry + 1\<close> times and parked; on a topic topology it is lost.
  \<^item> \<open>Connection\<close> (\<^verbatim>\<open>connection.go\<close>): the connection, its watcher and \<^verbatim>\<open>Close\<close> in small steps; one
    connection at a time, replaced when it is lost. \<open>Consumers\<close> (\<^verbatim>\<open>worker.go\<close>): the worker goroutines
    over a shared channel; they settle every delivery once, as one worker would, and stop when
    told to; after a reconnection nothing consumes any more.
  \<^item> \<open>Wallet\<close>, \<open>WalletProps\<close>, \<open>WalletHttp\<close>: the wallet's repository, service and routes. A transfer
    refines a move between two accounts, conserves money, keeps every balance equal to its
    ledger and never overdraws for a non-negative amount. \<open>TransferLocks\<close>: concurrent transfers,
    statement by statement under the row locks of the database; they are as good as transfers in
    the order of their commits, and the sequential model is one of the schedules.
  \<^item> \<open>Inbox\<close>, \<open>WalletSubscriber\<close>: the processed-messages table (locales \<open>event_repository\<close> and
    \<open>inbox_table\<close>, interpreted for both consumers), and the wallet's consumer.
  \<^item> \<open>Outbox\<close>, \<open>OutboxProps\<close>, \<open>AuthOutbox\<close>: the outbox over any table (locales \<open>outbox_store\<close>,
    \<open>outbox_processor\<close>, \<open>live_processor\<close>, \<open>outbox_service\<close>, \<open>live_outbox\<close>): no interleaving loses an
    event or marks one that was not published; recovery and one batch deliver everything.
    \<open>Batch\<close>: the semaphore and the goroutines of a batch in small steps; a batch ends, and its
    outcome is that of a sequential order, which is how \<open>Outbox\<close> runs it. \<open>WorkerLoop\<close>: the two
    ticker loops of both services' workers; auth's deliver everything in batches of any size, and
    no schedule loses an event. \<open>ClaimRaces\<close>: claims of several workers at the same time,
    statement by statement under the row locks; they are exclusive as long as no worker is late.
  \<^item> \<open>AuthStore\<close>, \<open>AuthRepo\<close>, \<open>AuthInv\<close>, \<open>AccessToken\<close>, \<open>AuthService\<close>: auth's tables, statements,
    repository, tokens and service. \<open>AuthProps\<close>, \<open>AuthSessions\<close>, \<open>AuthRegister\<close>: every request keeps
    the tables consistent, registration is atomic, refresh tokens are single use, logout
    archives, login does not tell whether an email exists. \<open>RefreshRaces\<close>: concurrent refreshes,
    statement by statement under the row locks; at most one of those that present a token commits, and a
    refresh waits only for one that can go on.
  \<^item> \<open>Http\<close> (\<^verbatim>\<open>pkg/middleware\<close>), \<open>AuthHttp\<close>: middlewares over the framework's context, auth's handlers
    and routes; protected routes need a valid token and touch only its account. \<open>Gin\<close>: the outer
    middlewares with their reports, the servers' timeouts, and the documentation service.
  \<^item> \<open>Notification\<close>, \<open>SessionAlerts\<close>: the notification service's tables, outbox and subscriber, the push
    sender, the gRPC method of auth and its client; a login alerts exactly the other sessions.
    \<open>LoginAlert\<close>: the way from a login through both services to the push. \<open>Sender\<close> (\<^verbatim>\<open>pkg/sender\<close>,
    \<^verbatim>\<open>pkg/firebase\<close>): the factory and the second provider, which no service uses.
  \<^item> \<open>Redis\<close>, \<open>Tickets\<close>: stream tickets and the notification service's routes; tickets are single use.
  \<^item> \<open>Hub\<close> (\<^verbatim>\<open>pkg/hub\<close>): connections, listener, heartbeat and streams as a step relation over shared
    channels; streams show their user's messages in order.
  \<^item> \<open>Interceptors\<close> (\<^verbatim>\<open>pkg/grpc/interceptors\<close>): wrapped calls return what the call returns.
  \<^item> \<open>GrpcTls\<close> (\<^verbatim>\<open>pkg/grpc\<close>): options and TLS credentials of servers and clients. \<open>Setup\<close>: \<^verbatim>\<open>Setup\<close> of
    the applications (\<^verbatim>\<open>app.go\<close>) with the constructors it calls. \<open>Lifecycle\<close>: \<^verbatim>\<open>Start\<close>, its goroutines
    and the order of shutdown; auth, wallet and docs stop after a signal, notification does not.
  \<^item> \<open>EnvConfig\<close>, \<open>Commands\<close> (\<^verbatim>\<open>cmd\<close>, \<^verbatim>\<open>pkg/otel\<close>, \<^verbatim>\<open>pkg/database\<close>, \<^verbatim>\<open>pkg/redis\<close>): reading the configuration
    from file and environment, and what the commands open and close. \<open>Logging\<close> (\<^verbatim>\<open>pkg/logger\<close>): log
    lines, and the servers that write them.
  \<^item> \<open>System\<close>: auth, broker and wallet as one step relation, with requests, goroutines, the worker
    and repeated deliveries in any order; wallets belong to registered users, one each, and the
    balances sum up to zero.
  \<^item> This theory: the way from a registration through outbox, broker and consumer to an empty
    wallet.

  Theorems about behaviour that is a defect say so in their text: a leaked transaction, the
  lock it keeps, the deadlock of opposite transfers, the negative transfer, the route without authentication, swallowed failures, the duplicate check
  that never fires, the lost retry, the session list of logout-all, the reconnecting user, the
  panicking listener, pushes addressed to nobody, the watcher that \<^verbatim>\<open>Close\<close> does not stop, the
  consumers that do not come back, the service that does not stop, ignored errors of \<^verbatim>\<open>Setup\<close>,
  streams cut off by a timeout, the late worker.

  \<^bold>\<open>Bounds.\<close> There is no fuel: loops over lists are structural, error chains and text replacement
  recurse with a size measure, the delivery of a message ends because the death count grows,
  workers and shutdown end because what is left to do shrinks. The rest runs as long as its step
  relation is taken.

  \<^bold>\<open>Not modelled.\<close> Column widths, collations, fractions of seconds, gaps in autoincrement values and
  row locks of the database except those of transfers, of refreshes and of
  outbox claims (elsewhere a statement is atomic, and
  transactions of one service do not overlap inside \<open>in_tx\<close>); calls that fail after taking effect; contexts and their deadlines,
  except for the cancellation of workers and loops; the services' log calls other than those of
  their servers; the fields of the telemetry exporters; the registration of commands and
  flags; generated code; the prototype in \<^verbatim>\<open>main.go\<close>, which is commented out.

  \<^bold>\<open>Plan.\<close> Deadlines of handler contexts; the notification service in \<open>System\<close>.
\<close>

section \<open>From a registration to a wallet\<close>

lemma user_topology_routes:
  assumes "routing_ok B" "DeclareTopic (user_topology ttl) w0 = (Inr (), wD)" "db w0 = []"
  shows "route B (db wD) ''user.exchange'' ''user.created'' = {''wallet-service.queue''}"
proof -
  have D: "db wD = topic_decls ''user'' ttl ''wallet-service'' ''user.created''"
    using DeclareTopic_Inr [OF assms(2)] assms(3) by (simp add: user_topology_def)
  have "no_wildcards ''user.created''" "no_wildcards ''wallet-service''" "''user.created'' \<noteq> ''wallet-service'' @ ''.retry.queue''"
    by (simp_all add: no_wildcards_def)
  from topic_routes(1) [OF assms(1) this, of "''user''" ttl] show ?thesis by (simp add: D buildNames_def)
qed

text \<open>
  C13. A registration ends in a wallet. When a registration has succeeded and no call fails
  afterwards, the goroutine it started publishes one message; the declared topology routes
  it to the wallet service's queue and nowhere else; the wallet's worker hands it to the
  handler, which creates exactly one wallet, with balance zero, for the new user's id, and
  the message is acknowledged.
\<close>

theorem registration_creates_wallet:
  assumes "Register E dc req wa = (Inr (resp, goroutine), wa')" "env_ProcessEvent E = auth_app_ProcessEvent"
    and "proto_ok (env_proto E)" "fault_free wb" "db wb = db wa'"
    and "routing_ok B" "DeclareTopic (user_topology ttl) w0 = (Inr (), wD)" "db w0 = []"
    and "fault_free ww" "\<forall>i. wallet_status (db ww) i \<noteq> Some ''sent''"
      "wallets_of_user (db ww) (uint64 (users_next (db wa))) = []"
      "\<forall>r \<in> set (wallets (db ww)). wal_UUID r \<noteq> uuid_src ww (uuids ww)"
  shows "\<exists>wb' p ww'. goroutine wb = (Inr (), wb') \<and> sent wb' = sent wb @ [p] \<and>
    route B (db wD) (pub_exchange p) (pub_key p) = {''wallet-service.queue''} \<and>
    processMessage cfg (buildNames ''user'' ''wallet-service'') (as_handler (wallet_Handle (env_proto E)))
      (delivery_of p) ww = (Ack, ww') \<and>
    map wal_Balance (wallets_of_user (db ww') (uint64 (users_next (db wa)))) = [0]"
proof -
  obtain ev where reg: "registered E (rq_Email req) (rr_RefreshToken (res_Data resp)) (rr_SessionID (res_Data resp))
      (clock wa) (db wa) (db wa') ev"
    and g: "goroutine = ProcessSingleEvent auth_outbox auth_app_ProcessEvent (OutboxLockTimeout E) ev"
    using Register_Inr [OF assms(1)] assms(2) by auto
  have rows: "events auth_outbox wb = ob_rows (auth_outbox_events (db wa'))" using assms(5) by (simp add: auth_outbox_def)
  obtain r env where r: "r \<in> set (events auth_outbox wb)" "oe_Status r = ''pending''" "ob_key r = ob_key ev"
      "oe_EventType r = event_Type_string TypeAuthRegisterNewUser"
    and enc: "event_New (env_proto E) (PbRegisterNewUser \<lparr>rnu_Id = users_next (db wa), rnu_Email = rq_Email req\<rparr>)
      TypeAuthRegisterNewUser = Inr env" "proto_Marshal (env_proto E) env = Inr (oe_Payload r)"
    using registered_event [OF reg] unfolding rows by metis
  have key: "oe_EventType ev = event_Type_string TypeAuthRegisterNewUser" "oe_Payload ev = oe_Payload r"
    using r(3,4) by (simp_all add: ob_key_def)
  obtain wb' p where pub: "goroutine wb = (Inr (), wb')" "sent wb' = sent wb @ [p]" "pub_body p = oe_Payload r"
    "pub_exchange p = ''user.exchange''" "pub_key p = ''user.created''"
    using ProcessSingleEvent_publishes(1) [OF assms(4) r(1,3,2) key(1)] g key(2) by metis
  let ?m = "broker_Message (delivery_of p)"
  have m: "msg_Body ?m = oe_Payload r" using pub(3) by (simp add: broker_Message_def delivery_of_def)
  obtain ww' where h: "wallet_Handle (env_proto E) ?m ww = (Inr (), ww')"
    "map wal_Balance (wallets_of_user (db ww') (uint64 (users_next (db wa)))) = [0]"
    using wallet_Handle_creates [OF assms(9) _ assms(3) enc(1), of ?m] enc(2) m assms(10-12) by auto
  then have "processMessage cfg (buildNames ''user'' ''wallet-service'') (as_handler (wallet_Handle (env_proto E)))
      (delivery_of p) ww = (Ack, ww')"
    by (simp add: processMessage_def as_handler_def)
  then show ?thesis
    using pub h(2) user_topology_routes [OF assms(6-8)] by auto
qed

abbreviation wired_env :: auth_env where
  "wired_env \<equiv> (sample_env register_codec)\<lparr>env_ProcessEvent := auth_app_ProcessEvent\<rparr>"

theorem registration_creates_wallet_witness:
  "\<exists>resp goroutine wa' wb' p ww'.
     Register wired_env (sample_dc ''ios'') sample_register_req sample_world = (Inr (resp, goroutine), wa') \<and>
     goroutine (quiet_world (db wa')) = (Inr (), wb') \<and> sent wb' = [p] \<and>
     processMessage retry_twice (buildNames ''user'' ''wallet-service'') (as_handler (wallet_Handle register_codec))
       (delivery_of p) (quiet_world (sample_db\<lparr>wallets := []\<rparr>)) = (Ack, ww') \<and>
     map wal_Balance (wallets_of_user (db ww') (uint64 2)) = [0]"
proof -
  let ?ww = "quiet_world (sample_db\<lparr>wallets := []\<rparr>)" and ?topo = "user_topology 1000000"
  have "register_ready wired_env (sample_dc ''ios'') sample_register_req (base64_EncodeToString (nat_to_string 5)) sample_world"
    using sample_register_ready by (simp add: register_ready_def register_validation_def hashRefreshToken_def)
  then obtain resp g wa' where r: "Register wired_env (sample_dc ''ios'') sample_register_req sample_world = (Inr (resp, g), wa')"
    using Register_runs [OF sample_refresh_hyps(1,2)] by blast
  obtain wD where D: "DeclareTopic ?topo empty_broker = (Inr (), wD)"
    by (simp add: user_topology_def DeclareTopic_def topic_queue_def declare_defs bind_queue_def call_def Let_def
        declare_ok quiet_world_def)
  have hyps: "env_ProcessEvent wired_env = auth_app_ProcessEvent" "proto_ok (env_proto wired_env)"
    "fault_free (quiet_world (db wa'))" "db (quiet_world (db wa')) = db wa'" "db empty_broker = []" "fault_free ?ww"
    by (simp_all add: sample_env_def sample_proto_ok quiet_world_def fault_free_def)
  have w: "\<forall>i. wallet_status (db ?ww) i \<noteq> Some ''sent''" "wallets_of_user (db ?ww) (uint64 (users_next (db sample_world))) = []"
    "\<forall>r \<in> set (wallets (db ?ww)). wal_UUID r \<noteq> uuid_src ?ww (uuids ?ww)"
    by (simp_all add: wallets_of_user_def sample_simps sample_auth_simps int_to_string_def nat_to_string_inj
        wallet_status_def pm_status_of_def)
  have e: "env_proto wired_env = register_codec" "users_next (db sample_world) = 2" "sent (quiet_world (db wa')) = []"
    by (simp_all add: sample_env_def sample_auth_simps quiet_world_def)
  obtain wb' p ww' where "g (quiet_world (db wa')) = (Inr (), wb')" "sent wb' = sent (quiet_world (db wa')) @ [p]"
    and "processMessage retry_twice (buildNames ''user'' ''wallet-service'') (as_handler (wallet_Handle (env_proto wired_env)))
       (delivery_of p) ?ww = (Ack, ww')"
    and "map wal_Balance (wallets_of_user (db ww') (uint64 (users_next (db sample_world)))) = [0]"
    using registration_creates_wallet [OF r hyps(1-4) sample_broker_routes D hyps(5,6) w, of retry_twice] by (elim exE conjE)
  then show ?thesis
    using r unfolding e append_Nil by (intro exI [of _ resp] exI [of _ g] exI [of _ wa'] exI [of _ wb'] exI [of _ p] exI [of _ ww'] conjI)
qed

end
